(* ===== verification/Palai_Base.thy ===== *)
theory Palai_Base
  imports Complex_Main "HOL-Library.Word" "HOL-Library.Sublist" "HOL-Library.AList"
begin

text \<open>
  Shared vocabulary of the development.

  \<^item> Go's \<^verbatim>\<open>error\<close> values: a package-level \<^verbatim>\<open>errors.New\<close> is a \<open>Sentinel\<close>
    (identified by its package and its text), and \<^verbatim>\<open>fmt.Errorf\<close> with \<open>%w\<close> verbs is an
    \<open>Errorf\<close> that remembers what it wraps.  \<open>errors_Is\<close> is \<^verbatim>\<open>errors.Is\<close>.  The text of a
    message keeps its fixed part; interpolated arguments are not rendered.
  \<^item> \<open>'a result\<close> is a Go call that returns a value or an error, \<open>bind_result\<close> the
    \<^verbatim>\<open>if err != nil { return err }\<close> that follows such a call.
  \<^item> \<open>map_bool\<close> reads a Go \<^verbatim>\<open>map[K]bool\<close>, whose missing keys read as \<^verbatim>\<open>false\<close>.
  \<^item> Go strings are byte strings (UTF-8).  \<open>TrimSpace\<close> and \<open>Fields\<close> are the functions of package
    \<^verbatim>\<open>strings\<close>, \<open>FormatInt\<close> is \<^verbatim>\<open>strconv.FormatInt\<close> in base ten.
  \<^item> A database table is the list of its rows in scan order; \<open>sql_update\<close>, \<open>sql_affected\<close> and
    \<open>sql_row\<close> are an UPDATE, its row count, and the first row of a SELECT.
  \<^item> Collections of facts: \<open>table_defs\<close> (transition tables), \<open>sql_defs\<close> (one definition per
    SQL statement), \<open>step_lemmas\<close> (preservation of an invariant by one operation).
\<close>

named_theorems table_defs "transition tables"
named_theorems sql_defs "definitions of SQL statements"
named_theorems step_lemmas "one operation keeps an invariant"

section \<open>Machine integers\<close>

type_synonym uint64 = "64 word"
type_synonym int64 = "64 word"

section \<open>Errors\<close>

datatype error = Sentinel string string | Errorf "error list" string

fun errors_Is :: "error \<Rightarrow> error \<Rightarrow> bool" where
  "errors_Is (Sentinel p t) target = (target = Sentinel p t)"
| "errors_Is (Errorf ws m) target =
     (target = Errorf ws m \<or> list_ex (\<lambda>w. errors_Is w target) ws)"

type_synonym 'a result = "error + 'a"

definition bind_result :: "'a result \<Rightarrow> ('a \<Rightarrow> 'b result) \<Rightarrow> 'b result" where
  "bind_result r f = (case r of Inl e \<Rightarrow> Inl e | Inr a \<Rightarrow> f a)"

lemma bind_result_simps [simp]:
  "bind_result (Inl e) f = Inl e"
  "bind_result (Inr a) f = f a"
  by (simp_all add: bind_result_def)

lemma bind_result_eq_Inr:
  "bind_result r f = Inr b \<longleftrightarrow> (\<exists>a. r = Inr a \<and> f a = Inr b)"
  by (cases r) simp_all

lemma bind_result_eq_Inl:
  "bind_result r f = Inl e \<longleftrightarrow> r = Inl e \<or> (\<exists>a. r = Inr a \<and> f a = Inl e)"
  by (cases r) simp_all

lemma bind_result_cong [fundef_cong]:
  "r = r' \<Longrightarrow> (\<And>a. r' = Inr a \<Longrightarrow> f a = g a) \<Longrightarrow> bind_result r f = bind_result r' g"
  by (cases r') simp_all

lemmas bind_result_iffs = bind_result_eq_Inr bind_result_eq_Inl

section \<open>Go maps\<close>

definition map_bool :: "('k \<rightharpoonup> bool) \<Rightarrow> 'k \<Rightarrow> bool" where
  "map_bool m k = (case m k of None \<Rightarrow> False | Some b \<Rightarrow> b)"

lemma map_bool_Some_True: "map_bool m k \<longleftrightarrow> m k = Some True"
  by (auto simp: map_bool_def split: option.splits)

section \<open>Lists\<close>

lemma foldl_preserves:
  assumes "P s" and "\<And>s x. x \<in> set xs \<Longrightarrow> P s \<Longrightarrow> P (f s x)"
  shows "P (foldl f s xs)"
  using assms by (induction xs arbitrary: s) simp_all

lemma find_eq_Some_unique:
  assumes "distinct (map k xs)" and "x \<in> set xs"
  shows "List.find (\<lambda>y. k y = k x) xs = Some x"
  using assms by (induction xs) (auto simp: image_iff)

section \<open>Transition systems\<close>

text \<open>
  An invariant kept by every step of a system holds in every state reached from a state in which
  it holds, and a preorder that every step from a good state respects relates the ends of a run.
\<close>

locale invariant_system =
  fixes step :: "'s \<Rightarrow> 's \<Rightarrow> bool" and inv :: "'s \<Rightarrow> bool"
  assumes step_inv: "step s s' \<Longrightarrow> inv s \<Longrightarrow> inv s'"
begin

lemma reach_inv:
  assumes "step\<^sup>*\<^sup>* s s'" and "inv s" shows "inv s'"
  using assms by (induction rule: rtranclp_induct) (auto intro: step_inv)

end

locale monotone_system = invariant_system step inv
  for step :: "'s \<Rightarrow> 's \<Rightarrow> bool" and inv :: "'s \<Rightarrow> bool" +
  fixes le :: "'s \<Rightarrow> 's \<Rightarrow> bool"
  assumes le_refl: "le s s"
    and le_trans: "le s t \<Longrightarrow> le t u \<Longrightarrow> le s u"
    and step_le: "step s s' \<Longrightarrow> inv s \<Longrightarrow> le s s'"
begin

lemma reach_le:
  assumes "step\<^sup>*\<^sup>* s s'" and "inv s" shows "le s s'"
  using assms
proof (induction rule: rtranclp_induct)
  case (step t u)
  moreover have "inv t" using step.hyps(1) \<open>inv s\<close> by (rule reach_inv)
  ultimately show ?case using step_le le_trans by blast
qed (rule le_refl)

end

section \<open>JSON documents\<close>

text \<open>
  A decoded JSON document (\<^verbatim>\<open>any\<close> after \<^verbatim>\<open>json.Unmarshal\<close>, or a \<^verbatim>\<open>jsonb\<close> column).  A
  \<^verbatim>\<open>float64\<close> that a JSON text denotes is a rational number.  An object keeps its members as an
  association list; a decoded object has distinct keys (\<open>json_wf\<close>).
\<close>

datatype json =
    JNull
  | JBool bool
  | JNum rat
  | JStr string
  | JArr "json list"
  | JObj "(string \<times> json) list"

fun json_wf :: "json \<Rightarrow> bool" where
  "json_wf (JArr xs) = list_all json_wf xs"
| "json_wf (JObj kvs) = (distinct (map fst kvs) \<and> list_all (\<lambda>kv. json_wf (snd kv)) kvs)"
| "json_wf _ = True"

text \<open>The operator \<^verbatim>\<open>->>\<close> on a member that holds a string.\<close>

definition json_text :: "json \<Rightarrow> string \<Rightarrow> string option" where
  "json_text d k = (case d of
     JObj kvs \<Rightarrow> (case map_of kvs k of Some (JStr s) \<Rightarrow> Some s | _ \<Rightarrow> None)
   | _ \<Rightarrow> None)"

text \<open>
  \<^verbatim>\<open>json.Unmarshal\<close> into a struct: the members are visited in order, a name matches a field up to the
  case of ASCII letters, and a value of another type leaves the field as it is (the error is recorded
  and decoding goes on).  \<open>decode_text\<close> and \<open>decode_texts\<close> fill a \<^verbatim>\<open>string\<close> and a \<^verbatim>\<open>[]string\<close> field.
\<close>

definition ascii_lower :: "char \<Rightarrow> char" where
  "ascii_lower c = (let n = (of_char c :: nat) in if 65 \<le> n \<and> n \<le> 90 then char_of (n + 32) else c)"

definition members :: "json \<Rightarrow> (string \<times> json) list" where
  "members d = (case d of JObj kvs \<Rightarrow> kvs | _ \<Rightarrow> [])"

definition decode_field :: "(json \<Rightarrow> 'a \<Rightarrow> 'a) \<Rightarrow> string \<Rightarrow> 'a \<Rightarrow> json \<Rightarrow> 'a" where
  "decode_field put name zero d =
     foldl (\<lambda>acc (k, v). if map ascii_lower k = map ascii_lower name then put v acc else acc) zero (members d)"

definition put_text :: "json \<Rightarrow> string \<Rightarrow> string" where
  "put_text v acc = (case v of JStr s \<Rightarrow> s | _ \<Rightarrow> acc)"

definition put_texts :: "json \<Rightarrow> string list \<Rightarrow> string list" where
  "put_texts v acc = (case v of JArr vs \<Rightarrow> map (\<lambda>x. put_text x '''') vs | JNull \<Rightarrow> [] | _ \<Rightarrow> acc)"

definition decode_text :: "string \<Rightarrow> json \<Rightarrow> string" where
  "decode_text name d = decode_field put_text name '''' d"

definition decode_texts :: "string \<Rightarrow> json \<Rightarrow> string list" where
  "decode_texts name d = decode_field put_texts name [] d"

section \<open>SQL statements over lists of rows\<close>

definition sql_update :: "('r \<Rightarrow> bool) \<Rightarrow> ('r \<Rightarrow> 'r) \<Rightarrow> 'r list \<Rightarrow> 'r list" where
  "sql_update p f rows = map (\<lambda>r. if p r then f r else r) rows"

definition sql_affected :: "('r \<Rightarrow> bool) \<Rightarrow> 'r list \<Rightarrow> nat" where
  "sql_affected p rows = length (filter p rows)"

definition sql_row :: "('r \<Rightarrow> bool) \<Rightarrow> 'r list \<Rightarrow> 'r option" where
  "sql_row p rows = List.find p rows"

lemma sql_row_Some: "sql_row p rows = Some r \<Longrightarrow> r \<in> set rows \<and> p r"
  by (auto simp: sql_row_def find_Some_iff)

lemma sql_row_None: "sql_row p rows = None \<longleftrightarrow> (\<forall>r \<in> set rows. \<not> p r)"
  by (auto simp: sql_row_def find_None_iff)

lemma sql_update_none:
  "\<forall>r \<in> set rows. \<not> p r \<Longrightarrow> sql_update p f rows = rows"
  by (simp add: sql_update_def map_idI)

lemma sql_affected_0: "sql_affected p rows = 0 \<longleftrightarrow> (\<forall>r \<in> set rows. \<not> p r)"
  by (auto simp: sql_affected_def filter_empty_conv)

lemma sql_affected_key_le_1:
  assumes "distinct (map k rows)" and "\<And>r. p r \<Longrightarrow> k r = a"
  shows "sql_affected p rows \<le> 1"
proof (rule ccontr)
  assume "\<not> sql_affected p rows \<le> 1"
  then obtain r r' rest where f: "filter p rows = r # r' # rest"
    unfolding sql_affected_def by (metis One_nat_def Suc_le_eq le_0_eq length_Suc_conv
        linorder_not_le list.size(3) neq_Nil_conv not_less_eq_eq zero_less_one)
  then have "{r, r'} \<subseteq> set (filter p rows)" by simp
  then have "p r" "p r'" by auto
  moreover have "distinct (map k (filter p rows))" using assms(1) by (rule distinct_map_filter)
  ultimately show False using f assms(2) by fastforce
qed

lemma sql_affected_1_ex:
  assumes "sql_affected p rows = 1" shows "\<exists>r \<in> set rows. p r"
  using assms by (metis One_nat_def n_not_Suc_n sql_affected_0)

lemma sql_affected_key:
  assumes "distinct (map k rows)" and "\<And>r. p r \<Longrightarrow> k r = a"
  shows "sql_affected p rows = (if \<exists>r \<in> set rows. p r then 1 else 0)"
  using sql_affected_key_le_1 [of k rows p a, OF assms] sql_affected_0 [of p rows]
  by (metis One_nat_def le_SucE le_zero_eq)

lemma map_sql_update_key: "(\<And>r. k (f r) = k r) \<Longrightarrow> map k (sql_update p f rows) = map k rows"
  by (simp add: sql_update_def)

lemma set_sql_update:
  "r \<in> set (sql_update p f rows) \<longleftrightarrow>
     (\<exists>x \<in> set rows. r = (if p x then f x else x))"
  by (auto simp: sql_update_def)

lemma sql_update_cases:
  assumes "r \<in> set (sql_update p f rows)"
  obtains x where "x \<in> set rows" "p x" "r = f x" | "r \<in> set rows" "\<not> p r"
  using assms by (auto simp: sql_update_def split: if_splits)

lemma sql_update_filtered:
  assumes "\<And>x. p x \<Longrightarrow> \<not> q (f x)"
  shows "{r \<in> set (sql_update p f rows). q r} = {r \<in> set rows. q r \<and> \<not> p r}"
proof (intro set_eqI iffI)
  fix r assume "r \<in> {r \<in> set (sql_update p f rows). q r}"
  then have r: "r \<in> set (sql_update p f rows)" "q r" by auto
  from r(1) show "r \<in> {r \<in> set rows. q r \<and> \<not> p r}"
    by (rule sql_update_cases) (use assms r(2) in auto)
qed (auto simp: set_sql_update)

lemma key_unique:
  "distinct (map k rows) \<Longrightarrow> x \<in> set rows \<Longrightarrow> y \<in> set rows \<Longrightarrow> k x = k y \<Longrightarrow> x = y"
  by (metis distinct_map inj_onD)

section \<open>Strings\<close>

definition bytes :: "nat list \<Rightarrow> string" where
  "bytes ns = map char_of ns"

text \<open>The UTF-8 encodings of the code points that \<^verbatim>\<open>unicode.IsSpace\<close> accepts.\<close>

definition space_encodings :: "string list" where
  "space_encodings = map bytes
     ([[9], [10], [11], [12], [13], [32], [194, 133], [194, 160], [225, 154, 128],
       [226, 128, 168], [226, 128, 169], [226, 128, 175], [226, 129, 159], [227, 128, 128]]
      @ map (\<lambda>n. [226, 128, n]) [128 ..< 139])"

definition leading_space :: "string \<Rightarrow> string option" where
  "leading_space s = List.find (\<lambda>w. prefix w s) space_encodings"

lemma space_encodings_nonempty: "w \<in> set space_encodings \<Longrightarrow> w \<noteq> []"
  by (auto simp: space_encodings_def bytes_def)

lemma leading_space_SomeD:
  assumes "leading_space s = Some w" shows "prefix w s \<and> w \<noteq> []"
  using assms space_encodings_nonempty by (auto simp: leading_space_def find_Some_iff)

lemma leading_space_shrinks:
  assumes "leading_space s = Some w" shows "length (drop (length w) s) < length s"
  using leading_space_SomeD [OF assms] by (auto elim: prefixE)

function TrimLeft :: "string \<Rightarrow> string" where
  "TrimLeft s = (case leading_space s of None \<Rightarrow> s | Some w \<Rightarrow> TrimLeft (drop (length w) s))"
  by pat_completeness auto
termination by (relation "measure length") (auto dest: leading_space_shrinks)

declare TrimLeft.simps [simp del]

definition trailing_space :: "string \<Rightarrow> string option" where
  "trailing_space s = List.find (\<lambda>w. suffix w s) space_encodings"

lemma trailing_space_shrinks:
  assumes "trailing_space s = Some w" shows "length (take (length s - length w) s) < length s"
  using assms space_encodings_nonempty
  by (auto simp: trailing_space_def find_Some_iff elim!: suffixE)

function TrimRight :: "string \<Rightarrow> string" where
  "TrimRight s = (case trailing_space s of None \<Rightarrow> s
     | Some w \<Rightarrow> TrimRight (take (length s - length w) s))"
  by pat_completeness auto
termination by (relation "measure length") (auto dest: trailing_space_shrinks)

declare TrimRight.simps [simp del]

definition TrimSpace :: "string \<Rightarrow> string" where
  "TrimSpace s = TrimRight (TrimLeft s)"

lemma TrimSpace_Nil [simp]: "TrimSpace [] = []"
proof -
  have "leading_space [] = None" using leading_space_shrinks [of "[]"] by fastforce
  moreover have "trailing_space [] = None" using trailing_space_shrinks [of "[]"] by fastforce
  ultimately show ?thesis by (simp add: TrimSpace_def TrimLeft.simps TrimRight.simps)
qed

lemma TrimSpace_nonempty: "TrimSpace s \<noteq> [] \<Longrightarrow> s \<noteq> []"
  by auto

text \<open>Bytes that start no white space, and ASCII characters that are none.\<close>

definition space_lead :: "char \<Rightarrow> bool" where
  "space_lead c \<longleftrightarrow> (of_char c :: nat) \<in> {9, 10, 11, 12, 13, 32, 194, 225, 226, 227}"

definition visible :: "char \<Rightarrow> bool" where
  "visible c \<longleftrightarrow> (of_char c :: nat) \<in> {33 ..< 128}"

lemma space_encodings_hd: "w \<in> set space_encodings \<Longrightarrow> space_lead (hd w)"
  by (auto simp: space_encodings_def bytes_def space_lead_def)

lemma space_encodings_last: "w \<in> set space_encodings \<Longrightarrow> \<not> visible (last w)"
  by (auto simp: space_encodings_def bytes_def visible_def)

lemma leading_space_plain [simp]: "\<not> space_lead c \<Longrightarrow> leading_space (c # s) = None"
  by (auto simp: leading_space_def find_None_iff prefix_Cons
      dest: space_encodings_nonempty space_encodings_hd)

lemma trailing_space_visible [simp]:
  assumes "s \<noteq> []" and "visible (last s)" shows "trailing_space s = None"
  using assms space_encodings_last space_encodings_nonempty
  by (auto simp: trailing_space_def find_None_iff suffix_def)

lemma visible_plain: "visible c \<Longrightarrow> \<not> space_lead c"
  by (auto simp: visible_def space_lead_def)

lemma TrimSpace_visible:
  assumes "s \<noteq> []" and "visible (hd s)" and "visible (last s)" shows "TrimSpace s = s"
proof -
  have "leading_space s = None" using assms visible_plain by (cases s) simp_all
  with assms show ?thesis by (simp add: TrimSpace_def TrimLeft.simps TrimRight.simps)
qed

function fields_from :: "string \<Rightarrow> string \<Rightarrow> string list" where
  "fields_from cur s =
     (case leading_space s of
        Some w \<Rightarrow> (if cur = [] then fields_from [] (drop (length w) s)
                    else cur # fields_from [] (drop (length w) s))
      | None \<Rightarrow> (case s of [] \<Rightarrow> (if cur = [] then [] else [cur])
                 | c # cs \<Rightarrow> fields_from (cur @ [c]) cs))"
  by pat_completeness auto
termination by (relation "measure (\<lambda>(cur, s). length s)") (auto dest: leading_space_shrinks)

declare fields_from.simps [simp del]

definition Fields :: "string \<Rightarrow> string list" where
  "Fields s = fields_from [] s"

lemma fields_from_plain:
  "list_all (\<lambda>c. \<not> space_lead c) s \<Longrightarrow>
   fields_from cur s = (if cur @ s = [] then [] else [cur @ s])"
proof (induction s arbitrary: cur)
  case Nil
  have "leading_space [] = None" using leading_space_shrinks [of "[]"] by fastforce
  then show ?case by (simp add: fields_from.simps)
qed (simp add: fields_from.simps)

fun Join :: "string list \<Rightarrow> string \<Rightarrow> string" where
  "Join [] sep = []"
| "Join [x] sep = x"
| "Join (x # xs) sep = x @ sep @ Join xs sep"

section \<open>Hexadecimal text\<close>

definition hex_digit :: "nat \<Rightarrow> char" where
  "hex_digit n = (if n < 10 then char_of (48 + n) else char_of (87 + n))"

definition EncodeToString :: "string \<Rightarrow> string" where
  "EncodeToString s = concat (map (\<lambda>c. let n = (of_char c :: nat) in [hex_digit (n div 16), hex_digit (n mod 16)]) s)"

section \<open>Text encoding\<close>

definition continuation :: "char \<Rightarrow> bool" where
  "continuation c \<longleftrightarrow> (of_char c :: nat) \<in> {128 ..< 192}"

text \<open>The length of the well-formed UTF-8 sequence at the head of a string, 0 when there is none.\<close>

fun utf8_rune_len :: "string \<Rightarrow> nat" where
  "utf8_rune_len [] = 0"
| "utf8_rune_len (c # s) =
     (let b = (of_char c :: nat);
          k = (if b < 128 then 1 else if 194 \<le> b \<and> b < 224 then 2
               else if 224 \<le> b \<and> b < 240 then 3 else if 240 \<le> b \<and> b < 245 then 4 else 0);
          b1 = (case s of [] \<Rightarrow> 0 | d # _ \<Rightarrow> (of_char d :: nat))
      in if k = 0 \<or> length s < k - 1 \<or> \<not> list_all continuation (take (k - 1) s) then 0
         else if b = 224 \<and> b1 < 160 \<or> b = 237 \<and> b1 \<ge> 160 \<or> b = 240 \<and> b1 < 144 \<or> b = 244 \<and> b1 \<ge> 144
         then 0 else k)"

function utf8_valid :: "string \<Rightarrow> bool" where
  "utf8_valid s = (if s = [] then True
     else let k = utf8_rune_len s in if k = 0 then False else utf8_valid (drop k s))"
  by pat_completeness auto
termination by (relation "measure length") auto

declare utf8_valid.simps [simp del]

lemma utf8_valid_Nil [simp]: "utf8_valid []"
  by (simp add: utf8_valid.simps)

lemma utf8_valid_step: "utf8_rune_len s = Suc k \<Longrightarrow> utf8_valid s = utf8_valid (drop (Suc k) s)"
  by (subst utf8_valid.simps) (auto simp: Let_def)

lemma utf8_valid_stuck: "utf8_rune_len s = 0 \<Longrightarrow> s \<noteq> [] \<Longrightarrow> \<not> utf8_valid s"
  by (subst utf8_valid.simps) (simp add: Let_def)

text \<open>A text value: valid UTF-8 without a zero byte.\<close>

definition pg_text :: "string \<Rightarrow> bool" where
  "pg_text s \<longleftrightarrow> utf8_valid s \<and> char_of (0 :: nat) \<notin> set s"

section \<open>Decimal numerals\<close>

definition digit :: "nat \<Rightarrow> char" where
  "digit n = char_of (48 + n)"

fun dec_nat :: "nat \<Rightarrow> string" where
  "dec_nat n = (if n < 10 then [digit n] else dec_nat (n div 10) @ [digit (n mod 10)])"

declare dec_nat.simps [simp del]

definition FormatInt :: "int \<Rightarrow> string" where
  "FormatInt i = (if i < 0 then CHR ''-'' # dec_nat (nat (- i)) else dec_nat (nat i))"

definition digit_value :: "char \<Rightarrow> nat" where
  "digit_value c = of_char c - 48"

definition parse_nat :: "string \<Rightarrow> nat" where
  "parse_nat s = foldl (\<lambda>v c. 10 * v + digit_value c) 0 s"

lemma digit_value_digit: "n < 10 \<Longrightarrow> digit_value (digit n) = n"
  by (simp add: digit_value_def digit_def)

lemma parse_dec_nat: "parse_nat (dec_nat n) = n"
proof (induction n rule: dec_nat.induct)
  case (1 n)
  show ?case
  proof (cases "n < 10")
    case True
    then show ?thesis by (subst dec_nat.simps) (simp add: parse_nat_def digit_value_digit)
  next
    case False
    with 1 show ?thesis
      by (subst dec_nat.simps) (simp add: parse_nat_def digit_value_digit)
  qed
qed

lemma dec_nat_inject [simp]: "dec_nat m = dec_nat n \<longleftrightarrow> m = n"
  by (metis parse_dec_nat)

definition is_digit :: "char \<Rightarrow> bool" where
  "is_digit c \<longleftrightarrow> (of_char c :: nat) \<in> {48 ..< 58}"

lemma dec_nat_digits: "c \<in> set (dec_nat n) \<Longrightarrow> is_digit c"
proof (induction n rule: dec_nat.induct)
  case (1 n)
  then show ?case
    by (subst (asm) (2) dec_nat.simps) (auto simp: is_digit_def digit_def split: if_splits)
qed

lemma dec_nat_nonempty: "dec_nat n \<noteq> []"
  by (subst dec_nat.simps) simp

lemma FormatInt_inject [simp]: "FormatInt i = FormatInt j \<longleftrightarrow> i = j"
proof -
  have minus: "CHR ''-'' \<notin> set (dec_nat n)" for n
    using dec_nat_digits [of "CHR ''-''" n] by (auto simp: is_digit_def)
  show ?thesis
    using minus [of "nat i"] minus [of "nat j"]
    by (auto simp: FormatInt_def) (metis list.set_intros(1))+
qed

lemma FormatInt_no_colon: "CHR '':'' \<notin> set (FormatInt i)"
  using dec_nat_digits [of "CHR '':''"] by (auto simp: FormatInt_def is_digit_def)

section \<open>Big-endian integers\<close>

text \<open>\<^verbatim>\<open>binary.BigEndian.PutUint64\<close>, and \<^verbatim>\<open>Uint64\<close> back.\<close>

fun be_bytes :: "nat \<Rightarrow> nat \<Rightarrow> string" where
  "be_bytes 0 n = []"
| "be_bytes (Suc k) n = be_bytes k (n div 256) @ [char_of n]"

definition PutUint64 :: "nat \<Rightarrow> string" where
  "PutUint64 n = be_bytes 8 n"

definition GetUint64 :: "string \<Rightarrow> nat" where
  "GetUint64 bs = foldl (\<lambda>n c. n * 256 + of_char c) 0 bs"

lemma length_be_bytes [simp]: "length (be_bytes k n) = k"
  by (induction k arbitrary: n) simp_all

lemma get_be_bytes: "GetUint64 (be_bytes k n) = n mod 256 ^ k"
proof (induction k arbitrary: n)
  case (Suc k)
  have "GetUint64 (be_bytes (Suc k) n) = (n div 256 mod 256 ^ k) * 256 + n mod 256"
    using Suc.IH [of "n div 256"] by (simp add: GetUint64_def of_char_of)
  also have "\<dots> = n mod (256 * 256 ^ k)" by (simp add: mod_mult2_eq)
  finally show ?case by (simp add: mult.commute)
qed (simp add: GetUint64_def)

section \<open>Signed 64-bit arithmetic\<close>

text \<open>The value of a Go \<^verbatim>\<open>int64\<close> expression whose exact value is \<open>i\<close>.\<close>

definition wrap64 :: "int \<Rightarrow> int" where
  "wrap64 i = (i + 2 ^ 63) mod 2 ^ 64 - 2 ^ 63"

lemma wrap64_small: "- (2 ^ 63) \<le> i \<Longrightarrow> i < 2 ^ 63 \<Longrightarrow> wrap64 i = i"
  by (simp add: wrap64_def)

lemma wrap64_over: "2 ^ 63 \<le> i \<Longrightarrow> i < 2 ^ 64 \<Longrightarrow> wrap64 i = i - 2 ^ 64"
proof -
  assume a: "2 ^ 63 \<le> i" "i < 2 ^ 64"
  have "(i + 2 ^ 63) mod 2 ^ 64 = (i - 2 ^ 63) mod 2 ^ 64"
    by (simp add: mod_eq_dvd_iff)
  with a show ?thesis by (simp add: wrap64_def)
qed

end
