(* ===== verification/State_Machines.thy ===== *)
theory State_Machines
  imports Palai_Base
begin

text \<open>
  The pure state machines of \<^verbatim>\<open>src/packages/state-machines\<close>: the generic row lookup
  \<open>Apply\<close>, \<open>TerminalStates\<close>, the two monotonicity guards, and the eight transition tables
  (runs, responses, sessions, attempts, commands, tool calls, trigger deliveries, workspaces).
  Every state and command type is a datatype with one constructor per Go constant; the text a
  constant carries on the wire is given by the \<open>\<dots>_text\<close> functions.

  \<open>drive\<close> applies a list of commands one after another.  The locale \<open>transition_table\<close> collects
  what holds of any table whose rows have different keys, \<open>draining_table\<close> extends it by an exit
  strategy that shows that a machine can always be driven to an end state.
\<close>

section \<open>Generic machinery\<close>

datatype ('s, 'c) Transition =
  Transition (From: 's) (Command: 'c) (To: 's) (Event: string)

definition ErrInvalidState :: error where
  "ErrInvalidState = Sentinel ''statemachines'' ''invalid_state''"

fun Apply :: "'s \<Rightarrow> 'c \<Rightarrow> ('s, 'c) Transition list \<Rightarrow> ('s \<times> string) result" where
  "Apply current command [] = Inl (Errorf [ErrInvalidState] ''no transition'')"
| "Apply current command (tr # table) =
     (if From tr = current \<and> Command tr = command then Inr (To tr, Event tr)
      else Apply current command table)"

definition TerminalStates :: "('s, 'c) Transition list \<Rightarrow> ('s \<rightharpoonup> bool)" where
  "TerminalStates table =
     (let out = foldl (\<lambda>out tr. if out (To tr) = None then out(To tr \<mapsto> True) else out)
                      Map.empty table
      in foldl (\<lambda>out tr. out(From tr \<mapsto> False)) out table)"

fun drive :: "'s \<Rightarrow> 'c list \<Rightarrow> ('s, 'c) Transition list \<Rightarrow> 's option" where
  "drive s [] table = Some s"
| "drive s (c # cs) table =
     (case Apply s c table of Inl _ \<Rightarrow> None | Inr (s', _) \<Rightarrow> drive s' cs table)"

lemma Apply_Inr_row:
  "Apply s c table = Inr (s', e) \<Longrightarrow> Transition s c s' e \<in> set table"
proof (induction table)
  case (Cons tr table)
  then show ?case by (cases tr) (auto split: if_splits)
qed simp

lemma Apply_Inl_iff:
  "(\<exists>err. Apply s c table = Inl err) \<longleftrightarrow> (\<forall>tr \<in> set table. \<not> (From tr = s \<and> Command tr = c))"
  by (induction table) auto

lemma Apply_error: "Apply s c table = Inl err \<Longrightarrow> err = Errorf [ErrInvalidState] ''no transition''"
  by (induction table) (auto split: if_splits)

lemma terminal_pass1:
  "foldl (\<lambda>out tr. if out (To tr) = None then out(To tr \<mapsto> True) else out) m table s =
     (if m s = None \<and> s \<in> To ` set table then Some True else m s)"
  by (induction table arbitrary: m) auto

lemma terminal_pass2:
  "foldl (\<lambda>out tr. out(From tr \<mapsto> False)) m table s =
     (if s \<in> From ` set table then Some False else m s)"
  by (induction table arbitrary: m) auto

lemma TerminalStates_eq:
  "TerminalStates table s =
     (if s \<in> From ` set table then Some False
      else if s \<in> To ` set table then Some True else None)"
  by (simp add: TerminalStates_def terminal_pass1 terminal_pass2)

section \<open>The tables\<close>

subsection \<open>Run\<close>

datatype RunState =
    RunQueued | RunProvisioning | RunRunning | RunWaiting | RunCompleted | RunFailed
   | RunCanceled | RunTimedOut | RunBudgetExceeded

datatype RunCommand =
    RunCmdProvision | RunCmdStart | RunCmdWait | RunCmdResume | RunCmdComplete
   | RunCmdFail | RunCmdCancel | RunCmdTimeout | RunCmdExhaustBudget

fun RunState_text :: "RunState \<Rightarrow> string" where
  "RunState_text RunQueued = ''queued''"
| "RunState_text RunProvisioning = ''provisioning''"
| "RunState_text RunRunning = ''running''"
| "RunState_text RunWaiting = ''waiting''"
| "RunState_text RunCompleted = ''completed''"
| "RunState_text RunFailed = ''failed''"
| "RunState_text RunCanceled = ''canceled''"
| "RunState_text RunTimedOut = ''timed_out''"
| "RunState_text RunBudgetExceeded = ''budget_exceeded''"

fun RunCommand_text :: "RunCommand \<Rightarrow> string" where
  "RunCommand_text RunCmdProvision = ''provision''"
| "RunCommand_text RunCmdStart = ''start''"
| "RunCommand_text RunCmdWait = ''wait''"
| "RunCommand_text RunCmdResume = ''resume''"
| "RunCommand_text RunCmdComplete = ''complete''"
| "RunCommand_text RunCmdFail = ''fail''"
| "RunCommand_text RunCmdCancel = ''cancel''"
| "RunCommand_text RunCmdTimeout = ''timeout''"
| "RunCommand_text RunCmdExhaustBudget = ''exhaust_budget''"

definition RunTable :: "(RunState, RunCommand) Transition list" where
  [table_defs]: "RunTable = [
     Transition RunQueued RunCmdProvision RunProvisioning ''run.provisioning.v1'',
     Transition RunProvisioning RunCmdStart RunRunning ''run.running.v1'',
     Transition RunRunning RunCmdWait RunWaiting ''run.waiting.v1'',
     Transition RunWaiting RunCmdResume RunRunning ''run.running.v1'',
     Transition RunRunning RunCmdComplete RunCompleted ''run.completed.v1'',
     Transition RunQueued RunCmdCancel RunCanceled ''run.canceled.v1'',
     Transition RunProvisioning RunCmdCancel RunCanceled ''run.canceled.v1'',
     Transition RunRunning RunCmdCancel RunCanceled ''run.canceled.v1'',
     Transition RunWaiting RunCmdCancel RunCanceled ''run.canceled.v1'',
     Transition RunQueued RunCmdFail RunFailed ''run.failed.v1'',
     Transition RunProvisioning RunCmdFail RunFailed ''run.failed.v1'',
     Transition RunRunning RunCmdFail RunFailed ''run.failed.v1'',
     Transition RunWaiting RunCmdFail RunFailed ''run.failed.v1'',
     Transition RunQueued RunCmdTimeout RunTimedOut ''run.timed_out.v1'',
     Transition RunRunning RunCmdTimeout RunTimedOut ''run.timed_out.v1'',
     Transition RunWaiting RunCmdTimeout RunTimedOut ''run.timed_out.v1'',
     Transition RunRunning RunCmdExhaustBudget RunBudgetExceeded ''run.budget_exceeded.v1'',
     Transition RunWaiting RunCmdExhaustBudget RunBudgetExceeded ''run.budget_exceeded.v1'']"

subsection \<open>Response\<close>

datatype ResponseState =
    ResponseQueued | ResponseProvisioning | ResponseInProgress | ResponseWaitingForTool
   | ResponseWaitingForApproval | ResponseWaitingForInput | ResponseCompleted
   | ResponseFailed | ResponseCanceled | ResponseTimedOut | ResponseBudgetExceeded

datatype ResponseCommand =
    ResponseCmdProvision | ResponseCmdStart | ResponseCmdRequestTool
   | ResponseCmdRequestApproval | ResponseCmdRequestInput | ResponseCmdResume
   | ResponseCmdComplete | ResponseCmdFail | ResponseCmdCancel | ResponseCmdTimeout
   | ResponseCmdExhaustBudget

fun ResponseState_text :: "ResponseState \<Rightarrow> string" where
  "ResponseState_text ResponseQueued = ''queued''"
| "ResponseState_text ResponseProvisioning = ''provisioning''"
| "ResponseState_text ResponseInProgress = ''in_progress''"
| "ResponseState_text ResponseWaitingForTool = ''waiting_for_tool''"
| "ResponseState_text ResponseWaitingForApproval = ''waiting_for_approval''"
| "ResponseState_text ResponseWaitingForInput = ''waiting_for_input''"
| "ResponseState_text ResponseCompleted = ''completed''"
| "ResponseState_text ResponseFailed = ''failed''"
| "ResponseState_text ResponseCanceled = ''canceled''"
| "ResponseState_text ResponseTimedOut = ''timed_out''"
| "ResponseState_text ResponseBudgetExceeded = ''budget_exceeded''"

fun ResponseCommand_text :: "ResponseCommand \<Rightarrow> string" where
  "ResponseCommand_text ResponseCmdProvision = ''provision''"
| "ResponseCommand_text ResponseCmdStart = ''start''"
| "ResponseCommand_text ResponseCmdRequestTool = ''request_tool''"
| "ResponseCommand_text ResponseCmdRequestApproval = ''request_approval''"
| "ResponseCommand_text ResponseCmdRequestInput = ''request_input''"
| "ResponseCommand_text ResponseCmdResume = ''resume''"
| "ResponseCommand_text ResponseCmdComplete = ''complete''"
| "ResponseCommand_text ResponseCmdFail = ''fail''"
| "ResponseCommand_text ResponseCmdCancel = ''cancel''"
| "ResponseCommand_text ResponseCmdTimeout = ''timeout''"
| "ResponseCommand_text ResponseCmdExhaustBudget = ''exhaust_budget''"

definition ResponseTable :: "(ResponseState, ResponseCommand) Transition list" where
  [table_defs]: "ResponseTable = [
     Transition ResponseQueued ResponseCmdProvision ResponseProvisioning ''response.provisioning.v1'',
     Transition ResponseProvisioning ResponseCmdStart ResponseInProgress ''response.in_progress.v1'',
     Transition ResponseInProgress ResponseCmdRequestTool ResponseWaitingForTool ''response.waiting_for_tool.v1'',
     Transition ResponseInProgress ResponseCmdRequestApproval ResponseWaitingForApproval ''response.waiting_for_approval.v1'',
     Transition ResponseInProgress ResponseCmdRequestInput ResponseWaitingForInput ''response.waiting_for_input.v1'',
     Transition ResponseWaitingForTool ResponseCmdResume ResponseInProgress ''response.in_progress.v1'',
     Transition ResponseWaitingForApproval ResponseCmdResume ResponseInProgress ''response.in_progress.v1'',
     Transition ResponseWaitingForInput ResponseCmdResume ResponseInProgress ''response.in_progress.v1'',
     Transition ResponseInProgress ResponseCmdComplete ResponseCompleted ''response.completed.v1'',
     Transition ResponseQueued ResponseCmdFail ResponseFailed ''response.failed.v1'',
     Transition ResponseProvisioning ResponseCmdFail ResponseFailed ''response.failed.v1'',
     Transition ResponseInProgress ResponseCmdFail ResponseFailed ''response.failed.v1'',
     Transition ResponseWaitingForTool ResponseCmdFail ResponseFailed ''response.failed.v1'',
     Transition ResponseWaitingForApproval ResponseCmdFail ResponseFailed ''response.failed.v1'',
     Transition ResponseWaitingForInput ResponseCmdFail ResponseFailed ''response.failed.v1'',
     Transition ResponseQueued ResponseCmdCancel ResponseCanceled ''response.canceled.v1'',
     Transition ResponseProvisioning ResponseCmdCancel ResponseCanceled ''response.canceled.v1'',
     Transition ResponseInProgress ResponseCmdCancel ResponseCanceled ''response.canceled.v1'',
     Transition ResponseWaitingForTool ResponseCmdCancel ResponseCanceled ''response.canceled.v1'',
     Transition ResponseWaitingForApproval ResponseCmdCancel ResponseCanceled ''response.canceled.v1'',
     Transition ResponseWaitingForInput ResponseCmdCancel ResponseCanceled ''response.canceled.v1'',
     Transition ResponseQueued ResponseCmdTimeout ResponseTimedOut ''response.timed_out.v1'',
     Transition ResponseInProgress ResponseCmdTimeout ResponseTimedOut ''response.timed_out.v1'',
     Transition ResponseWaitingForTool ResponseCmdTimeout ResponseTimedOut ''response.timed_out.v1'',
     Transition ResponseWaitingForApproval ResponseCmdTimeout ResponseTimedOut ''response.timed_out.v1'',
     Transition ResponseWaitingForInput ResponseCmdTimeout ResponseTimedOut ''response.timed_out.v1'',
     Transition ResponseInProgress ResponseCmdExhaustBudget ResponseBudgetExceeded ''response.budget_exceeded.v1'',
     Transition ResponseWaitingForTool ResponseCmdExhaustBudget ResponseBudgetExceeded ''response.budget_exceeded.v1'',
     Transition ResponseWaitingForApproval ResponseCmdExhaustBudget ResponseBudgetExceeded ''response.budget_exceeded.v1'',
     Transition ResponseWaitingForInput ResponseCmdExhaustBudget ResponseBudgetExceeded ''response.budget_exceeded.v1'']"

subsection \<open>Session\<close>

datatype SessionState =
    SessionActive | SessionPaused | SessionClosing | SessionClosed | SessionDeleted

datatype SessionCommand =
    SessionCmdPause | SessionCmdResume | SessionCmdClose | SessionCmdFinishClose
   | SessionCmdDelete

fun SessionState_text :: "SessionState \<Rightarrow> string" where
  "SessionState_text SessionActive = ''active''"
| "SessionState_text SessionPaused = ''paused''"
| "SessionState_text SessionClosing = ''closing''"
| "SessionState_text SessionClosed = ''closed''"
| "SessionState_text SessionDeleted = ''deleted''"

fun SessionCommand_text :: "SessionCommand \<Rightarrow> string" where
  "SessionCommand_text SessionCmdPause = ''pause''"
| "SessionCommand_text SessionCmdResume = ''resume''"
| "SessionCommand_text SessionCmdClose = ''close''"
| "SessionCommand_text SessionCmdFinishClose = ''finish_close''"
| "SessionCommand_text SessionCmdDelete = ''delete''"

definition SessionTable :: "(SessionState, SessionCommand) Transition list" where
  [table_defs]: "SessionTable = [
     Transition SessionActive SessionCmdPause SessionPaused ''session.paused.v1'',
     Transition SessionPaused SessionCmdResume SessionActive ''session.active.v1'',
     Transition SessionActive SessionCmdClose SessionClosing ''session.closing.v1'',
     Transition SessionPaused SessionCmdClose SessionClosing ''session.closing.v1'',
     Transition SessionClosing SessionCmdFinishClose SessionClosed ''session.closed.v1'',
     Transition SessionClosed SessionCmdDelete SessionDeleted ''session.deleted.v1'']"

subsection \<open>Attempt\<close>

datatype AttemptState =
    AttemptAssigned | AttemptStarting | AttemptActive | AttemptDraining
   | AttemptSucceeded | AttemptFailed | AttemptLost | AttemptPreempted

datatype AttemptCommand =
    AttemptCmdStart | AttemptCmdActivate | AttemptCmdDrain | AttemptCmdSucceed
   | AttemptCmdFail | AttemptCmdLose | AttemptCmdPreempt

fun AttemptState_text :: "AttemptState \<Rightarrow> string" where
  "AttemptState_text AttemptAssigned = ''assigned''"
| "AttemptState_text AttemptStarting = ''starting''"
| "AttemptState_text AttemptActive = ''active''"
| "AttemptState_text AttemptDraining = ''draining''"
| "AttemptState_text AttemptSucceeded = ''succeeded''"
| "AttemptState_text AttemptFailed = ''failed''"
| "AttemptState_text AttemptLost = ''lost''"
| "AttemptState_text AttemptPreempted = ''preempted''"

fun AttemptCommand_text :: "AttemptCommand \<Rightarrow> string" where
  "AttemptCommand_text AttemptCmdStart = ''start''"
| "AttemptCommand_text AttemptCmdActivate = ''activate''"
| "AttemptCommand_text AttemptCmdDrain = ''drain''"
| "AttemptCommand_text AttemptCmdSucceed = ''succeed''"
| "AttemptCommand_text AttemptCmdFail = ''fail''"
| "AttemptCommand_text AttemptCmdLose = ''lose''"
| "AttemptCommand_text AttemptCmdPreempt = ''preempt''"

definition AttemptTable :: "(AttemptState, AttemptCommand) Transition list" where
  [table_defs]: "AttemptTable = [
     Transition AttemptAssigned AttemptCmdStart AttemptStarting ''attempt.starting.v1'',
     Transition AttemptStarting AttemptCmdActivate AttemptActive ''attempt.active.v1'',
     Transition AttemptActive AttemptCmdDrain AttemptDraining ''attempt.draining.v1'',
     Transition AttemptDraining AttemptCmdSucceed AttemptSucceeded ''attempt.succeeded.v1'',
     Transition AttemptAssigned AttemptCmdFail AttemptFailed ''attempt.failed.v1'',
     Transition AttemptStarting AttemptCmdFail AttemptFailed ''attempt.failed.v1'',
     Transition AttemptActive AttemptCmdFail AttemptFailed ''attempt.failed.v1'',
     Transition AttemptDraining AttemptCmdFail AttemptFailed ''attempt.failed.v1'',
     Transition AttemptAssigned AttemptCmdLose AttemptLost ''attempt.lost.v1'',
     Transition AttemptStarting AttemptCmdLose AttemptLost ''attempt.lost.v1'',
     Transition AttemptActive AttemptCmdLose AttemptLost ''attempt.lost.v1'',
     Transition AttemptDraining AttemptCmdLose AttemptLost ''attempt.lost.v1'',
     Transition AttemptAssigned AttemptCmdPreempt AttemptPreempted ''attempt.preempted.v1'',
     Transition AttemptStarting AttemptCmdPreempt AttemptPreempted ''attempt.preempted.v1'',
     Transition AttemptActive AttemptCmdPreempt AttemptPreempted ''attempt.preempted.v1'',
     Transition AttemptDraining AttemptCmdPreempt AttemptPreempted ''attempt.preempted.v1'']"

subsection \<open>Command\<close>

datatype CommandState =
    CommandQueued | CommandApplying | CommandApplied | CommandRejected | CommandExpired

datatype CommandCommand =
    CommandCmdApply | CommandCmdFinishApply | CommandCmdReject | CommandCmdExpire

fun CommandState_text :: "CommandState \<Rightarrow> string" where
  "CommandState_text CommandQueued = ''queued''"
| "CommandState_text CommandApplying = ''applying''"
| "CommandState_text CommandApplied = ''applied''"
| "CommandState_text CommandRejected = ''rejected''"
| "CommandState_text CommandExpired = ''expired''"

fun CommandCommand_text :: "CommandCommand \<Rightarrow> string" where
  "CommandCommand_text CommandCmdApply = ''apply''"
| "CommandCommand_text CommandCmdFinishApply = ''finish_apply''"
| "CommandCommand_text CommandCmdReject = ''reject''"
| "CommandCommand_text CommandCmdExpire = ''expire''"

definition CommandTable :: "(CommandState, CommandCommand) Transition list" where
  [table_defs]: "CommandTable = [
     Transition CommandQueued CommandCmdApply CommandApplying ''command.applying.v1'',
     Transition CommandApplying CommandCmdFinishApply CommandApplied ''command.applied.v1'',
     Transition CommandApplying CommandCmdReject CommandRejected ''command.rejected.v1'',
     Transition CommandApplying CommandCmdExpire CommandExpired ''command.expired.v1'']"

subsection \<open>ToolCall\<close>

datatype ToolCallState =
    ToolCallProposed | ToolCallPolicyCheck | ToolCallApprovalPending | ToolCallReady
   | ToolCallLeased | ToolCallExecuting | ToolCallCompleted | ToolCallFailed
   | ToolCallCanceled | ToolCallUncertain | ToolCallReconciledCompleted
   | ToolCallReconciledNotApplied | ToolCallManualResolution

datatype ToolCallCommand =
    ToolCallCmdCheckPolicy | ToolCallCmdRequireApproval | ToolCallCmdApprove
   | ToolCallCmdMarkReady | ToolCallCmdLease | ToolCallCmdExecute
   | ToolCallCmdComplete | ToolCallCmdFail | ToolCallCmdCancel
   | ToolCallCmdMarkUncertain | ToolCallCmdReconcileCompleted
   | ToolCallCmdReconcileNotApplied | ToolCallCmdEscalate

fun ToolCallState_text :: "ToolCallState \<Rightarrow> string" where
  "ToolCallState_text ToolCallProposed = ''proposed''"
| "ToolCallState_text ToolCallPolicyCheck = ''policy_check''"
| "ToolCallState_text ToolCallApprovalPending = ''approval_pending''"
| "ToolCallState_text ToolCallReady = ''ready''"
| "ToolCallState_text ToolCallLeased = ''leased''"
| "ToolCallState_text ToolCallExecuting = ''executing''"
| "ToolCallState_text ToolCallCompleted = ''completed''"
| "ToolCallState_text ToolCallFailed = ''failed''"
| "ToolCallState_text ToolCallCanceled = ''canceled''"
| "ToolCallState_text ToolCallUncertain = ''uncertain''"
| "ToolCallState_text ToolCallReconciledCompleted = ''reconciled_completed''"
| "ToolCallState_text ToolCallReconciledNotApplied = ''reconciled_not_applied''"
| "ToolCallState_text ToolCallManualResolution = ''manual_resolution''"

fun ToolCallCommand_text :: "ToolCallCommand \<Rightarrow> string" where
  "ToolCallCommand_text ToolCallCmdCheckPolicy = ''check_policy''"
| "ToolCallCommand_text ToolCallCmdRequireApproval = ''require_approval''"
| "ToolCallCommand_text ToolCallCmdApprove = ''approve''"
| "ToolCallCommand_text ToolCallCmdMarkReady = ''mark_ready''"
| "ToolCallCommand_text ToolCallCmdLease = ''lease''"
| "ToolCallCommand_text ToolCallCmdExecute = ''execute''"
| "ToolCallCommand_text ToolCallCmdComplete = ''complete''"
| "ToolCallCommand_text ToolCallCmdFail = ''fail''"
| "ToolCallCommand_text ToolCallCmdCancel = ''cancel''"
| "ToolCallCommand_text ToolCallCmdMarkUncertain = ''mark_uncertain''"
| "ToolCallCommand_text ToolCallCmdReconcileCompleted = ''reconcile_completed''"
| "ToolCallCommand_text ToolCallCmdReconcileNotApplied = ''reconcile_not_applied''"
| "ToolCallCommand_text ToolCallCmdEscalate = ''escalate''"

definition ToolCallTable :: "(ToolCallState, ToolCallCommand) Transition list" where
  [table_defs]: "ToolCallTable = [
     Transition ToolCallProposed ToolCallCmdCheckPolicy ToolCallPolicyCheck ''tool_call.policy_check.v1'',
     Transition ToolCallPolicyCheck ToolCallCmdRequireApproval ToolCallApprovalPending ''tool_call.approval_pending.v1'',
     Transition ToolCallApprovalPending ToolCallCmdApprove ToolCallReady ''tool_call.ready.v1'',
     Transition ToolCallPolicyCheck ToolCallCmdMarkReady ToolCallReady ''tool_call.ready.v1'',
     Transition ToolCallReady ToolCallCmdLease ToolCallLeased ''tool_call.leased.v1'',
     Transition ToolCallLeased ToolCallCmdExecute ToolCallExecuting ''tool_call.executing.v1'',
     Transition ToolCallExecuting ToolCallCmdComplete ToolCallCompleted ''tool_call.completed.v1'',
     Transition ToolCallExecuting ToolCallCmdFail ToolCallFailed ''tool_call.failed.v1'',
     Transition ToolCallExecuting ToolCallCmdMarkUncertain ToolCallUncertain ''tool_call.uncertain.v1'',
     Transition ToolCallUncertain ToolCallCmdReconcileCompleted ToolCallReconciledCompleted ''tool_call.reconciled_completed.v1'',
     Transition ToolCallUncertain ToolCallCmdReconcileNotApplied ToolCallReconciledNotApplied ''tool_call.reconciled_not_applied.v1'',
     Transition ToolCallUncertain ToolCallCmdEscalate ToolCallManualResolution ''tool_call.manual_resolution.v1'',
     Transition ToolCallProposed ToolCallCmdCancel ToolCallCanceled ''tool_call.canceled.v1'',
     Transition ToolCallPolicyCheck ToolCallCmdCancel ToolCallCanceled ''tool_call.canceled.v1'',
     Transition ToolCallApprovalPending ToolCallCmdCancel ToolCallCanceled ''tool_call.canceled.v1'',
     Transition ToolCallReady ToolCallCmdCancel ToolCallCanceled ''tool_call.canceled.v1'',
     Transition ToolCallLeased ToolCallCmdCancel ToolCallCanceled ''tool_call.canceled.v1'',
     Transition ToolCallExecuting ToolCallCmdCancel ToolCallCanceled ''tool_call.canceled.v1'']"

subsection \<open>TriggerDelivery\<close>

datatype TriggerDeliveryState =
    TriggerDeliveryReceived | TriggerDeliveryAuthenticated | TriggerDeliveryDeduplicated
   | TriggerDeliveryMapped | TriggerDeliveryAdmitted | TriggerDeliveryRunCreated
   | TriggerDeliveryRejected | TriggerDeliveryDuplicate | TriggerDeliveryFailed
   | TriggerDeliveryDeferred | TriggerDeliverySkipped

datatype TriggerDeliveryCommand =
    TriggerDeliveryCmdAuthenticate | TriggerDeliveryCmdReject
   | TriggerDeliveryCmdDeduplicate | TriggerDeliveryCmdMarkDuplicate
   | TriggerDeliveryCmdMap | TriggerDeliveryCmdFail | TriggerDeliveryCmdAdmit
   | TriggerDeliveryCmdDefer | TriggerDeliveryCmdSkip | TriggerDeliveryCmdCreateRun

fun TriggerDeliveryState_text :: "TriggerDeliveryState \<Rightarrow> string" where
  "TriggerDeliveryState_text TriggerDeliveryReceived = ''received''"
| "TriggerDeliveryState_text TriggerDeliveryAuthenticated = ''authenticated''"
| "TriggerDeliveryState_text TriggerDeliveryDeduplicated = ''deduplicated''"
| "TriggerDeliveryState_text TriggerDeliveryMapped = ''mapped''"
| "TriggerDeliveryState_text TriggerDeliveryAdmitted = ''admitted''"
| "TriggerDeliveryState_text TriggerDeliveryRunCreated = ''run_created''"
| "TriggerDeliveryState_text TriggerDeliveryRejected = ''rejected''"
| "TriggerDeliveryState_text TriggerDeliveryDuplicate = ''duplicate''"
| "TriggerDeliveryState_text TriggerDeliveryFailed = ''failed''"
| "TriggerDeliveryState_text TriggerDeliveryDeferred = ''deferred''"
| "TriggerDeliveryState_text TriggerDeliverySkipped = ''skipped''"

fun TriggerDeliveryCommand_text :: "TriggerDeliveryCommand \<Rightarrow> string" where
  "TriggerDeliveryCommand_text TriggerDeliveryCmdAuthenticate = ''authenticate''"
| "TriggerDeliveryCommand_text TriggerDeliveryCmdReject = ''reject''"
| "TriggerDeliveryCommand_text TriggerDeliveryCmdDeduplicate = ''deduplicate''"
| "TriggerDeliveryCommand_text TriggerDeliveryCmdMarkDuplicate = ''mark_duplicate''"
| "TriggerDeliveryCommand_text TriggerDeliveryCmdMap = ''map''"
| "TriggerDeliveryCommand_text TriggerDeliveryCmdFail = ''fail''"
| "TriggerDeliveryCommand_text TriggerDeliveryCmdAdmit = ''admit''"
| "TriggerDeliveryCommand_text TriggerDeliveryCmdDefer = ''defer''"
| "TriggerDeliveryCommand_text TriggerDeliveryCmdSkip = ''skip''"
| "TriggerDeliveryCommand_text TriggerDeliveryCmdCreateRun = ''create_run''"

definition TriggerDeliveryTable :: "(TriggerDeliveryState, TriggerDeliveryCommand) Transition list" where
  [table_defs]: "TriggerDeliveryTable = [
     Transition TriggerDeliveryReceived TriggerDeliveryCmdAuthenticate TriggerDeliveryAuthenticated ''trigger.delivery.authenticated.v1'',
     Transition TriggerDeliveryReceived TriggerDeliveryCmdReject TriggerDeliveryRejected ''trigger.delivery.rejected.v1'',
     Transition TriggerDeliveryReceived TriggerDeliveryCmdFail TriggerDeliveryFailed ''trigger.delivery.failed.v1'',
     Transition TriggerDeliveryAuthenticated TriggerDeliveryCmdDeduplicate TriggerDeliveryDeduplicated ''trigger.delivery.deduplicated.v1'',
     Transition TriggerDeliveryAuthenticated TriggerDeliveryCmdMarkDuplicate TriggerDeliveryDuplicate ''trigger.delivery.duplicate.v1'',
     Transition TriggerDeliveryAuthenticated TriggerDeliveryCmdFail TriggerDeliveryFailed ''trigger.delivery.failed.v1'',
     Transition TriggerDeliveryDeduplicated TriggerDeliveryCmdMap TriggerDeliveryMapped ''trigger.delivery.mapped.v1'',
     Transition TriggerDeliveryDeduplicated TriggerDeliveryCmdFail TriggerDeliveryFailed ''trigger.delivery.failed.v1'',
     Transition TriggerDeliveryMapped TriggerDeliveryCmdAdmit TriggerDeliveryAdmitted ''trigger.delivery.admitted.v1'',
     Transition TriggerDeliveryMapped TriggerDeliveryCmdDefer TriggerDeliveryDeferred ''trigger.delivery.deferred.v1'',
     Transition TriggerDeliveryMapped TriggerDeliveryCmdSkip TriggerDeliverySkipped ''trigger.delivery.skipped.v1'',
     Transition TriggerDeliveryMapped TriggerDeliveryCmdReject TriggerDeliveryRejected ''trigger.delivery.rejected.v1'',
     Transition TriggerDeliveryMapped TriggerDeliveryCmdFail TriggerDeliveryFailed ''trigger.delivery.failed.v1'',
     Transition TriggerDeliveryDeferred TriggerDeliveryCmdAdmit TriggerDeliveryAdmitted ''trigger.delivery.admitted.v1'',
     Transition TriggerDeliveryDeferred TriggerDeliveryCmdSkip TriggerDeliverySkipped ''trigger.delivery.skipped.v1'',
     Transition TriggerDeliveryAdmitted TriggerDeliveryCmdCreateRun TriggerDeliveryRunCreated ''trigger.delivery.run_created.v1'',
     Transition TriggerDeliveryAdmitted TriggerDeliveryCmdFail TriggerDeliveryFailed ''trigger.delivery.failed.v1'']"

subsection \<open>Workspace\<close>

datatype WorkspaceState =
    WorkspaceRequested | WorkspaceProvisioning | WorkspacePreparing | WorkspaceReady
   | WorkspaceLeased | WorkspaceSnapshotting | WorkspacePaused | WorkspaceRestoring
   | WorkspaceHostLost | WorkspaceRecovering | WorkspaceFailed | WorkspaceDestroying
   | WorkspaceDestroyed

datatype WorkspaceCommand =
    WorkspaceCmdProvision | WorkspaceCmdPrepare | WorkspaceCmdMarkReady
   | WorkspaceCmdLease | WorkspaceCmdRelease | WorkspaceCmdSnapshot
   | WorkspaceCmdFinishSnapshot | WorkspaceCmdPause | WorkspaceCmdRestore
   | WorkspaceCmdLoseHost | WorkspaceCmdRecover | WorkspaceCmdFail
   | WorkspaceCmdDestroy | WorkspaceCmdFinishDestroy

fun WorkspaceState_text :: "WorkspaceState \<Rightarrow> string" where
  "WorkspaceState_text WorkspaceRequested = ''requested''"
| "WorkspaceState_text WorkspaceProvisioning = ''provisioning''"
| "WorkspaceState_text WorkspacePreparing = ''preparing''"
| "WorkspaceState_text WorkspaceReady = ''ready''"
| "WorkspaceState_text WorkspaceLeased = ''leased''"
| "WorkspaceState_text WorkspaceSnapshotting = ''snapshotting''"
| "WorkspaceState_text WorkspacePaused = ''paused''"
| "WorkspaceState_text WorkspaceRestoring = ''restoring''"
| "WorkspaceState_text WorkspaceHostLost = ''host_lost''"
| "WorkspaceState_text WorkspaceRecovering = ''recovering''"
| "WorkspaceState_text WorkspaceFailed = ''failed''"
| "WorkspaceState_text WorkspaceDestroying = ''destroying''"
| "WorkspaceState_text WorkspaceDestroyed = ''destroyed''"

fun WorkspaceCommand_text :: "WorkspaceCommand \<Rightarrow> string" where
  "WorkspaceCommand_text WorkspaceCmdProvision = ''provision''"
| "WorkspaceCommand_text WorkspaceCmdPrepare = ''prepare''"
| "WorkspaceCommand_text WorkspaceCmdMarkReady = ''mark_ready''"
| "WorkspaceCommand_text WorkspaceCmdLease = ''lease''"
| "WorkspaceCommand_text WorkspaceCmdRelease = ''release''"
| "WorkspaceCommand_text WorkspaceCmdSnapshot = ''snapshot''"
| "WorkspaceCommand_text WorkspaceCmdFinishSnapshot = ''finish_snapshot''"
| "WorkspaceCommand_text WorkspaceCmdPause = ''pause''"
| "WorkspaceCommand_text WorkspaceCmdRestore = ''restore''"
| "WorkspaceCommand_text WorkspaceCmdLoseHost = ''lose_host''"
| "WorkspaceCommand_text WorkspaceCmdRecover = ''recover''"
| "WorkspaceCommand_text WorkspaceCmdFail = ''fail''"
| "WorkspaceCommand_text WorkspaceCmdDestroy = ''destroy''"
| "WorkspaceCommand_text WorkspaceCmdFinishDestroy = ''finish_destroy''"

definition WorkspaceTable :: "(WorkspaceState, WorkspaceCommand) Transition list" where
  [table_defs]: "WorkspaceTable = [
     Transition WorkspaceRequested WorkspaceCmdProvision WorkspaceProvisioning ''workspace.provisioning.v1'',
     Transition WorkspaceProvisioning WorkspaceCmdPrepare WorkspacePreparing ''workspace.preparing.v1'',
     Transition WorkspacePreparing WorkspaceCmdMarkReady WorkspaceReady ''workspace.ready.v1'',
     Transition WorkspaceReady WorkspaceCmdLease WorkspaceLeased ''workspace.leased.v1'',
     Transition WorkspaceLeased WorkspaceCmdRelease WorkspaceReady ''workspace.ready.v1'',
     Transition WorkspaceReady WorkspaceCmdSnapshot WorkspaceSnapshotting ''workspace.snapshotting.v1'',
     Transition WorkspaceSnapshotting WorkspaceCmdFinishSnapshot WorkspaceReady ''workspace.ready.v1'',
     Transition WorkspaceSnapshotting WorkspaceCmdPause WorkspacePaused ''workspace.paused.v1'',
     Transition WorkspacePreparing WorkspaceCmdPause WorkspacePaused ''workspace.paused.v1'',
     Transition WorkspaceReady WorkspaceCmdPause WorkspacePaused ''workspace.paused.v1'',
     Transition WorkspacePaused WorkspaceCmdRestore WorkspaceRestoring ''workspace.restoring.v1'',
     Transition WorkspaceRestoring WorkspaceCmdMarkReady WorkspaceReady ''workspace.ready.v1'',
     Transition WorkspaceRestoring WorkspaceCmdFail WorkspaceFailed ''workspace.failed.v1'',
     Transition WorkspaceLeased WorkspaceCmdLoseHost WorkspaceHostLost ''workspace.host_lost.v1'',
     Transition WorkspaceHostLost WorkspaceCmdRecover WorkspaceRecovering ''workspace.recovering.v1'',
     Transition WorkspaceRecovering WorkspaceCmdMarkReady WorkspaceReady ''workspace.ready.v1'',
     Transition WorkspaceRecovering WorkspaceCmdFail WorkspaceFailed ''workspace.failed.v1'',
     Transition WorkspaceReady WorkspaceCmdDestroy WorkspaceDestroying ''workspace.destroying.v1'',
     Transition WorkspacePaused WorkspaceCmdDestroy WorkspaceDestroying ''workspace.destroying.v1'',
     Transition WorkspaceFailed WorkspaceCmdDestroy WorkspaceDestroying ''workspace.destroying.v1'',
     Transition WorkspaceDestroying WorkspaceCmdFinishDestroy WorkspaceDestroyed ''workspace.destroyed.v1'']"


definition SuccessfulToolStates :: "ToolCallState \<rightharpoonup> bool" where
  "SuccessfulToolStates =
     Map.empty(ToolCallCompleted \<mapsto> True, ToolCallReconciledCompleted \<mapsto> True)"

section \<open>Monotonicity guards\<close>

definition ErrStaleFence :: error where
  "ErrStaleFence = Sentinel ''statemachines'' ''lease_conflict''"

definition AcceptFence :: "uint64 \<Rightarrow> uint64 \<Rightarrow> unit result" where
  "AcceptFence current offered =
     (if offered \<le> current then Inl (Errorf [ErrStaleFence] ''offered fence is not newer'')
      else Inr ())"

definition ErrNonMonotonicSequence :: error where
  "ErrNonMonotonicSequence = Sentinel ''statemachines'' ''non_monotonic_sequence''"

definition NextSequence :: "int64 \<Rightarrow> int64 \<Rightarrow> unit result" where
  "NextSequence prev next =
     (if sint next \<le> sint prev
      then Inl (Errorf [ErrNonMonotonicSequence] ''next is not greater'')
      else Inr ())"

section \<open>What holds of every table with different keys\<close>

definition keys :: "('s, 'c) Transition list \<Rightarrow> ('s \<times> 'c) list" where
  "keys table = map (\<lambda>tr. (From tr, Command tr)) table"

lemma key_of_row: "Transition s c s' e \<in> set tab \<Longrightarrow> (s, c) \<in> set (keys tab)"
  by (auto simp: keys_def image_iff intro!: bexI [of _ "Transition s c s' e"])

lemma Apply_distinct_row:
  "distinct (keys tab) \<Longrightarrow> Transition s c s' e \<in> set tab \<Longrightarrow> Apply s c tab = Inr (s', e)"
proof (induction tab)
  case (Cons tr tab)
  show ?case
  proof (cases "tr = Transition s c s' e")
    case False
    with Cons.prems have row: "Transition s c s' e \<in> set tab" by simp
    then have "(From tr, Command tr) \<noteq> (s, c)"
      using key_of_row [OF row] Cons.prems(1) by (auto simp: keys_def)
    with row Cons show ?thesis by (auto simp: keys_def)
  qed simp
qed simp

lemma Apply_distinct_iff:
  "distinct (keys tab) \<Longrightarrow> Apply s c tab = Inr (s', e) \<longleftrightarrow> Transition s c s' e \<in> set tab"
  by (blast intro: Apply_distinct_row dest: Apply_Inr_row)

locale transition_table =
  fixes table :: "('s, 'c) Transition list"
  assumes keys_distinct: "distinct (keys table)"
begin

lemma Apply_iff: "Apply s c table = Inr (s', e) \<longleftrightarrow> Transition s c s' e \<in> set table"
  by (rule Apply_distinct_iff [OF keys_distinct])

lemma Apply_order_irrelevant:
  assumes "set table' = set table" and "distinct (keys table')"
  shows "Apply s c table' = Inr r \<longleftrightarrow> Apply s c table = Inr r"
  by (cases r) (simp add: Apply_distinct_iff [OF assms(2)] Apply_iff assms(1))

lemma terminal_rejects:
  assumes "TerminalStates table s = Some True"
  shows "Apply s c table = Inl (Errorf [ErrInvalidState] ''no transition'')"
proof -
  from assms have "s \<notin> From ` set table"
    by (simp add: TerminalStates_eq split: if_splits)
  then obtain err where "Apply s c table = Inl err"
    using Apply_Inl_iff [of s c table] by blast
  with Apply_error show ?thesis by metis
qed

lemma drive_terminal:
  assumes "TerminalStates table s = Some True" and "drive s cs table = Some t"
  shows "cs = [] \<and> t = s"
  using assms terminal_rejects by (cases cs) auto

lemma gate:
  assumes closed: "\<And>s c s' e. s \<in> S \<Longrightarrow> c \<notin> G \<Longrightarrow> Transition s c s' e \<in> set table \<Longrightarrow> s' \<in> S"
  shows "s \<in> S \<Longrightarrow> drive s cs table = Some t \<Longrightarrow> t \<notin> S \<Longrightarrow> set cs \<inter> G \<noteq> {}"
proof (induction cs arbitrary: s)
  case (Cons c cs)
  then obtain s' e where step: "Apply s c table = Inr (s', e)" and rest: "drive s' cs table = Some t"
    by (auto split: sum.splits)
  show ?case
  proof (cases "c \<in> G")
    case False
    with closed Cons.prems(1) step have "s' \<in> S" using Apply_Inr_row by metis
    with Cons.IH rest Cons.prems(3) show ?thesis by auto
  qed simp
qed simp

end

text \<open>
  A machine drains when from every state that is not an end state one command leads closer to an
  end state.
\<close>

locale draining_table = transition_table table
  for table :: "('s, 'c) Transition list" +
  fixes exit_cmd :: "'s \<Rightarrow> 'c" and rank :: "'s \<Rightarrow> nat"
  assumes exit_step: "TerminalStates table s \<noteq> Some True \<Longrightarrow>
    \<exists>s' e. Apply s (exit_cmd s) table = Inr (s', e) \<and> rank s' < rank s"
begin

lemma drains:
  "\<exists>cs t. length cs \<le> rank s \<and> drive s cs table = Some t \<and> TerminalStates table t = Some True"
proof (induction "rank s" arbitrary: s rule: less_induct)
  case less
  show ?case
  proof (cases "TerminalStates table s = Some True")
    case True
    then show ?thesis by (intro exI [of _ "[]"]) simp
  next
    case False
    then obtain s' e where step: "Apply s (exit_cmd s) table = Inr (s', e)" and dec: "rank s' < rank s"
      using exit_step by blast
    from less [OF dec] obtain cs t where
      "length cs \<le> rank s'" "drive s' cs table = Some t" "TerminalStates table t = Some True"
      by blast
    with step dec show ?thesis by (intro exI [of _ "exit_cmd s # cs"]) auto
  qed
qed

end

text \<open>
  One machine simulates another when its steps map onto the other's steps, legal onto legal and
  illegal onto illegal.
\<close>

locale table_simulation =
  fixes conc :: "('s, 'c) Transition list" and abst :: "('t, 'd) Transition list"
    and abs_s :: "'s \<Rightarrow> 't" and abs_c :: "'c \<Rightarrow> 'd"
  assumes sim_step: "Apply s c conc = Inr (s', e) \<Longrightarrow>
      \<exists>e'. Apply (abs_s s) (abs_c c) abst = Inr (abs_s s', e')"
    and sim_stuck: "Apply s c conc = Inl err \<Longrightarrow>
      \<exists>err'. Apply (abs_s s) (abs_c c) abst = Inl err'"
begin

lemma drive_simulated:
  "drive (abs_s s) (map abs_c cs) abst = map_option abs_s (drive s cs conc)"
proof (induction cs arbitrary: s)
  case (Cons c cs)
  show ?case
  proof (cases "Apply s c conc")
    case (Inl err)
    with sim_stuck [OF Inl] show ?thesis by auto
  next
    case (Inr r)
    then obtain s' e where r: "Apply s c conc = Inr (s', e)" by (cases r) simp
    with sim_step [OF r] Cons show ?thesis by auto
  qed
qed simp

end

section \<open>The eight machines\<close>

fun session_exit :: "SessionState \<Rightarrow> SessionCommand" where
  "session_exit SessionClosing = SessionCmdFinishClose"
| "session_exit SessionClosed = SessionCmdDelete"
| "session_exit _ = SessionCmdClose"

fun session_rank :: "SessionState \<Rightarrow> nat" where
  "session_rank SessionDeleted = 0"
| "session_rank SessionClosed = 1"
| "session_rank SessionClosing = 2"
| "session_rank _ = 3"

fun command_exit :: "CommandState \<Rightarrow> CommandCommand" where
  "command_exit CommandQueued = CommandCmdApply"
| "command_exit _ = CommandCmdFinishApply"

fun command_rank :: "CommandState \<Rightarrow> nat" where
  "command_rank CommandQueued = 2"
| "command_rank CommandApplying = 1"
| "command_rank _ = 0"

fun tool_call_exit :: "ToolCallState \<Rightarrow> ToolCallCommand" where
  "tool_call_exit ToolCallUncertain = ToolCallCmdEscalate"
| "tool_call_exit _ = ToolCallCmdCancel"

fun delivery_exit :: "TriggerDeliveryState \<Rightarrow> TriggerDeliveryCommand" where
  "delivery_exit TriggerDeliveryDeferred = TriggerDeliveryCmdSkip"
| "delivery_exit _ = TriggerDeliveryCmdFail"

fun workspace_exit :: "WorkspaceState \<Rightarrow> WorkspaceCommand" where
  "workspace_exit WorkspaceRequested = WorkspaceCmdProvision"
| "workspace_exit WorkspaceProvisioning = WorkspaceCmdPrepare"
| "workspace_exit WorkspacePreparing = WorkspaceCmdPause"
| "workspace_exit WorkspaceLeased = WorkspaceCmdRelease"
| "workspace_exit WorkspaceSnapshotting = WorkspaceCmdPause"
| "workspace_exit WorkspaceRestoring = WorkspaceCmdFail"
| "workspace_exit WorkspaceHostLost = WorkspaceCmdRecover"
| "workspace_exit WorkspaceRecovering = WorkspaceCmdFail"
| "workspace_exit WorkspaceDestroying = WorkspaceCmdFinishDestroy"
| "workspace_exit _ = WorkspaceCmdDestroy"

fun workspace_rank :: "WorkspaceState \<Rightarrow> nat" where
  "workspace_rank WorkspaceRequested = 5"
| "workspace_rank WorkspaceProvisioning = 4"
| "workspace_rank WorkspaceHostLost = 4"
| "workspace_rank WorkspacePreparing = 3"
| "workspace_rank WorkspaceLeased = 3"
| "workspace_rank WorkspaceSnapshotting = 3"
| "workspace_rank WorkspaceRestoring = 3"
| "workspace_rank WorkspaceRecovering = 3"
| "workspace_rank WorkspaceDestroying = 1"
| "workspace_rank WorkspaceDestroyed = 0"
| "workspace_rank _ = 2"

definition one_step_rank :: "('s, 'c) Transition list \<Rightarrow> 's \<Rightarrow> nat" where
  "one_step_rank table s = (if TerminalStates table s = Some True then 0 else 1)"

lemma terminal_iff_rows:
  "TerminalStates table s = Some True \<longleftrightarrow>
     list_all (\<lambda>tr. From tr \<noteq> s) table \<and> list_ex (\<lambda>tr. To tr = s) table"
proof -
  have "s \<in> From ` set table \<longleftrightarrow> (\<exists>tr \<in> set table. From tr = s)"
    and "s \<in> To ` set table \<longleftrightarrow> (\<exists>tr \<in> set table. To tr = s)" by auto
  then show ?thesis by (simp add: TerminalStates_eq list_all_iff list_ex_iff)
qed

lemmas table_eval = terminal_iff_rows table_defs keys_def one_step_rank_def

interpretation run_table: draining_table RunTable "\<lambda>_. RunCmdFail" "one_step_rank RunTable"
proof unfold_locales
  show "distinct (keys RunTable)" by (simp add: table_eval)
  fix s assume "TerminalStates RunTable s \<noteq> Some True"
  then show "\<exists>s' e. Apply s RunCmdFail RunTable = Inr (s', e) \<and> one_step_rank RunTable s' < one_step_rank RunTable s"
    by (cases s) (simp_all add: table_eval)
qed

interpretation response_table: draining_table ResponseTable "\<lambda>_. ResponseCmdFail"
  "one_step_rank ResponseTable"
proof unfold_locales
  show "distinct (keys ResponseTable)" by (simp add: table_eval)
  fix s assume "TerminalStates ResponseTable s \<noteq> Some True"
  then show "\<exists>s' e. Apply s ResponseCmdFail ResponseTable = Inr (s', e) \<and>
      one_step_rank ResponseTable s' < one_step_rank ResponseTable s"
    by (cases s) (simp_all add: table_eval)
qed

interpretation session_table: draining_table SessionTable session_exit session_rank
proof unfold_locales
  show "distinct (keys SessionTable)" by (simp add: table_eval)
  fix s assume "TerminalStates SessionTable s \<noteq> Some True"
  then show "\<exists>s' e. Apply s (session_exit s) SessionTable = Inr (s', e) \<and> session_rank s' < session_rank s"
    by (cases s) (simp_all add: table_eval)
qed

interpretation attempt_table: draining_table AttemptTable "\<lambda>_. AttemptCmdFail"
  "one_step_rank AttemptTable"
proof unfold_locales
  show "distinct (keys AttemptTable)" by (simp add: table_eval)
  fix s assume "TerminalStates AttemptTable s \<noteq> Some True"
  then show "\<exists>s' e. Apply s AttemptCmdFail AttemptTable = Inr (s', e) \<and>
      one_step_rank AttemptTable s' < one_step_rank AttemptTable s"
    by (cases s) (simp_all add: table_eval)
qed

interpretation command_table: draining_table CommandTable command_exit command_rank
proof unfold_locales
  show "distinct (keys CommandTable)" by (simp add: table_eval)
  fix s assume "TerminalStates CommandTable s \<noteq> Some True"
  then show "\<exists>s' e. Apply s (command_exit s) CommandTable = Inr (s', e) \<and> command_rank s' < command_rank s"
    by (cases s) (simp_all add: table_eval)
qed

interpretation tool_call_table: draining_table ToolCallTable tool_call_exit
  "one_step_rank ToolCallTable"
proof unfold_locales
  show "distinct (keys ToolCallTable)" by (simp add: table_eval)
  fix s assume "TerminalStates ToolCallTable s \<noteq> Some True"
  then show "\<exists>s' e. Apply s (tool_call_exit s) ToolCallTable = Inr (s', e) \<and>
      one_step_rank ToolCallTable s' < one_step_rank ToolCallTable s"
    by (cases s) (simp_all add: table_eval)
qed

interpretation delivery_table: draining_table TriggerDeliveryTable delivery_exit
  "one_step_rank TriggerDeliveryTable"
proof unfold_locales
  show "distinct (keys TriggerDeliveryTable)" by (simp add: table_eval)
  fix s assume "TerminalStates TriggerDeliveryTable s \<noteq> Some True"
  then show "\<exists>s' e. Apply s (delivery_exit s) TriggerDeliveryTable = Inr (s', e) \<and>
      one_step_rank TriggerDeliveryTable s' < one_step_rank TriggerDeliveryTable s"
    by (cases s) (simp_all add: table_eval)
qed

interpretation workspace_table: draining_table WorkspaceTable workspace_exit workspace_rank
proof unfold_locales
  show "distinct (keys WorkspaceTable)" by (simp add: table_eval)
  fix s assume "TerminalStates WorkspaceTable s \<noteq> Some True"
  then show "\<exists>s' e. Apply s (workspace_exit s) WorkspaceTable = Inr (s', e) \<and> workspace_rank s' < workspace_rank s"
    by (cases s) (simp_all add: table_eval)
qed

section \<open>Responses mirror runs\<close>

fun run_of_response :: "ResponseState \<Rightarrow> RunState" where
  "run_of_response ResponseQueued = RunQueued"
| "run_of_response ResponseProvisioning = RunProvisioning"
| "run_of_response ResponseInProgress = RunRunning"
| "run_of_response ResponseWaitingForTool = RunWaiting"
| "run_of_response ResponseWaitingForApproval = RunWaiting"
| "run_of_response ResponseWaitingForInput = RunWaiting"
| "run_of_response ResponseCompleted = RunCompleted"
| "run_of_response ResponseFailed = RunFailed"
| "run_of_response ResponseCanceled = RunCanceled"
| "run_of_response ResponseTimedOut = RunTimedOut"
| "run_of_response ResponseBudgetExceeded = RunBudgetExceeded"

fun run_cmd_of_response :: "ResponseCommand \<Rightarrow> RunCommand" where
  "run_cmd_of_response ResponseCmdProvision = RunCmdProvision"
| "run_cmd_of_response ResponseCmdStart = RunCmdStart"
| "run_cmd_of_response ResponseCmdRequestTool = RunCmdWait"
| "run_cmd_of_response ResponseCmdRequestApproval = RunCmdWait"
| "run_cmd_of_response ResponseCmdRequestInput = RunCmdWait"
| "run_cmd_of_response ResponseCmdResume = RunCmdResume"
| "run_cmd_of_response ResponseCmdComplete = RunCmdComplete"
| "run_cmd_of_response ResponseCmdFail = RunCmdFail"
| "run_cmd_of_response ResponseCmdCancel = RunCmdCancel"
| "run_cmd_of_response ResponseCmdTimeout = RunCmdTimeout"
| "run_cmd_of_response ResponseCmdExhaustBudget = RunCmdExhaustBudget"

lemma response_rows_in_run:
  "list_all (\<lambda>tr. \<exists>e'. Apply (run_of_response (From tr)) (run_cmd_of_response (Command tr)) RunTable =
     Inr (run_of_response (To tr), e')) ResponseTable"
  by (simp add: table_defs)

definition response_states :: "ResponseState list" where
  "response_states = [ResponseQueued, ResponseProvisioning, ResponseInProgress,
     ResponseWaitingForTool, ResponseWaitingForApproval, ResponseWaitingForInput,
     ResponseCompleted, ResponseFailed, ResponseCanceled, ResponseTimedOut,
     ResponseBudgetExceeded]"

definition response_commands :: "ResponseCommand list" where
  "response_commands = [ResponseCmdProvision, ResponseCmdStart, ResponseCmdRequestTool,
     ResponseCmdRequestApproval, ResponseCmdRequestInput, ResponseCmdResume,
     ResponseCmdComplete, ResponseCmdFail, ResponseCmdCancel, ResponseCmdTimeout,
     ResponseCmdExhaustBudget]"

lemma response_states_all: "s \<in> set response_states"
  by (cases s) (simp_all add: response_states_def)

lemma response_commands_all: "c \<in> set response_commands"
  by (cases c) (simp_all add: response_commands_def)

lemma response_legality_table:
  "list_all (\<lambda>s. list_all (\<lambda>c. isl (Apply s c ResponseTable) =
      isl (Apply (run_of_response s) (run_cmd_of_response c) RunTable)) response_commands)
    response_states"
  by code_simp

lemma response_stuck_in_run:
  assumes "Apply s c ResponseTable = Inl err"
  shows "\<exists>err'. Apply (run_of_response s) (run_cmd_of_response c) RunTable = Inl err'"
proof -
  from response_legality_table response_states_all response_commands_all
  have "isl (Apply s c ResponseTable) =
      isl (Apply (run_of_response s) (run_cmd_of_response c) RunTable)"
    unfolding list_all_iff by blast
  with assms show ?thesis by (metis isl_def)
qed

interpretation response_run: table_simulation ResponseTable RunTable
  run_of_response run_cmd_of_response
proof unfold_locales
  fix s c s' e assume "Apply s c ResponseTable = Inr (s', e)"
  then have "Transition s c s' e \<in> set ResponseTable" by (rule Apply_Inr_row)
  with response_rows_in_run
  show "\<exists>e'. Apply (run_of_response s) (run_cmd_of_response c) RunTable = Inr (run_of_response s', e')"
    by (auto simp: list_all_iff)
qed (rule response_stuck_in_run)

section \<open>The accepting paths of a trigger delivery\<close>

lemma drive_snoc:
  "drive s (cs @ [c]) table = Some t \<longleftrightarrow>
  (\<exists>u e. drive s cs table = Some u \<and> Apply u c table = Inr (t, e))"
  by (induction cs arbitrary: s) (auto split: sum.splits)

lemma delivery_rows_to:
  "Apply u c TriggerDeliveryTable = Inr (TriggerDeliveryRunCreated, e) \<Longrightarrow>
     u = TriggerDeliveryAdmitted \<and> c = TriggerDeliveryCmdCreateRun"
  "Apply u c TriggerDeliveryTable = Inr (TriggerDeliveryAdmitted, e) \<Longrightarrow>
     (u = TriggerDeliveryMapped \<or> u = TriggerDeliveryDeferred) \<and> c = TriggerDeliveryCmdAdmit"
  "Apply u c TriggerDeliveryTable = Inr (TriggerDeliveryDeferred, e) \<Longrightarrow>
     u = TriggerDeliveryMapped \<and> c = TriggerDeliveryCmdDefer"
  "Apply u c TriggerDeliveryTable = Inr (TriggerDeliveryMapped, e) \<Longrightarrow>
     u = TriggerDeliveryDeduplicated \<and> c = TriggerDeliveryCmdMap"
  "Apply u c TriggerDeliveryTable = Inr (TriggerDeliveryDeduplicated, e) \<Longrightarrow>
     u = TriggerDeliveryAuthenticated \<and> c = TriggerDeliveryCmdDeduplicate"
  "Apply u c TriggerDeliveryTable = Inr (TriggerDeliveryAuthenticated, e) \<Longrightarrow>
     u = TriggerDeliveryReceived \<and> c = TriggerDeliveryCmdAuthenticate"
  "Apply u c TriggerDeliveryTable = Inr (TriggerDeliveryReceived, e) \<Longrightarrow> False"
  unfolding delivery_table.Apply_iff by (auto simp: table_defs)

lemma delivery_to_received:
  "drive TriggerDeliveryReceived cs TriggerDeliveryTable = Some TriggerDeliveryReceived \<longleftrightarrow> cs = []"
  by (cases cs rule: rev_cases) (auto simp: drive_snoc dest: delivery_rows_to)

lemma delivery_to_authenticated:
  "drive TriggerDeliveryReceived cs TriggerDeliveryTable = Some TriggerDeliveryAuthenticated \<Longrightarrow>
     cs = [TriggerDeliveryCmdAuthenticate]"
  by (cases cs rule: rev_cases) (auto simp: drive_snoc delivery_to_received dest!: delivery_rows_to)

lemma delivery_to_deduplicated:
  "drive TriggerDeliveryReceived cs TriggerDeliveryTable = Some TriggerDeliveryDeduplicated \<Longrightarrow>
     cs = [TriggerDeliveryCmdAuthenticate, TriggerDeliveryCmdDeduplicate]"
  by (cases cs rule: rev_cases) (auto simp: drive_snoc dest!: delivery_rows_to delivery_to_authenticated)

lemma delivery_to_mapped:
  "drive TriggerDeliveryReceived cs TriggerDeliveryTable = Some TriggerDeliveryMapped \<Longrightarrow>
     cs = [TriggerDeliveryCmdAuthenticate, TriggerDeliveryCmdDeduplicate, TriggerDeliveryCmdMap]"
  by (cases cs rule: rev_cases) (auto simp: drive_snoc dest!: delivery_rows_to delivery_to_deduplicated)

lemma delivery_to_deferred:
  "drive TriggerDeliveryReceived cs TriggerDeliveryTable = Some TriggerDeliveryDeferred \<Longrightarrow>
     cs = [TriggerDeliveryCmdAuthenticate, TriggerDeliveryCmdDeduplicate, TriggerDeliveryCmdMap, TriggerDeliveryCmdDefer]"
  by (cases cs rule: rev_cases) (auto simp: drive_snoc dest!: delivery_rows_to delivery_to_mapped)

lemma delivery_to_admitted:
  "drive TriggerDeliveryReceived cs TriggerDeliveryTable = Some TriggerDeliveryAdmitted \<Longrightarrow>
     cs = [TriggerDeliveryCmdAuthenticate, TriggerDeliveryCmdDeduplicate, TriggerDeliveryCmdMap, TriggerDeliveryCmdAdmit] \<or>
     cs = [TriggerDeliveryCmdAuthenticate, TriggerDeliveryCmdDeduplicate, TriggerDeliveryCmdMap, TriggerDeliveryCmdDefer, TriggerDeliveryCmdAdmit]"
  by (cases cs rule: rev_cases) (auto simp: drive_snoc dest!: delivery_rows_to delivery_to_mapped delivery_to_deferred)

section \<open>Properties\<close>

text \<open>
  \<open>TerminalStates\<close> classifies exactly: a state is reported terminal when it is a destination
  and never a source of the table, reported non-terminal when it is a source, and not reported at
  all when it occurs on neither side.
\<close>

theorem terminal_states_exact:
  "(TerminalStates table s = Some True \<longleftrightarrow> s \<in> To ` set table \<and> s \<notin> From ` set table) \<and>
   (TerminalStates table s = Some False \<longleftrightarrow> s \<in> From ` set table) \<and>
   (TerminalStates table s = None \<longleftrightarrow> s \<notin> To ` set table \<and> s \<notin> From ` set table)"
  by (simp add: TerminalStates_eq)

text \<open>
  Terminal run states are final: once a run is terminal the table rejects every command with
  \<open>ErrInvalidState\<close>, so no sequence of commands moves it again.
\<close>

theorem run_terminal_final:
  assumes "map_bool (TerminalStates RunTable) s"
  shows "(\<forall>c. \<exists>err. Apply s c RunTable = Inl err \<and> errors_Is err ErrInvalidState) \<and>
         (\<forall>cs t. drive s cs RunTable = Some t \<longrightarrow> cs = [] \<and> t = s)"
proof -
  from assms have fin: "TerminalStates RunTable s = Some True"
    by (simp add: map_bool_Some_True)
  from run_table.terminal_rejects [OF fin] run_table.drive_terminal [OF fin]
  show ?thesis by (simp add: ErrInvalidState_def)
qed

theorem run_terminal_final_witness:
  "map_bool (TerminalStates RunTable) RunTimedOut \<and>
   (\<exists>err. Apply RunTimedOut RunCmdResume RunTable = Inl err \<and> errors_Is err ErrInvalidState)"
proof -
  have h: "map_bool (TerminalStates RunTable) RunTimedOut"
    by (simp add: map_bool_Some_True table_eval)
  from h run_terminal_final [OF h] show ?thesis by blast
qed

text \<open>
  No lifecycle can be wedged: from every state of each of the eight machines some sequence of
  at most five legal commands reaches a terminal state (in particular a restoring workspace and a
  deferred delivery can be ended).
\<close>

theorem lifecycles_drain:
  "(\<exists>cs t. length cs \<le> 1 \<and> drive run cs RunTable = Some t \<and> TerminalStates RunTable t = Some True) \<and>
   (\<exists>cs t. length cs \<le> 1 \<and> drive resp cs ResponseTable = Some t \<and> TerminalStates ResponseTable t = Some True) \<and>
   (\<exists>cs t. length cs \<le> 3 \<and> drive sess cs SessionTable = Some t \<and> TerminalStates SessionTable t = Some True) \<and>
   (\<exists>cs t. length cs \<le> 1 \<and> drive att cs AttemptTable = Some t \<and> TerminalStates AttemptTable t = Some True) \<and>
   (\<exists>cs t. length cs \<le> 2 \<and> drive cmd cs CommandTable = Some t \<and> TerminalStates CommandTable t = Some True) \<and>
   (\<exists>cs t. length cs \<le> 1 \<and> drive tool cs ToolCallTable = Some t \<and> TerminalStates ToolCallTable t = Some True) \<and>
   (\<exists>cs t. length cs \<le> 1 \<and> drive del cs TriggerDeliveryTable = Some t \<and> TerminalStates TriggerDeliveryTable t = Some True) \<and>
   (\<exists>cs t. length cs \<le> 5 \<and> drive ws cs WorkspaceTable = Some t \<and> TerminalStates WorkspaceTable t = Some True)"
proof -
  have bound: "\<And>s. one_step_rank tab s \<le> 1" for tab :: "('s, 'c) Transition list"
    by (simp add: one_step_rank_def)
  have "session_rank sess \<le> 3" "command_rank cmd \<le> 2" "workspace_rank ws \<le> 5"
    by (cases sess, simp_all, cases cmd, simp_all, cases ws, simp_all)
  with run_table.drains [of run] response_table.drains [of resp] session_table.drains [of sess]
    attempt_table.drains [of att] command_table.drains [of cmd] tool_call_table.drains [of tool]
    delivery_table.drains [of del] workspace_table.drains [of ws]
    bound [of RunTable run] bound [of ResponseTable resp] bound [of AttemptTable att]
    bound [of ToolCallTable tool] bound [of TriggerDeliveryTable del]
  show ?thesis by (meson order.trans)
qed

text \<open>
  C33. A response lifecycle is a run lifecycle: reading the three \<open>waiting_for_\<dots>\<close> states as
  \<open>waiting\<close> and the three \<open>request_\<dots>\<close> commands as \<open>wait\<close>, any sequence of commands takes the
  response table and the run table to corresponding states, and is illegal for one exactly when
  it is illegal for the other.
\<close>

theorem response_refines_run:
  "map_option run_of_response (drive s cs ResponseTable) =
     drive (run_of_response s) (map run_cmd_of_response cs) RunTable"
  by (rule response_run.drive_simulated [symmetric])

text \<open>
  A tool call waiting for approval executes only after an approve: any sequence of commands
  that takes it from \<open>approval_pending\<close> to anything but \<open>approval_pending\<close> or \<open>canceled\<close> contains
  \<open>approve\<close>.
\<close>

theorem tool_call_approval_gate:
  assumes "drive ToolCallApprovalPending cs ToolCallTable = Some t"
    and "t \<noteq> ToolCallApprovalPending" and "t \<noteq> ToolCallCanceled"
  shows "ToolCallCmdApprove \<in> set cs"
proof -
  have "set cs \<inter> {ToolCallCmdApprove} \<noteq> {}"
    by (rule tool_call_table.gate [where S = "{ToolCallApprovalPending, ToolCallCanceled}"])
      (use assms in \<open>auto simp: table_defs\<close>)
  then show ?thesis by simp
qed

theorem tool_call_approval_gate_witness:
  "drive ToolCallApprovalPending [ToolCallCmdApprove, ToolCallCmdLease, ToolCallCmdExecute] ToolCallTable
     = Some ToolCallExecuting \<and>
   ToolCallCmdApprove \<in> set [ToolCallCmdApprove, ToolCallCmdLease, ToolCallCmdExecute]"
proof -
  have h: "drive ToolCallApprovalPending [ToolCallCmdApprove, ToolCallCmdLease, ToolCallCmdExecute]
      ToolCallTable = Some ToolCallExecuting" by (simp add: table_defs)
  from h tool_call_approval_gate [OF h] show ?thesis by blast
qed

text \<open>
  A trigger delivery creates a run along exactly two paths: authenticated, deduplicated,
  mapped, admitted and created, with at most one detour through \<open>deferred\<close> before admission.
\<close>

theorem trigger_delivery_paths:
  "drive TriggerDeliveryReceived cs TriggerDeliveryTable = Some TriggerDeliveryRunCreated \<longleftrightarrow>
     cs = [TriggerDeliveryCmdAuthenticate, TriggerDeliveryCmdDeduplicate, TriggerDeliveryCmdMap,
           TriggerDeliveryCmdAdmit, TriggerDeliveryCmdCreateRun] \<or>
     cs = [TriggerDeliveryCmdAuthenticate, TriggerDeliveryCmdDeduplicate, TriggerDeliveryCmdMap,
           TriggerDeliveryCmdDefer, TriggerDeliveryCmdAdmit, TriggerDeliveryCmdCreateRun]"
  (is "?L \<longleftrightarrow> ?R")
proof
  assume ?L then show ?R
    by (cases cs rule: rev_cases) (auto simp: drive_snoc dest!: delivery_rows_to delivery_to_admitted)
next
  assume ?R then show ?L by (auto simp: table_defs)
qed

text \<open>
  A workspace claimed by the idle releaser (\<open>snapshotting\<close>) cannot be leased behind its back: it
  is leased again only after the snapshot was explicitly finished or the paused workspace was
  explicitly restored.
\<close>

theorem workspace_snapshot_not_leasable:
  assumes "drive WorkspaceSnapshotting cs WorkspaceTable = Some WorkspaceLeased"
  shows "WorkspaceCmdFinishSnapshot \<in> set cs \<or> WorkspaceCmdRestore \<in> set cs"
proof -
  have "set cs \<inter> {WorkspaceCmdFinishSnapshot, WorkspaceCmdRestore} \<noteq> {}"
    by (rule workspace_table.gate [where S = "{WorkspaceSnapshotting, WorkspacePaused,
          WorkspaceDestroying, WorkspaceDestroyed}"])
      (use assms in \<open>auto simp: table_defs\<close>)
  then show ?thesis by auto
qed

theorem workspace_snapshot_not_leasable_witness:
  "drive WorkspaceSnapshotting
     [WorkspaceCmdPause, WorkspaceCmdRestore, WorkspaceCmdMarkReady, WorkspaceCmdLease] WorkspaceTable
     = Some WorkspaceLeased \<and>
   (WorkspaceCmdFinishSnapshot \<in> set [WorkspaceCmdPause, WorkspaceCmdRestore, WorkspaceCmdMarkReady, WorkspaceCmdLease] \<or>
    WorkspaceCmdRestore \<in> set [WorkspaceCmdPause, WorkspaceCmdRestore, WorkspaceCmdMarkReady, WorkspaceCmdLease])"
proof -
  have h: "drive WorkspaceSnapshotting
     [WorkspaceCmdPause, WorkspaceCmdRestore, WorkspaceCmdMarkReady, WorkspaceCmdLease] WorkspaceTable
     = Some WorkspaceLeased" by (simp add: table_defs)
  from h workspace_snapshot_not_leasable [OF h] show ?thesis by blast
qed

end
