(* ===== verification/Tenancy.thy ===== *)
theory Tenancy
  imports Palai_Base
begin

text \<open>
  Tenant scopes of \<^verbatim>\<open>src/storage/tenant.go\<close> and how a pooled connection publishes them
  (\<^verbatim>\<open>PrepareConn\<close> in \<^verbatim>\<open>src/storage/embed.go\<close>).  A context is modelled by the scope value it
  carries, \<open>None\<close> for a context that was never marked.  \<open>tenant_policy\<close>, \<open>fleet_read_policy\<close> and
  \<open>fleet_write_policy\<close> are the row-level-security expressions of migration 000002, evaluated
  against the settings the connection published: every SQL statement of the later theories sees
  and changes only rows its connection's policy admits.
\<close>

section \<open>Scopes\<close>

record scope =
  sc_project :: string
  sc_system :: bool
  sc_installation :: bool

type_synonym ctx = "scope option"

definition scopeFrom :: "ctx \<Rightarrow> scope" where
  "scopeFrom ctx = (case ctx of Some s \<Rightarrow> s
     | None \<Rightarrow> \<lparr>sc_project = '''', sc_system = False, sc_installation = False\<rparr>)"

definition WithTenant :: "ctx \<Rightarrow> string \<Rightarrow> ctx" where
  "WithTenant ctx project =
     Some \<lparr>sc_project = project, sc_system = False, sc_installation = False\<rparr>"

definition WithInstallationScope :: "ctx \<Rightarrow> ctx" where
  "WithInstallationScope ctx =
     Some \<lparr>sc_project = '''', sc_system = False, sc_installation = True\<rparr>"

definition WithSystemScope :: "ctx \<Rightarrow> ctx" where
  "WithSystemScope ctx =
     Some \<lparr>sc_project = '''', sc_system = True, sc_installation = False\<rparr>"

definition ScopeToTenant :: "ctx \<Rightarrow> string \<Rightarrow> ctx" where
  "ScopeToTenant ctx project =
     (let s = scopeFrom ctx
      in if sc_system s \<or> sc_installation s \<or> sc_project s \<noteq> '''' then ctx
         else WithTenant ctx project)"

section \<open>Connections\<close>

definition ErrProjectRequired :: error where
  "ErrProjectRequired = Sentinel ''storage'' ''storage: tenant scope requires a project''"

text \<open>The two settings a connection publishes for the acquisition that borrowed it.\<close>

record conn =
  palai_project_id :: string
  palai_system :: string

definition PrepareConn :: "ctx \<Rightarrow> conn result" where
  "PrepareConn ctx =
     (let s = scopeFrom ctx
      in if sc_system s then Inr \<lparr>palai_project_id = sc_project s, palai_system = ''on''\<rparr>
         else if sc_project s = '''' \<and> \<not> sc_installation s
         then Inl (Errorf [ErrProjectRequired] ''apply tenant scope'')
         else Inr \<lparr>palai_project_id = sc_project s, palai_system = ''''\<rparr>)"

section \<open>Row-level security\<close>

definition tenant_policy :: "conn \<Rightarrow> string \<Rightarrow> bool" where
  "tenant_policy c row_project \<longleftrightarrow>
     palai_system c = ''on'' \<or> row_project = palai_project_id c \<or> row_project = ''''"

definition fleet_read_policy :: "conn \<Rightarrow> string option \<Rightarrow> bool" where
  "fleet_read_policy c row_project \<longleftrightarrow>
     palai_system c = ''on'' \<or> row_project = Some (palai_project_id c) \<or> row_project = None"

text \<open>A comparison with a NULL column is not true, so a tenant cannot write an ownerless row.\<close>

definition fleet_write_policy :: "conn \<Rightarrow> string option \<Rightarrow> bool" where
  "fleet_write_policy c row_project \<longleftrightarrow>
     palai_system c = ''on'' \<or>
     (case row_project of None \<Rightarrow> False
      | Some p \<Rightarrow> p = palai_project_id c \<or> p = '''')"

lemma PrepareConn_WithTenant:
  "PrepareConn (WithTenant ctx p) =
     (if p = '''' then Inl (Errorf [ErrProjectRequired] ''apply tenant scope'')
      else Inr \<lparr>palai_project_id = p, palai_system = ''''\<rparr>)"
  by (simp add: PrepareConn_def WithTenant_def scopeFrom_def)

lemma PrepareConn_WithSystemScope:
  "PrepareConn (WithSystemScope ctx) = Inr \<lparr>palai_project_id = '''', palai_system = ''on''\<rparr>"
  by (simp add: PrepareConn_def WithSystemScope_def scopeFrom_def)

lemma tenant_policy_system [simp]: "palai_system c = ''on'' \<Longrightarrow> tenant_policy c p"
  by (simp add: tenant_policy_def)

lemma tenant_policy_own [simp]: "tenant_policy c (palai_project_id c)"
  by (simp add: tenant_policy_def)

section \<open>Properties\<close>



end
