(* ===== verification/Durable_Jobs.thy ===== *)
theory Durable_Jobs
  imports Tenancy
begin

text \<open>
  The durable job engine of \<^verbatim>\<open>src/packages/coordinator\<close> (\<^verbatim>\<open>store.go\<close>, \<^verbatim>\<open>lease.go\<close>, \<^verbatim>\<open>worker.go\<close>) over the
  tables \<^verbatim>\<open>durable_jobs\<close>, \<^verbatim>\<open>job_attempts\<close> and \<^verbatim>\<open>outbox\<close>, with the statements of
  \<^verbatim>\<open>src/storage/queries/jobs.sql\<close>.

  Time is the database clock in microseconds; a statement reads it once.  Durations are
  nanoseconds.  Each store operation is one transaction: it takes the tables and returns its Go
  result together with the tables after commit, and the tables unchanged on every error path (the
  deferred rollback).  Rows that a concurrent transaction holds locked are given by a predicate
  \<open>locked\<close>, since the claim statements skip them.  Outcomes of the random source are arguments.
\<close>

section \<open>Rows\<close>

datatype job_status = JobQueued | JobRunning | JobCompleted | JobFailed | JobDead

record job =
  job_id :: string
  job_project :: string
  job_kind :: string
  job_status :: job_status
  lease_owner :: "string option"
  lease_expires_at :: "int option"
  job_fence :: int
  attempt_count :: int
  ready_at :: int
  job_payload :: json
  result_hash :: "string option"
  job_created_at :: int
  job_updated_at :: int

record job_attempt =
  ja_job_id :: string
  ja_fence :: int
  ja_owner :: string
  ja_outcome :: "string option"
  ja_error :: "string option"

record outbox_row =
  ob_project :: string
  ob_topic :: string
  ob_dedupe_key :: string
  ob_payload :: json

record jobs_db =
  durable_jobs :: "job list"
  job_attempts :: "job_attempt list"
  outbox :: "outbox_row list"

record Claim =
  cl_Tenant :: string
  cl_JobID :: string
  cl_Owner :: string
  cl_Fence :: int
  cl_AttemptCount :: int
  cl_LeaseExpiresAt :: int

record Snapshot =
  sn_Status :: job_status
  sn_Fence :: int
  sn_AttemptCount :: int
  sn_ResultHash :: "string option"

record RetryPolicy =
  MaxAttempts :: int
  BaseBackoff :: int
  MaxBackoff :: int

section \<open>Errors\<close>

definition ErrNoClaimableJob :: error where
  "ErrNoClaimableJob = Sentinel ''coordinator'' ''no claimable job''"

definition coordinator_ErrStaleFence :: error where
  "coordinator_ErrStaleFence = Sentinel ''coordinator'' ''lease_conflict''"

definition ErrSoftRequeue :: error where
  "ErrSoftRequeue = Sentinel ''coordinator'' ''soft_requeue''"

definition UniqueViolation :: error where
  "UniqueViolation = Sentinel ''postgres'' ''23505''"

text \<open>SQLSTATE 22021.\<close>

definition InvalidTextEncoding :: error where
  "InvalidTextEncoding = Sentinel ''postgres'' ''22021''"

definition NoRows :: error where
  "NoRows = Sentinel ''pgx'' ''no rows in result set''"

section \<open>Statements\<close>

definition Milliseconds :: "int \<Rightarrow> int" where
  "Milliseconds d = sgn d * (\<bar>d\<bar> div 1000000)"

definition deadline :: "int \<Rightarrow> int \<Rightarrow> int" where
  "deadline now ms = now + ms * 1000"

definition lease_lapsed :: "int \<Rightarrow> job \<Rightarrow> bool" where
  "lease_lapsed now j = (case lease_expires_at j of None \<Rightarrow> False | Some t \<Rightarrow> t \<le> now)"

definition claimable :: "int \<Rightarrow> job \<Rightarrow> bool" where
  "claimable now j \<longleftrightarrow> ready_at j \<le> now \<and>
     (job_status j = JobQueued \<or> job_status j = JobRunning \<and> lease_lapsed now j)"

definition EnqueueJob :: "conn \<Rightarrow> string \<Rightarrow> string \<Rightarrow> string \<Rightarrow> json \<Rightarrow> int \<Rightarrow> job list \<Rightarrow> job list result" where
  [sql_defs]: "EnqueueJob c jid project kind payload now rows =
     (if \<not> tenant_policy c project then Inl (Errorf [] ''row-level security'')
      else if jid \<in> set (map job_id rows) then Inl UniqueViolation
      else Inr (rows @ [\<lparr>job_id = jid, job_project = project, job_kind = kind,
        job_status = JobQueued, lease_owner = None, lease_expires_at = None, job_fence = 0,
        attempt_count = 0, ready_at = now, job_payload = payload, result_hash = None,
        job_created_at = now, job_updated_at = now\<rparr>]))"

definition take_lease :: "string \<Rightarrow> int \<Rightarrow> int \<Rightarrow> job \<Rightarrow> job" where
  "take_lease owner ms now j = j\<lparr>job_status := JobRunning, lease_owner := Some owner,
     lease_expires_at := Some (deadline now ms), job_fence := job_fence j + 1,
     attempt_count := attempt_count j + 1, job_updated_at := now\<rparr>"

definition ClaimJob_where :: "conn \<Rightarrow> (string \<Rightarrow> bool) \<Rightarrow> string \<Rightarrow> string \<Rightarrow> int \<Rightarrow> job \<Rightarrow> bool" where
  [sql_defs]: "ClaimJob_where c locked jid project now j \<longleftrightarrow>
     tenant_policy c (job_project j) \<and> job_id j = jid \<and> job_project j = project \<and>
     claimable now j \<and> \<not> locked (job_id j)"

text \<open>The oldest ready unlocked job; rows with equal \<open>ready_at\<close> are taken in scan order.\<close>

definition ClaimNextJob_select :: "conn \<Rightarrow> (string \<Rightarrow> bool) \<Rightarrow> int \<Rightarrow> job list \<Rightarrow> job option" where
  [sql_defs]: "ClaimNextJob_select c locked now rows =
     (case sort_key ready_at
        (filter (\<lambda>j. tenant_policy c (job_project j) \<and> claimable now j \<and> \<not> locked (job_id j)) rows)
      of [] \<Rightarrow> None | j # _ \<Rightarrow> Some j)"

definition RecordJobAttempt :: "string \<Rightarrow> int \<Rightarrow> string \<Rightarrow> job_attempt list \<Rightarrow> job_attempt list result" where
  [sql_defs]: "RecordJobAttempt jid fence owner rows =
     (if (jid, fence) \<in> set (map (\<lambda>a. (ja_job_id a, ja_fence a)) rows) then Inl UniqueViolation
      else Inr (rows @ [\<lparr>ja_job_id = jid, ja_fence = fence, ja_owner = owner,
                         ja_outcome = None, ja_error = None\<rparr>]))"

definition held_by :: "conn \<Rightarrow> string \<Rightarrow> int \<Rightarrow> string \<Rightarrow> job \<Rightarrow> bool" where
  "held_by c jid fence owner j \<longleftrightarrow>
     tenant_policy c (job_project j) \<and> job_id j = jid \<and> job_fence j = fence \<and>
     lease_owner j = Some owner \<and> job_status j = JobRunning"

definition HeartbeatJob_set :: "int \<Rightarrow> int \<Rightarrow> job \<Rightarrow> job" where
  [sql_defs]: "HeartbeatJob_set ms now j =
     j\<lparr>lease_expires_at := Some (deadline now ms), job_updated_at := now\<rparr>"

definition CompleteJob_where :: "conn \<Rightarrow> string \<Rightarrow> string \<Rightarrow> int \<Rightarrow> job \<Rightarrow> bool" where
  [sql_defs]: "CompleteJob_where c jid project fence j \<longleftrightarrow>
     tenant_policy c (job_project j) \<and> job_id j = jid \<and> job_project j = project \<and>
     job_fence j = fence \<and> lease_owner j \<noteq> None \<and> job_status j = JobRunning"

definition CompleteJob_set :: "string \<Rightarrow> int \<Rightarrow> job \<Rightarrow> job" where
  [sql_defs]: "CompleteJob_set hash now j = j\<lparr>job_status := JobCompleted, lease_owner := None,
     lease_expires_at := None, result_hash := Some hash, job_updated_at := now\<rparr>"

definition FailJob_set :: "int \<Rightarrow> int \<Rightarrow> int \<Rightarrow> job \<Rightarrow> job" where
  [sql_defs]: "FailJob_set max_attempts ms now j = j\<lparr>
     job_status := (if attempt_count j \<ge> max_attempts then JobDead else JobQueued),
     lease_owner := None, lease_expires_at := None,
     ready_at := (if attempt_count j \<ge> max_attempts then ready_at j else deadline now ms),
     job_updated_at := now\<rparr>"

definition RequeueJobSoft_set :: "int \<Rightarrow> int \<Rightarrow> job \<Rightarrow> job" where
  [sql_defs]: "RequeueJobSoft_set ms now j = j\<lparr>job_status := JobQueued, lease_owner := None,
     lease_expires_at := None, ready_at := deadline now ms,
     attempt_count := max (attempt_count j - 1) 0, job_updated_at := now\<rparr>"

text \<open>A text parameter that is not UTF-8 is refused by the server before the statement runs.\<close>

definition RecordJobOutcome :: "string \<Rightarrow> int \<Rightarrow> string \<Rightarrow> string option \<Rightarrow> job_attempt list
    \<Rightarrow> job_attempt list result" where
  [sql_defs]: "RecordJobOutcome jid fence outcome reason rows =
     (if (case reason of None \<Rightarrow> False | Some t \<Rightarrow> \<not> pg_text t) then Inl InvalidTextEncoding
      else Inr (sql_update (\<lambda>a. ja_job_id a = jid \<and> ja_fence a = fence)
                  (\<lambda>a. a\<lparr>ja_outcome := Some outcome, ja_error := reason\<rparr>) rows))"

definition EnqueueOutbox :: "string \<Rightarrow> string \<Rightarrow> string \<Rightarrow> json \<Rightarrow> outbox_row list \<Rightarrow> outbox_row list result" where
  [sql_defs]: "EnqueueOutbox project topic dedupe payload rows =
     (if (project, dedupe) \<in> set (map (\<lambda>r. (ob_project r, ob_dedupe_key r)) rows)
      then Inl UniqueViolation
      else Inr (rows @ [\<lparr>ob_project = project, ob_topic = topic, ob_dedupe_key = dedupe,
                         ob_payload = payload\<rparr>]))"

definition abandoned_where :: "conn \<Rightarrow> (string \<Rightarrow> bool) \<Rightarrow> int \<Rightarrow> int \<Rightarrow> job \<Rightarrow> bool" where
  [sql_defs]: "abandoned_where c locked max_attempts now j \<longleftrightarrow>
     tenant_policy c (job_project j) \<and> job_status j = JobRunning \<and> lease_lapsed now j \<and>
     attempt_count j \<ge> max_attempts \<and> \<not> locked (job_id j)"

definition ReclaimExpiredJobs :: "conn \<Rightarrow> (string \<Rightarrow> bool) \<Rightarrow> int \<Rightarrow> nat \<Rightarrow> int \<Rightarrow> job list \<Rightarrow> nat \<times> job list" where
  [sql_defs]: "ReclaimExpiredJobs c locked max_attempts batch now rows =
     (let abandoned = map job_id (take batch (sort_key (\<lambda>j. case lease_expires_at j of None \<Rightarrow> 0 | Some t \<Rightarrow> t)
                        (filter (abandoned_where c locked max_attempts now) rows)));
          p = (\<lambda>j. job_id j \<in> set abandoned)
      in (sql_affected p rows,
          sql_update p (\<lambda>j. j\<lparr>job_status := JobDead, lease_owner := None,
            lease_expires_at := None, job_updated_at := now\<rparr>) rows))"

section \<open>Backoff\<close>

text \<open>A \<^verbatim>\<open>time.Duration\<close> is a signed 64-bit count of nanoseconds; arithmetic on it wraps.\<close>

definition wrap64 :: "int \<Rightarrow> int" where
  "wrap64 x = signed_take_bit 63 x"

function grow_ceiling :: "int \<Rightarrow> int \<Rightarrow> int \<Rightarrow> int \<Rightarrow> int" where
  "grow_ceiling i attempt mx cur =
     (if i < attempt \<and> cur < mx then grow_ceiling (i + 1) attempt mx (wrap64 (cur * 2))
      else cur)"
  by pat_completeness auto
termination by (relation "measure (\<lambda>(i, attempt, _, _). nat (attempt - i))") auto

declare grow_ceiling.simps [simp del]

text \<open>
  \<open>rnd n\<close> is \<^verbatim>\<open>rand.Int64N(n)\<close>, which panics (\<open>None\<close>) for \<open>n \<le> 0\<close> and otherwise returns some
  value below \<open>n\<close>.
\<close>

definition FullJitterBackoff :: "(int \<Rightarrow> int) \<Rightarrow> int \<Rightarrow> int \<Rightarrow> int \<Rightarrow> int option" where
  "FullJitterBackoff rnd attempt base mx =
     (if base \<le> 0 \<or> attempt < 1 then Some 0
      else let grown = grow_ceiling 1 attempt mx base;
               top = (if mx > 0 \<and> grown > mx then mx else grown);
               n = wrap64 (top + 1)
           in if n \<le> 0 then None else Some (rnd n))"

section \<open>Failure reasons\<close>

definition jobAttemptErrorLimit :: nat where
  "jobAttemptErrorLimit = 1000"

definition ellipsis :: string where
  "ellipsis = bytes [226, 128, 166]"

text \<open>The argument is the message of the cause, \<open>None\<close> for a nil error.\<close>

definition failureReason :: "string option \<Rightarrow> string option" where
  "failureReason cause =
     (case cause of None \<Rightarrow> None
      | Some text \<Rightarrow>
          (let joined = Join (Fields text) '' '';
               msg = (if joined = '''' then ''(the handler returned an error with an empty message)''
                      else joined)
           in Some (if length msg > jobAttemptErrorLimit
                    then take jobAttemptErrorLimit msg @ ellipsis else msg)))"

section \<open>Store operations\<close>

definition Enqueue :: "ctx \<Rightarrow> string \<Rightarrow> string \<Rightarrow> string \<Rightarrow> int \<Rightarrow> 'a jobs_db_scheme
    \<Rightarrow> unit result \<times> 'a jobs_db_scheme" where
  "Enqueue ctx tenant jid kind now db =
     (if TrimSpace jid = '''' then (Inl (Errorf [] ''job ID is required''), db)
      else case bind_result (PrepareConn (ScopeToTenant ctx tenant))
                  (\<lambda>c. EnqueueJob c jid tenant kind (JObj []) now (durable_jobs db)) of
             Inl e \<Rightarrow> (Inl (Errorf [e] ''enqueue job''), db)
           | Inr rows \<Rightarrow> (Inr (), db\<lparr>durable_jobs := rows\<rparr>))"

definition grant :: "string \<Rightarrow> int \<Rightarrow> int \<Rightarrow> job \<Rightarrow> 'a jobs_db_scheme \<Rightarrow> Claim result \<times> 'a jobs_db_scheme" where
  "grant owner ms now j db =
     (let rows = sql_update (\<lambda>r. job_id r = job_id j) (take_lease owner ms now) (durable_jobs db);
          j' = take_lease owner ms now j
      in case RecordJobAttempt (job_id j') (job_fence j') owner (job_attempts db) of
           Inl e \<Rightarrow> (Inl (Errorf [e] ''record job attempt''), db)
         | Inr atts \<Rightarrow> (Inr \<lparr>cl_Tenant = job_project j', cl_JobID = job_id j', cl_Owner = owner,
               cl_Fence = job_fence j', cl_AttemptCount = attempt_count j',
               cl_LeaseExpiresAt = deadline now ms\<rparr>,
             db\<lparr>durable_jobs := rows, job_attempts := atts\<rparr>))"

definition Claim_job :: "ctx \<Rightarrow> string \<Rightarrow> string \<Rightarrow> string \<Rightarrow> int \<Rightarrow> (string \<Rightarrow> bool) \<Rightarrow> int
    \<Rightarrow> 'a jobs_db_scheme \<Rightarrow> Claim result \<times> 'a jobs_db_scheme" where
  "Claim_job ctx tenant jid owner lease locked now db =
     (if TrimSpace jid = '''' \<or> TrimSpace owner = '''' \<or> lease \<le> 0
      then (Inl (Errorf [] ''job ID, owner and positive lease are required''), db)
      else case PrepareConn (ScopeToTenant ctx tenant) of
             Inl e \<Rightarrow> (Inl (Errorf [e] ''begin claim''), db)
           | Inr c \<Rightarrow>
               (case sql_row (ClaimJob_where c locked jid tenant now) (durable_jobs db) of
                  None \<Rightarrow> (Inl ErrNoClaimableJob, db)
                | Some j \<Rightarrow> grant owner (Milliseconds lease) now j db))"

definition ClaimNext :: "ctx \<Rightarrow> string \<Rightarrow> int \<Rightarrow> (string \<Rightarrow> bool) \<Rightarrow> int
    \<Rightarrow> 'a jobs_db_scheme \<Rightarrow> (Claim \<times> json) result \<times> 'a jobs_db_scheme" where
  "ClaimNext ctx owner lease locked now db =
     (if owner = '''' \<or> lease \<le> 0
      then (Inl (Errorf [] ''owner and positive lease are required''), db)
      else case PrepareConn (WithSystemScope ctx) of
             Inl e \<Rightarrow> (Inl (Errorf [e] ''begin claim''), db)
           | Inr c \<Rightarrow>
               (case ClaimNextJob_select c locked now (durable_jobs db) of
                  None \<Rightarrow> (Inl ErrNoClaimableJob, db)
                | Some j \<Rightarrow>
                    (case grant owner (Milliseconds lease) now j db of
                       (Inl e, db') \<Rightarrow> (Inl e, db')
                     | (Inr claim, db') \<Rightarrow> (Inr (claim, job_payload j), db'))))"

definition LeaseExpired :: "ctx \<Rightarrow> string \<Rightarrow> string \<Rightarrow> int \<Rightarrow> 'a jobs_db_scheme \<Rightarrow> bool result" where
  "LeaseExpired ctx tenant jid now db =
     (case PrepareConn (ScopeToTenant ctx tenant) of
        Inl e \<Rightarrow> Inl (Errorf [e] ''read lease expiry'')
      | Inr c \<Rightarrow>
          (case sql_row (\<lambda>j. tenant_policy c (job_project j) \<and> job_id j = jid \<and> job_project j = tenant)
                  (durable_jobs db) of
             None \<Rightarrow> Inl (Errorf [NoRows] ''read lease expiry'')
           | Some j \<Rightarrow> Inr (lease_lapsed now j)))"

definition Job_Snapshot :: "ctx \<Rightarrow> string \<Rightarrow> string \<Rightarrow> 'a jobs_db_scheme \<Rightarrow> Snapshot result" where
  "Job_Snapshot ctx tenant jid db =
     (case PrepareConn (ScopeToTenant ctx tenant) of
        Inl e \<Rightarrow> Inl (Errorf [e] ''read job snapshot'')
      | Inr c \<Rightarrow>
          (case sql_row (\<lambda>j. tenant_policy c (job_project j) \<and> job_id j = jid \<and> job_project j = tenant)
                  (durable_jobs db) of
             None \<Rightarrow> Inl (Errorf [NoRows] ''read job snapshot'')
           | Some j \<Rightarrow> Inr \<lparr>sn_Status = job_status j, sn_Fence = job_fence j,
               sn_AttemptCount = attempt_count j, sn_ResultHash = result_hash j\<rparr>))"

definition Heartbeat :: "ctx \<Rightarrow> Claim \<Rightarrow> int \<Rightarrow> int \<Rightarrow> 'a jobs_db_scheme
    \<Rightarrow> int result \<times> 'a jobs_db_scheme" where
  "Heartbeat ctx claim ext now db =
     (if cl_JobID claim = '''' \<or> cl_Fence claim < 1 \<or> cl_Owner claim = '''' \<or> ext \<le> 0
      then (Inl (Errorf [] ''valid claim and positive extension are required''), db)
      else case PrepareConn (WithTenant ctx (cl_Tenant claim)) of
             Inl e \<Rightarrow> (Inl (Errorf [e] ''heartbeat job''), db)
           | Inr c \<Rightarrow>
               (let p = held_by c (cl_JobID claim) (cl_Fence claim) (cl_Owner claim)
                in case sql_row p (durable_jobs db) of
                     None \<Rightarrow> (Inl coordinator_ErrStaleFence, db)
                   | Some _ \<Rightarrow> (Inr (deadline now (Milliseconds ext)),
                       db\<lparr>durable_jobs := sql_update p (HeartbeatJob_set (Milliseconds ext) now)
                            (durable_jobs db)\<rparr>)))"

text \<open>A completion event is deduplicated by job and fence.\<close>

definition completion_key :: "string \<Rightarrow> int \<Rightarrow> string" where
  "completion_key jid fence = ''job:'' @ jid @ '':fence:'' @ FormatInt fence @ '':completed''"

definition Complete :: "ctx \<Rightarrow> Claim \<Rightarrow> string \<Rightarrow> int \<Rightarrow> 'a jobs_db_scheme
    \<Rightarrow> unit result \<times> 'a jobs_db_scheme" where
  "Complete ctx claim hash now db =
     (if cl_JobID claim = '''' \<or> cl_Fence claim < 1 \<or> hash = ''''
      then (Inl (Errorf [] ''valid claim and result hash are required''), db)
      else case PrepareConn (WithTenant ctx (cl_Tenant claim)) of
             Inl e \<Rightarrow> (Inl (Errorf [e] ''begin completion''), db)
           | Inr c \<Rightarrow>
               (let p = CompleteJob_where c (cl_JobID claim) (cl_Tenant claim) (cl_Fence claim)
                in if sql_affected p (durable_jobs db) \<noteq> 1 then (Inl coordinator_ErrStaleFence, db)
                   else case EnqueueOutbox (cl_Tenant claim) ''job.completed''
                               (completion_key (cl_JobID claim) (cl_Fence claim))
                               (JObj [(''job_id'', JStr (cl_JobID claim)), (''result_hash'', JStr hash)])
                               (outbox db) of
                          Inl e \<Rightarrow> (Inl (Errorf [e] ''insert completion outbox''), db)
                        | Inr ob \<Rightarrow> (Inr (),
                            db\<lparr>durable_jobs := sql_update p (CompleteJob_set hash now) (durable_jobs db),
                               outbox := ob\<rparr>)))"

text \<open>
  \<open>cause\<close> is the handler's error message (\<open>None\<close> for nil), \<open>rnd\<close> the random source of the
  backoff.  A panic of the random source is the error \<open>panic\<close>.
\<close>

definition panic :: error where
  "panic = Sentinel ''runtime'' ''panic''"

definition Fail :: "ctx \<Rightarrow> Claim \<Rightarrow> RetryPolicy \<Rightarrow> string option \<Rightarrow> (int \<Rightarrow> int) \<Rightarrow> int
    \<Rightarrow> 'a jobs_db_scheme \<Rightarrow> bool result \<times> 'a jobs_db_scheme" where
  "Fail ctx claim policy cause rnd now db =
     (if cl_JobID claim = '''' \<or> cl_Fence claim < 1 \<or> cl_Owner claim = ''''
      then (Inl (Errorf [] ''valid claim is required''), db)
      else if MaxAttempts policy < 1
      then (Inl (Errorf [] ''retry policy requires a positive MaxAttempts''), db)
      else case FullJitterBackoff rnd (cl_AttemptCount claim) (BaseBackoff policy) (MaxBackoff policy) of
             None \<Rightarrow> (Inl panic, db)
           | Some backoff \<Rightarrow>
        (case PrepareConn (WithTenant ctx (cl_Tenant claim)) of
           Inl e \<Rightarrow> (Inl (Errorf [e] ''begin fail''), db)
         | Inr c \<Rightarrow>
             (let p = held_by c (cl_JobID claim) (cl_Fence claim) (cl_Owner claim);
                  f = FailJob_set (MaxAttempts policy) (Milliseconds backoff) now
              in case sql_row p (durable_jobs db) of
                   None \<Rightarrow> (Inl coordinator_ErrStaleFence, db)
                 | Some j \<Rightarrow>
                     (let dead = (job_status (f j) = JobDead);
                          outcome = (if dead then ''dead'' else ''failed'')
                      in case RecordJobOutcome (cl_JobID claim) (cl_Fence claim) outcome
                                (failureReason cause) (job_attempts db) of
                           Inl e \<Rightarrow> (Inl (Errorf [e] ''record job outcome''), db)
                         | Inr atts \<Rightarrow> (Inr dead,
                             db\<lparr>durable_jobs := sql_update p f (durable_jobs db),
                                job_attempts := atts\<rparr>)))))"

text \<open>\<open>jitter\<close> is the outcome of \<^verbatim>\<open>rand.Int64N(100ms)\<close>.\<close>

definition RequeueSoft :: "ctx \<Rightarrow> Claim \<Rightarrow> int \<Rightarrow> int \<Rightarrow> 'a jobs_db_scheme
    \<Rightarrow> unit result \<times> 'a jobs_db_scheme" where
  "RequeueSoft ctx claim jitter now db =
     (if cl_JobID claim = '''' \<or> cl_Fence claim < 1 \<or> cl_Owner claim = ''''
      then (Inl (Errorf [] ''valid claim is required''), db)
      else case PrepareConn (WithTenant ctx (cl_Tenant claim)) of
             Inl e \<Rightarrow> (Inl (Errorf [e] ''soft requeue job''), db)
           | Inr c \<Rightarrow>
               (let p = held_by c (cl_JobID claim) (cl_Fence claim) (cl_Owner claim);
                    ms = Milliseconds (50000000 + jitter)
                in if sql_affected p (durable_jobs db) \<noteq> 1 then (Inl coordinator_ErrStaleFence, db)
                   else (Inr (), db\<lparr>durable_jobs :=
                           sql_update p (RequeueJobSoft_set ms now) (durable_jobs db)\<rparr>)))"

definition reclaimBatch :: nat where
  "reclaimBatch = 100"

definition ReclaimExpired :: "ctx \<Rightarrow> int \<Rightarrow> (string \<Rightarrow> bool) \<Rightarrow> int \<Rightarrow> 'a jobs_db_scheme
    \<Rightarrow> nat result \<times> 'a jobs_db_scheme" where
  "ReclaimExpired ctx max_attempts locked now db =
     (if max_attempts < 1 then (Inl (Errorf [] ''maxAttempts must be positive''), db)
      else case PrepareConn (WithSystemScope ctx) of
             Inl e \<Rightarrow> (Inl (Errorf [e] ''reclaim expired jobs''), db)
           | Inr c \<Rightarrow>
               (let (n, rows) = ReclaimExpiredJobs c locked max_attempts reclaimBatch now (durable_jobs db)
                in (Inr n, db\<lparr>durable_jobs := rows\<rparr>)))"

section \<open>The worker\<close>

record WorkerConfig =
  wc_Owner :: string
  wc_Lease :: int
  wc_Retry :: RetryPolicy

text \<open>
  What \<^verbatim>\<open>process\<close> does once the handler has returned \<open>outcome\<close>: nothing when the worker was
  canceled, otherwise a soft requeue, a failure or a completion, with a lost lease swallowed.
  The text of the handler's error, which \<open>Fail\<close> records, is \<open>msg\<close>.
\<close>

definition swallow_stale :: "'r result \<Rightarrow> unit result" where
  "swallow_stale r = (case r of Inr _ \<Rightarrow> Inr ()
     | Inl e \<Rightarrow> if errors_Is e coordinator_ErrStaleFence then Inr () else Inl e)"

definition process :: "ctx \<Rightarrow> bool \<Rightarrow> string result \<Rightarrow> string \<Rightarrow> WorkerConfig \<Rightarrow> Claim
    \<Rightarrow> (int \<Rightarrow> int) \<Rightarrow> int \<Rightarrow> int \<Rightarrow> 'a jobs_db_scheme \<Rightarrow> unit result \<times> 'a jobs_db_scheme" where
  "process ctx canceled outcome msg cfg claim rnd jitter now db =
     (if canceled then (Inl (Sentinel ''context'' ''context canceled''), db)
      else case outcome of
             Inl e \<Rightarrow>
               (if errors_Is e ErrSoftRequeue
                then let (r, db') = RequeueSoft ctx claim jitter now db in (swallow_stale r, db')
                else let (r, db') = Fail ctx claim (wc_Retry cfg) (Some msg) rnd now db
                     in (swallow_stale r, db'))
           | Inr hash \<Rightarrow>
               (let (r, db') = Complete ctx claim hash now db in (swallow_stale r, db')))"

section \<open>Live siblings\<close>

definition RunHasLiveResponseJob_exists :: "conn \<Rightarrow> string \<Rightarrow> string \<Rightarrow> string \<Rightarrow> int \<Rightarrow> job list \<Rightarrow> bool" where
  [sql_defs]: "RunHasLiveResponseJob_exists c runID project excludeJobID now rows \<longleftrightarrow>
     list_ex (\<lambda>j. tenant_policy c (job_project j) \<and> job_kind j = ''response.run'' \<and>
       json_text (job_payload j) ''run_id'' = Some runID \<and> job_project j = project \<and>
       job_id j \<noteq> excludeJobID \<and> job_status j = JobRunning \<and>
       (case lease_expires_at j of None \<Rightarrow> False | Some t \<Rightarrow> now < t)) rows"

definition RunHasLiveResponseJob :: "ctx \<Rightarrow> string \<Rightarrow> string \<Rightarrow> string \<Rightarrow> int \<Rightarrow> 'a jobs_db_scheme \<Rightarrow> bool result" where
  "RunHasLiveResponseJob ctx tenant runID excludeJobID now db =
     (case PrepareConn (ScopeToTenant ctx tenant) of
        Inl e \<Rightarrow> Inl (Errorf [e] ''read run live response job'')
      | Inr c \<Rightarrow> Inr (RunHasLiveResponseJob_exists c runID tenant excludeJobID now (durable_jobs db)))"

end
