(* ===== verification/Lease_Safety.thy ===== *)
theory Lease_Safety
  imports Durable_Jobs
begin

text \<open>
  Correctness of the durable job engine: the invariant of the job tables and that every store
  operation keeps it, the step relation of the engine, fencing, exactly-once completion, the
  retry ladder and the backoff schedule.
\<close>

section \<open>Invariant\<close>

definition job_row_ok :: "job \<Rightarrow> bool" where
  "job_row_ok j \<longleftrightarrow> 0 \<le> job_fence j \<and> 0 \<le> attempt_count j \<and>
     (job_status j = JobRunning \<longleftrightarrow> lease_owner j \<noteq> None) \<and>
     (job_status j = JobRunning \<longleftrightarrow> lease_expires_at j \<noteq> None) \<and>
     (job_status j = JobCompleted \<longleftrightarrow> result_hash j \<noteq> None)"

definition attempt_key :: "job_attempt \<Rightarrow> string \<times> int" where
  "attempt_key a = (ja_job_id a, ja_fence a)"

text \<open>An attempt in the ledger belongs to a job and was granted a fence the job has reached.\<close>

definition attempts_ok :: "job list \<Rightarrow> job_attempt list \<Rightarrow> bool" where
  "attempts_ok jobs atts \<longleftrightarrow> distinct (map attempt_key atts) \<and>
     (\<forall>a \<in> set atts. \<exists>j \<in> set jobs. job_id j = ja_job_id a \<and> ja_fence a \<le> job_fence j)"

definition completion_row :: "job \<Rightarrow> outbox_row \<Rightarrow> bool" where
  "completion_row j r \<longleftrightarrow> ob_project r = job_project j \<and>
     ob_dedupe_key r = completion_key (job_id j) (job_fence j)"

text \<open>The completed jobs are exactly those with a completion event in the outbox.\<close>

definition completions_ok :: "job list \<Rightarrow> outbox_row list \<Rightarrow> bool" where
  "completions_ok jobs ob \<longleftrightarrow>
     distinct (map (\<lambda>r. (ob_project r, ob_dedupe_key r)) ob) \<and>
     (\<forall>j \<in> set jobs. job_status j = JobCompleted \<longrightarrow> (\<exists>r \<in> set ob. completion_row j r)) \<and>
     (\<forall>r \<in> set ob. \<forall>jid f. ob_dedupe_key r = completion_key jid f \<longrightarrow>
        (\<exists>j \<in> set jobs. job_id j = jid \<and> completion_row j r \<and> job_status j = JobCompleted))"

definition jobs_ok :: "'a jobs_db_scheme \<Rightarrow> bool" where
  "jobs_ok db \<longleftrightarrow> distinct (map job_id (durable_jobs db)) \<and> list_all job_row_ok (durable_jobs db) \<and>
     attempts_ok (durable_jobs db) (job_attempts db) \<and>
     completions_ok (durable_jobs db) (outbox db)"

lemma completion_key_inject [simp]:
  "completion_key i f = completion_key j g \<longleftrightarrow> i = j \<and> f = g"
proof
  assume eq: "completion_key i f = completion_key j g"
  have split: "takeWhile (\<lambda>c. c \<noteq> CHR '':'') (rev (FormatInt x) @ CHR '':'' # t) = rev (FormatInt x)"
    for x t
    using FormatInt_no_colon [of x] by (subst takeWhile_append2) auto
  from eq have e: "rev (FormatInt f) @ CHR '':'' # ''ecnef:'' @ rev i =
      rev (FormatInt g) @ CHR '':'' # ''ecnef:'' @ rev j"
    using arg_cong [OF eq, of rev] by (simp add: completion_key_def)
  then have "rev (FormatInt f) = rev (FormatInt g)" using split by metis
  with e show "i = j \<and> f = g" by simp
qed simp

section \<open>Row relations\<close>

text \<open>
  What any statement may do to a row: keep its identity, never lower its fence, and leave a
  settled job (completed or dead) as it is.
\<close>

definition job_le :: "job \<Rightarrow> job \<Rightarrow> bool" where
  "job_le j j' \<longleftrightarrow> job_id j' = job_id j \<and> job_project j' = job_project j \<and>
     job_kind j' = job_kind j \<and> job_payload j' = job_payload j \<and> job_fence j \<le> job_fence j' \<and>
     (job_status j = JobCompleted \<or> job_status j = JobDead \<longrightarrow> j' = j)"

lemma job_le_refl [simp]: "job_le j j"
  by (simp add: job_le_def)

lemma job_le_trans: "job_le a b \<Longrightarrow> job_le b c \<Longrightarrow> job_le a c"
  by (auto simp: job_le_def)

text \<open>Every row of the first table continues to a row of the second.\<close>

definition jobs_le :: "'a jobs_db_scheme \<Rightarrow> 'a jobs_db_scheme \<Rightarrow> bool" where
  "jobs_le db db' \<longleftrightarrow> (\<forall>j \<in> set (durable_jobs db). \<exists>j' \<in> set (durable_jobs db'). job_le j j')"

lemma jobs_le_refl: "jobs_le db db"
  by (auto simp: jobs_le_def intro: job_le_refl)

lemma jobs_le_trans: "jobs_le a b \<Longrightarrow> jobs_le b c \<Longrightarrow> jobs_le a c"
  unfolding jobs_le_def by (meson job_le_trans)

definition good_update :: "(job \<Rightarrow> bool) \<Rightarrow> (job \<Rightarrow> job) \<Rightarrow> bool" where
  "good_update p f \<longleftrightarrow> (\<forall>j. p j \<longrightarrow> job_row_ok j \<longrightarrow>
     job_row_ok (f j) \<and> job_le j (f j) \<and> job_status j \<noteq> JobCompleted \<and>
     job_status (f j) \<noteq> JobCompleted)"

lemma sql_update_le:
  assumes "good_update p f" and "list_all job_row_ok rows" and "j \<in> set rows"
  shows "\<exists>j' \<in> set (sql_update p f rows). job_le j j'"
proof -
  have "(if p j then f j else j) \<in> set (sql_update p f rows)"
    using assms(3) by (auto simp: sql_update_def)
  moreover have "job_le j (if p j then f j else j)"
    using assms by (simp add: good_update_def list_all_iff)
  ultimately show ?thesis by blast
qed

lemma sql_update_row_ok:
  assumes "good_update p f" and "list_all job_row_ok rows"
  shows "list_all job_row_ok (sql_update p f rows)"
  using assms by (auto simp: list_all_iff set_sql_update good_update_def)

lemma sql_update_ids:
  assumes "good_update p f" and "list_all job_row_ok rows"
  shows "map job_id (sql_update p f rows) = map job_id rows"
  using assms by (auto simp: sql_update_def good_update_def list_all_iff job_le_def)

lemma attempts_ok_le:
  assumes "attempts_ok jobs atts" and "\<And>j. j \<in> set jobs \<Longrightarrow> \<exists>j' \<in> set jobs'. job_le j j'"
  shows "attempts_ok jobs' atts"
  unfolding attempts_ok_def
proof (intro conjI ballI)
  show "distinct (map attempt_key atts)" using assms(1) by (simp add: attempts_ok_def)
  fix a assume "a \<in> set atts"
  then obtain j where "j \<in> set jobs" "job_id j = ja_job_id a" "ja_fence a \<le> job_fence j"
    using assms(1) by (auto simp: attempts_ok_def)
  moreover from this obtain j' where "j' \<in> set jobs'" "job_le j j'" using assms(2) by blast
  ultimately show "\<exists>j \<in> set jobs'. job_id j = ja_job_id a \<and> ja_fence a \<le> job_fence j"
    by (auto simp: job_le_def intro!: bexI [of _ j'])
qed

lemma completions_ok_update:
  assumes "completions_ok rows ob" and "good_update p f" and "list_all job_row_ok rows"
  shows "completions_ok (sql_update p f rows) ob"
  unfolding completions_ok_def
proof (intro conjI ballI allI impI)
  show "distinct (map (\<lambda>r. (ob_project r, ob_dedupe_key r)) ob)"
    using assms(1) by (simp add: completions_ok_def)
next
  fix j assume "j \<in> set (sql_update p f rows)" "job_status j = JobCompleted"
  then have "j \<in> set rows" using assms(2,3)
    by (auto simp: set_sql_update good_update_def list_all_iff split: if_splits)
  with \<open>job_status j = JobCompleted\<close> assms(1) show "\<exists>r \<in> set ob. completion_row j r"
    by (auto simp: completions_ok_def)
next
  fix r jid k assume "r \<in> set ob" "ob_dedupe_key r = completion_key jid k"
  then obtain j where j: "j \<in> set rows" "job_id j = jid" "completion_row j r"
    "job_status j = JobCompleted" using assms(1) unfolding completions_ok_def by blast
  then have "\<not> p j" using assms(2,3) by (auto simp: good_update_def list_all_iff)
  with j show "\<exists>j \<in> set (sql_update p f rows). job_id j = jid \<and> completion_row j r \<and>
      job_status j = JobCompleted"
    by (auto simp: set_sql_update intro!: bexI [of _ j])
qed

lemma jobs_ok_update:
  assumes "jobs_ok db" and "good_update p f"
  shows "jobs_ok (db\<lparr>durable_jobs := sql_update p f (durable_jobs db)\<rparr>)"
    and "jobs_le db (db\<lparr>durable_jobs := sql_update p f (durable_jobs db)\<rparr>)"
  using assms sql_update_ids [of p f "durable_jobs db"] sql_update_row_ok [of p f "durable_jobs db"]
    completions_ok_update [of "durable_jobs db" "outbox db" p f]
    attempts_ok_le [of "durable_jobs db" "job_attempts db" "sql_update p f (durable_jobs db)"]
    sql_update_le [of p f "durable_jobs db"]
  by (simp_all add: jobs_ok_def jobs_le_def)

section \<open>Operations keep the invariant\<close>

lemma good_updates:
  "good_update (held_by c jid fence owner) (HeartbeatJob_set ms now)"
  "good_update (held_by c jid fence owner) (FailJob_set m ms now)"
  "good_update (held_by c jid fence owner) (RequeueJobSoft_set ms now)"
  by (auto simp: good_update_def held_by_def sql_defs job_row_ok_def job_le_def)

lemma good_take_lease:
  assumes "\<And>j. p j \<Longrightarrow> job_status j = JobQueued \<or> job_status j = JobRunning"
  shows "good_update p (take_lease owner ms now)"
  using assms by (fastforce simp: good_update_def take_lease_def job_row_ok_def job_le_def)

lemma claimable_live: "claimable now j \<Longrightarrow> job_status j = JobQueued \<or> job_status j = JobRunning"
  by (auto simp: claimable_def)

lemma grant_kept:
  assumes ok: "jobs_ok db" and j: "j \<in> set (durable_jobs db)" "claimable now j"
    and g: "grant owner ms now j db = (r, db')"
  shows "jobs_ok db' \<and> jobs_le db db'"
proof -
  let ?p = "\<lambda>x. job_id x = job_id j"
  let ?q = "\<lambda>x. x \<in> set (durable_jobs db) \<and> job_id x = job_id j"
  let ?f = "take_lease owner ms now"
  let ?rows = "sql_update ?p ?f (durable_jobs db)"
  have q: "?rows = sql_update ?q ?f (durable_jobs db)" by (simp add: sql_update_def)
  have d: "distinct (map job_id (durable_jobs db))" using ok by (simp add: jobs_ok_def)
  have "good_update ?q ?f"
    using key_unique [OF d] j claimable_live by (intro good_take_lease) blast
  with ok have u: "jobs_ok (db\<lparr>durable_jobs := ?rows\<rparr>)" "jobs_le db (db\<lparr>durable_jobs := ?rows\<rparr>)"
    unfolding q using jobs_ok_update by blast+
  have mem: "?f j \<in> set ?rows" using j(1) by (auto simp: set_sql_update intro: bexI [of _ j])
  show ?thesis
  proof (cases "RecordJobAttempt (job_id (?f j)) (job_fence (?f j)) owner (job_attempts db)")
    case (Inl e)
    with g ok show ?thesis by (auto simp: grant_def Let_def jobs_le_refl)
  next
    case (Inr atts)
    then have db': "db' = db\<lparr>durable_jobs := ?rows, job_attempts := atts\<rparr>"
      using g by (simp add: grant_def Let_def)
    have "atts = job_attempts db @ [\<lparr>ja_job_id = job_id (?f j), ja_fence = job_fence (?f j),
        ja_owner = owner, ja_outcome = None, ja_error = None\<rparr>]"
      "(job_id (?f j), job_fence (?f j)) \<notin> set (map attempt_key (job_attempts db))"
      using Inr by (auto simp: RecordJobAttempt_def attempt_key_def split: if_splits)
    moreover have "attempts_ok ?rows (job_attempts db)" using u(1) by (simp add: jobs_ok_def)
    ultimately have "attempts_ok ?rows atts"
      using mem by (auto simp: attempts_ok_def) (auto simp: attempt_key_def)
    with u db' show ?thesis by (simp add: jobs_ok_def jobs_le_def)
  qed
qed

lemma Claim_job_kept:
  assumes "jobs_ok db" and "Claim_job ctx t jid owner lease locked now db = (r, db')"
  shows "jobs_ok db' \<and> jobs_le db db'"
  using assms
  by (auto simp: Claim_job_def ClaimJob_where_def jobs_le_refl split: if_splits sum.splits option.splits
      dest!: sql_row_Some dest: grant_kept)

lemma ClaimNextJob_select_Some:
  assumes "ClaimNextJob_select c locked now rows = Some j"
  shows "j \<in> set rows \<and> tenant_policy c (job_project j) \<and> claimable now j \<and> \<not> locked (job_id j) \<and>
    (\<forall>k \<in> set rows. tenant_policy c (job_project k) \<and> claimable now k \<and> \<not> locked (job_id k) \<longrightarrow>
       ready_at j \<le> ready_at k)"
proof -
  let ?p = "\<lambda>j. tenant_policy c (job_project j) \<and> claimable now j \<and> \<not> locked (job_id j)"
  obtain rest where s: "sort_key ready_at (filter ?p rows) = j # rest"
    using assms by (auto simp: ClaimNextJob_select_def split: list.splits)
  have "sorted (map ready_at (j # rest))" using sorted_sort_key [of ready_at "filter ?p rows"] s by simp
  moreover have "set (j # rest) = set (filter ?p rows)" using s by (metis set_sort)
  ultimately show ?thesis by auto
qed

lemma ClaimNext_kept:
  assumes "jobs_ok db" and "ClaimNext ctx owner lease locked now db = (r, db')"
  shows "jobs_ok db' \<and> jobs_le db db'"
  using assms
  by (auto simp: ClaimNext_def jobs_le_refl split: if_splits sum.splits option.splits prod.splits
      dest!: ClaimNextJob_select_Some dest: grant_kept)

lemma Enqueue_kept:
  assumes ok: "jobs_ok db" and "Enqueue ctx t jid kind now db = (r, db')"
  shows "jobs_ok db' \<and> jobs_le db db'"
proof -
  define j where "j = \<lparr>job_id = jid, job_project = t, job_kind = kind,
        job_status = JobQueued, lease_owner = None, lease_expires_at = None, job_fence = 0,
        attempt_count = 0, ready_at = now, job_payload = JObj [], result_hash = None,
        job_created_at = now, job_updated_at = now\<rparr>"
  have new: "job_id j = jid" "job_row_ok j" "job_status j = JobQueued"
    by (simp_all add: job_row_ok_def j_def)
  have "db' = db \<or> db' = db\<lparr>durable_jobs := durable_jobs db @ [j]\<rparr> \<and>
      jid \<notin> job_id ` set (durable_jobs db)"
    using assms(2)
    by (simp add: Enqueue_def EnqueueJob_def bind_result_def j_def split: if_split_asm sum.splits)
  then show ?thesis
  proof (elim disjE conjE)
    assume db': "db' = db\<lparr>durable_jobs := durable_jobs db @ [j]\<rparr>"
      and fresh: "jid \<notin> job_id ` set (durable_jobs db)"
    have le: "\<exists>y \<in> set (durable_jobs db @ [j]). job_le x y" if "x \<in> set (durable_jobs db)" for x
      using that by (intro bexI [of _ x]) simp_all
    have "attempts_ok (durable_jobs db @ [j]) (job_attempts db)"
      using ok le attempts_ok_le unfolding jobs_ok_def by blast
    moreover have "completions_ok (durable_jobs db @ [j]) (outbox db)"
      using ok new(3) unfolding jobs_ok_def completions_ok_def by auto
    ultimately show ?thesis using ok db' fresh new le by (simp add: jobs_ok_def jobs_le_def)
  qed (use ok in \<open>simp add: jobs_le_refl\<close>)
qed

lemma Heartbeat_kept:
  assumes "jobs_ok db" and "Heartbeat ctx claim ext now db = (r, db')"
  shows "jobs_ok db' \<and> jobs_le db db'"
  using assms jobs_ok_update [OF assms(1) good_updates(1)]
  by (auto simp: Heartbeat_def Let_def jobs_le_refl split: if_splits sum.splits option.splits)

lemma RequeueSoft_kept:
  assumes "jobs_ok db" and "RequeueSoft ctx claim jitter now db = (r, db')"
  shows "jobs_ok db' \<and> jobs_le db db'"
  using assms jobs_ok_update [OF assms(1) good_updates(3)]
  by (auto simp: RequeueSoft_def Let_def jobs_le_refl split: if_splits sum.splits option.splits)

lemma RecordJobOutcome_ok:
  assumes "RecordJobOutcome jid fence outcome reason atts = Inr atts'" and "attempts_ok jobs atts"
  shows "attempts_ok jobs atts'"
proof -
  have k: "map attempt_key atts' = map attempt_key atts"
    using assms(1) by (auto simp: RecordJobOutcome_def sql_update_def attempt_key_def
        split: if_splits)
  have "\<exists>b \<in> set atts. attempt_key b = attempt_key a" if "a \<in> set atts'" for a
    using that k by (metis (mono_tags, lifting) imageE image_eqI list.set_map)
  with k assms(2) show ?thesis
    by (simp add: attempts_ok_def attempt_key_def) (metis prod.inject)
qed

lemma Fail_cases:
  assumes "Fail ctx claim policy cause rnd now db = (r, db')"
  shows "(\<exists>e. r = Inl e \<and> db' = db) \<or>
   (\<exists>c j b atts. PrepareConn (WithTenant ctx (cl_Tenant claim)) = Inr c \<and>
    sql_row (held_by c (cl_JobID claim) (cl_Fence claim) (cl_Owner claim)) (durable_jobs db) = Some j \<and>
    FullJitterBackoff rnd (cl_AttemptCount claim) (BaseBackoff policy) (MaxBackoff policy) = Some b \<and>
    RecordJobOutcome (cl_JobID claim) (cl_Fence claim)
       (if attempt_count j \<ge> MaxAttempts policy then ''dead'' else ''failed'')
       (failureReason cause) (job_attempts db) = Inr atts \<and>
    r = Inr (attempt_count j \<ge> MaxAttempts policy) \<and>
    db' = db\<lparr>durable_jobs := sql_update (held_by c (cl_JobID claim) (cl_Fence claim) (cl_Owner claim))
        (FailJob_set (MaxAttempts policy) (Milliseconds b) now) (durable_jobs db), job_attempts := atts\<rparr>)"
proof -
  have dead: "(job_status (FailJob_set m ms now j) = JobDead) = (attempt_count j \<ge> m)" for m ms j
    by (simp add: FailJob_set_def)
  show ?thesis
    using assms unfolding Fail_def Let_def dead
    by (simp split: if_split_asm sum.splits option.splits) metis+
qed

lemma Fail_kept:
  assumes "jobs_ok db" and "Fail ctx claim policy cause rnd now db = (r, db')"
  shows "jobs_ok db' \<and> jobs_le db db'"
  using Fail_cases [OF assms(2)]
proof (elim disjE exE conjE)
  fix c j b atts
  let ?db = "db\<lparr>durable_jobs := sql_update (held_by c (cl_JobID claim) (cl_Fence claim) (cl_Owner claim))
     (FailJob_set (MaxAttempts policy) (Milliseconds b) now) (durable_jobs db)\<rparr>"
  assume o: "RecordJobOutcome (cl_JobID claim) (cl_Fence claim)
       (if attempt_count j \<ge> MaxAttempts policy then ''dead'' else ''failed'')
       (failureReason cause) (job_attempts db) = Inr atts"
    and db': "db' = db\<lparr>durable_jobs := sql_update (held_by c (cl_JobID claim) (cl_Fence claim)
        (cl_Owner claim)) (FailJob_set (MaxAttempts policy) (Milliseconds b) now) (durable_jobs db),
        job_attempts := atts\<rparr>"
  have u: "jobs_ok ?db" "jobs_le db ?db" by (rule jobs_ok_update [OF assms(1) good_updates(2)])+
  then have "attempts_ok (durable_jobs ?db) atts"
    using RecordJobOutcome_ok [OF o] by (simp add: jobs_ok_def)
  with u db' show ?thesis by (simp add: jobs_ok_def jobs_le_def)
qed (use assms(1) in \<open>simp add: jobs_le_refl\<close>)

lemma ReclaimExpired_kept:
  assumes "jobs_ok db" and "ReclaimExpired ctx m locked now db = (r, db')"
  shows "jobs_ok db' \<and> jobs_le db db'"
proof -
  have "good_update (\<lambda>j. j \<in> set (durable_jobs db) \<and> job_id j \<in> set ids)
     (\<lambda>j. j\<lparr>job_status := JobDead, lease_owner := None, lease_expires_at := None, job_updated_at := now\<rparr>)"
    if ids: "\<forall>i \<in> set ids. \<exists>j \<in> set (durable_jobs db). job_id j = i \<and> job_status j = JobRunning" for ids
  proof -
    have "job_status j = JobRunning" if "j \<in> set (durable_jobs db)" "job_id j \<in> set ids" for j
      using that ids key_unique [of job_id "durable_jobs db"] assms(1)
      unfolding jobs_ok_def by blast
    then show ?thesis by (auto simp: good_update_def job_row_ok_def job_le_def)
  qed
  note g = jobs_ok_update [OF assms(1) this]
  have cong: "sql_update (\<lambda>j. j \<in> set (durable_jobs db) \<and> job_id j \<in> I) f (durable_jobs db) =
     sql_update (\<lambda>j. job_id j \<in> I) f (durable_jobs db)" for I f
    by (simp add: sql_update_def)
  let ?key = "\<lambda>j. case lease_expires_at j of None \<Rightarrow> 0 | Some t \<Rightarrow> t"
  have ids: "\<exists>j \<in> set (durable_jobs db). job_id j = i \<and> job_status j = JobRunning"
    if "i \<in> set (map job_id (take n (sort_key ?key
          (filter (abandoned_where c locked m now) (durable_jobs db)))))" for i n c
    using that by (auto dest!: in_set_takeD simp: abandoned_where_def)
  show ?thesis
  proof (cases "m < 1")
    case False
    let ?ids = "map job_id (take reclaimBatch (sort_key ?key (filter (abandoned_where
       \<lparr>palai_project_id = '''', palai_system = ''on''\<rparr> locked m now) (durable_jobs db))))"
    have "db' = db\<lparr>durable_jobs := sql_update (\<lambda>j. job_id j \<in> set ?ids) (\<lambda>j. j\<lparr>job_status := JobDead,
        lease_owner := None, lease_expires_at := None, job_updated_at := now\<rparr>) (durable_jobs db)\<rparr>"
      using assms(2) False
      by (simp add: ReclaimExpired_def ReclaimExpiredJobs_def Let_def PrepareConn_WithSystemScope)
    then show ?thesis using g [unfolded cong, of ?ids] ids by blast
  qed (use assms in \<open>simp add: ReclaimExpired_def jobs_le_refl\<close>)
qed

lemma Complete_cases:
  assumes "Complete ctx claim hash now db = (r, db')"
  shows "(\<exists>e. r = Inl e \<and> db' = db) \<or>
   (\<exists>c ob. PrepareConn (WithTenant ctx (cl_Tenant claim)) = Inr c \<and> r = Inr () \<and>
    sql_affected (CompleteJob_where c (cl_JobID claim) (cl_Tenant claim) (cl_Fence claim)) (durable_jobs db) = 1 \<and>
    EnqueueOutbox (cl_Tenant claim) ''job.completed'' (completion_key (cl_JobID claim) (cl_Fence claim))
      (JObj [(''job_id'', JStr (cl_JobID claim)), (''result_hash'', JStr hash)]) (outbox db) = Inr ob \<and>
    db' = db\<lparr>durable_jobs := sql_update (CompleteJob_where c (cl_JobID claim) (cl_Tenant claim)
       (cl_Fence claim)) (CompleteJob_set hash now) (durable_jobs db), outbox := ob\<rparr>)"
  using assms unfolding Complete_def Let_def
  by (simp split: if_split_asm sum.splits) metis+

lemma EnqueueOutbox_Inr:
  assumes "EnqueueOutbox project topic key payload rows = Inr rows'"
  shows "rows' = rows @ [\<lparr>ob_project = project, ob_topic = topic, ob_dedupe_key = key, ob_payload = payload\<rparr>]
    \<and> (project, key) \<notin> set (map (\<lambda>r. (ob_project r, ob_dedupe_key r)) rows)"
  using assms by (simp add: EnqueueOutbox_def split: if_split_asm)

lemma CompleteJob_le: "CompleteJob_where c i t f j \<Longrightarrow> job_le j (CompleteJob_set h now j)"
  by (auto simp: sql_defs job_le_def)

lemma completions_ok_complete:
  assumes ok: "completions_ok rows ob" and j: "j \<in> set rows" "CompleteJob_where c i t f j"
    and ob: "ob' = ob @ [r]" "(ob_project r, ob_dedupe_key r) \<notin> set (map (\<lambda>r. (ob_project r, ob_dedupe_key r)) ob)"
    and r: "ob_project r = t" "ob_dedupe_key r = completion_key i f"
  shows "completions_ok (sql_update (CompleteJob_where c i t f) (CompleteJob_set h now) rows) ob'"
    (is "completions_ok ?rows' ob'")
  unfolding completions_ok_def
proof (intro conjI ballI allI impI)
  show "distinct (map (\<lambda>r. (ob_project r, ob_dedupe_key r)) ob')"
    using ok ob by (simp add: completions_ok_def)
next
  fix k assume k: "k \<in> set ?rows'" "job_status k = JobCompleted"
  then obtain x where x: "x \<in> set rows"
    "k = (if CompleteJob_where c i t f x then CompleteJob_set h now x else x)"
    by (auto simp: set_sql_update)
  show "\<exists>r \<in> set ob'. completion_row k r"
  proof (cases "CompleteJob_where c i t f x")
    case True
    then have "completion_row k r" using x(2) r by (auto simp: completion_row_def sql_defs)
    with ob(1) show ?thesis by simp
  next
    case False
    with x k ok have "\<exists>r \<in> set ob. completion_row k r" by (simp add: completions_ok_def)
    with ob(1) show ?thesis by auto
  qed
next
  fix s jid g assume s: "s \<in> set ob'" "ob_dedupe_key s = completion_key jid g"
  show "\<exists>k \<in> set ?rows'. job_id k = jid \<and> completion_row k s \<and> job_status k = JobCompleted"
  proof (cases "s = r")
    case True
    have "CompleteJob_set h now j \<in> set ?rows'" using j by (auto simp: set_sql_update)
    with True s r j show ?thesis
      by (intro bexI [of _ "CompleteJob_set h now j"]) (auto simp: completion_row_def sql_defs)
  next
    case False
    with s ob(1) have "s \<in> set ob" by simp
    with s ok obtain k where k: "k \<in> set rows" "job_id k = jid" "completion_row k s"
      "job_status k = JobCompleted" unfolding completions_ok_def by blast
    then have "k \<in> set ?rows'" by (auto simp: set_sql_update sql_defs intro: bexI [of _ k])
    with k show ?thesis by blast
  qed
qed

lemma Complete_kept:
  assumes ok: "jobs_ok db" and "Complete ctx claim hash now db = (r, db')"
  shows "jobs_ok db' \<and> jobs_le db db'"
  using Complete_cases [OF assms(2)]
proof (elim disjE exE conjE)
  fix c ob
  let ?p = "CompleteJob_where c (cl_JobID claim) (cl_Tenant claim) (cl_Fence claim)"
  let ?rows = "sql_update ?p (CompleteJob_set hash now) (durable_jobs db)"
  let ?row = "\<lparr>ob_project = cl_Tenant claim, ob_topic = ''job.completed'',
     ob_dedupe_key = completion_key (cl_JobID claim) (cl_Fence claim),
     ob_payload = JObj [(''job_id'', JStr (cl_JobID claim)), (''result_hash'', JStr hash)]\<rparr>"
  assume one: "sql_affected ?p (durable_jobs db) = 1"
    and e: "EnqueueOutbox (cl_Tenant claim) ''job.completed'' (completion_key (cl_JobID claim) (cl_Fence claim))
      (JObj [(''job_id'', JStr (cl_JobID claim)), (''result_hash'', JStr hash)]) (outbox db) = Inr ob"
    and db': "db' = db\<lparr>durable_jobs := ?rows, outbox := ob\<rparr>"
  obtain j where j: "j \<in> set (durable_jobs db)" "?p j" using sql_affected_1_ex [OF one] by blast
  have c: "completions_ok ?rows ob"
    using EnqueueOutbox_Inr [OF e] ok j
    by (intro completions_ok_complete [where ob = "outbox db" and r = ?row]) (auto simp: jobs_ok_def)
  have le: "\<exists>y \<in> set ?rows. job_le x y" if "x \<in> set (durable_jobs db)" for x
    using that CompleteJob_le
    by (intro bexI [of _ "if ?p x then CompleteJob_set hash now x else x"]) (auto simp: sql_update_def)
  have "job_row_ok (CompleteJob_set hash now x)" if "job_row_ok x" for x
    using that by (simp add: job_row_ok_def CompleteJob_set_def)
  then have "list_all job_row_ok ?rows"
    using ok by (auto simp: jobs_ok_def list_all_iff set_sql_update)
  moreover have "map job_id ?rows = map job_id (durable_jobs db)"
    by (rule map_sql_update_key) (simp add: CompleteJob_set_def)
  moreover have "attempts_ok ?rows (job_attempts db)"
    using ok le attempts_ok_le unfolding jobs_ok_def by blast
  ultimately show ?thesis using c le ok db' by (simp add: jobs_ok_def jobs_le_def)
qed (use ok in \<open>simp add: jobs_le_refl\<close>)

section \<open>The engine as a transition system\<close>

text \<open>One committed or failed store operation, by any caller, at any time.\<close>

inductive job_step :: "'a jobs_db_scheme \<Rightarrow> 'a jobs_db_scheme \<Rightarrow> bool" where
  enqueue: "Enqueue ctx t jid kind now db = (r, db') \<Longrightarrow> job_step db db'"
| claim: "Claim_job ctx t jid owner lease locked now db = (rc, db') \<Longrightarrow> job_step db db'"
| claim_next: "ClaimNext ctx owner lease locked now db = (rn, db') \<Longrightarrow> job_step db db'"
| heartbeat: "Heartbeat ctx cl ext now db = (rh, db') \<Longrightarrow> job_step db db'"
| complete: "Complete ctx cl hash now db = (r, db') \<Longrightarrow> job_step db db'"
| fail: "Fail ctx cl policy cause rnd now db = (rf, db') \<Longrightarrow> job_step db db'"
| requeue_soft: "RequeueSoft ctx cl jitter now db = (r, db') \<Longrightarrow> job_step db db'"
| reclaim: "ReclaimExpired ctx m locked now db = (rr, db') \<Longrightarrow> job_step db db'"

lemmas operations_kept = Enqueue_kept Claim_job_kept ClaimNext_kept Heartbeat_kept Complete_kept
  Fail_kept RequeueSoft_kept ReclaimExpired_kept

lemma job_step_kept: "job_step db db' \<Longrightarrow> jobs_ok db \<Longrightarrow> jobs_ok db' \<and> jobs_le db db'"
  by (induction rule: job_step.induct) (rule operations_kept, assumption+)+

interpretation engine: monotone_system job_step jobs_ok jobs_le
  by unfold_locales (auto dest: job_step_kept jobs_le_trans intro: jobs_le_refl)

definition no_jobs :: "'a jobs_db_scheme \<Rightarrow> bool" where
  "no_jobs db \<longleftrightarrow> durable_jobs db = [] \<and> job_attempts db = [] \<and> outbox db = []"

lemma no_jobs_ok: "no_jobs db \<Longrightarrow> jobs_ok db"
  by (simp add: no_jobs_def jobs_ok_def attempts_ok_def completions_ok_def)

section \<open>Grants\<close>

text \<open>A worker obtains a claim, for a named job or for the oldest ready one.\<close>

inductive granted :: "'a jobs_db_scheme \<Rightarrow> Claim \<Rightarrow> 'a jobs_db_scheme \<Rightarrow> bool" where
  by_id: "Claim_job ctx t jid owner lease locked now db = (Inr cl, db') \<Longrightarrow> granted db cl db'"
| by_age: "ClaimNext ctx owner lease locked now db = (Inr (cl, payload), db') \<Longrightarrow> granted db cl db'"

lemma granted_step: "granted db cl db' \<Longrightarrow> job_step db db'"
  by (induction rule: granted.induct) (blast intro: job_step.intros)+


definition claim_of :: "job \<Rightarrow> string \<Rightarrow> int \<Rightarrow> int \<Rightarrow> Claim" where
  "claim_of j owner ms now = \<lparr>cl_Tenant = job_project j, cl_JobID = job_id j, cl_Owner = owner,
     cl_Fence = job_fence j + 1, cl_AttemptCount = attempt_count j + 1,
     cl_LeaseExpiresAt = deadline now ms\<rparr>"

text \<open>The ledger never holds the fence that the next grant hands out.\<close>

lemma next_fence_fresh:
  assumes "jobs_ok db" and "j \<in> set (durable_jobs db)" and "a \<in> set (job_attempts db)"
    and "ja_job_id a = job_id j"
  shows "ja_fence a \<le> job_fence j"
proof -
  obtain k where "k \<in> set (durable_jobs db)" "job_id k = ja_job_id a" "ja_fence a \<le> job_fence k"
    using assms by (auto simp: jobs_ok_def attempts_ok_def)
  moreover from this assms have "k = j" using key_unique unfolding jobs_ok_def by metis
  ultimately show ?thesis by simp
qed

lemma grant_succeeds:
  assumes "jobs_ok db" and "j \<in> set (durable_jobs db)"
  shows "grant owner ms now j db = (Inr (claim_of j owner ms now),
    db\<lparr>durable_jobs := sql_update (\<lambda>r. job_id r = job_id j) (take_lease owner ms now) (durable_jobs db),
       job_attempts := job_attempts db @ [\<lparr>ja_job_id = job_id j, ja_fence = job_fence j + 1,
         ja_owner = owner, ja_outcome = None, ja_error = None\<rparr>]\<rparr>)"
proof -
  have "(job_id j, job_fence j + 1) \<notin> set (map (\<lambda>a. (ja_job_id a, ja_fence a)) (job_attempts db))"
    using next_fence_fresh [OF assms] by fastforce
  then show ?thesis
    by (simp add: grant_def RecordJobAttempt_def take_lease_def claim_of_def Let_def)
qed

lemma granted_row:
  assumes ok: "jobs_ok db" and "granted db cl db'"
  obtains j owner ms now where "j \<in> set (durable_jobs db)" "claimable now j" "owner \<noteq> ''''"
    "cl = claim_of j owner ms now"
    "durable_jobs db' = sql_update (\<lambda>r. job_id r = job_id j) (take_lease owner ms now) (durable_jobs db)"
proof -
  from assms(2) obtain j owner ms now where "j \<in> set (durable_jobs db)" "claimable now j" "owner \<noteq> ''''"
    and "grant owner ms now j db = (Inr cl, db')"
  proof (induction rule: granted.cases)
    case (by_id ctx t jid owner lease locked now)
    then show ?thesis
      by (auto simp: Claim_job_def ClaimJob_where_def split: if_splits sum.splits option.splits
          dest!: sql_row_Some TrimSpace_nonempty)
  next
    case (by_age ctx owner lease locked now payload)
    then show ?thesis
      by (auto simp: ClaimNext_def split: if_splits sum.splits option.splits prod.splits
          dest!: ClaimNextJob_select_Some)
  qed
  with grant_succeeds [OF ok] that show ?thesis by auto
qed

lemma granted_new_row:
  assumes "jobs_ok db" and "granted db cl db'"
  obtains j where "j \<in> set (durable_jobs db')" "job_id j = cl_JobID cl" "job_fence j = cl_Fence cl"
    "job_project j = cl_Tenant cl"
proof -
  obtain j owner ms now where j: "j \<in> set (durable_jobs db)" "cl = claim_of j owner ms now"
    "durable_jobs db' = sql_update (\<lambda>r. job_id r = job_id j) (take_lease owner ms now) (durable_jobs db)"
    using granted_row [OF assms] by metis
  then have "take_lease owner ms now j \<in> set (durable_jobs db')" by (auto simp: set_sql_update)
  with j(2) that show ?thesis by (simp add: take_lease_def claim_of_def)
qed

section \<open>Stale holders\<close>

lemma stale_none_held:
  assumes "\<forall>j \<in> set rows. job_id j = cl_JobID cl \<longrightarrow> job_fence j \<noteq> cl_Fence cl"
  shows "sql_row (held_by c (cl_JobID cl) (cl_Fence cl) owner) rows = None"
    "sql_affected (held_by c (cl_JobID cl) (cl_Fence cl) owner) rows = 0"
    "sql_affected (CompleteJob_where c (cl_JobID cl) t (cl_Fence cl)) rows = 0"
  using assms by (auto simp: sql_row_None sql_affected_0 held_by_def CompleteJob_where_def)

lemma fence_passed:
  assumes "jobs_ok db" and "granted db new db'" and "job_step\<^sup>*\<^sup>* db' db''"
    and "j \<in> set (durable_jobs db'')" and "job_id j = cl_JobID new"
  shows "cl_Fence new \<le> job_fence j"
proof -
  have ok': "jobs_ok db'" using engine.step_inv assms granted_step by blast
  then have ok'': "jobs_ok db''" using engine.reach_inv assms(3) by blast
  obtain k where k: "k \<in> set (durable_jobs db')" "job_id k = cl_JobID new" "job_fence k = cl_Fence new"
    using granted_new_row [OF assms(1,2)] by metis
  then obtain k' where "k' \<in> set (durable_jobs db'')" "job_le k k'"
    using engine.reach_le [OF assms(3) ok'] by (auto simp: jobs_le_def)
  moreover from this assms k ok'' have "k' = j"
    using key_unique unfolding jobs_ok_def job_le_def by metis
  ultimately show ?thesis using k by (simp add: job_le_def)
qed

lemma fence_increases:
  assumes "jobs_ok db0" and "granted db0 old db1" and "job_step\<^sup>*\<^sup>* db1 db2" and "granted db2 new db3"
    and "cl_JobID new = cl_JobID old"
  shows "1 \<le> cl_Fence old" and "cl_Fence old < cl_Fence new"
proof -
  have ok2: "jobs_ok db2"
    using assms engine.step_inv engine.reach_inv granted_step by metis
  obtain j owner ms now where j: "j \<in> set (durable_jobs db2)" "new = claim_of j owner ms now"
    using granted_row [OF ok2 assms(4)] by metis
  with assms fence_passed [OF assms(1,2,3), of j] show "cl_Fence old < cl_Fence new"
    by (simp add: claim_of_def)
  obtain k owner ms now where "k \<in> set (durable_jobs db0)" "old = claim_of k owner ms now"
    using granted_row [OF assms(1,2)] by metis
  with assms(1) show "1 \<le> cl_Fence old"
    by (auto simp: claim_of_def jobs_ok_def list_all_iff job_row_ok_def)
qed

section \<open>Backoff\<close>

lemma wrap64_id: "- (2 ^ 63) \<le> x \<Longrightarrow> x < 2 ^ 63 \<Longrightarrow> wrap64 x = x"
  by (simp add: wrap64_def signed_take_bit_int_eq_self_iff)

lemma grow_ceiling_min:
  assumes "0 < cur" "cur < 2 ^ 63" "0 < mx" "mx \<le> 2 ^ 62"
  shows "0 < grow_ceiling i a mx cur \<and> grow_ceiling i a mx cur < 2 ^ 63 \<and>
    min mx (grow_ceiling i a mx cur) = min mx (cur * 2 ^ nat (a - i))"
  using assms
proof (induction i a mx cur rule: grow_ceiling.induct)
  case (1 i a mx cur)
  show ?case
  proof (cases "i < a \<and> cur < mx")
    case True
    have w: "wrap64 (cur * 2) = cur * 2" using True "1.prems" by (intro wrap64_id) simp_all
    have "nat (a - i) = Suc (nat (a - (i + 1)))" using True by linarith
    then have "cur * 2 ^ nat (a - i) = (cur * 2) * 2 ^ nat (a - (i + 1))" by simp
    with True "1.IH" "1.prems" w show ?thesis
      by (subst (1 2 3) grow_ceiling.simps) simp
  next
    case False
    have "mx \<le> cur * 2 ^ nat (a - i)" if "mx \<le> cur"
      using that "1.prems" by (smt (verit, best) mult_le_cancel_left1 one_le_power)
    with False "1.prems" show ?thesis
      by (subst (1 2 3) grow_ceiling.simps) (auto simp: min_def)
  qed
qed

text \<open>
  The backoff schedule is full jitter: with a cap of at most \<open>2^62\<close> nanoseconds the
  returned duration lies between zero and the smaller of the cap and the base doubled once for
  every attempt after the first, for every attempt number, without overflow and without a panic.
\<close>

theorem backoff_bounds:
  assumes rnd: "\<forall>n > 0. 0 \<le> rnd n \<and> rnd n < n"
    and "1 \<le> attempt" "0 < base" "base < 2 ^ 63" "0 < mx" "mx \<le> 2 ^ 62"
  shows "\<exists>d. FullJitterBackoff rnd attempt base mx = Some d \<and> 0 \<le> d \<and>
    d \<le> min mx (base * 2 ^ nat (attempt - 1))"
proof -
  let ?g = "grow_ceiling 1 attempt mx base"
  have g: "0 < ?g" "min mx ?g = min mx (base * 2 ^ nat (attempt - 1))"
    using grow_ceiling_min [of base mx 1 attempt] assms by simp_all
  define top where "top = min mx ?g"
  have top: "0 < top" "top \<le> 2 ^ 62" "top = (if 0 < mx \<and> mx < ?g then mx else ?g)"
    using g(1) assms by (auto simp: top_def min_def)
  then have "wrap64 (top + 1) = top + 1" by (intro wrap64_id) simp_all
  then have "FullJitterBackoff rnd attempt base mx = Some (rnd (top + 1))"
    using assms top by (simp add: FullJitterBackoff_def Let_def)
  moreover have "0 \<le> rnd (top + 1) \<and> rnd (top + 1) < top + 1" using rnd [rule_format, of "top + 1"] top(1) by simp
  ultimately show ?thesis using g(2) top_def by auto
qed

theorem backoff_bounds_witness:
  "\<exists>d. FullJitterBackoff (\<lambda>n. n div 2) 4 1000000000 30000000000 = Some d \<and> 0 \<le> d \<and>
     d \<le> min 30000000000 (1000000000 * 2 ^ nat (4 - 1))"
  by (rule backoff_bounds) auto

text \<open>
  Without such a cap the schedule does overflow: at one second base and the largest
  duration as cap, the thirty-fifth attempt doubles into a negative ceiling and the random source
  panics, and from the fifty-sixth attempt on the ceiling is zero and the retry is immediate.
\<close>

theorem backoff_overflows:
  "FullJitterBackoff rnd 35 1000000000 (2 ^ 63 - 1) = None \<and>
   FullJitterBackoff rnd 56 1000000000 (2 ^ 63 - 1) = Some (rnd 1)"
proof -
  have "grow_ceiling 1 35 (2 ^ 63 - 1) 1000000000 = - 1266874889709551616" by code_simp
  moreover have "grow_ceiling 1 56 (2 ^ 63 - 1) 1000000000 = 0" by code_simp
  moreover have "wrap64 (- 1266874889709551615) = - 1266874889709551615" "wrap64 1 = 1"
    by (rule wrap64_id; simp)+
  ultimately show ?thesis by (simp add: FullJitterBackoff_def Let_def)
qed

section \<open>Properties\<close>

text \<open>
  From empty tables, any sequence of store operations by any callers keeps the invariant of
  the job tables: unique ids; a lease owner and deadline exactly on running jobs; a result hash
  exactly on completed ones; one ledger entry per job and fence, at a fence the job has
  reached; and completed jobs exactly those with a completion event in the outbox.
\<close>

theorem jobs_invariant:
  assumes "no_jobs db" and "job_step\<^sup>*\<^sup>* db db'"
  shows "jobs_ok db'"
  using engine.reach_inv assms no_jobs_ok by blast

definition sample_jobs :: jobs_db where
  "sample_jobs = snd (Enqueue (WithTenant None ''p'') ''p'' ''j'' ''response.run'' 0
     \<lparr>durable_jobs = [], job_attempts = [], outbox = []\<rparr>)"

lemma sample_jobs_step:
  "job_step\<^sup>*\<^sup>* \<lparr>durable_jobs = [], job_attempts = [], outbox = []\<rparr> sample_jobs"
  unfolding sample_jobs_def by (rule r_into_rtranclp, rule job_step.enqueue, rule prod.collapse [symmetric])

lemma sample_jobs_eval:
  "sample_jobs = \<lparr>durable_jobs = [\<lparr>job_id = ''j'', job_project = ''p'', job_kind = ''response.run'',
     job_status = JobQueued, lease_owner = None, lease_expires_at = None, job_fence = 0,
     attempt_count = 0, ready_at = 0, job_payload = JObj [], result_hash = None,
     job_created_at = 0, job_updated_at = 0\<rparr>], job_attempts = [], outbox = []\<rparr>"
  by (simp add: sample_jobs_def Enqueue_def EnqueueJob_def TrimSpace_visible visible_def WithTenant_def
      ScopeToTenant_def scopeFrom_def PrepareConn_def tenant_policy_def)

theorem jobs_invariant_witness: "jobs_ok sample_jobs \<and> length (durable_jobs sample_jobs) = 1"
  using jobs_invariant [OF _ sample_jobs_step] by (simp add: no_jobs_def sample_jobs_eval)

lemma sample_jobs_ok: "jobs_ok sample_jobs"
  by (simp add: sample_jobs_eval jobs_ok_def job_row_ok_def attempts_ok_def completions_ok_def)

lemma swallow_stale_fence [simp]: "swallow_stale (Inl coordinator_ErrStaleFence) = Inr ()"
  by (simp add: swallow_stale_def coordinator_ErrStaleFence_def)

text \<open>
  C2. Fencing.  Once a later grant of the same job exists, the earlier claim is inert for good:
  its fence is strictly lower, and heartbeat, completion, failure and soft requeue under it
  return the stale-fence error and change nothing, whatever ran in between.  The worker loop
  treats the outcome as done and changes nothing either.
\<close>

theorem superseded_claim_is_inert:
  assumes "jobs_ok db0" and "granted db0 old db1" and "job_step\<^sup>*\<^sup>* db1 db2"
    and "granted db2 new db3" and "job_step\<^sup>*\<^sup>* db3 db4" and "cl_JobID new = cl_JobID old"
    and "cl_Tenant old \<noteq> ''''" and "cl_JobID old \<noteq> ''''"
    and "0 < ext" and "hash \<noteq> ''''" and "1 \<le> MaxAttempts (wc_Retry cfg)"
    and "FullJitterBackoff rnd (cl_AttemptCount old) (BaseBackoff (wc_Retry cfg)) (MaxBackoff (wc_Retry cfg)) \<noteq> None"
    and "outcome \<noteq> Inr ''''"
  shows "cl_Fence old < cl_Fence new \<and>
    Heartbeat ctx old ext now db4 = (Inl coordinator_ErrStaleFence, db4) \<and>
    Complete ctx old hash now db4 = (Inl coordinator_ErrStaleFence, db4) \<and>
    Fail ctx old (wc_Retry cfg) cause rnd now db4 = (Inl coordinator_ErrStaleFence, db4) \<and>
    RequeueSoft ctx old jitter now db4 = (Inl coordinator_ErrStaleFence, db4) \<and>
    process ctx False outcome msg cfg old rnd jitter now db4 = (Inr (), db4)"
proof (intro conjI)
  show lt: "cl_Fence old < cl_Fence new" using fence_increases assms by blast
  have ge: "1 \<le> cl_Fence old" using fence_increases assms by blast
  have ok2: "jobs_ok db2" using assms engine.step_inv engine.reach_inv granted_step by metis
  have "\<forall>j \<in> set (durable_jobs db4). job_id j = cl_JobID old \<longrightarrow> job_fence j \<noteq> cl_Fence old"
    using fence_passed [OF ok2 assms(4,5)] lt assms(6) by force
  note none = stale_none_held [OF this]
  have own: "cl_Owner old \<noteq> ''''"
    using granted_row [OF assms(1,2)] by (metis Claim.select_convs(3) claim_of_def)
  show hb: "Heartbeat ctx old ext now db4 = (Inl coordinator_ErrStaleFence, db4)"
    using assms ge own none by (simp add: Heartbeat_def PrepareConn_WithTenant)
  have co: "Complete ctx old h now db4 = (Inl coordinator_ErrStaleFence, db4)" if "h \<noteq> ''''" for h
    using that assms ge none by (simp add: Complete_def PrepareConn_WithTenant)
  then show "Complete ctx old hash now db4 = (Inl coordinator_ErrStaleFence, db4)" using assms by blast
  have fa: "Fail ctx old (wc_Retry cfg) z rnd now db4 = (Inl coordinator_ErrStaleFence, db4)" for z
    using assms(7-12) ge own none by (auto simp: Fail_def PrepareConn_WithTenant)
  show "Fail ctx old (wc_Retry cfg) cause rnd now db4 = (Inl coordinator_ErrStaleFence, db4)" by (rule fa)
  show rs: "RequeueSoft ctx old jitter now db4 = (Inl coordinator_ErrStaleFence, db4)"
    using assms ge own none by (simp add: RequeueSoft_def PrepareConn_WithTenant)
  show "process ctx False outcome msg cfg old rnd jitter now db4 = (Inr (), db4)"
  proof (cases outcome)
    case (Inl e)
    with fa rs show ?thesis by (simp add: process_def)
  next
    case (Inr h)
    with co assms(13) show ?thesis by (simp add: process_def)
  qed
qed

text \<open>A first worker claims the sample job for a second; a second worker takes it over after three.\<close>

definition sample_first :: "Claim result \<times> jobs_db" where
  "sample_first = Claim_job (WithTenant None ''p'') ''p'' ''j'' ''w1'' 1000000000 (\<lambda>_. False) 0 sample_jobs"

definition sample_second :: "Claim result \<times> jobs_db" where
  "sample_second = Claim_job (WithTenant None ''p'') ''p'' ''j'' ''w2'' 1000000000 (\<lambda>_. False) 3000000
     (snd sample_first)"

lemma sample_texts: "TrimSpace ''j'' = ''j''" "TrimSpace ''w1'' = ''w1''" "TrimSpace ''w2'' = ''w2''"
  by (simp_all add: TrimSpace_visible visible_def)

lemma sample_first_eval:
  "sample_first = (Inr \<lparr>cl_Tenant = ''p'', cl_JobID = ''j'', cl_Owner = ''w1'', cl_Fence = 1,
     cl_AttemptCount = 1, cl_LeaseExpiresAt = 1000000\<rparr>,
   \<lparr>durable_jobs = [\<lparr>job_id = ''j'', job_project = ''p'', job_kind = ''response.run'',
     job_status = JobRunning, lease_owner = Some ''w1'', lease_expires_at = Some 1000000, job_fence = 1,
     attempt_count = 1, ready_at = 0, job_payload = JObj [], result_hash = None,
     job_created_at = 0, job_updated_at = 0\<rparr>],
     job_attempts = [\<lparr>ja_job_id = ''j'', ja_fence = 1, ja_owner = ''w1'', ja_outcome = None,
       ja_error = None\<rparr>], outbox = []\<rparr>)"
  by (simp add: sample_first_def sample_jobs_eval Claim_job_def sample_texts ScopeToTenant_def
      scopeFrom_def WithTenant_def PrepareConn_def ClaimJob_where_def claimable_def sql_row_def
      tenant_policy_def grant_def take_lease_def sql_update_def RecordJobAttempt_def Milliseconds_def
      deadline_def)

lemma sample_claims:
  "fst sample_first = Inr \<lparr>cl_Tenant = ''p'', cl_JobID = ''j'', cl_Owner = ''w1'', cl_Fence = 1,
     cl_AttemptCount = 1, cl_LeaseExpiresAt = 1000000\<rparr>"
  "fst sample_second = Inr \<lparr>cl_Tenant = ''p'', cl_JobID = ''j'', cl_Owner = ''w2'', cl_Fence = 2,
     cl_AttemptCount = 2, cl_LeaseExpiresAt = 4000000\<rparr>"
  by (simp_all add: sample_first_eval sample_second_def Claim_job_def sample_texts ScopeToTenant_def
      scopeFrom_def WithTenant_def PrepareConn_def ClaimJob_where_def claimable_def sql_row_def
      tenant_policy_def grant_def take_lease_def sql_update_def RecordJobAttempt_def Milliseconds_def
      deadline_def lease_lapsed_def)

lemma granted_result:
  "fst (Claim_job ctx t jid owner lease locked now db) = Inr cl \<Longrightarrow>
   granted db cl (snd (Claim_job ctx t jid owner lease locked now db))"
  by (rule granted.by_id) (rule prod_eqI, simp_all)

lemma sample_granted:
  "granted sample_jobs \<lparr>cl_Tenant = ''p'', cl_JobID = ''j'', cl_Owner = ''w1'', cl_Fence = 1,
     cl_AttemptCount = 1, cl_LeaseExpiresAt = 1000000\<rparr> (snd sample_first)"
  "granted (snd sample_first) \<lparr>cl_Tenant = ''p'', cl_JobID = ''j'', cl_Owner = ''w2'', cl_Fence = 2,
     cl_AttemptCount = 2, cl_LeaseExpiresAt = 4000000\<rparr> (snd sample_second)"
  by (rule granted_result [OF sample_claims(1) [unfolded sample_first_def], folded sample_first_def],
      rule granted_result [OF sample_claims(2) [unfolded sample_second_def], folded sample_second_def])

theorem superseded_claim_is_inert_witness:
  "Complete None \<lparr>cl_Tenant = ''p'', cl_JobID = ''j'', cl_Owner = ''w1'', cl_Fence = 1,
     cl_AttemptCount = 1, cl_LeaseExpiresAt = 1000000\<rparr> ''h'' 5000000 (snd sample_second)
   = (Inl coordinator_ErrStaleFence, snd sample_second)"
  using superseded_claim_is_inert [OF sample_jobs_ok sample_granted(1) rtranclp.rtrancl_refl
      sample_granted(2) rtranclp.rtrancl_refl, of 1 "''h''"
      "\<lparr>wc_Owner = ''w1'', wc_Lease = 1, wc_Retry = \<lparr>MaxAttempts = 5, BaseBackoff = 0, MaxBackoff = 0\<rparr>\<rparr>"
      "\<lambda>_. 0" "Inr ''h''" None 5000000]
  by (simp add: FullJitterBackoff_def)

text \<open>
  Exactly-once completion.  In every reachable state a job has exactly one completion event
  in the outbox when it is completed and none otherwise, under whatever fences it was claimed; and
  a completed or dead-lettered row is never changed again by any operation.
\<close>

theorem completed_exactly_once:
  assumes "no_jobs db0" and "job_step\<^sup>*\<^sup>* db0 db" and "j \<in> set (durable_jobs db)"
  shows "length (filter (\<lambda>r. ob_project r = job_project j \<and>
        (\<exists>f. ob_dedupe_key r = completion_key (job_id j) f)) (outbox db))
      = (if job_status j = JobCompleted then 1 else 0)
    \<and> (job_status j \<in> {JobCompleted, JobDead} \<longrightarrow>
        (\<forall>db'. job_step\<^sup>*\<^sup>* db db' \<longrightarrow> j \<in> set (durable_jobs db')))"
proof (intro conjI impI allI)
  let ?q = "\<lambda>r. ob_project r = job_project j \<and> (\<exists>f. ob_dedupe_key r = completion_key (job_id j) f)"
  have ok: "jobs_ok db" using engine.reach_inv assms no_jobs_ok by blast
  have row: "completion_row j r \<and> job_status j = JobCompleted" if r: "r \<in> set (outbox db)" "?q r" for r
  proof -
    obtain k where "k \<in> set (durable_jobs db)" "job_id k = job_id j" "completion_row k r"
      "job_status k = JobCompleted"
      using ok r unfolding jobs_ok_def completions_ok_def by blast
    moreover from this have "k = j" using ok assms(3) key_unique unfolding jobs_ok_def by metis
    ultimately show ?thesis by simp
  qed
  have d: "distinct (map (\<lambda>r. (ob_project r, ob_dedupe_key r)) (outbox db))"
    using ok by (simp add: jobs_ok_def completions_ok_def)
  have count: "length (filter ?q (outbox db)) = (if \<exists>r \<in> set (outbox db). completion_row j r then 1 else 0)"
  proof -
    have "filter ?q (outbox db) = filter (completion_row j) (outbox db)"
      using row by (intro filter_cong) (auto simp: completion_row_def)
    then show ?thesis
      using sql_affected_key [OF d, of "completion_row j" "(job_project j, completion_key (job_id j) (job_fence j))"]
      by (simp add: sql_affected_def completion_row_def)
  qed
  have "(\<exists>r \<in> set (outbox db). completion_row j r) \<longleftrightarrow> job_status j = JobCompleted"
    using ok assms(3) row unfolding jobs_ok_def completions_ok_def completion_row_def by blast
  with count show "length (filter ?q (outbox db)) = (if job_status j = JobCompleted then 1 else 0)" by simp
  fix db' assume "job_status j \<in> {JobCompleted, JobDead}" "job_step\<^sup>*\<^sup>* db db'"
  then show "j \<in> set (durable_jobs db')"
    using engine.reach_le [OF _ ok, of db'] assms(3) by (fastforce simp: jobs_le_def job_le_def)
qed

theorem completed_exactly_once_witness:
  "length (filter (\<lambda>r. ob_project r = ''p'' \<and> (\<exists>f. ob_dedupe_key r = completion_key ''j'' f))
     (outbox sample_jobs)) = 0"
  using completed_exactly_once [OF _ sample_jobs_step, of "hd (durable_jobs sample_jobs)"]
  by (simp add: no_jobs_def sample_jobs_eval)

lemma live_lease_blocks:
  assumes ok: "jobs_ok db" and j: "j \<in> set (durable_jobs db)" "job_status j = JobRunning"
    and e: "lease_expires_at j = Some t" "now < t"
  shows "fst (Claim_job ctx p (job_id j) owner lease locked now db) \<noteq> Inr cl"
    and "fst (ClaimNext ctx owner lease locked now db) = Inr (cl, payload) \<Longrightarrow> cl_JobID cl \<noteq> job_id j"
proof -
  have no: "\<not> claimable now k" if "k \<in> set (durable_jobs db)" "job_id k = job_id j" for k
  proof -
    have "k = j" using key_unique [of job_id "durable_jobs db" k j] that j(1) ok by (simp add: jobs_ok_def)
    with j(2) e show ?thesis by (simp add: claimable_def lease_lapsed_def)
  qed
  then have "sql_row (ClaimJob_where c locked (job_id j) p now) (durable_jobs db) = None" for c
    by (auto simp: sql_row_None ClaimJob_where_def)
  then show "fst (Claim_job ctx p (job_id j) owner lease locked now db) \<noteq> Inr cl"
    by (simp add: Claim_job_def split: sum.splits)
  assume c: "fst (ClaimNext ctx owner lease locked now db) = Inr (cl, payload)"
  then obtain k c where k: "ClaimNextJob_select c locked now (durable_jobs db) = Some k"
    "fst (grant owner (Milliseconds lease) now k db) = Inr cl"
    by (auto simp: ClaimNext_def split: if_splits sum.splits option.splits prod.splits)
  have "k \<in> set (durable_jobs db)" "claimable now k" using ClaimNextJob_select_Some [OF k(1)] by blast+
  moreover from this have "cl_JobID cl = job_id k"
    using k(2) grant_succeeds [OF ok] by (auto simp: claim_of_def)
  ultimately show "cl_JobID cl \<noteq> job_id j" using no by metis
qed

text \<open>
  Granting and mutual exclusion.  A job that is ready, not held and not locked by another
  transaction is always granted to the claimant of its tenant; the claim carries a fence above every
  fence in the job's ledger, and it is recorded there.  Until the granted deadline no other claim
  call on the resulting tables, by any worker in any scope, obtains the job.
\<close>

theorem claim_grants_exclusively:
  assumes ok: "jobs_ok db" and j: "j \<in> set (durable_jobs db)" "claimable now j" "\<not> locked (job_id j)"
    and args: "TrimSpace (job_id j) \<noteq> ''''" "TrimSpace owner \<noteq> ''''" "job_project j \<noteq> ''''" "0 < lease"
  shows "\<exists>cl db'. Claim_job (WithTenant ctx (job_project j)) (job_project j) (job_id j) owner lease locked now db
        = (Inr cl, db') \<and>
     cl_Fence cl = job_fence j + 1 \<and> cl_LeaseExpiresAt cl = deadline now (Milliseconds lease) \<and>
     (\<forall>a \<in> set (job_attempts db). ja_job_id a = job_id j \<longrightarrow> ja_fence a < cl_Fence cl) \<and>
     (\<exists>a \<in> set (job_attempts db'). ja_job_id a = job_id j \<and> ja_fence a = cl_Fence cl \<and> ja_owner a = owner) \<and>
     (\<forall>ctx' p owner' lease' locked' now' cl' payload. now' < cl_LeaseExpiresAt cl \<longrightarrow>
        fst (Claim_job ctx' p (job_id j) owner' lease' locked' now' db') \<noteq> Inr cl' \<and>
        (fst (ClaimNext ctx' owner' lease' locked' now' db') = Inr (cl', payload) \<longrightarrow>
           cl_JobID cl' \<noteq> job_id j))"
proof -
  let ?ms = "Milliseconds lease"
  let ?ctx = "WithTenant ctx (job_project j)"
  let ?c = "\<lparr>palai_project_id = job_project j, palai_system = ''''\<rparr>"
  obtain db' where g: "grant owner ?ms now j db = (Inr (claim_of j owner ?ms now), db')"
    and db': "db' = snd (grant owner ?ms now j db)" using grant_succeeds [OF ok j(1)] by simp
  have conn: "PrepareConn (ScopeToTenant ?ctx (job_project j)) = Inr ?c"
    using args by (simp add: ScopeToTenant_def scopeFrom_def WithTenant_def PrepareConn_def)
  have uniq: "k = j" if "k \<in> set (durable_jobs db)" "job_id k = job_id j" for k
    using key_unique [of job_id "durable_jobs db" k j] that j(1) ok by (simp add: jobs_ok_def)
  have "ClaimJob_where ?c locked (job_id j) (job_project j) now j"
    using j by (simp add: ClaimJob_where_def tenant_policy_def)
  then have "sql_row (ClaimJob_where ?c locked (job_id j) (job_project j) now) (durable_jobs db) \<noteq> None"
    using j(1) by (auto simp: sql_row_None)
  moreover have "k = j" if "sql_row (ClaimJob_where ?c locked (job_id j) (job_project j) now)
      (durable_jobs db) = Some k" for k
    using sql_row_Some [OF that] uniq by (simp add: ClaimJob_where_def)
  ultimately have "sql_row (ClaimJob_where ?c locked (job_id j) (job_project j) now)
      (durable_jobs db) = Some j" by auto
  then have call: "Claim_job ?ctx (job_project j) (job_id j) owner lease locked now db
      = (Inr (claim_of j owner ?ms now), db')"
    using args conn g by (simp add: Claim_job_def)
  have ok': "jobs_ok db'" using Claim_job_kept [OF ok call] by blast
  have new: "take_lease owner ?ms now j \<in> set (durable_jobs db')"
    using db' grant_succeeds [OF ok j(1)] j(1) by (auto simp: set_sql_update)
  have led: "\<exists>a \<in> set (job_attempts db'). ja_job_id a = job_id j \<and> ja_fence a = job_fence j + 1 \<and> ja_owner a = owner"
    using db' grant_succeeds [OF ok j(1)] by simp
  show ?thesis
    using call led next_fence_fresh [OF ok j(1)] live_lease_blocks [OF ok' new]
    by (intro exI [of _ "claim_of j owner ?ms now"] exI [of _ db'])
      (auto simp: claim_of_def take_lease_def intro: zle_add1_eq_le [THEN iffD2])
qed

text \<open>
  The retry ladder.  For the holder of a running job, a failure dead-letters the job exactly
  when its attempts have reached the policy's ceiling and otherwise requeues it behind the drawn
  backoff; the lease is released either way, the reason lands in the ledger entry of that fence, and
  no other job is touched.
\<close>

theorem fail_ladder:
  assumes ok: "jobs_ok db" and j: "j \<in> set (durable_jobs db)" "job_status j = JobRunning"
    and cl: "cl_JobID cl = job_id j" "cl_Fence cl = job_fence j" "lease_owner j = Some (cl_Owner cl)"
      "cl_Tenant cl = job_project j"
    and args: "job_id j \<noteq> ''''" "job_project j \<noteq> ''''" "1 \<le> job_fence j" "cl_Owner cl \<noteq> ''''"
      "1 \<le> MaxAttempts policy"
      "FullJitterBackoff rnd (cl_AttemptCount cl) (BaseBackoff policy) (MaxBackoff policy) = Some b"
      "cause = None \<or> pg_text (the (failureReason cause))"
  shows "\<exists>db'. Fail ctx cl policy cause rnd now db = (Inr (MaxAttempts policy \<le> attempt_count j), db') \<and>
    (\<forall>k \<in> set (durable_jobs db). job_id k \<noteq> job_id j \<longrightarrow> k \<in> set (durable_jobs db')) \<and>
    (\<exists>j' \<in> set (durable_jobs db'). job_id j' = job_id j \<and> lease_owner j' = None \<and>
       lease_expires_at j' = None \<and> job_fence j' = job_fence j \<and> attempt_count j' = attempt_count j \<and>
       (if MaxAttempts policy \<le> attempt_count j then job_status j' = JobDead
        else job_status j' = JobQueued \<and> ready_at j' = deadline now (Milliseconds b))) \<and>
    (\<forall>a \<in> set (job_attempts db'). ja_job_id a = job_id j \<and> ja_fence a = job_fence j \<longrightarrow>
       ja_error a = failureReason cause \<and>
       ja_outcome a = Some (if MaxAttempts policy \<le> attempt_count j then ''dead'' else ''failed''))"
proof -
  let ?c = "\<lparr>palai_project_id = job_project j, palai_system = ''''\<rparr>"
  let ?p = "held_by ?c (job_id j) (job_fence j) (cl_Owner cl)"
  let ?f = "FailJob_set (MaxAttempts policy) (Milliseconds b) now"
  have pj: "?p j" using j cl by (simp add: held_by_def tenant_policy_def)
  have uniq: "k = j" if "k \<in> set (durable_jobs db)" "?p k" for k
    using key_unique [of job_id "durable_jobs db" k j] that j(1) ok by (simp add: jobs_ok_def held_by_def)
  have row: "sql_row ?p (durable_jobs db) = Some j"
  proof (cases "sql_row ?p (durable_jobs db)")
    case None
    with j(1) pj show ?thesis by (simp add: sql_row_None)
  next
    case (Some k)
    with sql_row_Some [OF Some] uniq show ?thesis by simp
  qed
  have enc: "\<not> (case failureReason cause of None \<Rightarrow> False | Some t \<Rightarrow> \<not> pg_text t)"
    using args(7) by (auto simp: failureReason_def split: option.splits)
  define out where "out = (if MaxAttempts policy \<le> attempt_count j then ''dead'' else ''failed'')"
  define atts where "atts = sql_update (\<lambda>a. ja_job_id a = job_id j \<and> ja_fence a = job_fence j)
    (\<lambda>a. a\<lparr>ja_outcome := Some out, ja_error := failureReason cause\<rparr>) (job_attempts db)"
  have rec: "RecordJobOutcome (job_id j) (job_fence j) out (failureReason cause) (job_attempts db) = Inr atts"
    using enc by (simp add: RecordJobOutcome_def atts_def)
  have dead: "(job_status (?f j) = JobDead) = (MaxAttempts policy \<le> attempt_count j)"
    by (simp add: FailJob_set_def)
  have "Fail ctx cl policy cause rnd now db = (Inr (MaxAttempts policy \<le> attempt_count j),
      db\<lparr>durable_jobs := sql_update ?p ?f (durable_jobs db), job_attempts := atts\<rparr>)"
    using args cl row rec
    by (simp add: Fail_def Let_def PrepareConn_WithTenant dead out_def [symmetric])
  moreover have "?f j \<in> set (sql_update ?p ?f (durable_jobs db))" using j(1) pj by (auto simp: set_sql_update)
  moreover have "k \<in> set (sql_update ?p ?f (durable_jobs db))"
    if "k \<in> set (durable_jobs db)" "job_id k \<noteq> job_id j" for k
    using that by (auto simp: set_sql_update held_by_def intro!: bexI [of _ k])
  moreover have "ja_error a = failureReason cause \<and> ja_outcome a = Some out"
    if a: "a \<in> set atts" "ja_job_id a = job_id j" "ja_fence a = job_fence j" for a
  proof -
    have "\<exists>x. a = (if ja_job_id x = job_id j \<and> ja_fence x = job_fence j
        then x\<lparr>ja_outcome := Some out, ja_error := failureReason cause\<rparr> else x)"
      using a(1) unfolding atts_def set_sql_update by blast
    then obtain x where "a = (if ja_job_id x = job_id j \<and> ja_fence x = job_fence j
        then x\<lparr>ja_outcome := Some out, ja_error := failureReason cause\<rparr> else x)" ..
    with a(2,3) show ?thesis by (simp split: if_split_asm)
  qed
  ultimately show ?thesis
    by (intro exI conjI bexI [of _ "?f j"]) (auto simp: FailJob_set_def out_def)
qed

theorem claim_grants_exclusively_witness:
  "\<exists>cl db'. Claim_job (WithTenant None ''p'') ''p'' ''j'' ''w1'' 1000000000 (\<lambda>_. False) 5 sample_jobs = (Inr cl, db') \<and>
     cl_Fence cl = 1 \<and> fst (Claim_job None ''p'' ''j'' ''w2'' 1 (\<lambda>_. False) 6 db') \<noteq> Inr cl"
proof -
  let ?j = "hd (durable_jobs sample_jobs)"
  have e: "job_id ?j = ''j''" "job_project ?j = ''p''" "job_fence ?j = 0" by (simp_all add: sample_jobs_eval)
  have j: "?j \<in> set (durable_jobs sample_jobs)" "claimable 5 ?j"
    by (simp_all add: sample_jobs_eval claimable_def)
  have ms: "6 < deadline 5 (Milliseconds 1000000000)" by (simp add: deadline_def Milliseconds_def)
  have "\<exists>cl db'. Claim_job (WithTenant None ''p'') ''p'' ''j'' ''w1'' 1000000000 (\<lambda>_. False) 5 sample_jobs = (Inr cl, db') \<and>
     cl_Fence cl = 0 + 1 \<and> cl_LeaseExpiresAt cl = deadline 5 (Milliseconds 1000000000) \<and>
     (\<forall>ctx' p owner' lease' locked' now' cl'. now' < cl_LeaseExpiresAt cl \<longrightarrow>
        fst (Claim_job ctx' p ''j'' owner' lease' locked' now' db') \<noteq> Inr cl')"
    using claim_grants_exclusively [OF sample_jobs_ok j, of "\<lambda>_. False" "''w1''" 1000000000 None,
        unfolded e] by (simp add: sample_texts) blast
  with ms show ?thesis by fastforce
qed

theorem fail_ladder_witness:
  "\<exists>db'. Fail None \<lparr>cl_Tenant = ''p'', cl_JobID = ''j'', cl_Owner = ''w1'', cl_Fence = 1,
       cl_AttemptCount = 1, cl_LeaseExpiresAt = 1000000\<rparr>
       \<lparr>MaxAttempts = 1, BaseBackoff = 0, MaxBackoff = 0\<rparr> None (\<lambda>_. 0) 9 (snd sample_first)
     = (Inr True, db')"
proof -
  have ok: "jobs_ok (snd sample_first)"
    using engine.step_inv [OF granted_step [OF sample_granted(1)] sample_jobs_ok] .
  have "hd (durable_jobs (snd sample_first)) \<in> set (durable_jobs (snd sample_first))"
    by (simp add: sample_first_eval)
  note f = fail_ladder [OF ok this, where cause = None and ctx = None and now = 9 and b = 0 and
      rnd = "\<lambda>_. 0" and policy = "\<lparr>MaxAttempts = 1, BaseBackoff = 0, MaxBackoff = 0\<rparr>" and
      cl = "\<lparr>cl_Tenant = ''p'', cl_JobID = ''j'', cl_Owner = ''w1'', cl_Fence = 1,
       cl_AttemptCount = 1, cl_LeaseExpiresAt = 1000000\<rparr>"]
  then show ?thesis by (simp add: sample_first_eval FullJitterBackoff_def) blast
qed

text \<open>
  A soft requeue is free: claiming a job and handing it back leaves its attempt count where
  it was, so any number of stand-downs never brings it closer to the dead letter, while the fence
  has moved on and the job waits for the jittered delay.
\<close>

theorem soft_requeue_refunds:
  assumes ok: "jobs_ok db" and g: "granted db cl db1" and "cl_Tenant cl \<noteq> ''''" "cl_JobID cl \<noteq> ''''"
  shows "\<exists>j db2 j'. j \<in> set (durable_jobs db) \<and> job_id j = cl_JobID cl \<and>
    RequeueSoft ctx cl jitter now db1 = (Inr (), db2) \<and> j' \<in> set (durable_jobs db2) \<and>
    job_id j' = cl_JobID cl \<and> job_status j' = JobQueued \<and> attempt_count j' = attempt_count j \<and>
    job_fence j' = job_fence j + 1 \<and> ready_at j' = deadline now (Milliseconds (50000000 + jitter))"
proof -
  obtain j owner ms t where j: "j \<in> set (durable_jobs db)" "owner \<noteq> ''''" "cl = claim_of j owner ms t"
    "durable_jobs db1 = sql_update (\<lambda>r. job_id r = job_id j) (take_lease owner ms t) (durable_jobs db)"
    using granted_row [OF ok g] by metis
  have ok1: "jobs_ok db1" using engine.step_inv [OF granted_step [OF g] ok] .
  have nn: "0 \<le> job_fence j" "0 \<le> attempt_count j"
    using ok j(1) by (auto simp: jobs_ok_def list_all_iff job_row_ok_def)
  let ?c = "\<lparr>palai_project_id = job_project j, palai_system = ''''\<rparr>"
  let ?p = "held_by ?c (job_id j) (job_fence j + 1) owner"
  let ?f = "RequeueJobSoft_set (Milliseconds (50000000 + jitter)) now"
  let ?j = "take_lease owner ms t j"
  have mem: "?j \<in> set (durable_jobs db1)" using j by (auto simp: set_sql_update)
  moreover have held: "?p ?j" by (simp add: held_by_def take_lease_def tenant_policy_def)
  ultimately have "sql_affected ?p (durable_jobs db1) = 1"
    using sql_affected_key [of job_id "durable_jobs db1" ?p "job_id j"] ok1
    by (auto simp: jobs_ok_def held_by_def)
  then have "RequeueSoft ctx cl jitter now db1 = (Inr (),
      db1\<lparr>durable_jobs := sql_update ?p ?f (durable_jobs db1)\<rparr>)"
    using assms(3,4) j nn by (simp add: RequeueSoft_def claim_of_def PrepareConn_WithTenant Let_def)
  moreover have "?f ?j \<in> set (sql_update ?p ?f (durable_jobs db1))"
    using mem held by (auto simp: set_sql_update intro!: bexI [of _ ?j])
  moreover have "attempt_count (?f ?j) = attempt_count j"
    using nn by (simp add: RequeueJobSoft_set_def take_lease_def)
  ultimately show ?thesis using j(1,3)
    by (intro exI [of _ j] exI [of _ "db1\<lparr>durable_jobs := sql_update ?p ?f (durable_jobs db1)\<rparr>"]
        exI [of _ "?f ?j"]) (simp add: claim_of_def, simp add: RequeueJobSoft_set_def take_lease_def)
qed

theorem soft_requeue_refunds_witness:
  "\<exists>db2. RequeueSoft None \<lparr>cl_Tenant = ''p'', cl_JobID = ''j'', cl_Owner = ''w1'', cl_Fence = 1,
     cl_AttemptCount = 1, cl_LeaseExpiresAt = 1000000\<rparr> 7000000 10 (snd sample_first) = (Inr (), db2)"
  using soft_requeue_refunds [OF sample_jobs_ok sample_granted(1), of None 7000000 10] by auto

text \<open>
  The reason stored for a failed attempt is never empty and never longer than the limit plus
  the three bytes of the ellipsis, and it is absent exactly when there was no error.
\<close>

theorem failure_reason_bounded:
  "case failureReason cause of None \<Rightarrow> cause = None
   | Some r \<Rightarrow> cause \<noteq> None \<and> r \<noteq> '''' \<and> length r \<le> jobAttemptErrorLimit + 3"
proof (cases cause)
  case (Some t)
  define m where "m = (if Join (Fields t) '' '' = ''''
    then ''(the handler returned an error with an empty message)'' else Join (Fields t) '' '')"
  have "m \<noteq> ''''" by (simp add: m_def)
  moreover have "length ellipsis = 3" by (simp add: ellipsis_def bytes_def)
  moreover have "failureReason cause = Some (if length m > jobAttemptErrorLimit
     then take jobAttemptErrorLimit m @ ellipsis else m)"
    using Some by (simp add: failureReason_def m_def Let_def)
  ultimately show ?thesis using Some by auto
qed (simp add: failureReason_def)

lemma utf8_valid_ascii: "visible c \<Longrightarrow> utf8_valid (c # s) = utf8_valid s"
  using utf8_valid_step [of "c # s" 0] by (simp add: visible_def Let_def)

lemma utf8_valid_replicate: "visible c \<Longrightarrow> utf8_valid (replicate n c @ s) = utf8_valid s"
  by (induction n) (simp_all add: utf8_valid_ascii)

definition long_message :: string where
  "long_message = replicate 999 CHR ''x'' @ bytes [195, 169]"

lemma long_message_reason:
  "failureReason (Some long_message) = Some (replicate 999 CHR ''x'' @ bytes [195] @ ellipsis)"
proof -
  have "list_all (\<lambda>c. \<not> space_lead c) long_message"
    by (simp add: long_message_def bytes_def space_lead_def list_all_iff)
  then have "Fields long_message = [long_message]"
    by (simp add: Fields_def fields_from_plain) (simp add: long_message_def bytes_def)
  moreover have "take 1000 long_message = replicate 999 CHR ''x'' @ bytes [195]"
    by (simp add: long_message_def bytes_def take_Cons')
  moreover have "length long_message = 1001" "long_message \<noteq> []" by (simp_all add: long_message_def bytes_def)
  ultimately show ?thesis by (simp add: failureReason_def jobAttemptErrorLimit_def Let_def)
qed

text \<open>
  The bound is taken in bytes and can cut a character in two.  A handler error of valid
  UTF-8 text whose thousandth byte is inside a character yields a reason that is no longer UTF-8; the
  ledger update is refused, the failure of the job is rolled back with it, and the worker's
  processing of the job returns an error that is not swallowed.
\<close>

theorem failure_reason_cuts_characters:
  "utf8_valid long_message \<and>
   process None False (Inl (Sentinel ''handler'' ''failed'')) long_message
     \<lparr>wc_Owner = ''w1'', wc_Lease = 1, wc_Retry = \<lparr>MaxAttempts = 5, BaseBackoff = 0, MaxBackoff = 0\<rparr>\<rparr>
     \<lparr>cl_Tenant = ''p'', cl_JobID = ''j'', cl_Owner = ''w1'', cl_Fence = 1,
      cl_AttemptCount = 1, cl_LeaseExpiresAt = 1000000\<rparr> (\<lambda>_. 0) 0 9 (snd sample_first)
   = (Inl (Errorf [InvalidTextEncoding] ''record job outcome''), snd sample_first)"
proof
  have x: "visible CHR ''x''" by (simp add: visible_def)
  show "utf8_valid long_message"
    using utf8_valid_step [of "bytes [195, 169]" 1]
    by (simp add: long_message_def utf8_valid_replicate [OF x] bytes_def continuation_def Let_def)
  have "\<not> utf8_valid (replicate 999 CHR ''x'' @ bytes [195] @ ellipsis)"
    unfolding utf8_valid_replicate [OF x]
    by (rule utf8_valid_stuck) (simp_all add: bytes_def ellipsis_def continuation_def Let_def)
  then have "RecordJobOutcome jid f out (failureReason (Some long_message)) rows = Inl InvalidTextEncoding"
    for jid f out rows by (simp add: RecordJobOutcome_def long_message_reason pg_text_def)
  then show "process None False (Inl (Sentinel ''handler'' ''failed'')) long_message
     \<lparr>wc_Owner = ''w1'', wc_Lease = 1, wc_Retry = \<lparr>MaxAttempts = 5, BaseBackoff = 0, MaxBackoff = 0\<rparr>\<rparr>
     \<lparr>cl_Tenant = ''p'', cl_JobID = ''j'', cl_Owner = ''w1'', cl_Fence = 1,
      cl_AttemptCount = 1, cl_LeaseExpiresAt = 1000000\<rparr> (\<lambda>_. 0) 0 9 (snd sample_first)
   = (Inl (Errorf [InvalidTextEncoding] ''record job outcome''), snd sample_first)"
    by (simp add: process_def ErrSoftRequeue_def Fail_def FullJitterBackoff_def PrepareConn_WithTenant
        sql_row_def sample_first_eval held_by_def tenant_policy_def Let_def swallow_stale_def
        coordinator_ErrStaleFence_def InvalidTextEncoding_def)
qed

end
