(* ===== verification/Transactions.thy ===== *)
theory Transactions
  imports Palai_Base
begin

text \<open>
  Database transactions.  A transaction body takes the tables and either fails with an error or
  returns a value and the tables it has written; \<open>commit\<close> is the transaction around it, whose
  deferred rollback leaves the tables as they were when the body fails.  \<open>tx_wrap\<close> is
  \<^verbatim>\<open>fmt.Errorf("...: %w", err)\<close> around one call, \<open>tx_each\<close> a loop that returns on the first error.

  The locale \<open>tx_preorder\<close> carries a preorder on states through the constructs of a body: a body
  built from calls that each move the state up moves it up as a whole.
\<close>

type_synonym ('s, 'a) tx = "'s \<Rightarrow> ('a \<times> 's) result"

definition tx_return :: "'a \<Rightarrow> ('s, 'a) tx" where
  "tx_return a = (\<lambda>s. Inr (a, s))"

definition tx_fail :: "error \<Rightarrow> ('s, 'a) tx" where
  "tx_fail e = (\<lambda>s. Inl e)"

definition tx_bind :: "('s, 'a) tx \<Rightarrow> ('a \<Rightarrow> ('s, 'b) tx) \<Rightarrow> ('s, 'b) tx" where
  "tx_bind m f = (\<lambda>s. bind_result (m s) (\<lambda>(a, s'). f a s'))"

definition tx_then :: "('s, 'a) tx \<Rightarrow> ('s, 'b) tx \<Rightarrow> ('s, 'b) tx" where
  "tx_then m k = tx_bind m (\<lambda>_. k)"

definition tx_wrap :: "string \<Rightarrow> ('s, 'a) tx \<Rightarrow> ('s, 'a) tx" where
  "tx_wrap msg m = (\<lambda>s. case m s of Inl e \<Rightarrow> Inl (Errorf [e] msg) | Inr r \<Rightarrow> Inr r)"

definition tx_read :: "('s \<Rightarrow> 'a) \<Rightarrow> ('s, 'a) tx" where
  "tx_read f = (\<lambda>s. Inr (f s, s))"

definition tx_write :: "('s \<Rightarrow> 's) \<Rightarrow> ('s, unit) tx" where
  "tx_write f = (\<lambda>s. Inr ((), f s))"

definition tx_when :: "bool \<Rightarrow> ('s, unit) tx \<Rightarrow> ('s, unit) tx" where
  "tx_when b m = (if b then m else tx_return ())"

fun tx_each :: "('a \<Rightarrow> ('s, unit) tx) \<Rightarrow> 'a list \<Rightarrow> ('s, unit) tx" where
  "tx_each f [] = tx_return ()"
| "tx_each f (x # xs) = tx_then (f x) (tx_each f xs)"

definition commit :: "('s, 'a) tx \<Rightarrow> 's \<Rightarrow> 'a result \<times> 's" where
  "commit m s = (case m s of Inl e \<Rightarrow> (Inl e, s) | Inr (a, s') \<Rightarrow> (Inr a, s'))"

lemma tx_return_eq [simp]: "tx_return a s = Inr r \<longleftrightarrow> r = (a, s)"
  by (auto simp: tx_return_def)

lemma tx_fail_eq [simp]: "tx_fail e s = Inr r \<longleftrightarrow> False"
  by (simp add: tx_fail_def)

lemma tx_bind_eq: "tx_bind m f s = Inr r \<longleftrightarrow> (\<exists>a s'. m s = Inr (a, s') \<and> f a s' = Inr r)"
  by (simp add: tx_bind_def bind_result_eq_Inr)

lemma tx_then_eq: "tx_then m k s = Inr r \<longleftrightarrow> (\<exists>a s'. m s = Inr (a, s') \<and> k s' = Inr r)"
  by (simp add: tx_then_def tx_bind_eq)

lemma tx_wrap_eq [simp]: "tx_wrap msg m s = Inr r \<longleftrightarrow> m s = Inr r"
  by (simp add: tx_wrap_def split: sum.splits)

lemma tx_read_eq [simp]: "tx_read f s = Inr r \<longleftrightarrow> r = (f s, s)"
  by (auto simp: tx_read_def)

lemma tx_write_eq [simp]: "tx_write f s = Inr r \<longleftrightarrow> r = ((), f s)"
  by (auto simp: tx_write_def)

lemma tx_when_eq: "tx_when b m s = Inr r \<longleftrightarrow> (if b then m s = Inr r else r = ((), s))"
  by (auto simp: tx_when_def)

lemmas tx_iffs = tx_bind_eq tx_then_eq tx_when_eq

lemma commit_eq_Inr: "commit m s = (Inr a, s') \<longleftrightarrow> m s = Inr (a, s')"
  by (auto simp: commit_def split: sum.splits prod.splits)

lemma commit_eq_Inl: "commit m s = (Inl e, s') \<longleftrightarrow> m s = Inl e \<and> s' = s"
  by (auto simp: commit_def split: sum.splits prod.splits)

lemma commit_cases:
  assumes "commit m s = (r, s')"
  obtains a where "r = Inr a" "m s = Inr (a, s')" | e where "r = Inl e" "m s = Inl e" "s' = s"
  using assms by (cases "m s") (auto simp: commit_def split: prod.splits)

section \<open>Preorders along a transaction\<close>

definition tx_in :: "('s \<Rightarrow> 's \<Rightarrow> bool) \<Rightarrow> ('s, 'a) tx \<Rightarrow> bool" where
  "tx_in R m \<longleftrightarrow> (\<forall>s a s'. m s = Inr (a, s') \<longrightarrow> R s s')"

lemma tx_inI: "(\<And>s a s'. m s = Inr (a, s') \<Longrightarrow> R s s') \<Longrightarrow> tx_in R m"
  by (simp add: tx_in_def)

lemma tx_inD: "tx_in R m \<Longrightarrow> m s = Inr (a, s') \<Longrightarrow> R s s'"
  by (simp add: tx_in_def)

lemma tx_in_mono: "tx_in R m \<Longrightarrow> (\<And>s s'. R s s' \<Longrightarrow> Q s s') \<Longrightarrow> tx_in Q m"
  by (simp add: tx_in_def)

lemma tx_in_conj: "tx_in R m \<Longrightarrow> tx_in Q m \<Longrightarrow> tx_in (\<lambda>s s'. R s s' \<and> Q s s') m"
  by (simp add: tx_in_def)

locale tx_preorder =
  fixes R :: "'s \<Rightarrow> 's \<Rightarrow> bool"
  assumes R_refl: "R s s"
    and R_trans: "R s t \<Longrightarrow> R t u \<Longrightarrow> R s u"
begin

lemma in_return: "tx_in R (tx_return a)"
  by (simp add: tx_in_def R_refl)

lemma in_fail: "tx_in R (tx_fail e)"
  by (simp add: tx_in_def)

lemma in_read: "tx_in R (tx_read f)"
  by (simp add: tx_in_def R_refl)

lemma in_write: "(\<And>s. R s (f s)) \<Longrightarrow> tx_in R (tx_write f)"
  by (simp add: tx_in_def)

lemma in_bind: "tx_in R m \<Longrightarrow> (\<And>a. tx_in R (f a)) \<Longrightarrow> tx_in R (tx_bind m f)"
  unfolding tx_in_def tx_bind_eq using R_trans by blast

lemma in_then: "tx_in R m \<Longrightarrow> tx_in R k \<Longrightarrow> tx_in R (tx_then m k)"
  by (simp add: tx_then_def in_bind)

lemma in_wrap: "tx_in R m \<Longrightarrow> tx_in R (tx_wrap msg m)"
  by (simp add: tx_in_def)

lemma in_when: "tx_in R m \<Longrightarrow> tx_in R (tx_when b m)"
  by (simp add: tx_when_def in_return)

lemma in_each: "(\<And>x. tx_in R (f x)) \<Longrightarrow> tx_in R (tx_each f xs)"
  by (induction xs) (simp_all add: in_return in_then)

lemma in_commit: "tx_in R m \<Longrightarrow> commit m s = (r, s') \<Longrightarrow> R s s'"
  by (elim commit_cases) (auto dest: tx_inD intro: R_refl)

lemma in_if: "tx_in R m \<Longrightarrow> tx_in R k \<Longrightarrow> tx_in R (if b then m else k)"
  by simp

lemma in_option: "tx_in R m \<Longrightarrow> (\<And>x. tx_in R (f x)) \<Longrightarrow> tx_in R (case x of None \<Rightarrow> m | Some x \<Rightarrow> f x)"
  by (simp split: option.split)

lemma in_sum: "(\<And>e. tx_in R (g e)) \<Longrightarrow> (\<And>x. tx_in R (f x)) \<Longrightarrow> tx_in R (case x of Inl e \<Rightarrow> g e | Inr x \<Rightarrow> f x)"
  by (simp split: sum.split)

lemma in_pair: "(\<And>x y. tx_in R (f x y)) \<Longrightarrow> tx_in R (case p of (x, y) \<Rightarrow> f x y)"
  by (simp split: prod.split)

lemmas in_intros = in_return in_fail in_read in_bind in_then in_wrap in_when in_each in_if in_option
  in_sum in_pair

end

end
