(* ===== verification/Journal.thy ===== *)
theory Journal
  imports State_Machines Transactions Durable_Jobs
begin

text \<open>
  The session journal and the run lifecycle of \<^verbatim>\<open>src/packages/coordinator\<close>: the tables that a
  session owns, the statements of \<^verbatim>\<open>events.sql\<close>, \<^verbatim>\<open>responses.sql\<close>, \<^verbatim>\<open>sessions.sql\<close>, \<^verbatim>\<open>commands.sql\<close> and
  \<^verbatim>\<open>queues.sql\<close> that the modelled operations run, \<^verbatim>\<open>appendEvent\<close>, the guarded run transition of
  \<^verbatim>\<open>store.go\<close> with its terminal sweep, the queue deadline, and the finalisation of a response.

  The tables extend those of the job engine.  A transaction runs under a connection and a tenant
  (\<open>txn\<close>); a statement sees the rows of that tenant that the connection's policy admits.  Identifiers
  drawn from the random source are taken from the list \<open>entropy\<close>, an empty list being a failed read.
  Run identifiers are printable, so that the \<^verbatim>\<open>%q\<close> rendering of an event payload is its JSON text.
\<close>

section \<open>Rows\<close>

record session_row =
  se_id :: string
  se_project :: string
  se_state :: SessionState
  se_name :: string

record run_row =
  rn_id :: string
  rn_project :: string
  rn_session :: string
  rn_response :: "string option"
  rn_state :: RunState
  rn_created_at :: int
  rn_parent :: "string option"
  rn_depth :: int
  rn_delegation :: "json option"
  rn_agent_revision :: "string option"
  rn_template_revision :: "string option"
  rn_output_contract :: "json option"
  rn_instructions :: "string option"

text \<open>The state of a response is text: it also takes a value that no run has.\<close>

record response_row =
  rs_id :: string
  rs_project :: string
  rs_session :: string
  rs_state :: string
  rs_input :: json
  rs_output :: "json option"
  rs_store :: bool
  rs_created_at :: int
  rs_purged_at :: "int option"
  rs_retracted_at :: "int option"
  rs_metadata :: json

record event_row =
  ev_id :: string
  ev_project :: string
  ev_session :: string
  ev_response :: "string option"
  ev_seq :: int
  ev_type :: string
  ev_payload :: json

record command_row =
  cm_id :: string
  cm_project :: string
  cm_session :: string
  cm_run :: "string option"
  cm_kind :: string
  cm_delivery :: "string option"
  cm_payload :: json
  cm_state :: CommandState
  cm_applied_sequence :: "int option"
  cm_result :: "json option"
  cm_created_at :: int

record queue_connection =
  qc_id :: string
  qc_project :: string
  qc_direction :: string
  qc_enabled :: bool
  qc_max_deliveries :: int

record queue_delivery =
  qd_project :: string
  qd_connection :: string
  qd_destination_key :: string
  qd_payload :: json
  qd_max_attempts :: int

record journal_db = jobs_db +
  sessions :: "session_row list"
  session_sequences :: "(string \<times> int) list"
  events :: "event_row list"
  runs :: "run_row list"
  responses :: "response_row list"
  commands :: "command_row list"
  queue_connections :: "queue_connection list"
  queue_deliveries :: "queue_delivery list"
  entropy :: "string list"

record txn =
  tx_conn :: conn
  tx_tenant :: string

definition sees :: "txn \<Rightarrow> string \<Rightarrow> bool" where
  "sees t project \<longleftrightarrow> project = tx_tenant t \<and> tenant_policy (tx_conn t) project"

definition RowSecurity :: error where
  "RowSecurity = Sentinel ''postgres'' ''42501''"

definition ForeignKeyViolation :: error where
  "ForeignKeyViolation = Sentinel ''postgres'' ''23503''"

definition nullableText :: "string \<Rightarrow> string option" where
  "nullableText s = (if s = '''' then None else Some s)"

definition or_empty :: "string option \<Rightarrow> string" where
  "or_empty s = (case s of None \<Rightarrow> '''' | Some t \<Rightarrow> t)"

text \<open>\<open>begin_tx\<close> acquires a connection for a method that names \<open>tenant\<close> and runs the body in a transaction.\<close>

definition begin_tx :: "ctx \<Rightarrow> string \<Rightarrow> string \<Rightarrow> (txn \<Rightarrow> ('s, 'a) tx) \<Rightarrow> 's \<Rightarrow> 'a result \<times> 's" where
  "begin_tx ctx tenant msg body s =
     (case PrepareConn (ScopeToTenant ctx tenant) of
        Inl e \<Rightarrow> (Inl (Errorf [e] msg), s)
      | Inr c \<Rightarrow> commit (body \<lparr>tx_conn = c, tx_tenant = tenant\<rparr>) s)"

section \<open>Journal statements\<close>

definition last_seq :: "'a journal_db_scheme \<Rightarrow> string \<Rightarrow> int" where
  "last_seq db sid = (case map_of (session_sequences db) sid of None \<Rightarrow> 0 | Some n \<Rightarrow> n)"

definition AllocateSequence :: "string \<Rightarrow> ('a journal_db_scheme, int) tx" where
  [sql_defs]: "AllocateSequence sid = (\<lambda>db.
     if sid \<notin> set (map se_id (sessions db)) then Inl ForeignKeyViolation
     else let n = last_seq db sid + 1
          in Inr (n, db\<lparr>session_sequences := AList.update sid n (session_sequences db)\<rparr>))"

definition newEventID :: "('a journal_db_scheme, string) tx" where
  "newEventID = (\<lambda>db. case entropy db of
     [] \<Rightarrow> Inl (Errorf [] ''generate event id'')
   | r # rs \<Rightarrow> Inr (''evt_'' @ r, db\<lparr>entropy := rs\<rparr>))"

definition newJobID :: "('a journal_db_scheme, string) tx" where
  "newJobID = (\<lambda>db. case entropy db of
     [] \<Rightarrow> Inl (Errorf [] ''generate job id'')
   | r # rs \<Rightarrow> Inr (''job_'' @ r, db\<lparr>entropy := rs\<rparr>))"

definition AppendEvent :: "txn \<Rightarrow> event_row \<Rightarrow> ('a journal_db_scheme, unit) tx" where
  [sql_defs]: "AppendEvent t e = (\<lambda>db.
     if \<not> tenant_policy (tx_conn t) (ev_project e) then Inl RowSecurity
     else if ev_id e \<in> set (map ev_id (events db)) then Inl UniqueViolation
     else if (ev_session e, ev_seq e) \<in> set (map (\<lambda>r. (ev_session r, ev_seq r)) (events db))
     then Inl UniqueViolation
     else Inr ((), db\<lparr>events := events db @ [e]\<rparr>))"

text \<open>
  The three calls that journal an event, with the payload a function of the allocated sequence;
  \<open>what\<close> and \<open>app\<close> are the texts that the caller wraps the first and the last error with.
\<close>

definition journal_event :: "txn \<Rightarrow> string \<Rightarrow> string option \<Rightarrow> string \<Rightarrow> (int \<Rightarrow> json) \<Rightarrow> string \<Rightarrow> string
    \<Rightarrow> ('a journal_db_scheme, int) tx" where
  "journal_event t sid resp ty payload what app =
     tx_bind (tx_wrap what (AllocateSequence sid)) (\<lambda>seq.
     tx_bind newEventID (\<lambda>eid.
     tx_then (tx_wrap app (AppendEvent t \<lparr>ev_id = eid, ev_project = tx_tenant t, ev_session = sid,
         ev_response = resp, ev_seq = seq, ev_type = ty, ev_payload = payload seq\<rparr>))
     (tx_return seq)))"

definition appendEvent :: "txn \<Rightarrow> string \<Rightarrow> string \<Rightarrow> string \<Rightarrow> json \<Rightarrow> ('a journal_db_scheme, int) tx" where
  "appendEvent t sessionID responseID eventType payload =
     journal_event t sessionID (nullableText responseID) eventType (\<lambda>_. payload)
       ''allocate session sequence'' ''append event''"

definition enqueue_outbox :: "txn \<Rightarrow> string \<Rightarrow> string \<Rightarrow> json \<Rightarrow> ('a journal_db_scheme, unit) tx" where
  "enqueue_outbox t topic dedupe payload = (\<lambda>db.
     if \<not> tenant_policy (tx_conn t) (tx_tenant t) then Inl RowSecurity
     else bind_result (EnqueueOutbox (tx_tenant t) topic dedupe payload (outbox db))
            (\<lambda>ob. Inr ((), db\<lparr>outbox := ob\<rparr>)))"

definition CurrentJournalSequence :: "ctx \<Rightarrow> string \<Rightarrow> string \<Rightarrow> 'a journal_db_scheme \<Rightarrow> int result" where
  "CurrentJournalSequence ctx tenant sessionID db =
     (case PrepareConn (ScopeToTenant ctx tenant) of
        Inl e \<Rightarrow> Inl (Errorf [e] ''read journal sequence'')
      | Inr c \<Rightarrow> Inr (foldr max (map ev_seq (filter (\<lambda>e. ev_session e = sessionID \<and>
          sees \<lparr>tx_conn = c, tx_tenant = tenant\<rparr> (ev_project e)) (events db))) 0))"

definition RecordRecoveryEvent :: "ctx \<Rightarrow> string \<Rightarrow> string \<Rightarrow> string \<Rightarrow> string \<Rightarrow> json
    \<Rightarrow> 'a journal_db_scheme \<Rightarrow> int result \<times> 'a journal_db_scheme" where
  "RecordRecoveryEvent ctx tenant sessionID responseID eventType payload =
     begin_tx ctx tenant ''begin recovery event'' (\<lambda>t.
       appendEvent t sessionID responseID eventType payload)"

section \<open>Command events\<close>

definition mustCommandEvent :: "CommandState \<Rightarrow> CommandCommand \<Rightarrow> string" where
  "mustCommandEvent from cmd = (case Apply from cmd CommandTable of Inl _ \<Rightarrow> '''' | Inr (_, ev) \<Rightarrow> ev)"

definition commandAppliedEvent :: string where
  "commandAppliedEvent = mustCommandEvent CommandApplying CommandCmdFinishApply"

definition commandRejectedEvent :: string where
  "commandRejectedEvent = mustCommandEvent CommandApplying CommandCmdReject"

definition commandExpiredEvent :: string where
  "commandExpiredEvent = mustCommandEvent CommandApplying CommandCmdExpire"

definition warningRaisedEvent :: string where
  "warningRaisedEvent = ''warning.raised.v1''"

section \<open>The terminal sweep\<close>

definition command_queued :: "txn \<Rightarrow> command_row \<Rightarrow> bool" where
  "command_queued t c \<longleftrightarrow> sees t (cm_project c) \<and> cm_state c = CommandQueued"

definition ExpireQueuedCommandsForRun :: "txn \<Rightarrow> string \<Rightarrow> bool \<Rightarrow> ('a journal_db_scheme, string list) tx" where
  [sql_defs]: "ExpireQueuedCommandsForRun t runID expireSend = (\<lambda>db.
     let p = (\<lambda>c. cm_run c = Some runID \<and> command_queued t c \<and> cm_kind c \<noteq> ''change_config'' \<and>
                  (cm_kind c \<noteq> ''send_message'' \<or> expireSend))
     in Inr (map cm_id (filter p (commands db)),
             db\<lparr>commands := sql_update p (\<lambda>c. c\<lparr>cm_state := CommandExpired\<rparr>) (commands db)\<rparr>))"

text \<open>Rows with equal timestamps keep their scan order.\<close>

definition SurvivingQueuedSendMessagesForRun :: "txn \<Rightarrow> string \<Rightarrow> ('a journal_db_scheme, string list) tx" where
  [sql_defs]: "SurvivingQueuedSendMessagesForRun t runID = tx_read (\<lambda>db.
     map cm_id (sort_key cm_created_at (filter (\<lambda>c. cm_run c = Some runID \<and> command_queued t c \<and>
       cm_kind c = ''send_message'') (commands db))))"

definition warnSurvivingSendMessages :: "txn \<Rightarrow> string \<Rightarrow> string \<Rightarrow> string \<Rightarrow> ('a journal_db_scheme, unit) tx" where
  "warnSurvivingSendMessages t sessionID responseID runID =
     tx_bind (SurvivingQueuedSendMessagesForRun t runID) (\<lambda>ids.
       tx_each (\<lambda>i. tx_then (appendEvent t sessionID responseID warningRaisedEvent
         (JObj [(''command_id'', JStr i), (''code'', JStr ''message_carried_to_next_response''),
            (''detail'', JStr ''the message did not fold into this response before it terminated; it stays queued and carries to the next response's input boundary'')]))
         (tx_return ())) ids)"

definition sweepQueuedCommands :: "txn \<Rightarrow> string \<Rightarrow> string option \<Rightarrow> string \<Rightarrow> RunState
    \<Rightarrow> ('a journal_db_scheme, unit) tx" where
  "sweepQueuedCommands t sessionID responseID runID terminal =
     (let expireSend = (terminal \<noteq> RunCompleted); resp = or_empty responseID
      in tx_bind (ExpireQueuedCommandsForRun t runID expireSend) (\<lambda>ids.
         tx_then (tx_each (\<lambda>i. tx_then (appendEvent t sessionID resp commandExpiredEvent
             (JObj [(''command_id'', JStr i)])) (tx_return ())) ids)
         (tx_when (\<not> expireSend) (warnSurvivingSendMessages t sessionID resp runID))))"

definition EnqueueTerminalQueueDeliveries :: "txn \<Rightarrow> string \<Rightarrow> string \<Rightarrow> string \<Rightarrow> string
    \<Rightarrow> ('a journal_db_scheme, unit) tx" where
  [sql_defs]: "EnqueueTerminalQueueDeliveries t runID resp sessionID state = tx_write (\<lambda>db.
     db\<lparr>queue_deliveries := queue_deliveries db @
       map (\<lambda>c. \<lparr>qd_project = qc_project c, qd_connection = qc_id c, qd_destination_key = runID,
                qd_payload = JObj [(''type'', JStr ''run.terminal''), (''run_id'', JStr runID),
                  (''response_id'', JStr resp), (''session_id'', JStr sessionID), (''state'', JStr state)],
                qd_max_attempts = qc_max_deliveries c\<rparr>)
         (filter (\<lambda>c. sees t (qc_project c) \<and> qc_direction c = ''outbound'' \<and> qc_enabled c \<and>
            (qc_id c, runID) \<notin> set (map (\<lambda>d. (qd_connection d, qd_destination_key d)) (queue_deliveries db)))
          (queue_connections db))\<rparr>)"

section \<open>Run transitions\<close>

definition ErrRunTerminal :: error where
  "ErrRunTerminal = Sentinel ''coordinator'' ''run_terminal''"

definition runTerminalStates :: "RunState \<rightharpoonup> bool" where
  "runTerminalStates = TerminalStates RunTable"

definition run_terminal :: "RunState \<Rightarrow> bool" where
  "run_terminal = map_bool runTerminalStates"

definition LockRun :: "txn \<Rightarrow> string \<Rightarrow> ('a journal_db_scheme, run_row option) tx" where
  [sql_defs]: "LockRun t runID = tx_read (\<lambda>db.
     sql_row (\<lambda>r. rn_id r = runID \<and> sees t (rn_project r)) (runs db))"

definition UpdateRunState :: "txn \<Rightarrow> string \<Rightarrow> RunState \<Rightarrow> ('a journal_db_scheme, unit) tx" where
  [sql_defs]: "UpdateRunState t runID next = tx_write (\<lambda>db.
     db\<lparr>runs := sql_update (\<lambda>r. rn_id r = runID \<and> sees t (rn_project r))
                  (\<lambda>r. r\<lparr>rn_state := next\<rparr>) (runs db)\<rparr>)"

record run_transition =
  rt_To :: RunState
  rt_Event :: string
  rt_Sequence :: int

definition run_dedupe :: "string \<Rightarrow> int \<Rightarrow> string" where
  "run_dedupe runID seq = ''run:'' @ runID @ '':seq:'' @ FormatInt seq"

definition run_payload :: "string \<Rightarrow> RunState \<Rightarrow> json" where
  "run_payload runID next = JObj [(''run_id'', JStr runID), (''state'', JStr (RunState_text next))]"

text \<open>What follows the state change in the same transaction: the event, its outbox row, the terminal sweep.\<close>

definition runTransitionEffects :: "txn \<Rightarrow> run_row \<Rightarrow> string \<Rightarrow> RunState \<Rightarrow> string
    \<Rightarrow> ('a journal_db_scheme, run_transition) tx" where
  "runTransitionEffects t r runID next event =
     tx_bind (journal_event t (rn_session r) (rn_response r) event (\<lambda>_. run_payload runID next)
                ''allocate session sequence'' ''append event'') (\<lambda>seq.
     tx_then (tx_wrap ''enqueue outbox'' (enqueue_outbox t event (run_dedupe runID seq) (run_payload runID next)))
     (tx_then (tx_when (run_terminal next)
        (tx_then (sweepQueuedCommands t (rn_session r) (rn_response r) runID next)
           (EnqueueTerminalQueueDeliveries t runID (or_empty (rn_response r)) (rn_session r) (RunState_text next))))
      (tx_return \<lparr>rt_To = next, rt_Event = event, rt_Sequence = seq\<rparr>)))"

definition applyRunTransitionTx :: "txn \<Rightarrow> string \<Rightarrow> RunCommand \<Rightarrow> ('a journal_db_scheme, run_transition) tx" where
  "applyRunTransitionTx t runID command =
     tx_bind (LockRun t runID) (\<lambda>row.
       case row of None \<Rightarrow> tx_fail (Errorf [] ''run not found in tenant scope'')
       | Some r \<Rightarrow>
           (case Apply (rn_state r) command RunTable of
              Inl err \<Rightarrow> tx_fail (if run_terminal (rn_state r) then Errorf [ErrRunTerminal, err] '''' else err)
            | Inr (next, event) \<Rightarrow>
                tx_then (UpdateRunState t runID next) (runTransitionEffects t r runID next event)))"

definition ApplyRunTransition :: "ctx \<Rightarrow> string \<Rightarrow> string \<Rightarrow> RunCommand \<Rightarrow> 'a journal_db_scheme
    \<Rightarrow> run_transition result \<times> 'a journal_db_scheme" where
  "ApplyRunTransition ctx tenant runID command =
     begin_tx ctx tenant ''begin transition'' (\<lambda>t. applyRunTransitionTx t runID command)"

definition lockRunStateTx :: "txn \<Rightarrow> string \<Rightarrow> ('a journal_db_scheme, RunState) tx" where
  "lockRunStateTx t runID = tx_bind (LockRun t runID) (\<lambda>row.
     case row of None \<Rightarrow> tx_fail (Errorf [] ''run not found in tenant scope'')
     | Some r \<Rightarrow> tx_return (rn_state r))"

definition guardRunActive :: "txn \<Rightarrow> string \<Rightarrow> ('a journal_db_scheme, unit) tx" where
  "guardRunActive t runID = tx_bind (lockRunStateTx t runID) (\<lambda>state.
     if run_terminal state then tx_fail (Errorf [ErrRunTerminal] ''run is terminal'') else tx_return ())"

section \<open>Responses\<close>

definition settled_response_states :: "string list" where
  "settled_response_states = [''completed'', ''failed'', ''canceled'', ''timed_out'', ''budget_exceeded'',
     ''failed_with_uncertain_side_effect'']"

definition UpdateResponse :: "txn \<Rightarrow> string \<Rightarrow> string \<Rightarrow> json \<Rightarrow> ('a journal_db_scheme, unit) tx" where
  [sql_defs]: "UpdateResponse t responseID state projection = tx_write (\<lambda>db.
     db\<lparr>responses := sql_update (\<lambda>r. rs_id r = responseID \<and> sees t (rs_project r) \<and>
            rs_state r \<notin> set settled_response_states)
          (\<lambda>r. r\<lparr>rs_state := state, rs_output := Some projection\<rparr>) (responses db)\<rparr>)"

definition FinalizeResponse :: "ctx \<Rightarrow> string \<Rightarrow> string \<Rightarrow> string \<Rightarrow> json \<Rightarrow> 'a journal_db_scheme
    \<Rightarrow> unit result \<times> 'a journal_db_scheme" where
  "FinalizeResponse ctx tenant responseID state projection =
     begin_tx ctx tenant ''finalize response'' (\<lambda>t. UpdateResponse t responseID state projection)"

text \<open>\<open>queue_ns\<close> is the deadline in nanoseconds; the run is expired strictly after it.\<close>

definition TimeoutQueuedIfExpired :: "ctx \<Rightarrow> string \<Rightarrow> string \<Rightarrow> string \<Rightarrow> int \<Rightarrow> json \<Rightarrow> int
    \<Rightarrow> 'a journal_db_scheme \<Rightarrow> bool result \<times> 'a journal_db_scheme" where
  "TimeoutQueuedIfExpired ctx tenant runID responseID queue_ns projection now db =
     (if queue_ns \<le> 0 then (Inr False, db)
      else case PrepareConn (ScopeToTenant ctx tenant) of
             Inl e \<Rightarrow> (Inl (Errorf [e] ''begin queue-deadline timeout''), db)
           | Inr c \<Rightarrow>
        (let t = \<lparr>tx_conn = c, tx_tenant = tenant\<rparr>
         in case sql_row (\<lambda>r. rn_id r = runID \<and> sees t (rn_project r)) (runs db) of
              None \<Rightarrow> (Inr False, db)
            | Some r \<Rightarrow>
                if rn_state r \<noteq> RunQueued \<or> \<not> (now - rn_created_at r) * 1000 > queue_ns then (Inr False, db)
                else (case applyRunTransitionTx t runID RunCmdTimeout db of
                        Inl e \<Rightarrow> if errors_Is e ErrRunTerminal \<or> errors_Is e ErrInvalidState
                                 then (Inr False, db) else (Inl e, db)
                      | Inr (_, db') \<Rightarrow>
                          commit (tx_then (UpdateResponse t responseID (RunState_text RunTimedOut) projection)
                                    (tx_return True)) db')))"

end
