(* ===== verification/Usage.thy ===== *)
theory Usage
  imports Journal "HOL-Library.Char_ord" "HOL-Library.List_Lexorder"
begin

text \<open>
  Metering: the settlement of the usage ledger and the durable budgets and quotas that admission reads
  against it, \<^verbatim>\<open>src/packages/coordinator/usage.go\<close>, the statements of \<^verbatim>\<open>src/storage/queries/usage.sql\<close>, and
  the two setters of \<^verbatim>\<open>src/apps/control-plane/internal/metering/store.go\<close>.

  The ledger's row policy admits every row to a connection that declared a scope, and every connection
  that a transaction holds has one, so the statements on it filter by project themselves.  A quantity is
  the rational that its \<^verbatim>\<open>float64\<close> denotes; times are microseconds and one transaction runs at one time.
  \<open>collate\<close> gives the database's sort key of a text.
\<close>

section \<open>Tables\<close>

record ledger_row =
  lg_id :: string
  lg_project :: string
  lg_session :: "string option"
  lg_run :: "string option"
  lg_meter :: string
  lg_quantity :: rat
  lg_unit :: string
  lg_dedupe :: string
  lg_occurred_at :: int
  lg_model_request :: "string option"
  lg_runner :: "string option"

record budget_row =
  bg_id :: string
  bg_project :: string
  bg_meter_prefix :: string
  bg_limit :: rat
  bg_period_start :: int

record quota_row =
  qt_id :: string
  qt_project :: string
  qt_meter_prefix :: string
  qt_limit :: rat
  qt_window_seconds :: int

record usage_db = journal_db +
  usage_ledger :: "ledger_row list"
  budgets :: "budget_row list"
  quotas :: "quota_row list"

section \<open>Settlement\<close>

record usageEntry =
  ue_sessionID :: string
  ue_runID :: string
  ue_meter :: string
  ue_unit :: string
  ue_dedupeKey :: string
  ue_quantity :: rat
  ue_modelRequestID :: string
  ue_runnerID :: string

definition zero_usageEntry :: usageEntry where
  "zero_usageEntry = \<lparr>ue_sessionID = '''', ue_runID = '''', ue_meter = '''', ue_unit = '''', ue_dedupeKey = '''',
     ue_quantity = 0, ue_modelRequestID = '''', ue_runnerID = ''''\<rparr>"

definition meterRunAdmitted :: string where "meterRunAdmitted = ''run.admitted''"
definition meterInputTokens :: string where "meterInputTokens = ''model.input_tokens''"
definition meterOutputTokens :: string where "meterOutputTokens = ''model.output_tokens''"
definition meterCacheReadTokens :: string where "meterCacheReadTokens = ''model.cache_read_tokens''"
definition meterCacheWriteTokens :: string where "meterCacheWriteTokens = ''model.cache_write_tokens''"
definition meterInterruptedStep :: string where "meterInterruptedStep = ''step.interrupted''"
definition unitToken :: string where "unitToken = ''token''"
definition unitRun :: string where "unitRun = ''run''"
definition unitStep :: string where "unitStep = ''step''"

definition interruptedStepEntry :: "string \<Rightarrow> string \<Rightarrow> string \<Rightarrow> usageEntry" where
  "interruptedStepEntry sessionID runID requestID =
     (if requestID = '''' then zero_usageEntry
      else zero_usageEntry\<lparr>ue_sessionID := sessionID, ue_runID := runID, ue_meter := meterInterruptedStep,
         ue_unit := unitStep, ue_dedupeKey := ''mreq:'' @ requestID @ '':'' @ meterInterruptedStep, ue_quantity := 1,
         ue_modelRequestID := requestID\<rparr>)"

definition ledgerID :: "(string \<Rightarrow> string) \<Rightarrow> string \<Rightarrow> string \<Rightarrow> string" where
  "ledgerID sha tenant dedupeKey =
     ''use_'' @ EncodeToString (take 12 (sha (tenant @ [char_of (0 :: nat)] @ dedupeKey)))"

text \<open>The named conflict target swallows a repeated dedupe key; a collision of identifiers is an error.\<close>

definition SettleUsage :: "(string \<Rightarrow> string) \<Rightarrow> txn \<Rightarrow> int \<Rightarrow> usageEntry \<Rightarrow> ('a usage_db_scheme, unit) tx" where
  [sql_defs]: "SettleUsage sha t now e = (\<lambda>db.
     if (tx_tenant t, ue_dedupeKey e) \<in> set (map (\<lambda>l. (lg_project l, lg_dedupe l)) (usage_ledger db))
     then Inr ((), db)
     else if ledgerID sha (tx_tenant t) (ue_dedupeKey e) \<in> set (map lg_id (usage_ledger db))
     then Inl UniqueViolation
     else Inr ((), db\<lparr>usage_ledger := usage_ledger db @ [\<lparr>lg_id = ledgerID sha (tx_tenant t) (ue_dedupeKey e),
        lg_project = tx_tenant t, lg_session = nullableText (ue_sessionID e), lg_run = nullableText (ue_runID e),
        lg_meter = ue_meter e, lg_quantity = ue_quantity e, lg_unit = ue_unit e, lg_dedupe = ue_dedupeKey e,
        lg_occurred_at = now, lg_model_request = nullableText (ue_modelRequestID e),
        lg_runner = nullableText (ue_runnerID e)\<rparr>]\<rparr>))"

definition settleUsage :: "(string \<Rightarrow> string) \<Rightarrow> txn \<Rightarrow> int \<Rightarrow> usageEntry list \<Rightarrow> ('a usage_db_scheme, unit) tx" where
  "settleUsage sha t now entries =
     tx_each (\<lambda>e. tx_when (ue_quantity e > 0) (tx_wrap (''settle usage '' @ ue_meter e) (SettleUsage sha t now e))) entries"

text \<open>The counters of \<^verbatim>\<open>contracts.Usage\<close> that settlement reads.\<close>

record token_usage =
  InputTokens :: int
  OutputTokens :: int
  CacheReadTokens :: int
  CacheWriteTokens :: int

definition modelUsageEntries :: "string \<Rightarrow> string \<Rightarrow> string \<Rightarrow> token_usage \<Rightarrow> usageEntry list" where
  "modelUsageEntries sessionID runID requestID usage =
     (let entry = (\<lambda>meter quantity. zero_usageEntry\<lparr>ue_sessionID := sessionID, ue_runID := runID, ue_meter := meter,
            ue_unit := unitToken, ue_dedupeKey := ''mreq:'' @ requestID @ '':'' @ meter,
            ue_quantity := of_int quantity, ue_modelRequestID := requestID\<rparr>)
      in [entry meterInputTokens (InputTokens usage), entry meterOutputTokens (OutputTokens usage),
          entry meterCacheReadTokens (CacheReadTokens usage), entry meterCacheWriteTokens (CacheWriteTokens usage)])"

section \<open>Limits\<close>

definition metered :: "string \<Rightarrow> string \<Rightarrow> int \<Rightarrow> ledger_row \<Rightarrow> bool" where
  "metered project meter_prefix since l \<longleftrightarrow>
     (project = '''' \<or> lg_project l = project) \<and> prefix meter_prefix (lg_meter l) \<and> lg_occurred_at l \<ge> since"

definition spent :: "string \<Rightarrow> string \<Rightarrow> int \<Rightarrow> ledger_row list \<Rightarrow> rat" where
  "spent project meter_prefix since ledger = sum_list (map lg_quantity (filter (metered project meter_prefix since) ledger))"

definition budget_spent :: "budget_row \<Rightarrow> 'a usage_db_scheme \<Rightarrow> rat" where
  "budget_spent b db = spent (bg_project b) (bg_meter_prefix b) (bg_period_start b) (usage_ledger db)"

definition quota_since :: "int \<Rightarrow> quota_row \<Rightarrow> int" where
  "quota_since now q = now - qt_window_seconds q * 1000000"

definition quota_spent :: "int \<Rightarrow> quota_row \<Rightarrow> 'a usage_db_scheme \<Rightarrow> rat" where
  "quota_spent now q db = spent (qt_project q) (qt_meter_prefix q) (quota_since now q) (usage_ledger db)"

definition binds :: "txn \<Rightarrow> string \<Rightarrow> bool" where
  "binds t project \<longleftrightarrow> (project = '''' \<or> project = tx_tenant t) \<and> tenant_policy (tx_conn t) project"

text \<open>The order of the two queries: project rows first, then the prefix, then the identifier.\<close>

definition first_limit :: "(string \<Rightarrow> string) \<Rightarrow> ('r \<Rightarrow> string) \<Rightarrow> ('r \<Rightarrow> string) \<Rightarrow> ('r \<Rightarrow> string) \<Rightarrow> 'r list \<Rightarrow> 'r option" where
  "first_limit collate project meter_prefix ident rows =
     (case sort_key (\<lambda>r. project r = '''') (sort_key (\<lambda>r. collate (meter_prefix r)) (sort_key (\<lambda>r. collate (ident r)) rows)) of
        [] \<Rightarrow> None | r # _ \<Rightarrow> Some r)"

definition ExhaustedBudget :: "(string \<Rightarrow> string) \<Rightarrow> txn \<Rightarrow> 'a usage_db_scheme \<Rightarrow> budget_row option" where
  "ExhaustedBudget collate t db = first_limit collate bg_project bg_meter_prefix bg_id
     (filter (\<lambda>b. binds t (bg_project b) \<and> budget_spent b db \<ge> bg_limit b) (budgets db))"

definition ExhaustedQuota :: "(string \<Rightarrow> string) \<Rightarrow> txn \<Rightarrow> int \<Rightarrow> 'a usage_db_scheme \<Rightarrow> quota_row option" where
  "ExhaustedQuota collate t now db = first_limit collate qt_project qt_meter_prefix qt_id
     (filter (\<lambda>q. binds t (qt_project q) \<and> quota_spent now q db \<ge> qt_limit q) (quotas db))"

record LimitExceeded =
  le_Kind :: string
  le_MeterPrefix :: string
  le_Limit :: rat
  le_Used :: rat
  le_ResetAt :: "int option"
  le_InstallationWide :: bool

text \<open>The reset time is in nanoseconds; the duration is a product of 64-bit integers.\<close>

definition quota_reset :: "int \<Rightarrow> quota_row \<Rightarrow> 'a usage_db_scheme \<Rightarrow> int option" where
  "quota_reset now q db =
     (case map lg_occurred_at (filter (metered (qt_project q) (qt_meter_prefix q) (quota_since now q)) (usage_ledger db)) of
        [] \<Rightarrow> None
      | t # ts \<Rightarrow> Some (foldl min t ts * 1000 + wrap64 (qt_window_seconds q * 1000000000)))"

definition checkDurableLimits :: "(string \<Rightarrow> string) \<Rightarrow> txn \<Rightarrow> int \<Rightarrow> ('a usage_db_scheme, LimitExceeded option) tx" where
  "checkDurableLimits collate t now = tx_read (\<lambda>db.
     case ExhaustedBudget collate t db of
       Some b \<Rightarrow> Some \<lparr>le_Kind = ''budget'', le_MeterPrefix = bg_meter_prefix b, le_Limit = bg_limit b,
         le_Used = budget_spent b db, le_ResetAt = None, le_InstallationWide = (bg_project b = '''')\<rparr>
     | None \<Rightarrow>
         (case ExhaustedQuota collate t now db of
            Some q \<Rightarrow> Some \<lparr>le_Kind = ''quota'', le_MeterPrefix = qt_meter_prefix q, le_Limit = qt_limit q,
              le_Used = quota_spent now q db, le_ResetAt = quota_reset now q db,
              le_InstallationWide = (qt_project q = '''')\<rparr>
          | None \<Rightarrow> None))"

section \<open>Setting a limit\<close>

text \<open>
  A repeated prefix restates the limit and keeps the row, with its identifier and its period.  The
  answer of a setter is the stored row, the name of a missing field, or a bad field; the body reaches
  the setters decoded, \<open>None\<close> when the strict decoder refuses it.
\<close>

datatype 'r provision = BadField | MissingField string | Provisioned 'r

record limit_input =
  li_MeterPrefix :: "string option"
  li_LimitQuantity :: "rat option"
  li_WindowSeconds :: "int option"

definition UpsertBudget :: "txn \<Rightarrow> budget_row \<Rightarrow> ('a usage_db_scheme, budget_row) tx" where
  [sql_defs]: "UpsertBudget t b = (\<lambda>db.
     let same = (\<lambda>x. bg_project x = bg_project b \<and> bg_meter_prefix x = bg_meter_prefix b)
     in if \<not> tenant_policy (tx_conn t) (bg_project b) then Inl RowSecurity
        else case sql_row same (budgets db) of
               Some old \<Rightarrow> Inr (old\<lparr>bg_limit := bg_limit b\<rparr>,
                 db\<lparr>budgets := sql_update same (\<lambda>x. x\<lparr>bg_limit := bg_limit b\<rparr>) (budgets db)\<rparr>)
             | None \<Rightarrow> if bg_id b \<in> set (map bg_id (budgets db)) then Inl UniqueViolation
                       else Inr (b, db\<lparr>budgets := budgets db @ [b]\<rparr>))"

definition UpsertQuota :: "txn \<Rightarrow> quota_row \<Rightarrow> ('a usage_db_scheme, quota_row) tx" where
  [sql_defs]: "UpsertQuota t q = (\<lambda>db.
     let same = (\<lambda>x. qt_project x = qt_project q \<and> qt_meter_prefix x = qt_meter_prefix q);
         restate = (\<lambda>x. x\<lparr>qt_limit := qt_limit q, qt_window_seconds := qt_window_seconds q\<rparr>)
     in if \<not> tenant_policy (tx_conn t) (qt_project q) then Inl RowSecurity
        else case sql_row same (quotas db) of
               Some old \<Rightarrow> Inr (restate old, db\<lparr>quotas := sql_update same restate (quotas db)\<rparr>)
             | None \<Rightarrow> if qt_id q \<in> set (map qt_id (quotas db)) then Inl UniqueViolation
                       else Inr (q, db\<lparr>quotas := quotas db @ [q]\<rparr>))"

definition SetBudget :: "ctx \<Rightarrow> string \<Rightarrow> limit_input option \<Rightarrow> string \<Rightarrow> int \<Rightarrow> 'a usage_db_scheme
    \<Rightarrow> budget_row provision result \<times> 'a usage_db_scheme" where
  "SetBudget ctx project body newID now db =
     (case body of
        None \<Rightarrow> (Inr BadField, db)
      | Some inp \<Rightarrow>
          (case (li_MeterPrefix inp, li_LimitQuantity inp) of
             (None, _) \<Rightarrow> (Inr (MissingField ''meter_prefix''), db)
           | (Some p, None) \<Rightarrow> (Inr (MissingField ''limit_quantity''), db)
           | (Some p, Some l) \<Rightarrow>
               if l \<le> 0 then (Inr (MissingField ''limit_quantity''), db)
               else begin_tx ctx project ''upsert budget'' (\<lambda>t.
                 tx_bind (tx_wrap ''upsert budget'' (UpsertBudget t \<lparr>bg_id = newID, bg_project = project,
                    bg_meter_prefix = p, bg_limit = l, bg_period_start = now\<rparr>)) (\<lambda>b. tx_return (Provisioned b))) db))"

definition SetQuota :: "ctx \<Rightarrow> string \<Rightarrow> limit_input option \<Rightarrow> string \<Rightarrow> 'a usage_db_scheme
    \<Rightarrow> quota_row provision result \<times> 'a usage_db_scheme" where
  "SetQuota ctx project body newID db =
     (case body of
        None \<Rightarrow> (Inr BadField, db)
      | Some inp \<Rightarrow>
          (case (li_MeterPrefix inp, li_LimitQuantity inp, li_WindowSeconds inp) of
             (None, _, _) \<Rightarrow> (Inr (MissingField ''meter_prefix''), db)
           | (Some p, None, _) \<Rightarrow> (Inr (MissingField ''limit_quantity''), db)
           | (Some p, Some l, w) \<Rightarrow>
               if l \<le> 0 then (Inr (MissingField ''limit_quantity''), db)
               else (case w of None \<Rightarrow> (Inr (MissingField ''window_seconds''), db)
                 | Some secs \<Rightarrow>
                     if secs \<le> 0 then (Inr (MissingField ''window_seconds''), db)
                     else begin_tx ctx project ''upsert quota'' (\<lambda>t.
                       tx_bind (tx_wrap ''upsert quota'' (UpsertQuota t \<lparr>qt_id = newID, qt_project = project,
                          qt_meter_prefix = p, qt_limit = l, qt_window_seconds = secs\<rparr>)) (\<lambda>q. tx_return (Provisioned q))) db)))"

end
