(* ===== verification/Commands.thy ===== *)
theory Commands
  imports Usage
begin

text \<open>
  Session commands, \<^verbatim>\<open>src/packages/coordinator/commands.go\<close>, with the project policy and the config
  revisions of \<^verbatim>\<open>config.go\<close>.  A command is
  accepted, resolved as far as it can be in the accepting transaction, and otherwise left queued for
  the run's boundary pump; the applying operations are the pump's and the interrupt watcher's.

  Payloads are decoded JSON documents.  \<open>sha\<close> is SHA-256, a byte string to a byte string.
\<close>

section \<open>Tables\<close>

record config_revision =
  cr_id :: string
  cr_project :: string
  cr_session :: string
  cr_command :: string
  cr_sequence :: int
  cr_model :: string
  cr_tools :: "json option"
  cr_snapshot_hash :: string
  cr_immediate :: bool

record delivered_message =
  dm_command :: string
  dm_project :: string
  dm_run :: string
  dm_boundary :: "string option"
  dm_applied_sequence :: int
  dm_fold_state :: string

record commands_db = usage_db +
  config_policies :: "(string \<times> json option) list"
  pending_approvals :: "(string \<times> string) list"
  config_revisions :: "config_revision list"
  delivered_messages :: "delivered_message list"

section \<open>Project policy\<close>

record ConfigPolicy =
  AllowedModels :: "string list"
  AllowedTools :: "string list"
  DefaultTools :: "string list"
  Approvers :: "string list"
  Pool :: string

definition AllowModel :: "ConfigPolicy \<Rightarrow> string \<Rightarrow> bool" where
  "AllowModel p model = (if AllowedModels p = [] \<or> model = '''' then True else model \<in> set (AllowedModels p))"

definition DeniedTool :: "ConfigPolicy \<Rightarrow> string list \<Rightarrow> string" where
  "DeniedTool p tools = (if AllowedTools p = [] then ''''
     else case List.find (\<lambda>x. x \<notin> set (AllowedTools p)) tools of None \<Rightarrow> '''' | Some x \<Rightarrow> x)"

definition ApproverAllowed :: "ConfigPolicy \<Rightarrow> string \<Rightarrow> bool" where
  "ApproverAllowed p who = (if Approvers p = [] then True
     else if who = '''' then False else who \<in> set (Approvers p))"

definition decodeConfigPolicy :: "json option \<Rightarrow> ConfigPolicy" where
  "decodeConfigPolicy raw = (let d = (case raw of None \<Rightarrow> JNull | Some d \<Rightarrow> d)
     in \<lparr>AllowedModels = decode_texts ''allowed_models'' d, AllowedTools = decode_texts ''allowed_tools'' d,
         DefaultTools = decode_texts ''default_tools'' d, Approvers = decode_texts ''approvers'' d,
         Pool = decode_text ''pool'' d\<rparr>)"

definition projectConfigTx :: "txn \<Rightarrow> ('a commands_db_scheme, ConfigPolicy) tx" where
  "projectConfigTx t = tx_read (\<lambda>db. decodeConfigPolicy
     (case map_of (config_policies db) (tx_tenant t) of None \<Rightarrow> None
      | Some raw \<Rightarrow> if tenant_policy (tx_conn t) (tx_tenant t) then raw else None))"

section \<open>Inputs and projections\<close>

record CommandInput =
  ci_CommandID :: string
  ci_Kind :: string
  ci_Delivery :: string
  ci_Payload :: json
  ci_ForkSessionID :: string

record Command =
  co_ID :: string
  co_SessionID :: string
  co_Kind :: string
  co_Delivery :: string
  co_State :: string
  co_AppliedSequence :: "int option"
  co_Result :: "json option"
  co_CreatedAt :: int
  co_Replayed :: bool
  co_SessionNotFound :: bool

definition zero_Command :: Command where
  "zero_Command = \<lparr>co_ID = '''', co_SessionID = '''', co_Kind = '''', co_Delivery = '''', co_State = '''',
     co_AppliedSequence = None, co_Result = None, co_CreatedAt = 0, co_Replayed = False,
     co_SessionNotFound = False\<rparr>"

definition ErrCommandNotPending :: error where
  "ErrCommandNotPending = Sentinel ''coordinator'' ''command_not_pending''"

definition commandAcceptedEvent :: string where
  "commandAcceptedEvent = ''command.accepted.v1''"

definition configRevisedEvent :: string where
  "configRevisedEvent = ''config.revised.v1''"

section \<open>Statements\<close>

definition the_command :: "txn \<Rightarrow> string \<Rightarrow> command_row \<Rightarrow> bool" where
  "the_command t commandID c \<longleftrightarrow> cm_id c = commandID \<and> sees t (cm_project c)"

text \<open>\<open>True\<close> when the row was inserted, \<open>False\<close> when the identifier was taken.\<close>

definition InsertCommand :: "txn \<Rightarrow> string \<Rightarrow> string \<Rightarrow> CommandInput \<Rightarrow> int \<Rightarrow> ('a commands_db_scheme, bool) tx" where
  [sql_defs]: "InsertCommand t sessionID runID inp now = (\<lambda>db.
     if \<not> tenant_policy (tx_conn t) (tx_tenant t) then Inl RowSecurity
     else if (tx_tenant t, ci_CommandID inp) \<in> set (map (\<lambda>c. (cm_project c, cm_id c)) (commands db))
     then Inr (False, db)
     else Inr (True, db\<lparr>commands := commands db @ [\<lparr>cm_id = ci_CommandID inp, cm_project = tx_tenant t,
        cm_session = sessionID, cm_run = nullableText runID, cm_kind = ci_Kind inp,
        cm_delivery = nullableText (ci_Delivery inp), cm_payload = ci_Payload inp, cm_state = CommandQueued,
        cm_applied_sequence = None, cm_result = None, cm_created_at = now\<rparr>]\<rparr>))"

definition readCommand :: "txn \<Rightarrow> string \<Rightarrow> ('a commands_db_scheme, Command) tx" where
  "readCommand t commandID = (\<lambda>db. case sql_row (the_command t commandID) (commands db) of
     None \<Rightarrow> Inl (Errorf [NoRows] ''read command'')
   | Some c \<Rightarrow> Inr (\<lparr>co_ID = commandID, co_SessionID = cm_session c, co_Kind = cm_kind c,
       co_Delivery = or_empty (cm_delivery c), co_State = CommandState_text (cm_state c),
       co_AppliedSequence = cm_applied_sequence c, co_Result = cm_result c,
       co_CreatedAt = cm_created_at c, co_Replayed = False, co_SessionNotFound = False\<rparr>, db))"

definition LockCommand :: "txn \<Rightarrow> string \<Rightarrow> ('a commands_db_scheme, command_row option) tx" where
  [sql_defs]: "LockCommand t commandID = tx_read (\<lambda>db. sql_row (the_command t commandID) (commands db))"

definition update_command :: "txn \<Rightarrow> string \<Rightarrow> (command_row \<Rightarrow> command_row) \<Rightarrow> ('a commands_db_scheme, unit) tx" where
  "update_command t commandID f =
     tx_write (\<lambda>db. db\<lparr>commands := sql_update (the_command t commandID) f (commands db)\<rparr>)"

definition CompleteCommandApplied :: "txn \<Rightarrow> string \<Rightarrow> int \<Rightarrow> ('a commands_db_scheme, unit) tx" where
  [sql_defs]: "CompleteCommandApplied t commandID seq =
     update_command t commandID (\<lambda>c. c\<lparr>cm_state := CommandApplied, cm_applied_sequence := Some seq\<rparr>)"

definition CompleteCommandRejected :: "txn \<Rightarrow> string \<Rightarrow> json \<Rightarrow> ('a commands_db_scheme, unit) tx" where
  [sql_defs]: "CompleteCommandRejected t commandID result =
     update_command t commandID (\<lambda>c. c\<lparr>cm_state := CommandRejected, cm_result := Some result\<rparr>)"

definition SetCommandResult :: "txn \<Rightarrow> string \<Rightarrow> json \<Rightarrow> ('a commands_db_scheme, unit) tx" where
  [sql_defs]: "SetCommandResult t commandID result =
     update_command t commandID (\<lambda>c. c\<lparr>cm_result := Some result\<rparr>)"

definition ActiveRootRun :: "txn \<Rightarrow> string \<Rightarrow> ('a commands_db_scheme, run_row option) tx" where
  [sql_defs]: "ActiveRootRun t sessionID = tx_read (\<lambda>db.
     case rev (sort_key rn_created_at (filter (\<lambda>r. rn_session r = sessionID \<and> sees t (rn_project r) \<and>
        rn_state r \<notin> {RunCompleted, RunFailed, RunCanceled, RunTimedOut, RunBudgetExceeded}) (runs db))) of
       [] \<Rightarrow> None | r # _ \<Rightarrow> Some r)"

definition session_state :: "txn \<Rightarrow> string \<Rightarrow> ('a commands_db_scheme, SessionState option) tx" where
  [sql_defs]: "session_state t sessionID = tx_read (\<lambda>db.
     map_option se_state (sql_row (\<lambda>s. se_id s = sessionID \<and> sees t (se_project s)) (sessions db)))"

definition UpdateSessionState :: "txn \<Rightarrow> string \<Rightarrow> SessionState \<Rightarrow> ('a commands_db_scheme, unit) tx" where
  [sql_defs]: "UpdateSessionState t sessionID next = tx_write (\<lambda>db.
     db\<lparr>sessions := sql_update (\<lambda>s. se_id s = sessionID \<and> sees t (se_project s))
          (\<lambda>s. s\<lparr>se_state := next\<rparr>) (sessions db)\<rparr>)"

definition InsertSession :: "txn \<Rightarrow> string \<Rightarrow> string \<Rightarrow> ('a commands_db_scheme, unit) tx" where
  [sql_defs]: "InsertSession t sid name = (\<lambda>db.
     if \<not> tenant_policy (tx_conn t) (tx_tenant t) then Inl RowSecurity
     else if sid \<in> set (map se_id (sessions db)) then Inl UniqueViolation
     else Inr ((), db\<lparr>sessions := sessions db @
        [\<lparr>se_id = sid, se_project = tx_tenant t, se_state = SessionActive, se_name = name\<rparr>]\<rparr>))"

definition history_states :: "string list" where
  "history_states = [''completed'', ''failed'', ''canceled'', ''timed_out'', ''budget_exceeded'']"

definition SessionHasPendingApproval :: "txn \<Rightarrow> string \<Rightarrow> ('a commands_db_scheme, bool) tx" where
  [sql_defs]: "SessionHasPendingApproval t sessionID = tx_read (\<lambda>db.
     list_ex (\<lambda>(sid, project). sid = sessionID \<and> sees t project) (pending_approvals db))"

definition ClearSessionHistory :: "txn \<Rightarrow> string \<Rightarrow> int \<Rightarrow> ('a commands_db_scheme, unit) tx" where
  [sql_defs]: "ClearSessionHistory t sessionID now = tx_write (\<lambda>db.
     db\<lparr>responses := sql_update (\<lambda>r. rs_session r = sessionID \<and> sees t (rs_project r) \<and>
            rs_state r \<in> set history_states \<and> rs_retracted_at r = None)
          (\<lambda>r. r\<lparr>rs_retracted_at := Some now\<rparr>) (responses db)\<rparr>)"

text \<open>The copies take fresh identifiers from the database; \<open>fresh\<close> gives the one of the \<open>n\<close>-th copy.\<close>

definition ForkCopyResponses :: "txn \<Rightarrow> string \<Rightarrow> string \<Rightarrow> (nat \<Rightarrow> string) \<Rightarrow> ('a commands_db_scheme, unit) tx" where
  [sql_defs]: "ForkCopyResponses t parent child fresh = (\<lambda>db.
     let src = filter (\<lambda>r. rs_session r = parent \<and> sees t (rs_project r) \<and>
                 rs_state r \<in> set history_states \<and> rs_purged_at r = None) (responses db);
         copies = map (\<lambda>(n, r). r\<lparr>rs_id := ''resp_'' @ fresh n, rs_session := child,
                    rs_purged_at := None, rs_retracted_at := None, rs_metadata := JObj []\<rparr>) (List.enumerate 0 src)
     in if \<not> distinct (map rs_id (responses db @ copies)) then Inl UniqueViolation
        else Inr ((), db\<lparr>responses := responses db @ copies\<rparr>))"

definition SessionHistory :: "txn \<Rightarrow> string \<Rightarrow> int \<Rightarrow> 'a commands_db_scheme \<Rightarrow> response_row list" where
  [sql_defs]: "SessionHistory t sessionID before db =
     sort_key rs_created_at (filter (\<lambda>r. rs_session r = sessionID \<and> sees t (rs_project r) \<and>
        rs_retracted_at r = None \<and> rs_created_at r < before) (responses db))"

definition ExpireQueuedSessionCommands :: "txn \<Rightarrow> string \<Rightarrow> string \<Rightarrow> ('a commands_db_scheme, string list) tx" where
  [sql_defs]: "ExpireQueuedSessionCommands t sessionID exceptID = (\<lambda>db.
     let p = (\<lambda>c. cm_session c = sessionID \<and> command_queued t c \<and> cm_id c \<noteq> exceptID)
     in Inr (map cm_id (filter p (commands db)),
             db\<lparr>commands := sql_update p (\<lambda>c. c\<lparr>cm_state := CommandExpired\<rparr>) (commands db)\<rparr>))"

section \<open>Rejections\<close>

definition rejection :: "string \<Rightarrow> string \<Rightarrow> json" where
  "rejection code detail = JObj [(''code'', JStr code), (''detail'', JStr detail)]"

definition rejectionReason :: "string \<Rightarrow> string \<Rightarrow> json option" where
  "rejectionReason kind runID =
     (if kind = ''approve'' \<or> kind = ''deny''
      then Some (rejection ''no_pending_approval'' ''no approval is pending for this session'')
      else if kind = ''send_message''
      then (if runID = '''' then Some (rejection ''no_active_run'' ''the session has no active run to deliver to'') else None)
      else if kind = ''pause''
      then (if runID = '''' then Some (rejection ''no_active_run'' ''the session has no active run to pause'') else None)
      else if kind = ''change_config'' then None
      else Some (rejection ''unsupported_command'' ''the command kind is not supported''))"

definition changeConfigRejection :: "txn \<Rightarrow> json \<Rightarrow> ('a commands_db_scheme, json option) tx" where
  "changeConfigRejection t payload = tx_bind (projectConfigTx t) (\<lambda>policy. tx_return
     (if \<not> AllowModel policy (decode_text ''model'' payload)
      then Some (rejection ''model_not_allowed'' ''the requested model is outside the project allowlist'')
      else let bad = DeniedTool policy (decode_texts ''tools'' payload)
           in if bad \<noteq> '''' then Some (rejection ''tool_not_allowed'' (''tool '' @ bad @ '' is outside the project allowlist''))
              else None))"

definition approvalRejection :: "txn \<Rightarrow> string \<Rightarrow> ('a commands_db_scheme, json option) tx" where
  "approvalRejection t sessionID = tx_bind (SessionHasPendingApproval t sessionID) (\<lambda>pending. tx_return
     (if \<not> pending then Some (rejection ''no_pending_approval'' ''no approval is pending for this session'')
      else None))"

definition sessionStateRejection :: "string \<Rightarrow> SessionState \<Rightarrow> json option" where
  "sessionStateRejection kind state = (if kind = ''close_session'' \<or> state = SessionActive then None
     else Some (rejection ''session_not_active'' ''the session is not active and accepts no new commands''))"

definition rejectCommandTx :: "txn \<Rightarrow> string \<Rightarrow> string \<Rightarrow> string \<Rightarrow> json \<Rightarrow> ('a commands_db_scheme, unit) tx" where
  "rejectCommandTx t sessionID responseID commandID reason =
     tx_then (CompleteCommandRejected t commandID reason)
     (tx_then (appendEvent t sessionID responseID commandRejectedEvent
         (JObj [(''command_id'', JStr commandID), (''reason'', reason)]))
      (tx_return ()))"

section \<open>Applying a command\<close>

definition applyCommandInTx :: "txn \<Rightarrow> string \<Rightarrow> string \<Rightarrow> string \<Rightarrow> ('a commands_db_scheme, int) tx" where
  "applyCommandInTx t sessionID responseID commandID =
     tx_bind (LockCommand t commandID) (\<lambda>row.
       case row of None \<Rightarrow> tx_fail ErrCommandNotPending
       | Some c \<Rightarrow>
           if cm_state c \<noteq> CommandQueued then tx_fail ErrCommandNotPending
           else tx_bind (journal_event t sessionID (nullableText responseID) commandAppliedEvent
                   (\<lambda>seq. JObj [(''command_id'', JStr commandID), (''applied_sequence'', JNum (of_int seq))])
                   ''allocate command sequence'' ''append command applied event'') (\<lambda>seq.
                 tx_then (CompleteCommandApplied t commandID seq) (tx_return seq)))"

section \<open>Session lifecycle\<close>

definition applySessionTransitionTx :: "txn \<Rightarrow> string \<Rightarrow> SessionState \<Rightarrow> SessionCommand \<Rightarrow> ('a commands_db_scheme, unit) tx" where
  "applySessionTransitionTx t sessionID current cmd =
     (case Apply current cmd SessionTable of
        Inl e \<Rightarrow> tx_fail (Errorf [e] ''session transition'')
      | Inr (next, event) \<Rightarrow>
          tx_then (UpdateSessionState t sessionID next)
          (tx_then (appendEvent t sessionID '''' event
              (JObj [(''session_id'', JStr sessionID), (''state'', JStr (SessionState_text next))]))
           (tx_return ())))"

definition sweepQueuedSessionCommands :: "txn \<Rightarrow> string \<Rightarrow> string \<Rightarrow> ('a commands_db_scheme, unit) tx" where
  "sweepQueuedSessionCommands t sessionID exceptID =
     tx_bind (ExpireQueuedSessionCommands t sessionID exceptID) (\<lambda>ids.
       tx_each (\<lambda>i. tx_then (appendEvent t sessionID '''' commandExpiredEvent (JObj [(''command_id'', JStr i)]))
         (tx_return ())) ids)"

definition applyCloseSessionTx :: "txn \<Rightarrow> string \<Rightarrow> string \<Rightarrow> string \<Rightarrow> ('a commands_db_scheme, unit) tx" where
  "applyCloseSessionTx t sessionID activeRunID commandID =
     tx_bind (session_state t sessionID) (\<lambda>st.
       case st of None \<Rightarrow> tx_fail (Errorf [NoRows] ''lock session'')
       | Some s \<Rightarrow>
           tx_then (tx_when (s = SessionActive \<or> s = SessionPaused)
             (tx_then (applySessionTransitionTx t sessionID s SessionCmdClose)
              (tx_then (sweepQueuedSessionCommands t sessionID commandID)
                (tx_when (activeRunID = '''')
                  (applySessionTransitionTx t sessionID SessionClosing SessionCmdFinishClose)))))
           (tx_then (applyCommandInTx t sessionID '''' commandID) (tx_return ())))"

definition applyForkSessionTx :: "txn \<Rightarrow> string \<Rightarrow> string \<Rightarrow> string \<Rightarrow> (nat \<Rightarrow> string) \<Rightarrow> ('a commands_db_scheme, unit) tx" where
  "applyForkSessionTx t parent child commandID fresh =
     (if child = '''' then tx_fail (Errorf [] ''fork_session requires a child session id'')
      else tx_then (tx_wrap ''insert fork child session'' (InsertSession t child ''''))
          (tx_then (tx_wrap ''copy fork history'' (ForkCopyResponses t parent child fresh))
          (tx_then (applyCommandInTx t parent '''' commandID)
           (SetCommandResult t commandID (JObj [(''session_id'', JStr child)])))))"

definition applyClearSessionTx :: "txn \<Rightarrow> string \<Rightarrow> string \<Rightarrow> int \<Rightarrow> ('a commands_db_scheme, unit) tx" where
  "applyClearSessionTx t sessionID commandID now =
     tx_then (ClearSessionHistory t sessionID now)
       (tx_then (applyCommandInTx t sessionID '''' commandID) (tx_return ()))"

definition enqueue_run_job :: "txn \<Rightarrow> string \<Rightarrow> string \<Rightarrow> int \<Rightarrow> ('a commands_db_scheme, unit) tx" where
  "enqueue_run_job t jobID runID now = (\<lambda>db.
     bind_result (EnqueueJob (tx_conn t) jobID (tx_tenant t) ''response.run''
                    (JObj [(''run_id'', JStr runID)]) now (durable_jobs db))
       (\<lambda>rows. Inr ((), db\<lparr>durable_jobs := rows\<rparr>)))"

definition applyResumeTx :: "txn \<Rightarrow> string \<Rightarrow> string \<Rightarrow> string \<Rightarrow> string \<Rightarrow> int \<Rightarrow> ('a commands_db_scheme, unit) tx" where
  "applyResumeTx t sessionID responseID runID commandID now =
     (if runID = '''' then rejectCommandTx t sessionID responseID commandID
          (rejection ''no_paused_run'' ''the session has no paused run to resume'')
      else tx_bind (LockRun t runID) (\<lambda>row.
        case row of None \<Rightarrow> tx_fail (Errorf [NoRows] ''lock run for resume'')
        | Some r \<Rightarrow>
            if rn_state r \<noteq> RunWaiting then rejectCommandTx t sessionID responseID commandID
                 (rejection ''not_paused'' ''the run is not paused'')
            else tx_then (applyRunTransitionTx t runID RunCmdResume)
                (tx_bind newJobID (\<lambda>jobID.
                 tx_then (tx_wrap ''enqueue resume job'' (enqueue_run_job t jobID runID now))
                 (tx_then (applyCommandInTx t (rn_session r) (or_empty (rn_response r)) commandID)
                  (tx_return ()))))))"

section \<open>Accepting a command\<close>

text \<open>What an accepted command earns in the accepting transaction.\<close>

definition resolveCommandTx :: "txn \<Rightarrow> string \<Rightarrow> SessionState \<Rightarrow> string \<Rightarrow> string \<Rightarrow> CommandInput \<Rightarrow> (nat \<Rightarrow> string) \<Rightarrow> int
    \<Rightarrow> ('a commands_db_scheme, unit) tx" where
  "resolveCommandTx t sessionID state runID responseID inp fresh now =
     (case sessionStateRejection (ci_Kind inp) state of
        Some reason \<Rightarrow> rejectCommandTx t sessionID responseID (ci_CommandID inp) reason
      | None \<Rightarrow>
          if ci_Kind inp = ''close_session'' then applyCloseSessionTx t sessionID runID (ci_CommandID inp)
          else if ci_Kind inp = ''fork_session''
          then applyForkSessionTx t sessionID (ci_ForkSessionID inp) (ci_CommandID inp) fresh
          else if ci_Kind inp = ''clear'' then applyClearSessionTx t sessionID (ci_CommandID inp) now
          else if ci_Kind inp = ''resume'' then applyResumeTx t sessionID responseID runID (ci_CommandID inp) now
          else tx_bind (if ci_Kind inp = ''change_config'' then changeConfigRejection t (ci_Payload inp)
                        else if ci_Kind inp = ''approve'' \<or> ci_Kind inp = ''deny'' then approvalRejection t sessionID
                        else tx_return (rejectionReason (ci_Kind inp) runID))
                 (\<lambda>reason. case reason of None \<Rightarrow> tx_return ()
                  | Some r \<Rightarrow> rejectCommandTx t sessionID responseID (ci_CommandID inp) r))"

text \<open>From the insert on, for a session in scope.\<close>

definition acceptInSessionTx :: "txn \<Rightarrow> string \<Rightarrow> SessionState \<Rightarrow> string \<Rightarrow> string \<Rightarrow> CommandInput \<Rightarrow> (nat \<Rightarrow> string) \<Rightarrow> int
    \<Rightarrow> ('a commands_db_scheme, Command) tx" where
  "acceptInSessionTx t sessionID state runID responseID inp fresh now =
     tx_bind (tx_wrap ''insert command'' (InsertCommand t sessionID runID inp now)) (\<lambda>inserted.
       if \<not> inserted
       then tx_bind (readCommand t (ci_CommandID inp)) (\<lambda>cmd. tx_return (cmd\<lparr>co_Replayed := True\<rparr>))
       else tx_then (appendEvent t sessionID responseID commandAcceptedEvent
              (JObj [(''command_id'', JStr (ci_CommandID inp)), (''kind'', JStr (ci_Kind inp)),
                     (''delivery'', JStr (ci_Delivery inp))]))
           (tx_then (resolveCommandTx t sessionID state runID responseID inp fresh now)
            (readCommand t (ci_CommandID inp))))"

definition acceptCommandTx :: "txn \<Rightarrow> string \<Rightarrow> CommandInput \<Rightarrow> (nat \<Rightarrow> string) \<Rightarrow> int \<Rightarrow> ('a commands_db_scheme, Command) tx" where
  "acceptCommandTx t sessionID inp fresh now =
     tx_bind (session_state t sessionID) (\<lambda>st.
       case st of None \<Rightarrow> tx_return (zero_Command\<lparr>co_SessionNotFound := True\<rparr>)
       | Some state \<Rightarrow>
           tx_bind (ActiveRootRun t sessionID) (\<lambda>live.
             case live of None \<Rightarrow> acceptInSessionTx t sessionID state '''' '''' inp fresh now
             | Some r \<Rightarrow>
                 (case rn_response r of None \<Rightarrow> tx_fail (Errorf [] ''resolve active root run'')
                  | Some responseID \<Rightarrow> acceptInSessionTx t sessionID state (rn_id r) responseID inp fresh now)))"

definition AcceptCommand :: "ctx \<Rightarrow> string \<Rightarrow> string \<Rightarrow> CommandInput \<Rightarrow> (nat \<Rightarrow> string) \<Rightarrow> int
    \<Rightarrow> 'a commands_db_scheme \<Rightarrow> Command result \<times> 'a commands_db_scheme" where
  "AcceptCommand ctx tenant sessionID inp fresh now =
     begin_tx ctx tenant ''begin accept command'' (\<lambda>t. acceptCommandTx t sessionID inp fresh now)"

section \<open>The boundary pump and the interrupt watcher\<close>

definition InsertDeliveredMessage :: "txn \<Rightarrow> string \<Rightarrow> string \<Rightarrow> string \<Rightarrow> int \<Rightarrow> ('a commands_db_scheme, unit) tx" where
  [sql_defs]: "InsertDeliveredMessage t commandID runID boundary seq = (\<lambda>db.
     if \<not> tenant_policy (tx_conn t) (tx_tenant t) then Inl RowSecurity
     else if (tx_tenant t, commandID) \<in> set (map (\<lambda>m. (dm_project m, dm_command m)) (delivered_messages db))
     then Inr ((), db)
     else Inr ((), db\<lparr>delivered_messages := delivered_messages db @ [\<lparr>dm_command = commandID,
        dm_project = tx_tenant t, dm_run = runID, dm_boundary = nullableText boundary,
        dm_applied_sequence = seq, dm_fold_state = ''delivered''\<rparr>]\<rparr>))"

definition ApplyCommand :: "ctx \<Rightarrow> string \<Rightarrow> string \<Rightarrow> string \<Rightarrow> string \<Rightarrow> string \<Rightarrow> string
    \<Rightarrow> 'a commands_db_scheme \<Rightarrow> int result \<times> 'a commands_db_scheme" where
  "ApplyCommand ctx tenant sessionID responseID runID commandID boundary =
     begin_tx ctx tenant ''begin apply command'' (\<lambda>t.
       tx_then (guardRunActive t runID)
       (tx_bind (applyCommandInTx t sessionID responseID commandID) (\<lambda>seq.
        tx_then (tx_wrap ''record delivered message'' (InsertDeliveredMessage t commandID runID boundary seq))
        (tx_return seq))))"

definition PauseRun :: "ctx \<Rightarrow> string \<Rightarrow> string \<Rightarrow> string \<Rightarrow> string \<Rightarrow> string
    \<Rightarrow> 'a commands_db_scheme \<Rightarrow> int result \<times> 'a commands_db_scheme" where
  "PauseRun ctx tenant sessionID responseID runID commandID =
     begin_tx ctx tenant ''begin pause'' (\<lambda>t.
       tx_then (applyRunTransitionTx t runID RunCmdWait)
         (applyCommandInTx t sessionID responseID commandID))"

record PendingCommand =
  pc_ID :: string
  pc_Kind :: string
  pc_Delivery :: string
  pc_Payload :: json

definition pending_of :: "command_row \<Rightarrow> PendingCommand" where
  "pending_of c = \<lparr>pc_ID = cm_id c, pc_Kind = cm_kind c, pc_Delivery = or_empty (cm_delivery c),
     pc_Payload = cm_payload c\<rparr>"

definition PendingBoundaryCommands :: "txn \<Rightarrow> string \<Rightarrow> 'a commands_db_scheme \<Rightarrow> PendingCommand list" where
  "PendingBoundaryCommands t runID db = map pending_of (sort_key cm_created_at (filter (\<lambda>c.
     cm_run c = Some runID \<and> command_queued t c \<and>
     cm_kind c \<in> {''send_message'', ''change_config'', ''approve'', ''deny'', ''background_notice''}) (commands db)))"

definition PendingSessionConfigCommands :: "txn \<Rightarrow> string \<Rightarrow> 'a commands_db_scheme \<Rightarrow> PendingCommand list" where
  "PendingSessionConfigCommands t sessionID db = map pending_of (sort_key cm_created_at (filter (\<lambda>c.
     cm_session c = sessionID \<and> command_queued t c \<and> cm_kind c = ''change_config'') (commands db)))"

definition PendingPauseCommand :: "txn \<Rightarrow> string \<Rightarrow> 'a commands_db_scheme \<Rightarrow> string option" where
  "PendingPauseCommand t runID db = (case sort_key cm_created_at (filter (\<lambda>c.
     cm_run c = Some runID \<and> command_queued t c \<and> cm_kind c = ''pause'') (commands db)) of
     [] \<Rightarrow> None | c # _ \<Rightarrow> Some (cm_id c))"

definition PendingInterruptCommand :: "txn \<Rightarrow> string \<Rightarrow> 'a commands_db_scheme \<Rightarrow> PendingCommand option" where
  "PendingInterruptCommand t runID db = (case sort_key cm_created_at (filter (\<lambda>c.
     cm_run c = Some runID \<and> command_queued t c \<and> cm_delivery c = Some ''interrupt'' \<and>
     cm_kind c \<in> {''send_message'', ''change_config''}) (commands db)) of
     [] \<Rightarrow> None | c # _ \<Rightarrow> Some (pending_of c))"

text \<open>The messages of one input boundary with the command they refer to, in applied order.\<close>

definition RedeliverBoundaryMessages :: "txn \<Rightarrow> string \<Rightarrow> string \<Rightarrow> 'a commands_db_scheme
    \<Rightarrow> (delivered_message \<times> command_row) list" where
  "RedeliverBoundaryMessages t runID boundary db =
     sort_key (\<lambda>(d, _). dm_applied_sequence d)
       (concat (map (\<lambda>d. map (Pair d) (filter (\<lambda>c. cm_project c = dm_project d \<and> cm_id c = dm_command d) (commands db)))
          (filter (\<lambda>d. dm_run d = runID \<and> sees t (dm_project d) \<and> dm_boundary d = Some boundary) (delivered_messages db))))"

definition CarrySessionSendMessages :: "ctx \<Rightarrow> string \<Rightarrow> string \<Rightarrow> string
    \<Rightarrow> 'a commands_db_scheme \<Rightarrow> nat result \<times> 'a commands_db_scheme" where
  "CarrySessionSendMessages ctx tenant sessionID runID =
     begin_tx ctx tenant ''carry session send messages'' (\<lambda>t db.
       let p = (\<lambda>c. cm_session c = sessionID \<and> command_queued t c \<and> cm_kind c = ''send_message'' \<and>
                 (case cm_run c of None \<Rightarrow> False
                  | Some old \<Rightarrow> old \<noteq> runID \<and> list_ex (\<lambda>r. rn_id r = old \<and> tenant_policy (tx_conn t) (rn_project r) \<and>
                       rn_state r \<in> {RunCompleted, RunFailed, RunCanceled, RunTimedOut, RunBudgetExceeded}) (runs db)))
       in Inr (sql_affected p (commands db),
               db\<lparr>commands := sql_update p (\<lambda>c. c\<lparr>cm_run := Some runID\<rparr>) (commands db)\<rparr>))"

section \<open>Interrupting a step\<close>

definition InterruptModelStep :: "(string \<Rightarrow> string) \<Rightarrow> ctx \<Rightarrow> string \<Rightarrow> string \<Rightarrow> string \<Rightarrow> string \<Rightarrow> string \<Rightarrow> string
    \<Rightarrow> string \<Rightarrow> json \<Rightarrow> int \<Rightarrow> 'a commands_db_scheme \<Rightarrow> int result \<times> 'a commands_db_scheme" where
  "InterruptModelStep sha ctx tenant sessionID responseID runID commandID boundary partialType partialPayload now =
     begin_tx ctx tenant ''begin interrupt'' (\<lambda>t.
       tx_then (guardRunActive t runID)
       (tx_then (appendEvent t sessionID responseID partialType partialPayload)
       (tx_then (settleUsage sha t now [interruptedStepEntry sessionID runID boundary])
       (tx_bind (applyCommandInTx t sessionID responseID commandID) (\<lambda>seq.
        tx_then (tx_when (boundary \<noteq> '''')
            (tx_wrap ''record interrupt delivered message'' (InsertDeliveredMessage t commandID runID boundary seq)))
        (tx_return seq))))))"

section \<open>Config revisions\<close>

record ConfigChangePlan =
  pl_RevisionID :: string
  pl_Model :: string
  pl_ToolsJSON :: "json option"
  pl_SnapshotHash :: string
  pl_Immediate :: bool
  pl_RevisedPayload :: json

definition InsertConfigRevision :: "txn \<Rightarrow> config_revision \<Rightarrow> ('a commands_db_scheme, unit) tx" where
  [sql_defs]: "InsertConfigRevision t r = (\<lambda>db.
     if \<not> tenant_policy (tx_conn t) (cr_project r) then Inl RowSecurity
     else if (cr_project r, cr_id r) \<in> set (map (\<lambda>x. (cr_project x, cr_id x)) (config_revisions db))
     then Inl UniqueViolation
     else Inr ((), db\<lparr>config_revisions := config_revisions db @ [r]\<rparr>))"

definition applyConfigChangeInTx :: "txn \<Rightarrow> string \<Rightarrow> string \<Rightarrow> string \<Rightarrow> ConfigChangePlan \<Rightarrow> ('a commands_db_scheme, int) tx" where
  "applyConfigChangeInTx t sessionID responseID commandID plan =
     tx_bind (applyCommandInTx t sessionID responseID commandID) (\<lambda>seq.
     tx_then (tx_wrap ''insert config revision'' (InsertConfigRevision t
        \<lparr>cr_id = pl_RevisionID plan, cr_project = tx_tenant t, cr_session = sessionID, cr_command = commandID,
         cr_sequence = seq, cr_model = pl_Model plan, cr_tools = pl_ToolsJSON plan,
         cr_snapshot_hash = pl_SnapshotHash plan, cr_immediate = pl_Immediate plan\<rparr>))
     (tx_then (appendEvent t sessionID responseID configRevisedEvent (pl_RevisedPayload plan))
     (tx_return seq)))"

definition ApplyConfigChange :: "ctx \<Rightarrow> string \<Rightarrow> string \<Rightarrow> string \<Rightarrow> string \<Rightarrow> string \<Rightarrow> ConfigChangePlan
    \<Rightarrow> 'a commands_db_scheme \<Rightarrow> int result \<times> 'a commands_db_scheme" where
  "ApplyConfigChange ctx tenant sessionID responseID runID commandID plan =
     begin_tx ctx tenant ''begin apply config change'' (\<lambda>t.
       tx_then (guardRunActive t runID)
         (applyConfigChangeInTx t sessionID responseID commandID plan))"

definition InterruptForConfigChange :: "(string \<Rightarrow> string) \<Rightarrow> ctx \<Rightarrow> string \<Rightarrow> string \<Rightarrow> string \<Rightarrow> string \<Rightarrow> ConfigChangePlan
    \<Rightarrow> string \<Rightarrow> string \<Rightarrow> string \<Rightarrow> json \<Rightarrow> string \<Rightarrow> json \<Rightarrow> int \<Rightarrow> 'a commands_db_scheme
    \<Rightarrow> int result \<times> 'a commands_db_scheme" where
  "InterruptForConfigChange sha ctx tenant sessionID responseID runID plan commandID boundary partialType
     partialPayload warningType warningPayload now =
     begin_tx ctx tenant ''begin interrupt config change'' (\<lambda>t.
       tx_then (guardRunActive t runID)
       (tx_then (appendEvent t sessionID responseID partialType partialPayload)
       (tx_then (settleUsage sha t now [interruptedStepEntry sessionID runID boundary])
       (tx_bind (applyConfigChangeInTx t sessionID responseID commandID plan) (\<lambda>seq.
        tx_then (appendEvent t sessionID responseID warningType warningPayload)
        (tx_return seq))))))"

end
