(* ===== verification/Journal_Safety.thy ===== *)
theory Journal_Safety
  imports Commands
begin

text \<open>
  Correctness of the journal, the run lifecycle and the commands.  The operations are lifted to a
  step relation; a preorder on the tables that is kept by each building block is kept by every
  operation (locales \<open>command_statements\<close> and \<open>journal_operations\<close>).  Four preorders are interpreted:
  the journal only grows and stays gap-free, a run only moves along its table, a settled command
  never changes, and a session only moves towards its end.
\<close>

section \<open>Operations\<close>

inductive journal_step :: "(string \<Rightarrow> string) \<Rightarrow> 'a commands_db_scheme \<Rightarrow> 'a commands_db_scheme \<Rightarrow> bool" for sha where
  transition: "ApplyRunTransition ctx tenant runID cmd db = (rt, db') \<Longrightarrow> journal_step sha db db'"
| timeout: "TimeoutQueuedIfExpired ctx tenant runID respID ns proj now db = (rb, db') \<Longrightarrow> journal_step sha db db'"
| finalize: "FinalizeResponse ctx tenant respID st proj db = (ru, db') \<Longrightarrow> journal_step sha db db'"
| recovery: "RecordRecoveryEvent ctx tenant sid respID ty payload db = (ri, db') \<Longrightarrow> journal_step sha db db'"
| accept: "AcceptCommand ctx tenant sid inp fresh now db = (rc, db') \<Longrightarrow> journal_step sha db db'"
| apply_cmd: "ApplyCommand ctx tenant sid respID runID cid boundary db = (ri, db') \<Longrightarrow> journal_step sha db db'"
| pause: "PauseRun ctx tenant sid respID runID cid db = (ri, db') \<Longrightarrow> journal_step sha db db'"
| carry: "CarrySessionSendMessages ctx tenant sid runID db = (rn, db') \<Longrightarrow> journal_step sha db db'"
| interrupt: "InterruptModelStep sha ctx tenant sid respID runID cid boundary ty payload now db = (ri, db') \<Longrightarrow> journal_step sha db db'"
| config: "ApplyConfigChange ctx tenant sid respID runID cid plan db = (ri, db') \<Longrightarrow> journal_step sha db db'"
| config_now: "InterruptForConfigChange sha ctx tenant sid respID runID plan cid boundary ty payload wty wp now db = (ri, db')
    \<Longrightarrow> journal_step sha db db'"

lemma begin_tx_cases:
  assumes "begin_tx ctx tenant msg body s = (r, s')"
  shows "s' = s \<and> (\<exists>e. r = Inl e) \<or> (\<exists>t a. tx_tenant t = tenant \<and>
    PrepareConn (ScopeToTenant ctx tenant) = Inr (tx_conn t) \<and> body t s = Inr (a, s') \<and> r = Inr a)"
  using assms by (auto simp: begin_tx_def commit_def split: sum.splits prod.splits
      intro!: exI [of _ "\<lparr>tx_conn = _, tx_tenant = tenant\<rparr>"])

section \<open>Preorders closed under the operations\<close>

text \<open>What a relation must admit for the accepting transaction to stay inside it.\<close>

locale command_statements = tx_preorder R
  for R :: "'a commands_db_scheme \<Rightarrow> 'a commands_db_scheme \<Rightarrow> bool" +
  fixes may :: "txn \<Rightarrow> string \<Rightarrow> bool"
  assumes in_event: "tx_in R (journal_event t sid resp ty payload msg app)"
    and in_run: "tx_in R (applyRunTransitionTx t runID cmd)"
    and in_apply: "tx_in R (applyCommandInTx t sid resp' cid)"
    and in_close: "tx_in R (applyCloseSessionTx t sid runID cid)"
    and in_insert: "tx_in R (InsertCommand t sid runID inp now)"
    and in_reject: "may t cid \<Longrightarrow> tx_in R (CompleteCommandRejected t cid reason)"
    and in_result: "tx_in R (SetCommandResult t cid res)"
    and in_session: "tx_in R (InsertSession t sid name)"
    and in_fork: "tx_in R (ForkCopyResponses t parent child fresh)"
    and in_clear: "tx_in R (ClearSessionHistory t sid now)"
    and in_job_id: "tx_in R newJobID"
    and in_job: "tx_in R (enqueue_run_job t jobID runID now)"
begin

lemma in_append: "tx_in R (appendEvent t sid resp ty payload)"
  by (simp add: appendEvent_def in_event)

lemma in_reject_tx: "may t cid \<Longrightarrow> tx_in R (rejectCommandTx t sid resp cid reason)"
  unfolding rejectCommandTx_def by (intro in_intros in_reject in_append)

lemma in_resume: "may t cid \<Longrightarrow> tx_in R (applyResumeTx t sid resp runID cid now)"
  unfolding applyResumeTx_def LockRun_def
  by (intro in_intros in_reject_tx in_run in_job_id in_job in_apply)

lemma in_fork_tx: "tx_in R (applyForkSessionTx t parent child cid fresh)"
  unfolding applyForkSessionTx_def by (intro in_intros in_session in_fork in_apply in_result)

lemma in_clear_tx: "tx_in R (applyClearSessionTx t sid cid now)"
  unfolding applyClearSessionTx_def by (intro in_intros in_clear in_apply)

lemma in_resolve:
  "may t (ci_CommandID inp) \<Longrightarrow> tx_in R (resolveCommandTx t sid state runID resp inp fresh now)"
  unfolding resolveCommandTx_def changeConfigRejection_def approvalRejection_def projectConfigTx_def
    SessionHasPendingApproval_def
  by (intro in_intros in_reject_tx in_close in_fork_tx in_clear_tx in_resume)

lemma in_accept:
  assumes "may t (ci_CommandID inp)" shows "tx_in R (acceptCommandTx t sid inp fresh now)"
proof -
  have "tx_in R (readCommand t cid)" for cid
    by (rule tx_inI) (auto simp: readCommand_def R_refl split: option.splits)
  then show ?thesis
    unfolding acceptCommandTx_def acceptInSessionTx_def session_state_def ActiveRootRun_def
    using assms by (intro in_intros in_insert in_append in_resolve)
qed

end

text \<open>What a relation must admit for every operation to stay inside it.\<close>

locale journal_operations = tx_preorder R
  for R :: "'a commands_db_scheme \<Rightarrow> 'a commands_db_scheme \<Rightarrow> bool" +
  fixes sha :: "string \<Rightarrow> string"
  assumes op_event: "tx_in R (journal_event t sid resp ty payload msg app)"
    and op_run: "tx_in R (applyRunTransitionTx t runID cmd)"
    and op_apply: "tx_in R (applyCommandInTx t sid resp' cid)"
    and op_accept: "tx_in R (acceptCommandTx t sid inp fresh now)"
    and op_response: "tx_in R (UpdateResponse t rid st proj)"
    and op_delivered: "tx_in R (InsertDeliveredMessage t cid runID boundary seq)"
    and op_settle: "tx_in R (SettleUsage sha t now entry)"
    and op_revision: "tx_in R (InsertConfigRevision t crev)"
    and op_carry: "CarrySessionSendMessages ctx tenant sid runID s = (rn, s') \<Longrightarrow> R s s'"
begin

lemma op_append: "tx_in R (appendEvent t sid resp ty payload)"
  by (simp add: appendEvent_def op_event)

lemma op_guard: "tx_in R (guardRunActive t runID)"
  unfolding guardRunActive_def lockRunStateTx_def LockRun_def by (intro in_intros)

lemma op_usage: "tx_in R (settleUsage sha t now entries)"
  unfolding settleUsage_def by (intro in_intros op_settle)

lemma op_config: "tx_in R (applyConfigChangeInTx t sid resp cid plan)"
  unfolding applyConfigChangeInTx_def by (intro in_intros op_apply op_revision op_append)

lemma begin_in:
  assumes "begin_tx ctx tenant msg body s = (r, s')" and "\<And>t. tx_in R (body t)" shows "R s s'"
  using begin_tx_cases [OF assms(1)] assms(2) R_refl by (auto dest: tx_inD)

lemmas op_intros = op_event op_run op_apply op_accept op_response op_delivered op_append op_guard
  op_usage op_config

lemma timeout_in:
  assumes "TimeoutQueuedIfExpired ctx tenant runID resp ns proj now s = (r, s')" shows "R s s'"
proof -
  have "s' = s \<or> (\<exists>t a s1. applyRunTransitionTx t runID RunCmdTimeout s = Inr (a, s1) \<and>
      commit (tx_then (UpdateResponse t resp (RunState_text RunTimedOut) proj) (tx_return True)) s1 = (r, s'))"
    using assms unfolding TimeoutQueuedIfExpired_def Let_def
    by (auto split: if_splits sum.splits option.splits prod.splits)
  moreover have "tx_in R (tx_then (UpdateResponse t resp st proj) (tx_return True))" for t st
    by (intro in_intros op_response)
  ultimately show ?thesis using R_refl R_trans op_run tx_inD in_commit by metis
qed

theorem step_in: "journal_step sha s s' \<Longrightarrow> R s s'"
  by (induction rule: journal_step.induct)
    (auto simp: ApplyRunTransition_def FinalizeResponse_def RecordRecoveryEvent_def AcceptCommand_def
      ApplyCommand_def PauseRun_def InterruptModelStep_def ApplyConfigChange_def InterruptForConfigChange_def
      elim!: begin_in op_carry timeout_in intro!: in_intros op_intros)

lemma steps_in: "(journal_step sha)\<^sup>*\<^sup>* s s' \<Longrightarrow> R s s'"
  by (induction rule: rtranclp_induct) (auto intro: R_refl R_trans step_in)

end

section \<open>Building blocks\<close>

locale effect_statements = tx_preorder R
  for R :: "'a commands_db_scheme \<Rightarrow> 'a commands_db_scheme \<Rightarrow> bool" +
  assumes st_event: "tx_in R (journal_event t sid resp ty payload msg app)"
    and st_outbox: "tx_in R (enqueue_outbox t topic key body)"
    and st_expire: "tx_in R (ExpireQueuedCommandsForRun t runID all)"
    and st_queue: "tx_in R (EnqueueTerminalQueueDeliveries t runID resp' sid st)"
begin

lemma st_append: "tx_in R (appendEvent t sid resp ty payload)"
  by (simp add: appendEvent_def st_event)

lemma st_sweep: "tx_in R (sweepQueuedCommands t sid resp runID terminal)"
  unfolding sweepQueuedCommands_def warnSurvivingSendMessages_def SurvivingQueuedSendMessagesForRun_def Let_def
  by (intro in_intros st_append st_expire)

lemma st_effects: "tx_in R (runTransitionEffects t r runID next event)"
  unfolding runTransitionEffects_def by (intro in_intros st_event st_outbox st_sweep st_queue)

lemma st_run:
  "(\<And>t runID next. tx_in R (UpdateRunState t runID next)) \<Longrightarrow> tx_in R (applyRunTransitionTx t runID cmd)"
  unfolding applyRunTransitionTx_def LockRun_def by (intro in_intros st_effects)

lemma st_apply:
  "(\<And>t cid seq. tx_in R (CompleteCommandApplied t cid seq)) \<Longrightarrow> tx_in R (applyCommandInTx t sid resp cid)"
  unfolding applyCommandInTx_def LockCommand_def by (intro in_intros st_event)

lemma st_close:
  assumes "\<And>t sid next. tx_in R (UpdateSessionState t sid next)"
    and "\<And>t sid cid. tx_in R (ExpireQueuedSessionCommands t sid cid)"
    and "\<And>t sid resp cid. tx_in R (applyCommandInTx t sid resp cid)"
  shows "tx_in R (applyCloseSessionTx t sid runID cid)"
  unfolding applyCloseSessionTx_def applySessionTransitionTx_def sweepQueuedSessionCommands_def session_state_def
  by (intro in_intros assms st_append)

end

text \<open>A relation that no statement can leave gives both contracts at once.\<close>

locale plain_statements = effect_statements R
  for R :: "'a commands_db_scheme \<Rightarrow> 'a commands_db_scheme \<Rightarrow> bool" +
  fixes sha :: "string \<Rightarrow> string"
  assumes pl_update_run: "tx_in R (UpdateRunState t runID next)"
    and pl_complete: "tx_in R (CompleteCommandApplied t cid seq)"
    and pl_reject: "tx_in R (CompleteCommandRejected t cid reason)"
    and pl_result: "tx_in R (SetCommandResult t cid reason)"
    and pl_update_session: "tx_in R (UpdateSessionState t sid snext)"
    and pl_expire: "tx_in R (ExpireQueuedSessionCommands t sid cid)"
    and pl_insert: "tx_in R (InsertCommand t sid runID inp now)"
    and pl_session: "tx_in R (InsertSession t sid name)"
    and pl_fork: "tx_in R (ForkCopyResponses t parent child fresh)"
    and pl_clear: "tx_in R (ClearSessionHistory t sid now)"
    and pl_job_id: "tx_in R newJobID"
    and pl_job: "tx_in R (enqueue_run_job t jobID runID now)"
    and pl_response: "tx_in R (UpdateResponse t rid st proj)"
    and pl_delivered: "tx_in R (InsertDeliveredMessage t cid runID boundary seq)"
    and pl_settle: "tx_in R (SettleUsage sha t now entry)"
    and pl_revision: "tx_in R (InsertConfigRevision t crev)"
    and pl_carry: "CarrySessionSendMessages ctx tenant sid runID s = (rn, s') \<Longrightarrow> R s s'"

sublocale plain_statements \<subseteq> plain_cmds: command_statements R "\<lambda>_ _. True"
  by unfold_locales (intro st_event st_run pl_update_run st_apply pl_complete st_close pl_update_session
      pl_expire pl_insert pl_reject pl_result pl_session pl_fork pl_clear pl_job_id pl_job)+

sublocale plain_statements \<subseteq> plain_ops: journal_operations R sha
  by unfold_locales (auto intro: st_event st_run pl_update_run st_apply pl_complete plain_cmds.in_accept
      pl_response pl_delivered pl_settle pl_revision pl_carry)

section \<open>The journal\<close>

definition gap_free :: "'a journal_db_scheme \<Rightarrow> bool" where
  "gap_free db \<longleftrightarrow> (\<forall>sid. 0 \<le> last_seq db sid \<and> map ev_seq (filter (\<lambda>e. ev_session e = sid) (events db)) = [1 .. last_seq db sid])"

lemma journal_event_result:
  assumes "journal_event t sid resp ty payload msg app s = Inr (seq, s')"
  shows "seq = last_seq s sid + 1 \<and> sid \<in> set (map se_id (sessions s)) \<and>
    (\<exists>r rs. entropy s = r # rs \<and> s' = s\<lparr>session_sequences := AList.update sid seq (session_sequences s),
       entropy := rs, events := events s @ [\<lparr>ev_id = ''evt_'' @ r, ev_project = tx_tenant t, ev_session = sid,
         ev_response = resp, ev_seq = seq, ev_type = ty, ev_payload = payload seq\<rparr>]\<rparr>)"
  using assms
  by (auto simp: journal_event_def tx_iffs AllocateSequence_def newEventID_def AppendEvent_def Let_def
      last_seq_def split: if_splits list.splits)

definition journal_le :: "'a journal_db_scheme \<Rightarrow> 'a journal_db_scheme \<Rightarrow> bool" where
  "journal_le s s' \<longleftrightarrow> prefix (events s) (events s') \<and> (gap_free s \<longrightarrow> gap_free s')"

lemma journal_le_same:
  assumes "events s' = events s" and "session_sequences s' = session_sequences s"
  shows "journal_le s s'"
  using assms by (simp add: journal_le_def gap_free_def last_seq_def)

lemma last_seq_update:
  "last_seq (db\<lparr>session_sequences := AList.update sid n (session_sequences db)\<rparr>) i =
     (if i = sid then n else last_seq db i)"
  by (simp add: last_seq_def update_conv')

lemma journal_event_le: "tx_in journal_le (journal_event t sid resp ty payload msg app)"
proof (rule tx_inI)
  fix s seq s' assume "journal_event t sid resp ty payload msg app s = Inr (seq, s')"
  from journal_event_result [OF this] obtain r rs where seq: "seq = last_seq s sid + 1"
    and new: "s' = s\<lparr>session_sequences := AList.update sid seq (session_sequences s), entropy := rs,
       events := events s @ [\<lparr>ev_id = ''evt_'' @ r, ev_project = tx_tenant t, ev_session = sid,
         ev_response = resp, ev_seq = seq, ev_type = ty, ev_payload = payload seq\<rparr>]\<rparr>" by auto
  define e where "e = \<lparr>ev_id = ''evt_'' @ r, ev_project = tx_tenant t, ev_session = sid,
         ev_response = resp, ev_seq = seq, ev_type = ty, ev_payload = payload seq\<rparr>"
  have e: "ev_session e = sid" "ev_seq e = seq" by (simp_all add: e_def)
  have s': "s' = s\<lparr>session_sequences := AList.update sid seq (session_sequences s), entropy := rs,
       events := events s @ [e]\<rparr>" using new by (simp add: e_def)
  have ev: "events s' = events s @ [e]" by (simp add: s')
  have last: "last_seq s' i = (if i = sid then seq else last_seq s i)" for i
    by (simp add: s' last_seq_def update_conv')
  have "gap_free s'" if "gap_free s"
    unfolding gap_free_def
  proof (intro allI conjI)
    fix i
    have old: "0 \<le> last_seq s i" "map ev_seq (filter (\<lambda>e. ev_session e = i) (events s)) = [1 .. last_seq s i]"
      using that by (auto simp: gap_free_def)
    show "0 \<le> last_seq s' i" using old(1) seq by (auto simp: last)
    show "map ev_seq (filter (\<lambda>e. ev_session e = i) (events s')) = [1 .. last_seq s' i]"
      using old e seq upto_rec2 [of 1 "last_seq s i + 1"] by (auto simp: ev last)
  qed
  then show "journal_le s s'" by (simp add: journal_le_def s')
qed

interpretation journal: plain_statements journal_le sha for sha
proof unfold_locales
  show "journal_le s u" if "journal_le s t" "journal_le t u" for s t u :: "'a commands_db_scheme"
    using that by (auto simp: journal_le_def intro: prefix_order.trans)
qed (auto intro!: tx_inI journal_le_same journal_event_le
    simp: sql_defs update_command_def enqueue_outbox_def newJobID_def enqueue_run_job_def Let_def
      bind_result_eq_Inr CarrySessionSendMessages_def begin_tx_def commit_def
    split: if_splits list.splits sum.splits prod.splits)

section \<open>Runs\<close>

text \<open>A run keeps its identity, moves only along legal commands, and a terminal one stays.\<close>

definition run_le :: "run_row \<Rightarrow> run_row \<Rightarrow> bool" where
  "run_le r r' \<longleftrightarrow> r' = r\<lparr>rn_state := rn_state r'\<rparr> \<and> (\<exists>cs. drive (rn_state r) cs RunTable = Some (rn_state r'))"

definition runs_le :: "'a journal_db_scheme \<Rightarrow> 'a journal_db_scheme \<Rightarrow> bool" where
  "runs_le s s' \<longleftrightarrow> map rn_id (runs s') = map rn_id (runs s) \<and> (distinct (map rn_id (runs s)) \<longrightarrow>
     list_all2 run_le (runs s) (runs s'))"

lemma drive_append:
  "drive s cs tab = Some t \<Longrightarrow> drive t ds tab = Some u \<Longrightarrow> drive s (cs @ ds) tab = Some u"
  by (induction cs arbitrary: s) (auto split: sum.splits)

lemma run_le_refl: "run_le r r"
  by (simp add: run_le_def) (metis drive.simps(1))

lemma run_le_trans: "run_le a b \<Longrightarrow> run_le b c \<Longrightarrow> run_le a c"
  unfolding run_le_def
  by (metis (no_types, lifting) drive_append run_row.select_convs(5) run_row.surjective run_row.update_convs(5))

lemma runs_le_same: "runs s' = runs s \<Longrightarrow> runs_le s s'"
  by (simp add: runs_le_def list_all2_refl run_le_refl)

lemma runs_le_trans: "runs_le a b \<Longrightarrow> runs_le b c \<Longrightarrow> runs_le a c"
  by (auto simp: runs_le_def intro: list_all2_trans [OF run_le_trans])

definition same_runs :: "'a journal_db_scheme \<Rightarrow> 'a journal_db_scheme \<Rightarrow> bool" where
  "same_runs s s' \<longleftrightarrow> runs s' = runs s \<and> sessions s' = sessions s"

lemma journal_event_same:
  "journal_event t sid resp ty payload msg app s = Inr (seq, s') \<Longrightarrow>
   runs s' = runs s \<and> sessions s' = sessions s \<and> commands s' = commands s \<and> responses s' = responses s \<and>
   durable_jobs s' = durable_jobs s \<and> outbox s' = outbox s"
  using journal_event_result by fastforce

interpretation effects_same: effect_statements same_runs
  by unfold_locales (auto intro!: tx_inI simp: same_runs_def sql_defs enqueue_outbox_def Let_def
      bind_result_eq_Inr split: if_splits dest!: journal_event_same)

lemma run_transition_row:
  assumes "applyRunTransitionTx t runID cmd s = Inr (a, s')"
  obtains r nx event s1 where "r \<in> set (runs s)" "rn_id r = runID" "sees t (rn_project r)"
    "Apply (rn_state r) cmd RunTable = Inr (nx, event)"
    "runTransitionEffects t r runID nx event s1 = Inr (a, s')"
    "s1 = s\<lparr>runs := sql_update (\<lambda>r. rn_id r = runID \<and> sees t (rn_project r)) (\<lambda>r. r\<lparr>rn_state := nx\<rparr>) (runs s)\<rparr>"
  using assms
  by (auto simp: applyRunTransitionTx_def tx_iffs LockRun_def UpdateRunState_def
      split: option.splits sum.splits dest!: sql_row_Some)

lemma run_transition_le:
  "tx_in (runs_le :: 'a commands_db_scheme \<Rightarrow> 'a commands_db_scheme \<Rightarrow> bool) (applyRunTransitionTx t runID cmd)"
proof (rule tx_inI)
  fix s s' :: "'a commands_db_scheme" and a assume "applyRunTransitionTx t runID cmd s = Inr (a, s')"
  then obtain r nx event s1 where r: "r \<in> set (runs s)" "rn_id r = runID" "sees t (rn_project r)"
    and step: "Apply (rn_state r) cmd RunTable = Inr (nx, event)"
    and eff: "runTransitionEffects t r runID nx event s1 = Inr (a, s')"
    and s1: "s1 = s\<lparr>runs := sql_update (\<lambda>r. rn_id r = runID \<and> sees t (rn_project r)) (\<lambda>r. r\<lparr>rn_state := nx\<rparr>) (runs s)\<rparr>"
    by (rule run_transition_row)
  have runs: "runs s' = runs s1"
    using tx_inD [OF effects_same.st_effects eff] by (simp add: same_runs_def)
  have one: "run_le x (if rn_id x = runID \<and> sees t (rn_project x) then x\<lparr>rn_state := nx\<rparr> else x)"
    if "distinct (map rn_id (runs s))" "x \<in> set (runs s)" for x
  proof (cases "rn_id x = runID")
    case True
    then have "x = r" using key_unique that r by metis
    moreover have "drive (rn_state r) [cmd] RunTable = Some nx" using step by simp
    ultimately have "run_le x (x\<lparr>rn_state := nx\<rparr>)" unfolding run_le_def by (metis run_row.select_convs(5) run_row.surjective run_row.update_convs(5))
    then show ?thesis using run_le_refl by simp
  qed (simp add: run_le_refl)
  show "runs_le s s'"
    unfolding runs_le_def
  proof (intro conjI impI)
    show "map rn_id (runs s') = map rn_id (runs s)" by (simp add: runs s1 sql_update_def)
    assume "distinct (map rn_id (runs s))"
    with one show "list_all2 run_le (runs s) (runs s')"
      by (simp add: runs s1 sql_update_def list_all2_conv_all_nth)
  qed
qed

lemmas statement_defs = sql_defs update_command_def enqueue_outbox_def newJobID_def enqueue_run_job_def Let_def
  bind_result_eq_Inr

interpretation run_effects: effect_statements runs_le
  by unfold_locales (rule runs_le_same, simp, erule (1) runs_le_trans,
      auto intro!: tx_inI runs_le_same simp: statement_defs split: if_splits dest!: journal_event_same)

lemma run_apply_le: "tx_in runs_le (applyCommandInTx t sid resp cid)"
  by (rule run_effects.st_apply) (auto intro!: tx_inI runs_le_same simp: statement_defs)

lemma run_close_le: "tx_in runs_le (applyCloseSessionTx t sid runID cid)"
  by (rule run_effects.st_close) (auto intro!: tx_inI runs_le_same run_apply_le simp: statement_defs)

interpretation run_cmds: command_statements runs_le "\<lambda>_ _. True"
  by unfold_locales (intro run_effects.st_event run_transition_le run_apply_le run_close_le |
      auto intro!: tx_inI runs_le_same simp: statement_defs split: if_splits list.splits)+

interpretation run_moves: journal_operations runs_le sha for sha
  by unfold_locales (intro run_effects.st_event run_transition_le run_apply_le run_cmds.in_accept TrueI |
      auto intro!: tx_inI runs_le_same
        simp: statement_defs CarrySessionSendMessages_def begin_tx_def commit_def
        split: if_splits list.splits sum.splits)+

section \<open>Sessions\<close>

definition session_le :: "session_row \<Rightarrow> session_row \<Rightarrow> bool" where
  "session_le x y \<longleftrightarrow> y = x\<lparr>se_state := se_state y\<rparr> \<and> (se_state y = se_state x \<or>
     se_state x \<in> {SessionActive, SessionPaused} \<and> se_state y \<in> {SessionClosing, SessionClosed})"

definition sessions_le :: "'a journal_db_scheme \<Rightarrow> 'a journal_db_scheme \<Rightarrow> bool" where
  "sessions_le s s' \<longleftrightarrow> (distinct (map se_id (sessions s)) \<longrightarrow> distinct (map se_id (sessions s')) \<and>
     (\<forall>x \<in> set (sessions s). \<exists>y \<in> set (sessions s'). session_le x y))"

lemma session_le_refl: "session_le x x"
  by (simp add: session_le_def)

lemma session_le_trans: "session_le a b \<Longrightarrow> session_le b c \<Longrightarrow> session_le a c"
  unfolding session_le_def
  by (smt (verit) SessionState.distinct insertCI insertE session_row.select_convs(3) session_row.surjective
      session_row.update_convs(3) singletonD)

lemma sessions_le_same: "sessions s' = sessions s \<Longrightarrow> sessions_le s s'"
  by (auto simp: sessions_le_def intro: session_le_refl)

lemma sessions_le_trans: "sessions_le a b \<Longrightarrow> sessions_le b c \<Longrightarrow> sessions_le a c"
  unfolding sessions_le_def by (meson session_le_trans)

interpretation session_effects: effect_statements sessions_le
  by unfold_locales (rule sessions_le_same, simp, erule (1) sessions_le_trans,
      auto intro!: tx_inI sessions_le_same simp: statement_defs split: if_splits dest!: journal_event_same)

lemma session_apply_le: "tx_in sessions_le (applyCommandInTx t sid resp cid)"
  by (rule session_effects.st_apply) (auto intro!: tx_inI sessions_le_same simp: statement_defs)

lemma session_run_le:
  "tx_in (sessions_le :: 'a commands_db_scheme \<Rightarrow> 'a commands_db_scheme \<Rightarrow> bool) (applyRunTransitionTx t runID cmd)"
  by (rule session_effects.st_run) (auto intro!: tx_inI sessions_le_same simp: statement_defs)

lemma sweep_same: "sweepQueuedSessionCommands t sid cid s = Inr (u, s') \<Longrightarrow> same_runs s s'"
proof (rule tx_inD [of same_runs])
  show "tx_in same_runs (sweepQueuedSessionCommands t sid cid)"
    unfolding sweepQueuedSessionCommands_def
    by (intro effects_same.in_intros effects_same.st_append)
      (auto intro!: tx_inI simp: statement_defs same_runs_def)
qed

lemma apply_same: "applyCommandInTx t sid resp cid s = Inr (a, s') \<Longrightarrow> same_runs s s'"
  by (rule tx_inD [OF effects_same.st_apply]) (auto intro!: tx_inI simp: statement_defs same_runs_def)

lemma session_transition_result:
  assumes "applySessionTransitionTx t sid cur cmd s = Inr (u, s')"
  shows "\<exists>nx ev. Apply cur cmd SessionTable = Inr (nx, ev) \<and> runs s' = runs s \<and>
    sessions s' = sql_update (\<lambda>x. se_id x = sid \<and> sees t (se_project x)) (\<lambda>x. x\<lparr>se_state := nx\<rparr>) (sessions s)"
  using assms
  by (auto simp: applySessionTransitionTx_def tx_iffs appendEvent_def UpdateSessionState_def
      split: sum.splits dest!: journal_event_same)

lemma sql_update_twice:
  "(\<And>x. p x \<Longrightarrow> p (f x)) \<Longrightarrow> sql_update p g (sql_update p f rows) = sql_update p (g \<circ> f) rows"
  by (simp add: sql_update_def)

lemma close_table: "Apply cur SessionCmdClose SessionTable = Inr (nx, ev) \<Longrightarrow> nx = SessionClosing"
  "Apply SessionClosing SessionCmdFinishClose SessionTable = Inr (nx, ev) \<Longrightarrow> nx = SessionClosed"
  by (auto simp: SessionTable_def split: if_splits)

text \<open>What a close does to the session row: nothing unless it was active or paused.\<close>

lemma close_sessions:
  assumes "applyCloseSessionTx t sid runID cid s = Inr (u, s')"
  shows "\<exists>x \<in> set (sessions s). se_id x = sid \<and> sees t (se_project x) \<and> sessions s' =
    (if se_state x \<in> {SessionActive, SessionPaused}
     then sql_update (\<lambda>x. se_id x = sid \<and> sees t (se_project x))
            (\<lambda>x. x\<lparr>se_state := (if runID = '''' then SessionClosed else SessionClosing)\<rparr>) (sessions s)
     else sessions s)"
proof -
  let ?p = "\<lambda>x. se_id x = sid \<and> sees t (se_project x)"
  from assms obtain x s1 a where x: "sql_row ?p (sessions s) = Some x"
    and body: "tx_when (se_state x = SessionActive \<or> se_state x = SessionPaused)
       (tx_then (applySessionTransitionTx t sid (se_state x) SessionCmdClose)
        (tx_then (sweepQueuedSessionCommands t sid cid) (tx_when (runID = '''')
          (applySessionTransitionTx t sid SessionClosing SessionCmdFinishClose)))) s = Inr ((), s1)"
    and app: "applyCommandInTx t sid '''' cid s1 = Inr (a, s')"
    by (auto simp: applyCloseSessionTx_def tx_bind_eq tx_then_eq session_state_def split: option.splits)
  have last: "sessions s' = sessions s1" using apply_same [OF app] by (simp add: same_runs_def)
  have mem: "x \<in> set (sessions s) \<and> ?p x" using sql_row_Some [OF x] .
  show ?thesis
  proof (cases "se_state x \<in> {SessionActive, SessionPaused}")
    case True
    with body obtain s2 s3 where
      one: "applySessionTransitionTx t sid (se_state x) SessionCmdClose s = Inr ((), s2)"
      and two: "sweepQueuedSessionCommands t sid cid s2 = Inr ((), s3)"
      and three: "if runID = '''' then applySessionTransitionTx t sid SessionClosing SessionCmdFinishClose s3 = Inr ((), s1)
                  else s1 = s3"
      by (auto simp: tx_iffs split: if_splits)
    have s2: "sessions s2 = sql_update ?p (\<lambda>x. x\<lparr>se_state := SessionClosing\<rparr>) (sessions s)"
      using session_transition_result [OF one] close_table(1) by blast
    have s3: "sessions s3 = sessions s2" using sweep_same [OF two] by (simp add: same_runs_def)
    show ?thesis
    proof (cases "runID = ''''")
      case True
      with three have "applySessionTransitionTx t sid SessionClosing SessionCmdFinishClose s3 = Inr ((), s1)" by simp
      from session_transition_result [OF this] close_table(2)
      have "sessions s1 = sql_update ?p (\<lambda>x. x\<lparr>se_state := SessionClosed\<rparr>) (sessions s3)" by blast
      then show ?thesis using True last s2 s3 mem \<open>se_state x \<in> _\<close>
        by (intro bexI [of _ x]) (auto simp: sql_update_twice o_def)
    next
      case False
      with three last s2 s3 mem \<open>se_state x \<in> _\<close> show ?thesis by (intro bexI [of _ x]) auto
    qed
  next
    case False
    with body have "s1 = s" by (simp add: tx_iffs)
    with False last mem show ?thesis by (intro bexI [of _ x]) auto
  qed
qed

lemma session_close_le: "tx_in sessions_le (applyCloseSessionTx t sid runID cid)"
proof (rule tx_inI)
  fix s s' u assume "applyCloseSessionTx t sid runID cid s = Inr (u, s')"
  from close_sessions [OF this] obtain x where x: "x \<in> set (sessions s)" "se_id x = sid"
    and s': "sessions s' = (if se_state x \<in> {SessionActive, SessionPaused}
     then sql_update (\<lambda>x. se_id x = sid \<and> sees t (se_project x))
            (\<lambda>x. x\<lparr>se_state := (if runID = '''' then SessionClosed else SessionClosing)\<rparr>) (sessions s)
     else sessions s)" by auto
  let ?u = "\<lambda>y. if se_id y = sid \<and> sees t (se_project y)
     then y\<lparr>se_state := (if runID = '''' then SessionClosed else SessionClosing)\<rparr> else y"
  show "sessions_le s s'"
  proof (cases "se_state x \<in> {SessionActive, SessionPaused}")
    case True
    have le: "session_le y (?u y)" if "distinct (map se_id (sessions s))" "y \<in> set (sessions s)" for y
      using key_unique [of se_id "sessions s" y x] that x True by (auto simp: session_le_def)
    have ids: "map se_id (sessions s') = map se_id (sessions s)" and img: "sessions s' = map ?u (sessions s)"
      using s' True by (simp_all add: sql_update_def)
    show ?thesis
      unfolding sessions_le_def
    proof (intro impI conjI ballI)
      assume d: "distinct (map se_id (sessions s))"
      then show "distinct (map se_id (sessions s'))" unfolding ids .
      fix y assume y: "y \<in> set (sessions s)"
      then have "?u y \<in> set (sessions s')" unfolding img set_map by (rule imageI)
      with le [OF d y] show "\<exists>z \<in> set (sessions s'). session_le y z" by blast
    qed
  qed (use s' in \<open>simp add: sessions_le_same\<close>)
qed

interpretation session_cmds: command_statements sessions_le "\<lambda>_ _. True"
proof unfold_locales
  show "tx_in sessions_le (InsertSession t sid name)" for t sid name
    by (auto intro!: tx_inI simp: InsertSession_def sessions_le_def split: if_splits)
      (meson session_le_refl)
qed (intro session_effects.st_event session_run_le session_apply_le session_close_le |
      auto intro!: tx_inI sessions_le_same simp: statement_defs split: if_splits list.splits)+

interpretation session_moves: journal_operations sessions_le sha for sha
  by unfold_locales (intro session_effects.st_event session_run_le session_apply_le session_cmds.in_accept TrueI |
      auto intro!: tx_inI sessions_le_same
        simp: statement_defs CarrySessionSendMessages_def begin_tx_def commit_def
        split: if_splits list.splits sum.splits)+

section \<open>Commands\<close>

definition command_key :: "command_row \<Rightarrow> string \<times> string" where
  "command_key c = (cm_project c, cm_id c)"

text \<open>A command keeps what the caller submitted; once it has left the queue its outcome is fixed.\<close>

definition command_le :: "command_row \<Rightarrow> command_row \<Rightarrow> bool" where
  "command_le c c' \<longleftrightarrow> c' = c\<lparr>cm_run := cm_run c', cm_state := cm_state c',
       cm_applied_sequence := cm_applied_sequence c', cm_result := cm_result c'\<rparr> \<and>
     (cm_state c \<noteq> CommandQueued \<longrightarrow> cm_state c' = cm_state c \<and>
        cm_applied_sequence c' = cm_applied_sequence c \<and> cm_run c' = cm_run c)"

definition commands_le :: "(string \<times> string) set \<Rightarrow> 'a journal_db_scheme \<Rightarrow> 'a journal_db_scheme \<Rightarrow> bool" where
  "commands_le K s s' \<longleftrightarrow> (distinct (map command_key (commands s)) \<longrightarrow>
     distinct (map command_key (commands s')) \<and>
     (\<forall>c \<in> set (commands s). command_key c \<notin> K \<longrightarrow> (\<exists>c' \<in> set (commands s'). command_le c c')))"

lemma command_le_refl: "command_le c c"
  by (simp add: command_le_def)

lemma command_le_trans: "command_le a b \<Longrightarrow> command_le b c \<Longrightarrow> command_le a c"
  unfolding command_le_def by (cases a; cases b; cases c) auto

lemma command_le_key: "command_le c c' \<Longrightarrow> command_key c' = command_key c"
  unfolding command_le_def command_key_def by (cases c; cases c') auto

lemma commands_le_same: "commands s' = commands s \<Longrightarrow> commands_le K s s'"
  by (auto simp: commands_le_def intro: command_le_refl)

lemma commands_le_trans: "commands_le K a b \<Longrightarrow> commands_le K b c \<Longrightarrow> commands_le K a c"
  unfolding commands_le_def by (metis command_le_key command_le_trans)

lemma commands_le_update:
  assumes "commands s' = sql_update p f (commands s)"
    and "\<And>c. command_key (f c) = command_key c"
    and "\<And>c. distinct (map command_key (commands s)) \<Longrightarrow> c \<in> set (commands s) \<Longrightarrow> p c \<Longrightarrow>
           command_key c \<notin> K \<Longrightarrow> command_le c (f c)"
  shows "commands_le K s s'"
  unfolding commands_le_def
proof (intro impI conjI ballI)
  assume d: "distinct (map command_key (commands s))"
  then show "distinct (map command_key (commands s'))"
    using assms(1,2) by (simp add: map_sql_update_key)
  fix c assume c: "c \<in> set (commands s)" "command_key c \<notin> K"
  then have "(if p c then f c else c) \<in> set (commands s')" by (auto simp: assms(1) sql_update_def)
  moreover have "command_le c (if p c then f c else c)" using assms(3) d c command_le_refl by simp
  ultimately show "\<exists>c' \<in> set (commands s'). command_le c c'" by blast
qed

interpretation command_effects: effect_statements "commands_le K" for K
proof unfold_locales
  show "tx_in (commands_le K) (ExpireQueuedCommandsForRun t runID all)"
    for t runID all and K :: "(string \<times> string) set"
    by (auto intro!: tx_inI commands_le_update simp: ExpireQueuedCommandsForRun_def command_queued_def
        command_le_def command_key_def Let_def)
qed (rule commands_le_same, simp, erule (1) commands_le_trans,
    auto intro!: tx_inI commands_le_same simp: statement_defs split: if_splits dest!: journal_event_same)

lemma command_run_le:
  "tx_in (commands_le K :: 'a commands_db_scheme \<Rightarrow> 'a commands_db_scheme \<Rightarrow> bool) (applyRunTransitionTx t runID cmd)"
  by (rule command_effects.st_run) (auto intro!: tx_inI commands_le_same simp: statement_defs)

lemma command_key_sees: "the_command t cid c \<Longrightarrow> command_key c = (tx_tenant t, cid)"
  by (simp add: the_command_def sees_def command_key_def)

text \<open>A successful apply found the command queued and leaves it applied at its own event's sequence.\<close>

lemma apply_result:
  assumes "applyCommandInTx t sid resp cid s = Inr (seq, s')"
  shows "\<exists>c \<in> set (commands s). the_command t cid c \<and> cm_state c = CommandQueued \<and> seq = last_seq s sid + 1 \<and>
    commands s' = sql_update (the_command t cid)
      (\<lambda>c. c\<lparr>cm_state := CommandApplied, cm_applied_sequence := Some seq\<rparr>) (commands s) \<and>
    (\<exists>e. events s' = events s @ [e] \<and> ev_type e = commandAppliedEvent \<and> ev_seq e = seq \<and> ev_session e = sid \<and>
       json_text (ev_payload e) ''command_id'' = Some cid)"
proof -
  from assms obtain c s1 where c: "sql_row (the_command t cid) (commands s) = Some c"
    "cm_state c = CommandQueued"
    and ev: "journal_event t sid (nullableText resp) commandAppliedEvent
       (\<lambda>seq. JObj [(''command_id'', JStr cid), (''applied_sequence'', JNum (of_int seq))])
       ''allocate command sequence'' ''append command applied event'' s = Inr (seq, s1)"
    and upd: "CompleteCommandApplied t cid seq s1 = Inr ((), s')"
    by (auto simp: applyCommandInTx_def tx_iffs LockCommand_def split: option.splits if_splits)
  from journal_event_result [OF ev] upd c sql_row_Some [OF c(1)] show ?thesis
    by (auto simp: CompleteCommandApplied_def update_command_def json_text_def intro!: bexI [of _ c])
qed

lemma command_apply_le: "tx_in (commands_le K) (applyCommandInTx t sid resp cid)"
proof (rule tx_inI)
  fix s seq s' assume "applyCommandInTx t sid resp cid s = Inr (seq, s')"
  from apply_result [OF this] obtain c where c: "c \<in> set (commands s)" "the_command t cid c"
    "cm_state c = CommandQueued"
    and s': "commands s' = sql_update (the_command t cid)
      (\<lambda>c. c\<lparr>cm_state := CommandApplied, cm_applied_sequence := Some seq\<rparr>) (commands s)" by blast
  have "d = c" if "distinct (map command_key (commands s))" "d \<in> set (commands s)" "the_command t cid d" for d
    using key_unique [of command_key "commands s" d c] that c command_key_sees by metis
  with c(3) show "commands_le K s s'"
    by (intro commands_le_update [OF s']) (auto simp: command_key_def command_le_def)
qed

lemma command_close_le: "tx_in (commands_le K) (applyCloseSessionTx t sid runID cid)"
proof (rule command_effects.st_close [OF _ _ command_apply_le])
  show "tx_in (commands_le K) (ExpireQueuedSessionCommands t sid cid)" for t sid cid
    by (auto intro!: tx_inI commands_le_update simp: ExpireQueuedSessionCommands_def command_queued_def
        command_le_def command_key_def Let_def)
qed (auto intro!: tx_inI commands_le_same simp: statement_defs)

interpretation command_accept: command_statements "commands_le K" "\<lambda>t cid. (tx_tenant t, cid) \<in> K" for K
proof unfold_locales
  show "tx_in (commands_le K) (InsertCommand t sid runID inp now)"
    for t sid runID inp now and K :: "(string \<times> string) set"
    by (rule tx_inI) (auto simp: InsertCommand_def commands_le_def command_key_def image_iff
        intro: command_le_refl split: if_splits)
  show "tx_in (commands_le K) (CompleteCommandRejected t cid reason)"
    if "(tx_tenant t, cid) \<in> K" for t cid reason and K :: "(string \<times> string) set"
    using that by (auto intro!: tx_inI commands_le_update simp: CompleteCommandRejected_def update_command_def
        dest: command_key_sees) (simp add: command_key_def)
  show "tx_in (commands_le K) (SetCommandResult t cid reason)"
    for t cid reason and K :: "(string \<times> string) set"
    by (auto intro!: tx_inI commands_le_update simp: SetCommandResult_def update_command_def
        command_key_def command_le_def)
qed (intro command_effects.st_event command_run_le command_apply_le command_close_le |
      auto intro!: tx_inI commands_le_same simp: statement_defs split: if_splits list.splits)+

lemma readCommand_Inr:
  "readCommand t cid s = Inr (cmd, s') \<longleftrightarrow> s' = s \<and> (\<exists>c. sql_row (the_command t cid) (commands s) = Some c \<and>
     cmd = \<lparr>co_ID = cid, co_SessionID = cm_session c, co_Kind = cm_kind c,
       co_Delivery = or_empty (cm_delivery c), co_State = CommandState_text (cm_state c),
       co_AppliedSequence = cm_applied_sequence c, co_Result = cm_result c,
       co_CreatedAt = cm_created_at c, co_Replayed = False, co_SessionNotFound = False\<rparr>)"
  by (auto simp: readCommand_def split: option.splits)

lemma accept_cases:
  assumes "acceptCommandTx t sid inp fresh now s = Inr (cmd, s')"
  obtains "co_SessionNotFound cmd" "s' = s"
  | state runID resp where "acceptInSessionTx t sid state runID resp inp fresh now s = Inr (cmd, s')"
  using assms
  by (auto simp: acceptCommandTx_def tx_bind_eq session_state_def ActiveRootRun_def split: option.splits)

text \<open>The answer to an accepted command is its row; for a taken identifier nothing else happens.\<close>

lemma accept_in_session:
  assumes "acceptInSessionTx t sid state runID resp inp fresh now s = Inr (cmd, s')"
  shows "\<exists>cmd0. readCommand t (ci_CommandID inp) s' = Inr (cmd0, s') \<and>
    (if (tx_tenant t, ci_CommandID inp) \<in> set (map command_key (commands s))
     then s' = s \<and> cmd = cmd0\<lparr>co_Replayed := True\<rparr> else cmd = cmd0)"
proof -
  let ?read = "readCommand t (ci_CommandID inp)"
  let ?new = "tx_then (appendEvent t sid resp commandAcceptedEvent
      (JObj [(''command_id'', JStr (ci_CommandID inp)), (''kind'', JStr (ci_Kind inp)),
             (''delivery'', JStr (ci_Delivery inp))]))
      (tx_then (resolveCommandTx t sid state runID resp inp fresh now) ?read)"
  from assms obtain ins s1 where i: "InsertCommand t sid runID inp now s = Inr (ins, s1)"
    and r: "(if \<not> ins then tx_bind ?read (\<lambda>cmd. tx_return (cmd\<lparr>co_Replayed := True\<rparr>)) else ?new) s1 = Inr (cmd, s')"
    unfolding acceptInSessionTx_def by (subst (asm) tx_bind_eq) auto
  have rest: "if ins then \<exists>s2. ?read s2 = Inr (cmd, s')
      else \<exists>cmd0. ?read s1 = Inr (cmd0, s') \<and> cmd = cmd0\<lparr>co_Replayed := True\<rparr>"
    using r by (cases ins) (auto simp: tx_bind_eq tx_then_eq)
  have "ins \<longleftrightarrow> (tx_tenant t, ci_CommandID inp) \<notin> set (map command_key (commands s))" "\<not> ins \<Longrightarrow> s1 = s"
    using i by (auto simp: InsertCommand_def command_key_def split: if_splits)
  with rest show ?thesis by (auto simp: readCommand_Inr split: if_splits)
qed

lemma accept_taken:
  assumes "acceptCommandTx t sid inp fresh now s = Inr (a, s')"
    and "(tx_tenant t, ci_CommandID inp) \<in> set (map command_key (commands s))"
  shows "s' = s"
  using assms(1)
proof (cases rule: accept_cases)
  case 2
  then show ?thesis using accept_in_session assms(2) by fastforce
qed

lemma command_accept_le: "tx_in (commands_le {}) (acceptCommandTx t sid inp fresh now)"
proof (rule tx_inI)
  fix s a s' assume step: "acceptCommandTx t sid inp fresh now s = Inr (a, s')"
  let ?k = "(tx_tenant t, ci_CommandID inp)"
  show "commands_le {} s s'"
  proof (cases "?k \<in> set (map command_key (commands s))")
    case True
    with accept_taken [OF step] show ?thesis by (simp add: commands_le_same)
  next
    case False
    have "commands_le {?k} s s'"
      by (rule tx_inD [OF command_accept.in_accept step]) simp
    with False show ?thesis unfolding commands_le_def by (metis image_eqI list.set_map singletonD)
  qed
qed

lemma carry_le: "CarrySessionSendMessages ctx tenant sid runID s = (r, s') \<Longrightarrow> commands_le {} s s'"
proof (cases "PrepareConn (ScopeToTenant ctx tenant)")
  case Inl
  moreover assume "CarrySessionSendMessages ctx tenant sid runID s = (r, s')"
  ultimately show ?thesis by (simp add: CarrySessionSendMessages_def begin_tx_def commands_le_same)
next
  case Inr
  moreover assume "CarrySessionSendMessages ctx tenant sid runID s = (r, s')"
  ultimately show ?thesis
    by (auto intro!: commands_le_update simp: CarrySessionSendMessages_def begin_tx_def commit_def Let_def
        command_key_def command_le_def command_queued_def)
qed

interpretation command_moves: journal_operations "commands_le {}" sha for sha
proof unfold_locales
  show "commands_le {} s s'" if "CarrySessionSendMessages ctx tenant sid runID s = (rn, s')"
    for ctx tenant sid runID rn and s s' :: "'a commands_db_scheme" using that by (rule carry_le)
qed (intro command_effects.st_event command_run_le command_apply_le command_accept_le |
      auto intro!: tx_inI commands_le_same simp: statement_defs split: if_splits list.splits)+

section \<open>Properties\<close>


text \<open>
  Runs move only along the run table.  Whatever operations run, a run keeps its identity, and the
  state it is in later is reached from the state it is in now by a sequence of legal commands; so once
  a run is terminal no operation changes it.
\<close>

theorem run_state_monotone:
  assumes "distinct (map rn_id (runs db))" and "(journal_step sha)\<^sup>*\<^sup>* db db'" and "i < length (runs db)"
  shows "i < length (runs db') \<and> rn_id (runs db' ! i) = rn_id (runs db ! i) \<and>
    rn_session (runs db' ! i) = rn_session (runs db ! i) \<and>
    (\<exists>cs. drive (rn_state (runs db ! i)) cs RunTable = Some (rn_state (runs db' ! i))) \<and>
    (run_terminal (rn_state (runs db ! i)) \<longrightarrow> runs db' ! i = runs db ! i)"
proof -
  have "list_all2 run_le (runs db) (runs db')"
    using run_moves.steps_in [OF assms(2)] assms(1) by (simp add: runs_le_def)
  then have le: "run_le (runs db ! i) (runs db' ! i)" and len: "i < length (runs db')"
    using assms(3) by (auto simp: list_all2_conv_all_nth)
  from le obtain cs where eq: "runs db' ! i = (runs db ! i)\<lparr>rn_state := rn_state (runs db' ! i)\<rparr>"
    and cs: "drive (rn_state (runs db ! i)) cs RunTable = Some (rn_state (runs db' ! i))"
    by (auto simp: run_le_def)
  have "rn_id (runs db' ! i) = rn_id (runs db ! i)" "rn_session (runs db' ! i) = rn_session (runs db ! i)"
    by (subst eq, simp)+
  moreover have "runs db' ! i = runs db ! i" if "run_terminal (rn_state (runs db ! i))"
  proof -
    have "rn_state (runs db' ! i) = rn_state (runs db ! i)"
      using run_table.drive_terminal [OF _ cs] that
      by (simp add: run_terminal_def map_bool_Some_True runTerminalStates_def)
    with eq show ?thesis by simp
  qed
  ultimately show ?thesis using len cs by blast
qed

definition grows :: "'a journal_db_scheme \<Rightarrow> 'a journal_db_scheme \<Rightarrow> bool" where
  "grows s s' \<longleftrightarrow> set (events s) \<subseteq> set (events s') \<and> set (outbox s) \<subseteq> set (outbox s')"

interpretation growing: effect_statements grows
  by unfold_locales (auto intro!: tx_inI simp: grows_def statement_defs split: if_splits
      dest!: journal_event_result dest: subsetD)

text \<open>The event and the outbox row that a transition leaves behind.\<close>

lemma effects_result:
  fixes s s' :: "'a commands_db_scheme"
  assumes "runTransitionEffects t r runID nx event s = Inr (tr, s')"
  shows "rt_To tr = nx \<and> rt_Event tr = event \<and> rt_Sequence tr = last_seq s (rn_session r) + 1 \<and>
    (\<exists>e \<in> set (events s'). ev_session e = rn_session r \<and> ev_seq e = rt_Sequence tr \<and> ev_type e = event \<and>
       ev_response e = rn_response r \<and> ev_project e = tx_tenant t) \<and>
    (\<exists>x \<in> set (outbox s'). ob_project x = tx_tenant t \<and> ob_topic x = event \<and>
       ob_dedupe_key x = run_dedupe runID (rt_Sequence tr))"
proof -
  from assms obtain seq s1 s2 s3 where
    ev: "journal_event t (rn_session r) (rn_response r) event (\<lambda>_. run_payload runID nx)
       ''allocate session sequence'' ''append event'' s = Inr (seq, s1)"
    and ob: "enqueue_outbox t event (run_dedupe runID seq) (run_payload runID nx) s1 = Inr ((), s2)"
    and rest: "tx_when (run_terminal nx) (tx_then (sweepQueuedCommands t (rn_session r) (rn_response r) runID nx)
       (EnqueueTerminalQueueDeliveries t runID (or_empty (rn_response r)) (rn_session r) (RunState_text nx))) s2 = Inr ((), s3)"
    and tr: "tr = \<lparr>rt_To = nx, rt_Event = event, rt_Sequence = seq\<rparr>" "s' = s3"
    unfolding runTransitionEffects_def tx_bind_eq tx_then_eq tx_wrap_eq tx_return_eq by auto
  have "tx_in (grows :: 'a commands_db_scheme \<Rightarrow> 'a commands_db_scheme \<Rightarrow> bool) (tx_when (run_terminal nx) (tx_then (sweepQueuedCommands t (rn_session r) (rn_response r) runID nx)
       (EnqueueTerminalQueueDeliveries t runID (or_empty (rn_response r)) (rn_session r) (RunState_text nx))))"
    by (intro growing.in_intros growing.st_sweep growing.st_queue)
  from tx_inD [OF this rest] have g: "grows s2 s'" using tr by simp
  have "\<exists>e \<in> set (events s1). ev_session e = rn_session r \<and> ev_seq e = seq \<and> ev_type e = event \<and>
       ev_response e = rn_response r \<and> ev_project e = tx_tenant t" "seq = last_seq s (rn_session r) + 1"
    using journal_event_result [OF ev] by auto
  moreover have "events s2 = events s1" "\<exists>x \<in> set (outbox s2). ob_project x = tx_tenant t \<and> ob_topic x = event \<and>
       ob_dedupe_key x = run_dedupe runID seq"
    using ob by (auto simp: enqueue_outbox_def bind_result_eq_Inr EnqueueOutbox_def split: if_splits)
  ultimately show ?thesis using g tr by (auto simp: grows_def)
qed

text \<open>
  A run transition is all or nothing.  When it succeeds the command was legal for the state the
  run was in, which was not terminal; the run row has the table's next state; and the event the table
  names was appended with the next sequence number of the run's session, together with an outbox row
  under a key that names the run and that sequence.  When it fails nothing has changed.
\<close>

theorem run_transition_atomic:
  fixes db :: "'a commands_db_scheme"
  shows "case ApplyRunTransition ctx tenant runID cmd db of
     (Inl e, db') \<Rightarrow> db' = db
   | (Inr tr, db') \<Rightarrow> \<exists>row \<in> set (runs db). rn_id row = runID \<and> rn_project row = tenant \<and>
       Apply (rn_state row) cmd RunTable = Inr (rt_To tr, rt_Event tr) \<and> \<not> run_terminal (rn_state row) \<and>
       row\<lparr>rn_state := rt_To tr\<rparr> \<in> set (runs db') \<and>
       rt_Sequence tr = last_seq db (rn_session row) + 1 \<and>
       (\<exists>e \<in> set (events db'). ev_session e = rn_session row \<and> ev_seq e = rt_Sequence tr \<and>
          ev_type e = rt_Event tr \<and> ev_response e = rn_response row \<and> ev_project e = tenant) \<and>
       (\<exists>x \<in> set (outbox db'). ob_project x = tenant \<and> ob_topic x = rt_Event tr \<and>
          ob_dedupe_key x = run_dedupe runID (rt_Sequence tr))"
proof -
  obtain r db' where call: "ApplyRunTransition ctx tenant runID cmd db = (r, db')" by fastforce
  from begin_tx_cases [OF call [unfolded ApplyRunTransition_def]] show ?thesis
  proof (elim disjE exE conjE)
    fix t tr assume t: "tx_tenant t = tenant" and ap: "applyRunTransitionTx t runID cmd db = Inr (tr, db')"
      and r: "r = Inr tr"
    from ap obtain row nx event s1 where row: "row \<in> set (runs db)" "rn_id row = runID" "sees t (rn_project row)"
      and step: "Apply (rn_state row) cmd RunTable = Inr (nx, event)"
      and eff: "runTransitionEffects t row runID nx event s1 = Inr (tr, db')"
      and s1: "s1 = db\<lparr>runs := sql_update (\<lambda>r. rn_id r = runID \<and> sees t (rn_project r)) (\<lambda>r. r\<lparr>rn_state := nx\<rparr>) (runs db)\<rparr>"
      by (rule run_transition_row)
    have "\<not> run_terminal (rn_state row)"
    proof
      assume "run_terminal (rn_state row)"
      then have "TerminalStates RunTable (rn_state row) = Some True"
        by (simp add: run_terminal_def map_bool_Some_True runTerminalStates_def)
      from run_table.terminal_rejects [OF this, of cmd] step show False by simp
    qed
    moreover have "row\<lparr>rn_state := nx\<rparr> \<in> set (runs db')"
    proof -
      have "runs db' = runs s1" using tx_inD [OF effects_same.st_effects eff] by (simp add: same_runs_def)
      with row s1 show ?thesis by (auto simp: set_sql_update)
    qed
    moreover have "last_seq s1 sid = last_seq db sid" for sid by (simp add: s1 last_seq_def)
    ultimately show ?thesis using effects_result [OF eff] row step t
      by (auto simp: call r sees_def intro!: bexI [of _ row])
  qed (auto simp: call)
qed

subsection \<open>Command outcomes\<close>

lemma settled_row:
  assumes "distinct (map command_key (commands s))" and "c \<in> set (commands s)" and "the_command t cid c"
  shows "sql_row (the_command t cid) (commands s) = Some c"
proof (cases "sql_row (the_command t cid) (commands s)")
  case None
  with assms show ?thesis by (auto simp: sql_row_None)
next
  case (Some d)
  have d: "d \<in> set (commands s)" "the_command t cid d" using sql_row_Some [OF Some] by simp_all
  have "d = c" using key_unique [OF assms(1) d(1) assms(2)] command_key_sees [OF d(2)]
      command_key_sees [OF assms(3)] by simp
  with Some show ?thesis by simp
qed

lemma settled_not_pending:
  assumes "distinct (map command_key (commands s))" and "c \<in> set (commands s)"
    and "command_key c = (tx_tenant t, cid)" and "cm_state c \<noteq> CommandQueued"
  shows "applyCommandInTx t sid resp cid s = Inl ErrCommandNotPending"
proof (cases "the_command t cid c")
  case True
  then show ?thesis using settled_row [OF assms(1,2) True] assms(4)
    by (simp add: applyCommandInTx_def tx_bind_def LockCommand_def tx_read_def tx_fail_def)
next
  case False
  have "sql_row (the_command t cid) (commands s) = None"
    unfolding sql_row_None
  proof (intro ballI notI)
    fix d assume d: "d \<in> set (commands s)" "the_command t cid d"
    have "d = c" using key_unique [OF assms(1) d(1) assms(2)] command_key_sees [OF d(2)] assms(3) by simp
    with False d(2) show False by simp
  qed
  then show ?thesis by (simp add: applyCommandInTx_def tx_bind_def LockCommand_def tx_read_def tx_fail_def)
qed

text \<open>A transaction in which a settled command must be applied fails; its caller sees the tables unchanged.\<close>

lemma begin_tx_fails:
  assumes "\<And>t a s1. tx_tenant t = tenant \<Longrightarrow> body t s \<noteq> Inr (a, s1)"
  shows "snd (begin_tx ctx tenant msg body s) = s \<and> (\<exists>e. fst (begin_tx ctx tenant msg body s) = Inl e)"
proof -
  obtain r s' where call: "begin_tx ctx tenant msg body s = (r, s')" by fastforce
  with begin_tx_cases [OF call] assms show ?thesis by auto
qed

lemma apply_in_ops:
  assumes "\<And>t sid resp. tx_tenant t = tenant \<Longrightarrow> applyCommandInTx t sid resp cid s = Inl ErrCommandNotPending"
    and "\<And>t s1 a. guardRunActive t runID s = Inr (a, s1) \<Longrightarrow> s1 = s"
  shows "snd (ApplyCommand ctx tenant sid resp runID cid b s) = s \<and>
    (\<exists>e. fst (ApplyCommand ctx tenant sid resp runID cid b s) = Inl e)"
    and "snd (ApplyConfigChange ctx tenant sid resp runID cid plan s) = s \<and>
    (\<exists>e. fst (ApplyConfigChange ctx tenant sid resp runID cid plan s) = Inl e)"
  unfolding ApplyCommand_def ApplyConfigChange_def
  by (rule begin_tx_fails; use assms in \<open>fastforce simp: tx_iffs applyConfigChangeInTx_def\<close>)+

lemma guard_same: "guardRunActive t runID s = Inr (a, s1) \<Longrightarrow> s1 = s"
  by (auto simp: guardRunActive_def lockRunStateTx_def LockRun_def tx_iffs split: option.splits if_splits)

text \<open>
  C17. A command is applied at most once.  After the boundary pump has applied a command, whatever
  operations run in between, the command stays applied at the journal sequence that the pump was
  given, and applying it again, as a message or as a config change, fails and changes nothing.
\<close>

theorem command_applied_once:
  assumes uniq: "distinct (map command_key (commands db))"
    and ap: "ApplyCommand ctx tenant sid resp runID cid boundary db = (Inr seq, db1)"
    and steps: "(journal_step sha)\<^sup>*\<^sup>* db1 db2"
  shows "(\<exists>c \<in> set (commands db2). command_key c = (tenant, cid) \<and> cm_state c = CommandApplied \<and>
      cm_applied_sequence c = Some seq) \<and>
    snd (ApplyCommand ctx' tenant sid' resp' runID' cid b' db2) = db2 \<and>
    (\<exists>e. fst (ApplyCommand ctx' tenant sid' resp' runID' cid b' db2) = Inl e) \<and>
    snd (ApplyConfigChange ctx' tenant sid' resp' runID' cid plan db2) = db2 \<and>
    (\<exists>e. fst (ApplyConfigChange ctx' tenant sid' resp' runID' cid plan db2) = Inl e)"
proof -
  from begin_tx_cases [OF ap [unfolded ApplyCommand_def]] obtain t s1 where t: "tx_tenant t = tenant"
    and app: "applyCommandInTx t sid resp cid db = Inr (seq, s1)"
    and rest: "InsertDeliveredMessage t cid runID boundary seq s1 = Inr ((), db1)"
    by (auto simp: tx_iffs dest: guard_same)
  have same: "commands db1 = commands s1" using rest by (auto simp: InsertDeliveredMessage_def split: if_splits)
  have le1: "commands_le {} db s1" using tx_inD [OF command_apply_le app] .
  have d1: "distinct (map command_key (commands db1))" using le1 uniq same by (simp add: commands_le_def)
  from apply_result [OF app] obtain c where c: "c \<in> set (commands db)" "the_command t cid c"
    and upd: "commands s1 = sql_update (the_command t cid)
      (\<lambda>c. c\<lparr>cm_state := CommandApplied, cm_applied_sequence := Some seq\<rparr>) (commands db)" by blast
  let ?c = "c\<lparr>cm_state := CommandApplied, cm_applied_sequence := Some seq\<rparr>"
  have "?c \<in> set (commands db1)" using c upd same by (auto simp: set_sql_update)
  moreover have le2: "commands_le {} db1 db2" using command_moves.steps_in [OF steps] .
  ultimately obtain c2 where c2: "c2 \<in> set (commands db2)" "command_le ?c c2"
    and d2: "distinct (map command_key (commands db2))" using d1 by (auto simp: commands_le_def)
  have k: "command_key c2 = (tenant, cid)"
    using command_le_key [OF c2(2)] command_key_sees [OF c(2)] t by (simp add: command_key_def)
  have st: "cm_state c2 = CommandApplied" "cm_applied_sequence c2 = Some seq"
    using c2(2) by (simp_all add: command_le_def)
  have np: "applyCommandInTx t' sid resp cid db2 = Inl ErrCommandNotPending"
    if "tx_tenant t' = tenant" for t' sid resp
    using settled_not_pending [OF d2 c2(1)] k st(1) that by simp
  have "snd (ApplyCommand ctx' tenant sid' resp' runID' cid b' db2) = db2 \<and>
      (\<exists>e. fst (ApplyCommand ctx' tenant sid' resp' runID' cid b' db2) = Inl e)"
    by (rule apply_in_ops(1) [OF np guard_same])
  moreover have "snd (ApplyConfigChange ctx' tenant sid' resp' runID' cid plan db2) = db2 \<and>
      (\<exists>e. fst (ApplyConfigChange ctx' tenant sid' resp' runID' cid plan db2) = Inl e)"
    by (rule apply_in_ops(2) [OF np guard_same])
  ultimately show ?thesis using c2(1) k st by blast
qed

text \<open>
  Accepting is idempotent in the command identifier.  Once a command has been accepted, posting
  its identifier again in the same project, with any content and after any operations, changes nothing
  and is answered with the original command marked as a replay, unless the addressed session is not
  visible.
\<close>

theorem accept_idempotent:
  assumes uniq: "distinct (map command_key (commands db))"
    and first: "AcceptCommand ctx tenant sid inp fresh now db = (Inr cmd, db1)" "\<not> co_SessionNotFound cmd"
    and steps: "(journal_step sha)\<^sup>*\<^sup>* db1 db2"
    and again: "AcceptCommand ctx' tenant sid' inp' fresh' now' db2 = (Inr cmd', db3)"
      "ci_CommandID inp' = ci_CommandID inp"
  shows "db3 = db2 \<and> (co_SessionNotFound cmd' \<or> co_Replayed cmd' \<and> co_ID cmd' = co_ID cmd \<and>
    co_SessionID cmd' = co_SessionID cmd \<and> co_Kind cmd' = co_Kind cmd \<and> co_Delivery cmd' = co_Delivery cmd)"
proof -
  from begin_tx_cases [OF first(1) [unfolded AcceptCommand_def]] obtain t where t: "tx_tenant t = tenant"
    and acc: "acceptCommandTx t sid inp fresh now db = Inr (cmd, db1)" by auto
  have "\<exists>c. sql_row (the_command t (ci_CommandID inp)) (commands db1) = Some c \<and> co_ID cmd = ci_CommandID inp \<and>
      co_SessionID cmd = cm_session c \<and> co_Kind cmd = cm_kind c \<and> co_Delivery cmd = or_empty (cm_delivery c)"
    using acc
  proof (cases rule: accept_cases)
    case 2
    from accept_in_session [OF 2] obtain cmd0 where r: "readCommand t (ci_CommandID inp) db1 = Inr (cmd0, db1)"
      and view: "cmd = cmd0 \<or> cmd = cmd0\<lparr>co_Replayed := True\<rparr>" by (meson)
    from r obtain c where "sql_row (the_command t (ci_CommandID inp)) (commands db1) = Some c"
      "co_ID cmd0 = ci_CommandID inp" "co_SessionID cmd0 = cm_session c" "co_Kind cmd0 = cm_kind c"
      "co_Delivery cmd0 = or_empty (cm_delivery c)" unfolding readCommand_Inr by auto
    with view show ?thesis by auto
  qed (use first(2) in simp)
  then obtain c where row: "sql_row (the_command t (ci_CommandID inp)) (commands db1) = Some c"
    and view: "co_ID cmd = ci_CommandID inp" "co_SessionID cmd = cm_session c" "co_Kind cmd = cm_kind c"
      "co_Delivery cmd = or_empty (cm_delivery c)" by blast
  have c: "c \<in> set (commands db1)" "the_command t (ci_CommandID inp) c" using sql_row_Some [OF row] by auto
  have d1: "distinct (map command_key (commands db1))"
    using tx_inD [OF command_accept_le acc] uniq by (simp add: commands_le_def)
  obtain c2 where c2: "c2 \<in> set (commands db2)" "command_le c c2"
    and d2: "distinct (map command_key (commands db2))"
    using command_moves.steps_in [OF steps] d1 c(1) by (auto simp: commands_le_def)
  have k: "command_key c2 = (tenant, ci_CommandID inp)"
    using command_le_key [OF c2(2)] command_key_sees [OF c(2)] t by simp
  from begin_tx_cases [OF again(1) [unfolded AcceptCommand_def]] obtain t' where t': "tx_tenant t' = tenant"
    and acc': "acceptCommandTx t' sid' inp' fresh' now' db2 = Inr (cmd', db3)" by auto
  have taken: "(tx_tenant t', ci_CommandID inp') \<in> set (map command_key (commands db2))"
    using c2(1) k t' again(2) by (metis image_eqI list.set_map)
  have "co_SessionNotFound cmd' \<or> (\<exists>d. sql_row (the_command t' (ci_CommandID inp)) (commands db2) = Some d \<and>
      co_Replayed cmd' \<and> co_ID cmd' = ci_CommandID inp \<and> co_SessionID cmd' = cm_session d \<and>
      co_Kind cmd' = cm_kind d \<and> co_Delivery cmd' = or_empty (cm_delivery d))"
    using acc'
  proof (cases rule: accept_cases)
    case 2
    from accept_in_session [OF 2] taken again(2) show ?thesis by (auto simp: readCommand_Inr)
  qed simp
  moreover have "d = c2" if "sql_row (the_command t' (ci_CommandID inp)) (commands db2) = Some d" for d
  proof -
    have d: "d \<in> set (commands db2)" "the_command t' (ci_CommandID inp) d" using sql_row_Some [OF that] by auto
    then show ?thesis using key_unique [OF d2 d(1) c2(1)] command_key_sees [OF d(2)] k t' by simp
  qed
  moreover have "cm_session c2 = cm_session c" "cm_kind c2 = cm_kind c" "cm_delivery c2 = cm_delivery c"
    using c2(2) unfolding command_le_def by (cases c; cases c2; simp)+
  ultimately show ?thesis using accept_taken [OF acc' taken] view by auto
qed

subsection \<open>Closing a session\<close>

definition same_commands :: "'a journal_db_scheme \<Rightarrow> 'a journal_db_scheme \<Rightarrow> bool" where
  "same_commands s s' \<longleftrightarrow> commands s' = commands s"

interpretation command_frame: tx_preorder same_commands
  by unfold_locales (simp_all add: same_commands_def)

lemma append_frame: "tx_in same_commands (appendEvent t sid resp ty payload)"
  by (auto intro!: tx_inI simp: appendEvent_def same_commands_def dest!: journal_event_same)

lemma session_transition_frame: "tx_in same_commands (applySessionTransitionTx t sid cur cmd)"
  unfolding applySessionTransitionTx_def
  by (intro command_frame.in_intros append_frame)
    (auto intro!: tx_inI simp: UpdateSessionState_def same_commands_def)

lemma sweep_unqueues:
  assumes "sweepQueuedSessionCommands t sid cid s = Inr (u, s')"
  shows "\<forall>c \<in> set (commands s'). cm_session c = sid \<and> command_queued t c \<longrightarrow> cm_id c = cid"
proof -
  from assms obtain ids s1 where ex: "ExpireQueuedSessionCommands t sid cid s = Inr (ids, s1)"
    and ev: "tx_each (\<lambda>i. tx_then (appendEvent t sid '''' commandExpiredEvent (JObj [(''command_id'', JStr i)]))
         (tx_return ())) ids s1 = Inr (u, s')"
    by (auto simp: sweepQueuedSessionCommands_def tx_bind_eq)
  have "tx_in same_commands (tx_each (\<lambda>i. tx_then (appendEvent t sid '''' commandExpiredEvent
      (JObj [(''command_id'', JStr i)])) (tx_return ())) ids)"
    by (intro command_frame.in_intros append_frame)
  from tx_inD [OF this ev] ex have cs: "commands s' = sql_update
     (\<lambda>c. cm_session c = sid \<and> command_queued t c \<and> cm_id c \<noteq> cid) (\<lambda>c. c\<lparr>cm_state := CommandExpired\<rparr>) (commands s)"
    by (auto simp: same_commands_def ExpireQueuedSessionCommands_def Let_def)
  show ?thesis
  proof (intro ballI impI)
    fix c assume "c \<in> set (commands s')" "cm_session c = sid \<and> command_queued t c"
    then show "cm_id c = cid"
      unfolding cs by (elim sql_update_cases) (auto simp: command_queued_def)
  qed
qed

text \<open>
  Closing an active or paused session that has no live run ends it at once: the session is closed
  and none of its commands is left queued, not even one whose effect would have carried to a later run.
\<close>

theorem close_ends_idle_session:
  assumes uniq: "distinct (map se_id (sessions s))"
    and x: "x \<in> set (sessions s)" "se_id x = sid" "se_state x \<in> {SessionActive, SessionPaused}"
    and close: "applyCloseSessionTx t sid '''' cid s = Inr (u, s')"
  shows "x\<lparr>se_state := SessionClosed\<rparr> \<in> set (sessions s') \<and>
    (\<forall>c \<in> set (commands s'). cm_session c = sid \<and> sees t (cm_project c) \<longrightarrow> cm_state c \<noteq> CommandQueued)"
proof
  from close_sessions [OF close] obtain y where y: "y \<in> set (sessions s)" "se_id y = sid" "sees t (se_project y)"
    and s': "sessions s' = (if se_state y \<in> {SessionActive, SessionPaused}
     then sql_update (\<lambda>x. se_id x = sid \<and> sees t (se_project x)) (\<lambda>x. x\<lparr>se_state := SessionClosed\<rparr>) (sessions s)
     else sessions s)" by auto
  have "y = x" using key_unique [OF uniq y(1) x(1)] x(2) y(2) by simp
  with s' x y show "x\<lparr>se_state := SessionClosed\<rparr> \<in> set (sessions s')" by (auto simp: set_sql_update)
  from close \<open>y = x\<close> obtain z s1 a where z: "sql_row (\<lambda>x. se_id x = sid \<and> sees t (se_project x)) (sessions s) = Some z"
    and body: "tx_when (se_state z = SessionActive \<or> se_state z = SessionPaused)
       (tx_then (applySessionTransitionTx t sid (se_state z) SessionCmdClose)
        (tx_then (sweepQueuedSessionCommands t sid cid) (tx_when ('''' = '''')
          (applySessionTransitionTx t sid SessionClosing SessionCmdFinishClose)))) s = Inr ((), s1)"
    and app: "applyCommandInTx t sid '''' cid s1 = Inr (a, s')"
    by (auto simp: applyCloseSessionTx_def tx_bind_eq tx_then_eq session_state_def split: option.splits)
  have "z = x" using sql_row_Some [OF z] key_unique [OF uniq _ x(1), of z] x(2) by simp
  with x(3) body obtain s2 s3 where two: "sweepQueuedSessionCommands t sid cid s2 = Inr ((), s3)"
    and three: "applySessionTransitionTx t sid SessionClosing SessionCmdFinishClose s3 = Inr ((), s1)"
    by (auto simp: tx_iffs)
  have "commands s1 = commands s3"
    using tx_inD [OF session_transition_frame three] by (simp add: same_commands_def)
  then have left: "\<forall>c \<in> set (commands s1). cm_session c = sid \<and> command_queued t c \<longrightarrow> cm_id c = cid"
    using sweep_unqueues [OF two] by simp
  from apply_result [OF app] have upd: "commands s' = sql_update (the_command t cid)
      (\<lambda>c. c\<lparr>cm_state := CommandApplied, cm_applied_sequence := Some a\<rparr>) (commands s1)" by blast
  show "\<forall>c \<in> set (commands s'). cm_session c = sid \<and> sees t (cm_project c) \<longrightarrow> cm_state c \<noteq> CommandQueued"
  proof (intro ballI impI notI)
    fix c assume c: "c \<in> set (commands s')" "cm_session c = sid \<and> sees t (cm_project c)" "cm_state c = CommandQueued"
    from c(1) show False
      unfolding upd by (rule sql_update_cases) (use left c in \<open>auto simp: command_queued_def the_command_def\<close>)
  qed
qed

text \<open>
  A session that was closed while a run was live stays closing for good: no operation of the run,
  command and journal layer moves a closing session to closed, in particular not the end of the run it
  was waiting for, and not a further close.
\<close>

theorem closing_session_is_stuck:
  assumes "distinct (map se_id (sessions db))" and "x \<in> set (sessions db)" and "se_state x = SessionClosing"
    and "(journal_step sha)\<^sup>*\<^sup>* db db'"
  shows "x \<in> set (sessions db')"
proof -
  obtain y where y: "y \<in> set (sessions db')" "session_le x y"
    using session_moves.steps_in [OF assms(4)] assms(1,2) by (auto simp: sessions_le_def)
  then have "y = x" using assms(3) by (auto simp: session_le_def)
  with y show ?thesis by simp
qed

subsection \<open>Conversation history\<close>

lemma apply_responses: "applyCommandInTx t sid resp cid s = Inr (a, s') \<Longrightarrow> responses s' = responses s"
  by (auto simp: applyCommandInTx_def tx_iffs LockCommand_def CompleteCommandApplied_def update_command_def
      split: option.splits if_splits dest!: journal_event_same)

text \<open>
  A clear withdraws the settled turns of a session from its history, except that a turn settled as
  failed with an uncertain side effect is left in it: after a successful clear the history still
  carries that turn, and exactly the turns outside the five listed states.
\<close>

theorem clear_keeps_uncertain_turns:
  assumes "applyClearSessionTx t sid cid now s = Inr (u, s')"
  shows "set (SessionHistory t sid before s') =
    {r \<in> set (SessionHistory t sid before s). rs_state r \<notin> set history_states} \<and>
    ''failed_with_uncertain_side_effect'' \<in> set settled_response_states - set history_states"
proof -
  from assms have "responses s' = sql_update (\<lambda>r. rs_session r = sid \<and> sees t (rs_project r) \<and>
      rs_state r \<in> set history_states \<and> rs_retracted_at r = None) (\<lambda>r. r\<lparr>rs_retracted_at := Some now\<rparr>) (responses s)"
    by (auto simp: applyClearSessionTx_def tx_iffs ClearSessionHistory_def dest!: apply_responses)
  then have "set (SessionHistory t sid before s') = {r \<in> set (responses s). (rs_session r = sid \<and> sees t (rs_project r) \<and>
      rs_retracted_at r = None \<and> rs_created_at r < before) \<and> \<not> (rs_session r = sid \<and> sees t (rs_project r) \<and>
      rs_state r \<in> set history_states \<and> rs_retracted_at r = None)}"
    unfolding SessionHistory_def set_sort set_filter by (simp add: sql_update_filtered)
  then have "set (SessionHistory t sid before s') =
    {r \<in> set (SessionHistory t sid before s). rs_state r \<notin> set history_states}"
    by (auto simp: SessionHistory_def)
  then show ?thesis by (simp add: settled_response_states_def history_states_def)
qed

text \<open>
  A fork revives withdrawn turns.  A settled turn that was withdrawn from the parent's history is
  copied into the child without its withdrawal, so the child's history carries its question and
  answer again although the parent's does not.
\<close>

theorem fork_revives_withdrawn_turns:
  assumes fork: "applyForkSessionTx t parent child cid fresh s = Inr (u, s')"
    and r: "r \<in> set (responses s)" "rs_session r = parent" "sees t (rs_project r)"
      "rs_state r \<in> set history_states" "rs_purged_at r = None" "rs_retracted_at r = Some w"
      "rs_created_at r < before"
  shows "r \<notin> set (SessionHistory t parent before s') \<and>
    (\<exists>k \<in> set (SessionHistory t child before s'). rs_input k = rs_input r \<and> rs_output k = rs_output r)"
proof
  show "r \<notin> set (SessionHistory t parent before s')" using r by (simp add: SessionHistory_def)
  let ?src = "filter (\<lambda>r. rs_session r = parent \<and> sees t (rs_project r) \<and>
                 rs_state r \<in> set history_states \<and> rs_purged_at r = None) (responses s)"
  let ?copy = "\<lambda>n r. r\<lparr>rs_id := ''resp_'' @ fresh n, rs_session := child, rs_purged_at := None, rs_retracted_at := None, rs_metadata := JObj []\<rparr>"
  from fork have "set (responses s') \<supseteq> set (map (\<lambda>(n, r). ?copy n r) (List.enumerate 0 ?src))"
    by (auto simp: applyForkSessionTx_def tx_iffs InsertSession_def ForkCopyResponses_def Let_def
        SetCommandResult_def update_command_def split: if_splits dest!: apply_responses)
  moreover have "r \<in> set ?src" using r by simp
  then obtain n where "n < length ?src" "?src ! n = r" unfolding in_set_conv_nth by blast
  then have "(n, r) \<in> set (List.enumerate 0 ?src)" by (auto simp: in_set_enumerate_eq)
  ultimately have "?copy n r \<in> set (responses s')" by fastforce
  then show "\<exists>k \<in> set (SessionHistory t child before s'). rs_input k = rs_input r \<and> rs_output k = rs_output r"
    using r by (intro bexI [of _ "?copy n r"]) (simp_all add: SessionHistory_def)
qed

subsection \<open>Instances\<close>

text \<open>A project with one active session, one running run and a settled, withdrawn response.\<close>

definition sample_journal :: commands_db where
  "sample_journal = \<lparr>durable_jobs = [], job_attempts = [], outbox = [],
     sessions = [\<lparr>se_id = ''s'', se_project = ''p'', se_state = SessionActive, se_name = ''''\<rparr>,
       \<lparr>se_id = ''z'', se_project = ''p'', se_state = SessionClosing, se_name = ''''\<rparr>],
     session_sequences = [], events = [],
     runs = [\<lparr>rn_id = ''r'', rn_project = ''p'', rn_session = ''s'', rn_response = Some ''q'',
       rn_state = RunRunning, rn_created_at = 0, rn_parent = None,
       rn_depth = 0, rn_delegation = None, rn_agent_revision = None, rn_template_revision = None,
       rn_output_contract = None, rn_instructions = None\<rparr>],
     responses = [\<lparr>rs_id = ''q0'', rs_project = ''p'', rs_session = ''s'', rs_state = ''completed'',
       rs_input = JStr ''question'', rs_output = Some (JStr ''answer''), rs_store = True, rs_created_at = 1,
       rs_purged_at = None, rs_retracted_at = Some 2, rs_metadata = JObj []\<rparr>],
     commands = [], queue_connections = [], queue_deliveries = [], entropy = [''1'', ''2'', ''3'', ''4'', ''5''],
     usage_ledger = [], budgets = [], quotas = [], config_policies = [], pending_approvals = [], config_revisions = [], delivered_messages = []\<rparr>"

definition sample_txn :: txn where
  "sample_txn = \<lparr>tx_conn = \<lparr>palai_project_id = ''p'', palai_system = ''''\<rparr>, tx_tenant = ''p''\<rparr>"

definition sample_input :: "string \<Rightarrow> CommandInput" where
  "sample_input kind = \<lparr>ci_CommandID = ''c'', ci_Kind = kind, ci_Delivery = ''queue'', ci_Payload = JObj [],
     ci_ForkSessionID = ''f''\<rparr>"

definition sample_accepted :: "Command result \<times> commands_db" where
  "sample_accepted = AcceptCommand (WithTenant None ''p'') ''p'' ''s'' (sample_input ''send_message'') (\<lambda>_. '''') 7 sample_journal"

definition sample_applied :: "int result \<times> commands_db" where
  "sample_applied = ApplyCommand (WithTenant None ''p'') ''p'' ''s'' ''q'' ''r'' ''c'' ''b'' (snd sample_accepted)"

definition sample_queued :: commands_db where
  "sample_queued = snd (commit (InsertCommand sample_txn ''s'' '''' (sample_input ''close_session'') 7) sample_journal)"

lemma sample_steps:
  "journal_step sha sample_journal (snd sample_accepted)"
  "journal_step sha (snd sample_accepted) (snd sample_applied)"
  unfolding sample_accepted_def sample_applied_def
  by (rule journal_step.accept [OF prod.collapse [symmetric]], rule journal_step.apply_cmd [OF prod.collapse [symmetric]])


theorem run_state_monotone_witness:
  "\<exists>cs. drive RunRunning cs RunTable = Some (rn_state (runs (snd sample_accepted) ! 0))"
proof -
  have "(journal_step id)\<^sup>*\<^sup>* sample_journal (snd sample_accepted)"
    using sample_steps(1) by blast
  moreover have "distinct (map rn_id (runs sample_journal))" "0 < length (runs sample_journal)"
    "rn_state (runs sample_journal ! 0) = RunRunning" by (simp_all add: sample_journal_def)
  ultimately show ?thesis using run_state_monotone [of sample_journal id "snd sample_accepted" 0] by metis
qed

theorem command_applied_once_witness:
  "snd (ApplyCommand None ''p'' ''s'' ''q'' ''r'' ''c'' ''b'' (snd sample_applied)) = snd sample_applied"
proof -
  have "distinct (map command_key (commands (snd sample_accepted)))" by code_simp
  moreover have "fst sample_applied = Inr 2" by code_simp
  then have "ApplyCommand (WithTenant None ''p'') ''p'' ''s'' ''q'' ''r'' ''c'' ''b'' (snd sample_accepted)
      = (Inr 2, snd sample_applied)" by (metis prod.collapse sample_applied_def)
  ultimately show ?thesis using command_applied_once [OF _ _ rtranclp.rtrancl_refl] by blast
qed

theorem accept_idempotent_witness:
  "snd (AcceptCommand (WithTenant None ''p'') ''p'' ''s'' (sample_input ''pause'') (\<lambda>_. '''') 9 (snd sample_accepted))
   = snd sample_accepted"
proof -
  let ?again = "AcceptCommand (WithTenant None ''p'') ''p'' ''s'' (sample_input ''pause'') (\<lambda>_. '''') 9 (snd sample_accepted)"
  have d: "distinct (map command_key (commands sample_journal))" by (simp add: sample_journal_def)
  have "case fst sample_accepted of Inr cmd \<Rightarrow> \<not> co_SessionNotFound cmd | Inl _ \<Rightarrow> False" by code_simp
  then obtain cmd where f: "fst sample_accepted = Inr cmd" "\<not> co_SessionNotFound cmd" by (auto split: sum.splits)
  have "case fst ?again of Inr cmd \<Rightarrow> True | Inl _ \<Rightarrow> False" by code_simp
  then obtain cmd' where a: "fst ?again = Inr cmd'" by (auto split: sum.splits)
  have "ci_CommandID (sample_input ''pause'') = ci_CommandID (sample_input ''send_message'')"
    by (simp add: sample_input_def)
  moreover have "AcceptCommand (WithTenant None ''p'') ''p'' ''s'' (sample_input ''send_message'') (\<lambda>_. '''') 7 sample_journal
      = (Inr cmd, snd sample_accepted)" using f(1) by (metis prod.collapse sample_accepted_def)
  moreover have "?again = (Inr cmd', snd ?again)" using a by (metis prod.collapse)
  ultimately show ?thesis using accept_idempotent [OF d _ f(2) rtranclp.rtrancl_refl] by blast
qed

theorem close_ends_idle_session_witness:
  "\<exists>u s'. applyCloseSessionTx sample_txn ''s'' '''' ''c'' sample_queued = Inr (u, s') \<and>
     \<lparr>se_id = ''s'', se_project = ''p'', se_state = SessionClosed, se_name = ''''\<rparr> \<in> set (sessions s')"
proof -
  let ?x = "\<lparr>se_id = ''s'', se_project = ''p'', se_state = SessionActive, se_name = ''''\<rparr>"
  have "case applyCloseSessionTx sample_txn ''s'' '''' ''c'' sample_queued of Inr _ \<Rightarrow> True | Inl _ \<Rightarrow> False"
    by code_simp
  then obtain u s' where c: "applyCloseSessionTx sample_txn ''s'' '''' ''c'' sample_queued = Inr (u, s')"
    by (auto split: sum.splits)
  have "sessions sample_queued = sessions sample_journal" by code_simp
  then have s: "distinct (map se_id (sessions sample_queued))" "?x \<in> set (sessions sample_queued)"
    by (simp_all add: sample_journal_def)
  have "?x\<lparr>se_state := SessionClosed\<rparr> \<in> set (sessions s')"
    using close_ends_idle_session [OF s _ _ c] by simp
  with c show ?thesis by auto
qed

theorem closing_session_is_stuck_witness:
  "\<lparr>se_id = ''z'', se_project = ''p'', se_state = SessionClosing, se_name = ''''\<rparr> \<in> set (sessions (snd sample_accepted))"
  using closing_session_is_stuck [of sample_journal
      "\<lparr>se_id = ''z'', se_project = ''p'', se_state = SessionClosing, se_name = ''''\<rparr>" id "snd sample_accepted"]
    sample_steps(1) [of id] by (simp add: sample_journal_def r_into_rtranclp)

theorem clear_keeps_uncertain_turns_witness:
  "\<exists>u s'. applyClearSessionTx sample_txn ''s'' ''c'' 9 sample_queued = Inr (u, s') \<and>
     set (SessionHistory sample_txn ''s'' 10 s') = {}"
proof -
  have "case applyClearSessionTx sample_txn ''s'' ''c'' 9 sample_queued of Inr _ \<Rightarrow> True | Inl _ \<Rightarrow> False" by code_simp
  then obtain u s' where c: "applyClearSessionTx sample_txn ''s'' ''c'' 9 sample_queued = Inr (u, s')"
    by (auto split: sum.splits)
  have "SessionHistory sample_txn ''s'' 10 sample_queued = []" by code_simp
  with clear_keeps_uncertain_turns [OF c, of 10] c show ?thesis by auto
qed

theorem fork_revives_withdrawn_turns_witness:
  "\<exists>u s'. applyForkSessionTx sample_txn ''s'' ''f'' ''c'' (\<lambda>_. ''n'') sample_queued = Inr (u, s') \<and>
     (\<exists>k \<in> set (SessionHistory sample_txn ''f'' 10 s'). rs_input k = JStr ''question'')"
proof -
  let ?r = "hd (responses sample_journal)"
  have "case applyForkSessionTx sample_txn ''s'' ''f'' ''c'' (\<lambda>_. ''n'') sample_queued of Inr _ \<Rightarrow> True | Inl _ \<Rightarrow> False"
    by code_simp
  then obtain u s' where c: "applyForkSessionTx sample_txn ''s'' ''f'' ''c'' (\<lambda>_. ''n'') sample_queued = Inr (u, s')"
    by (auto split: sum.splits)
  have "responses sample_queued = responses sample_journal" by code_simp
  then have "?r \<in> set (responses sample_queued)" by (simp add: sample_journal_def)
  moreover have "sees sample_txn (rs_project ?r)" "rs_state ?r \<in> set history_states" by code_simp+
  ultimately show ?thesis
    using fork_revives_withdrawn_turns [OF c, of ?r 2 10] c by (auto simp: sample_journal_def)
qed

end
