(* ===== verification/Admission.thy ===== *)
theory Admission
  imports Commands
begin

text \<open>
  Admission of a response, \<^verbatim>\<open>AdmitResponse\<close> of \<^verbatim>\<open>src/packages/coordinator/store.go\<close>: one transaction that
  resolves the session, verifies the pins, reserves the idempotency key, applies the durable limits and
  the run caps, and creates the session, the response, the root run, its journal event, its outbox row
  and its dispatch job.

  A step that answers the request early carries the answer in the left summand; the transaction is then
  rolled back.  (The replay answer commits instead, a transaction that has only read.)  JSON columns are
  documents, a member list standing for an object; a nil or empty byte slice is \<open>None\<close>.  That the
  project and the principal of the caller have rows is assumed by the statements.
\<close>

section \<open>Tables\<close>

record idempotency_row =
  id_project :: string
  id_principal :: string
  id_method :: string
  id_route :: string
  id_key :: string
  id_hash :: string
  id_body :: "json option"
  id_purged_at :: "int option"
  id_tombstone :: "string option"

record binding_row =
  rb_id :: string
  rb_project :: string
  rb_archived_at :: "int option"

record profile_row =
  ap_id :: string
  ap_project :: string

record revision_row =
  rv_id :: string
  rv_project :: string
  rv_profile :: string
  rv_number :: int
  rv_published_at :: "int option"

record artifact_row =
  ar_id :: string
  ar_project :: string
  ar_run :: "string option"

record workspace_row =
  ws_id :: string
  ws_project :: string
  ws_session :: string
  ws_state :: WorkspaceState
  ws_binding :: string
  ws_ref :: string
  ws_created_at :: int

text \<open>The profile of a template revision is its template's name.\<close>

record admission_db = commands_db +
  idempotency_records :: "idempotency_row list"
  repository_bindings :: "binding_row list"
  agent_profiles :: "profile_row list"
  agent_revisions :: "revision_row list"
  run_template_revisions :: "revision_row list"
  artifacts :: "artifact_row list"
  workspaces :: "workspace_row list"

section \<open>Inputs and answers\<close>

record AdmissionInput =
  ai_Principal :: string
  ai_IdempotencyKey :: string
  ai_Method :: string
  ai_Route :: string
  ai_RequestHash :: string
  ai_ResponseID :: string
  ai_RunID :: string
  ai_SessionID :: string
  ai_RequestedSessionID :: "string option"
  ai_PreviousResponseID :: "string option"
  ai_Input :: json
  ai_InboundArtifactIDs :: "string list"
  ai_Body :: json
  ai_Store :: bool
  ai_Delegations :: "json option"
  ai_OutputContract :: "json option"
  ai_Instructions :: string
  ai_Metadata :: "json option"
  ai_RepositoryBindingID :: string
  ai_RepositoryRef :: string
  ai_AgentID :: string
  ai_AgentRevisionID :: string
  ai_RunTemplateRevisionID :: string
  ai_MaxConcurrentRuns :: int
  ai_MaxQueuedRuns :: int

record Admission =
  ad_Body :: "json option"
  ad_Replayed :: bool
  ad_Conflict :: bool
  ad_Purged :: bool
  ad_ResourceTombstone :: string
  ad_SessionNotFound :: bool
  ad_SessionConflict :: bool
  ad_ActiveRunConflict :: bool
  ad_RepositoryBindingNotFound :: bool
  ad_PinnedRevisionNotFound :: bool
  ad_PinnedRevisionNotPublished :: bool
  ad_ConcurrencyLimited :: bool
  ad_QueueDepthExceeded :: bool
  ad_LimitExceeded :: "LimitExceeded option"

definition zero_Admission :: Admission where
  "zero_Admission = \<lparr>ad_Body = None, ad_Replayed = False, ad_Conflict = False, ad_Purged = False,
     ad_ResourceTombstone = '''', ad_SessionNotFound = False, ad_SessionConflict = False,
     ad_ActiveRunConflict = False, ad_RepositoryBindingNotFound = False, ad_PinnedRevisionNotFound = False,
     ad_PinnedRevisionNotPublished = False, ad_ConcurrencyLimited = False, ad_QueueDepthExceeded = False,
     ad_LimitExceeded = None\<rparr>"

text \<open>A step either answers the request or goes on.\<close>

type_synonym ('s, 'a) step = "('s, Admission + 'a) tx"

definition answer :: "Admission \<Rightarrow> ('s, 'a) step" where
  "answer adm = tx_return (Inl adm)"

definition go_on :: "'a \<Rightarrow> ('s, 'a) step" where
  "go_on x = tx_return (Inr x)"

definition step_bind :: "('s, 'a) step \<Rightarrow> ('a \<Rightarrow> ('s, 'b) step) \<Rightarrow> ('s, 'b) step" where
  "step_bind m f = tx_bind m (\<lambda>r. case r of Inl adm \<Rightarrow> answer adm | Inr x \<Rightarrow> f x)"

section \<open>Resolution\<close>

definition SessionForCreate :: "txn \<Rightarrow> string \<Rightarrow> 'a admission_db_scheme \<Rightarrow> session_row option" where
  "SessionForCreate t sid db = sql_row (\<lambda>s. se_id s = sid \<and> sees t (se_project s)) (sessions db)"

definition SessionForPreviousResponse :: "txn \<Rightarrow> string \<Rightarrow> 'a admission_db_scheme \<Rightarrow> session_row option" where
  "SessionForPreviousResponse t respID db =
     (case sql_row (\<lambda>r. rs_id r = respID \<and> sees t (rs_project r)) (responses db) of
        None \<Rightarrow> None
      | Some r \<Rightarrow> sql_row (\<lambda>s. se_id s = rs_session r \<and> tenant_policy (tx_conn t) (se_project s)) (sessions db))"

definition resolve_session :: "txn \<Rightarrow> AdmissionInput \<Rightarrow> ('a admission_db_scheme, string \<times> bool) step" where
  "resolve_session t inp =
     (let lookup = (\<lambda>found. case found of
            None \<Rightarrow> answer (zero_Admission\<lparr>ad_SessionNotFound := True\<rparr>)
          | Some s \<Rightarrow> if se_state s \<noteq> SessionActive then answer (zero_Admission\<lparr>ad_SessionConflict := True\<rparr>)
                      else go_on (se_id s, False))
      in case (ai_PreviousResponseID inp, ai_RequestedSessionID inp) of
           (Some respID, _) \<Rightarrow> tx_bind (tx_read (SessionForPreviousResponse t respID)) lookup
         | (None, Some sid) \<Rightarrow> tx_bind (tx_read (SessionForCreate t sid)) lookup
         | (None, None) \<Rightarrow> go_on (ai_SessionID inp, True))"

definition verify_binding :: "txn \<Rightarrow> AdmissionInput \<Rightarrow> ('a admission_db_scheme, unit) step" where
  "verify_binding t inp =
     (if ai_RepositoryBindingID inp = '''' then go_on ()
      else tx_bind (tx_read (\<lambda>db. list_ex (\<lambda>b. rb_id b = ai_RepositoryBindingID inp \<and> sees t (rb_project b) \<and>
             rb_archived_at b = None) (repository_bindings db))) (\<lambda>known.
        if known then go_on () else answer (zero_Admission\<lparr>ad_RepositoryBindingNotFound := True\<rparr>)))"

definition LatestPublishedAgentRevision :: "txn \<Rightarrow> string \<Rightarrow> 'a admission_db_scheme \<Rightarrow> string option" where
  "LatestPublishedAgentRevision t agentID db =
     (case rev (sort_key rv_number (filter (\<lambda>r. rv_profile r = agentID \<and> sees t (rv_project r) \<and>
        rv_published_at r \<noteq> None) (agent_revisions db))) of
        [] \<Rightarrow> None | r # _ \<Rightarrow> Some (rv_id r))"

definition resolvePublishedAgent :: "txn \<Rightarrow> string \<Rightarrow> ('a admission_db_scheme, string) step" where
  "resolvePublishedAgent t agentID = tx_bind (tx_read (\<lambda>db. (LatestPublishedAgentRevision t agentID db,
       list_ex (\<lambda>p. ap_id p = agentID \<and> sees t (ap_project p)) (agent_profiles db)))) (\<lambda>(latest, known).
     case latest of
       Some revID \<Rightarrow> go_on revID
     | None \<Rightarrow> if \<not> known then answer (zero_Admission\<lparr>ad_PinnedRevisionNotFound := True\<rparr>)
               else answer (zero_Admission\<lparr>ad_PinnedRevisionNotPublished := True\<rparr>))"

definition verifyPublishedRevision :: "txn \<Rightarrow> ('a admission_db_scheme \<Rightarrow> revision_row list) \<Rightarrow> string
    \<Rightarrow> ('a admission_db_scheme, unit) step" where
  "verifyPublishedRevision t revisions revID =
     tx_bind (tx_read (\<lambda>db. sql_row (\<lambda>r. rv_id r = revID \<and> sees t (rv_project r)) (revisions db))) (\<lambda>row.
       case row of None \<Rightarrow> answer (zero_Admission\<lparr>ad_PinnedRevisionNotFound := True\<rparr>)
       | Some r \<Rightarrow> if rv_published_at r = None then answer (zero_Admission\<lparr>ad_PinnedRevisionNotPublished := True\<rparr>)
                   else go_on ())"

definition verify_pins :: "txn \<Rightarrow> AdmissionInput \<Rightarrow> ('a admission_db_scheme, string) step" where
  "verify_pins t inp =
     step_bind (if ai_AgentID inp \<noteq> '''' then resolvePublishedAgent t (ai_AgentID inp)
                else go_on (ai_AgentRevisionID inp)) (\<lambda>agentRevisionID.
     step_bind (if agentRevisionID \<noteq> '''' then verifyPublishedRevision t agent_revisions agentRevisionID else go_on ()) (\<lambda>_.
     step_bind (if ai_RunTemplateRevisionID inp \<noteq> ''''
                then verifyPublishedRevision t run_template_revisions (ai_RunTemplateRevisionID inp) else go_on ()) (\<lambda>_.
     go_on agentRevisionID)))"

text \<open>Storing a member in a nil map, which a null body decodes to, panics.\<close>

definition withSessionID :: "json \<Rightarrow> string \<Rightarrow> json result" where
  "withSessionID body sessionID = (case body of
     JObj kvs \<Rightarrow> Inr (JObj (AList.update ''session_id'' (JStr sessionID) kvs))
   | JNull \<Rightarrow> Inl (Sentinel ''runtime'' ''assignment to entry in nil map'')
   | _ \<Rightarrow> Inl (Errorf [] ''decode response body''))"

section \<open>Idempotency\<close>

definition idempotency_key :: "idempotency_row \<Rightarrow> string \<times> string \<times> string \<times> string \<times> string" where
  "idempotency_key r = (id_project r, id_principal r, id_method r, id_route r, id_key r)"

definition request_key :: "string \<Rightarrow> AdmissionInput \<Rightarrow> string \<times> string \<times> string \<times> string \<times> string" where
  "request_key project inp = (project, ai_Principal inp, ai_Method inp, ai_Route inp, ai_IdempotencyKey inp)"

text \<open>\<open>False\<close> when the key was reserved before.\<close>

definition ReserveIdempotency :: "txn \<Rightarrow> AdmissionInput \<Rightarrow> json \<Rightarrow> ('a admission_db_scheme, bool) tx" where
  [sql_defs]: "ReserveIdempotency t inp body = (\<lambda>db.
     if \<not> tenant_policy (tx_conn t) (tx_tenant t) then Inl RowSecurity
     else if request_key (tx_tenant t) inp \<in> set (map idempotency_key (idempotency_records db)) then Inr (False, db)
     else Inr (True, db\<lparr>idempotency_records := idempotency_records db @ [\<lparr>id_project = tx_tenant t,
        id_principal = ai_Principal inp, id_method = ai_Method inp, id_route = ai_Route inp,
        id_key = ai_IdempotencyKey inp, id_hash = ai_RequestHash inp, id_body = Some body,
        id_purged_at = None, id_tombstone = None\<rparr>]\<rparr>))"

definition GetIdempotency :: "txn \<Rightarrow> AdmissionInput \<Rightarrow> 'a admission_db_scheme \<Rightarrow> idempotency_row option" where
  "GetIdempotency t inp db =
     sql_row (\<lambda>r. idempotency_key r = request_key (tx_tenant t) inp \<and> tenant_policy (tx_conn t) (id_project r))
       (idempotency_records db)"

definition replay :: "AdmissionInput \<Rightarrow> idempotency_row \<Rightarrow> Admission" where
  "replay inp r =
     (if id_hash r \<noteq> ai_RequestHash inp then zero_Admission\<lparr>ad_Conflict := True\<rparr>
      else if id_purged_at r \<noteq> None
      then zero_Admission\<lparr>ad_Purged := True, ad_ResourceTombstone := or_empty (id_tombstone r)\<rparr>
      else zero_Admission\<lparr>ad_Body := id_body r, ad_Replayed := True\<rparr>)"

definition reserve_or_replay :: "txn \<Rightarrow> AdmissionInput \<Rightarrow> json \<Rightarrow> ('a admission_db_scheme, unit) step" where
  "reserve_or_replay t inp body =
     tx_bind (tx_wrap ''reserve idempotency key'' (ReserveIdempotency t inp body)) (\<lambda>fresh.
       if fresh then go_on ()
       else tx_bind (tx_read (GetIdempotency t inp)) (\<lambda>row.
         case row of None \<Rightarrow> tx_fail (Errorf [NoRows] ''read idempotency record'')
         | Some r \<Rightarrow> answer (replay inp r)))"

section \<open>Gates\<close>

definition root_runs :: "txn \<Rightarrow> 'a admission_db_scheme \<Rightarrow> run_row list" where
  "root_runs t db = filter (\<lambda>r. sees t (rn_project r) \<and> rn_parent r = None) (runs db)"

definition CountProjectRootRuns :: "txn \<Rightarrow> 'a admission_db_scheme \<Rightarrow> int \<times> int" where
  "CountProjectRootRuns t db =
     (int (length (filter (\<lambda>r. rn_state r \<in> {RunProvisioning, RunRunning, RunWaiting}) (root_runs t db))),
      int (length (filter (\<lambda>r. rn_state r = RunQueued) (root_runs t db))))"

definition gate_limits :: "(string \<Rightarrow> string) \<Rightarrow> txn \<Rightarrow> int \<Rightarrow> ('a admission_db_scheme, unit) step" where
  "gate_limits collate t now = tx_bind (checkDurableLimits collate t now) (\<lambda>limit.
     if limit \<noteq> None then answer (zero_Admission\<lparr>ad_LimitExceeded := limit\<rparr>) else go_on ())"

definition gate_caps :: "txn \<Rightarrow> AdmissionInput \<Rightarrow> ('a admission_db_scheme, unit) step" where
  "gate_caps t inp =
     (if ai_MaxConcurrentRuns inp > 0 \<or> ai_MaxQueuedRuns inp > 0
      then tx_bind (tx_read (CountProjectRootRuns t)) (\<lambda>(concurrent, queued).
        if ai_MaxConcurrentRuns inp > 0 \<and> concurrent \<ge> ai_MaxConcurrentRuns inp
        then answer (zero_Admission\<lparr>ad_ConcurrencyLimited := True\<rparr>)
        else if ai_MaxQueuedRuns inp > 0 \<and> queued \<ge> ai_MaxQueuedRuns inp
        then answer (zero_Admission\<lparr>ad_QueueDepthExceeded := True\<rparr>)
        else go_on ())
      else go_on ())"

section \<open>Creation\<close>

definition InsertResponse :: "txn \<Rightarrow> string \<Rightarrow> string \<Rightarrow> json \<Rightarrow> bool \<Rightarrow> json option \<Rightarrow> int
    \<Rightarrow> ('a admission_db_scheme, unit) tx" where
  [sql_defs]: "InsertResponse t responseID sessionID inp store metadata now = (\<lambda>db.
     if \<not> tenant_policy (tx_conn t) (tx_tenant t) then Inl RowSecurity
     else if responseID \<in> set (map rs_id (responses db)) then Inl UniqueViolation
     else if sessionID \<notin> set (map se_id (sessions db)) then Inl ForeignKeyViolation
     else Inr ((), db\<lparr>responses := responses db @ [\<lparr>rs_id = responseID, rs_project = tx_tenant t,
        rs_session = sessionID, rs_state = ''queued'', rs_input = inp, rs_output = None, rs_store = store,
        rs_created_at = now, rs_purged_at = None, rs_retracted_at = None,
        rs_metadata = (case metadata of None \<Rightarrow> JObj [] | Some m \<Rightarrow> m)\<rparr>]\<rparr>))"

text \<open>The partial unique index \<^verbatim>\<open>runs_one_active_root_per_session\<close>.\<close>

definition active_root :: "run_row \<Rightarrow> bool" where
  "active_root r \<longleftrightarrow> rn_parent r = None \<and>
     rn_state r \<notin> {RunCompleted, RunFailed, RunCanceled, RunTimedOut, RunBudgetExceeded}"

definition foreign_ok :: "('r \<Rightarrow> string) \<Rightarrow> string option \<Rightarrow> 'r list \<Rightarrow> bool" where
  "foreign_ok key ref rows \<longleftrightarrow> (case ref of None \<Rightarrow> True | Some i \<Rightarrow> i \<in> set (map key rows))"

text \<open>One row for \<^verbatim>\<open>InsertRun\<close> and \<^verbatim>\<open>InsertChildRun\<close>: the constraints of the table.\<close>

definition insert_run :: "txn \<Rightarrow> run_row \<Rightarrow> ('a admission_db_scheme, unit) tx" where
  [sql_defs]: "insert_run t r = (\<lambda>db.
     if \<not> tenant_policy (tx_conn t) (rn_project r) then Inl RowSecurity
     else if rn_id r \<in> set (map rn_id (runs db)) then Inl UniqueViolation
     else if active_root r \<and> list_ex (\<lambda>x. rn_session x = rn_session r \<and> active_root x) (runs db) then Inl UniqueViolation
     else if rn_session r \<notin> set (map se_id (sessions db)) \<or> \<not> foreign_ok rs_id (rn_response r) (responses db) \<or>
       \<not> foreign_ok rn_id (rn_parent r) (runs db) \<or> \<not> foreign_ok rv_id (rn_agent_revision r) (agent_revisions db) \<or>
       \<not> foreign_ok rv_id (rn_template_revision r) (run_template_revisions db) then Inl ForeignKeyViolation
     else Inr ((), db\<lparr>runs := runs db @ [r]\<rparr>))"

definition root_run :: "txn \<Rightarrow> AdmissionInput \<Rightarrow> string \<Rightarrow> string \<Rightarrow> int \<Rightarrow> run_row" where
  "root_run t inp sessionID agentRevisionID now = \<lparr>rn_id = ai_RunID inp, rn_project = tx_tenant t,
     rn_session = sessionID, rn_response = Some (ai_ResponseID inp), rn_state = RunQueued, rn_created_at = now,
     rn_parent = None, rn_depth = 0, rn_delegation = ai_Delegations inp,
     rn_agent_revision = nullableText agentRevisionID,
     rn_template_revision = nullableText (ai_RunTemplateRevisionID inp),
     rn_output_contract = ai_OutputContract inp, rn_instructions = nullableText (ai_Instructions inp)\<rparr>"

definition InsertRun :: "txn \<Rightarrow> AdmissionInput \<Rightarrow> string \<Rightarrow> string \<Rightarrow> int \<Rightarrow> ('a admission_db_scheme, unit) step" where
  "InsertRun t inp sessionID agentRevisionID now = (\<lambda>db.
     case insert_run t (root_run t inp sessionID agentRevisionID now) db of
       Inl e \<Rightarrow> if e = UniqueViolation then Inr (Inl (zero_Admission\<lparr>ad_ActiveRunConflict := True\<rparr>), db)
                else Inl (Errorf [e] ''insert run'')
     | Inr (u, db') \<Rightarrow> Inr (Inr (), db'))"

definition AttachArtifactRun :: "txn \<Rightarrow> string \<Rightarrow> string \<Rightarrow> ('a admission_db_scheme, unit) tx" where
  [sql_defs]: "AttachArtifactRun t artifactID runID = tx_write (\<lambda>db.
     db\<lparr>artifacts := sql_update (\<lambda>a. ar_id a = artifactID \<and> sees t (ar_project a) \<and> ar_run a = None)
          (\<lambda>a. a\<lparr>ar_run := Some runID\<rparr>) (artifacts db)\<rparr>)"

definition newWorkspaceID :: "('a journal_db_scheme, string) tx" where
  "newWorkspaceID = (\<lambda>db. case entropy db of
     [] \<Rightarrow> Inl (Errorf [] ''generate workspace id'')
   | r # rs \<Rightarrow> Inr (''ws_'' @ r, db\<lparr>entropy := rs\<rparr>))"

definition AttachSessionWorkspace :: "txn \<Rightarrow> string \<Rightarrow> string \<Rightarrow> string \<Rightarrow> string \<Rightarrow> int \<Rightarrow> ('a admission_db_scheme, unit) tx" where
  [sql_defs]: "AttachSessionWorkspace t workspaceID sessionID bindingID ref now = (\<lambda>db.
     if list_ex (\<lambda>w. ws_session w = sessionID \<and> sees t (ws_project w) \<and> ws_binding w \<noteq> '''') (workspaces db)
     then Inr ((), db)
     else if \<not> tenant_policy (tx_conn t) (tx_tenant t) then Inl RowSecurity
     else if workspaceID \<in> set (map ws_id (workspaces db)) then Inl UniqueViolation
     else Inr ((), db\<lparr>workspaces := workspaces db @ [\<lparr>ws_id = workspaceID, ws_project = tx_tenant t,
        ws_session = sessionID, ws_state = WorkspaceRequested, ws_binding = bindingID, ws_ref = ref,
        ws_created_at = now\<rparr>]\<rparr>))"

definition admitted_entry :: "string \<Rightarrow> string \<Rightarrow> usageEntry" where
  "admitted_entry sessionID runID = zero_usageEntry\<lparr>ue_sessionID := sessionID, ue_runID := runID,
     ue_meter := meterRunAdmitted, ue_unit := unitRun, ue_dedupeKey := ''run:'' @ runID @ '':admitted'', ue_quantity := 1\<rparr>"

text \<open>The birth event with its outbox row, and the dispatch job.\<close>

definition dispatch :: "txn \<Rightarrow> AdmissionInput \<Rightarrow> string \<Rightarrow> int \<Rightarrow> ('a admission_db_scheme, unit) tx" where
  "dispatch t inp sessionID now =
     tx_bind (journal_event t sessionID (Some (ai_ResponseID inp)) ''run.queued.v1''
         (\<lambda>_. run_payload (ai_RunID inp) RunQueued) ''allocate session sequence'' ''append queued event'') (\<lambda>seq.
     tx_then (tx_wrap ''enqueue admission outbox'' (enqueue_outbox t ''run.queued.v1'' (run_dedupe (ai_RunID inp) seq)
         (run_payload (ai_RunID inp) RunQueued)))
     (tx_bind newJobID (\<lambda>jobID. tx_wrap ''enqueue dispatch job'' (enqueue_run_job t jobID (ai_RunID inp) now))))"

definition create_run :: "(string \<Rightarrow> string) \<Rightarrow> txn \<Rightarrow> AdmissionInput \<Rightarrow> string \<Rightarrow> bool \<Rightarrow> string \<Rightarrow> int
    \<Rightarrow> ('a admission_db_scheme, unit) step" where
  "create_run sha t inp sessionID createSession agentRevisionID now =
     tx_then (tx_when createSession (tx_wrap ''insert session'' (InsertSession t sessionID '''')))
     (tx_then (tx_wrap ''insert response'' (InsertResponse t (ai_ResponseID inp) sessionID (ai_Input inp) (ai_Store inp) (ai_Metadata inp) now))
     (step_bind (InsertRun t inp sessionID agentRevisionID now) (\<lambda>_.
       tx_then (tx_each (\<lambda>a. tx_wrap ''attach inbound artifact to run'' (AttachArtifactRun t a (ai_RunID inp))) (ai_InboundArtifactIDs inp))
       (tx_then (settleUsage sha t now [admitted_entry sessionID (ai_RunID inp)])
       (tx_then (tx_when (ai_RepositoryBindingID inp \<noteq> '''')
          (tx_bind newWorkspaceID (\<lambda>w. tx_wrap ''attach session workspace''
             (AttachSessionWorkspace t w sessionID (ai_RepositoryBindingID inp) (ai_RepositoryRef inp) now))))
       (tx_then (dispatch t inp sessionID now) (go_on ())))))))"

section \<open>Admission\<close>

text \<open>Resolution and verification, before the key is reserved: the session, whether it is new, the agent revision, and the body.\<close>

definition resolve_request :: "txn \<Rightarrow> AdmissionInput \<Rightarrow> ('a admission_db_scheme, string \<times> bool \<times> string \<times> json) step" where
  "resolve_request t inp =
     step_bind (resolve_session t inp) (\<lambda>(sessionID, createSession).
     step_bind (verify_binding t inp) (\<lambda>_.
     step_bind (verify_pins t inp) (\<lambda>agentRevisionID.
       if sessionID = ai_SessionID inp then go_on (sessionID, createSession, agentRevisionID, ai_Body inp)
       else case withSessionID (ai_Body inp) sessionID of
              Inl e \<Rightarrow> tx_fail e
            | Inr body \<Rightarrow> go_on (sessionID, createSession, agentRevisionID, body))))"

definition admitResponseTx :: "(string \<Rightarrow> string) \<Rightarrow> (string \<Rightarrow> string) \<Rightarrow> txn \<Rightarrow> AdmissionInput \<Rightarrow> int
    \<Rightarrow> ('a admission_db_scheme, Admission) step" where
  "admitResponseTx sha collate t inp now =
     step_bind (resolve_request t inp) (\<lambda>(sessionID, createSession, agentRevisionID, body).
     step_bind (reserve_or_replay t inp body) (\<lambda>_.
     step_bind (gate_limits collate t now) (\<lambda>_.
     step_bind (gate_caps t inp) (\<lambda>_.
     step_bind (create_run sha t inp sessionID createSession agentRevisionID now) (\<lambda>_.
       go_on (zero_Admission\<lparr>ad_Body := Some body\<rparr>))))))"

definition AdmitResponse :: "(string \<Rightarrow> string) \<Rightarrow> (string \<Rightarrow> string) \<Rightarrow> ctx \<Rightarrow> string \<Rightarrow> AdmissionInput \<Rightarrow> int
    \<Rightarrow> 'a admission_db_scheme \<Rightarrow> Admission result \<times> 'a admission_db_scheme" where
  "AdmitResponse sha collate ctx tenant inp now db =
     (case PrepareConn (ScopeToTenant ctx tenant) of
        Inl e \<Rightarrow> (Inl (Errorf [e] ''begin admission''), db)
      | Inr c \<Rightarrow>
          (case admitResponseTx sha collate \<lparr>tx_conn = c, tx_tenant = tenant\<rparr> inp now db of
             Inl e \<Rightarrow> (Inl e, db)
           | Inr (Inl adm, _) \<Rightarrow> (Inr adm, db)
           | Inr (Inr adm, db') \<Rightarrow> (Inr adm, db')))"

end
