(* ===== verification/Admission_Safety.thy ===== *)
theory Admission_Safety
  imports Admission Journal_Safety
begin

text \<open>
  Correctness of admission and of the usage ledger: an admission happens entirely or not at all, a
  request key is admitted once and replayed afterwards, a session has one active root run, a limit
  that is exhausted admits nothing and reports the narrowest row, and settlement is idempotent.
\<close>

section \<open>Steps that may answer\<close>

lemma step_bind_eq:
  "step_bind m f s = Inr r \<longleftrightarrow> (\<exists>adm s'. m s = Inr (Inl adm, s') \<and> r = (Inl adm, s')) \<or>
     (\<exists>x s'. m s = Inr (Inr x, s') \<and> f x s' = Inr r)"
  by (auto simp: step_bind_def tx_bind_eq answer_def split: sum.splits) (metis old.sum.exhaust)+

lemma step_bind_go:
  "step_bind m f s = Inr (Inr x, s') \<longleftrightarrow> (\<exists>y s1. m s = Inr (Inr y, s1) \<and> f y s1 = Inr (Inr x, s'))"
  by (auto simp: step_bind_eq)

lemma answer_eq [simp]: "answer adm s = Inr r \<longleftrightarrow> r = (Inl adm, s)"
  by (auto simp: answer_def)

lemma go_on_eq [simp]: "go_on x s = Inr r \<longleftrightarrow> r = (Inr x, s)"
  by (auto simp: go_on_def)

context tx_preorder
begin

lemma in_answer: "tx_in R (answer adm)"
  by (simp add: answer_def in_return)

lemma in_go_on: "tx_in R (go_on x)"
  by (simp add: go_on_def in_return)

lemma in_step: "tx_in R m \<Longrightarrow> (\<And>x. tx_in R (f x)) \<Longrightarrow> tx_in R (step_bind m f)"
  unfolding step_bind_def by (intro in_bind in_sum in_answer)

lemmas step_intros = in_intros in_answer in_go_on in_step

end

interpretation reading: tx_preorder "\<lambda>s s'. s' = s"
  by unfold_locales simp_all

lemma resolve_session_reads: "tx_in (\<lambda>s s'. s' = s) (resolve_session t inp)"
  unfolding resolve_session_def Let_def
  by (auto split: option.splits intro!: reading.step_intros)

lemma verify_pins_reads: "tx_in (\<lambda>s s'. s' = s) (verify_pins t inp)"
  unfolding verify_pins_def resolvePublishedAgent_def verifyPublishedRevision_def
  by (intro reading.step_intros)

lemma resolve_request_reads: "tx_in (\<lambda>s s'. s' = s) (resolve_request t inp)"
  unfolding resolve_request_def verify_binding_def
  by (intro reading.step_intros resolve_session_reads verify_pins_reads)

lemmas resolve_reads = tx_inD [OF resolve_request_reads]

lemma gates_read:
  "gate_limits collate t now s = Inr (r, s') \<Longrightarrow> s' = s"
  "gate_caps t inp s = Inr (q, s') \<Longrightarrow> s' = s"
  by (auto simp: gate_limits_def gate_caps_def checkDurableLimits_def tx_bind_eq split: if_splits prod.splits)

section \<open>What an accepted admission did\<close>

definition accepted :: "json \<Rightarrow> Admission" where
  "accepted body = zero_Admission\<lparr>ad_Body := Some body\<rparr>"

lemma admit_accepted:
  assumes "admitResponseTx sha collate t inp now s = Inr (Inr adm, s')"
  obtains sid new ag body s1 where "resolve_request t inp s = Inr (Inr (sid, new, ag, body), s)"
    "ReserveIdempotency t inp body s = Inr (True, s1)"
    "gate_limits collate t now s1 = Inr (Inr (), s1)" "gate_caps t inp s1 = Inr (Inr (), s1)"
    "create_run sha t inp sid new ag now s1 = Inr (Inr (), s')" "adm = accepted body"
proof -
  from assms obtain sid new ag body s0 s1 s2 s3 where r: "resolve_request t inp s = Inr (Inr (sid, new, ag, body), s0)"
    and v: "reserve_or_replay t inp body s0 = Inr (Inr (), s1)"
    and g: "gate_limits collate t now s1 = Inr (Inr (), s2)" "gate_caps t inp s2 = Inr (Inr (), s3)"
    and c: "create_run sha t inp sid new ag now s3 = Inr (Inr (), s')" "adm = accepted body"
    unfolding admitResponseTx_def step_bind_go by (auto simp: accepted_def step_bind_go)
  have "s0 = s" "s2 = s1" "s3 = s2" using resolve_reads [OF r] gates_read g by blast+
  moreover have "ReserveIdempotency t inp body s0 = Inr (True, s1)"
    using v by (auto simp: reserve_or_replay_def tx_bind_eq split: if_splits option.splits)
  ultimately show thesis using that r g c by simp
qed

lemma admit_cases:
  assumes "AdmitResponse sha collate ctx tenant inp now db = (r, db')"
  obtains (failed) e where "r = Inl e" "db' = db"
  | (answered) t adm s where "tx_tenant t = tenant" "admitResponseTx sha collate t inp now db = Inr (Inl adm, s)" "r = Inr adm" "db' = db"
  | (admitted) t adm where "tx_tenant t = tenant" "PrepareConn (ScopeToTenant ctx tenant) = Inr (tx_conn t)"
      "admitResponseTx sha collate t inp now db = Inr (Inr adm, db')" "r = Inr adm"
proof (cases "PrepareConn (ScopeToTenant ctx tenant)")
  case (Inl e)
  then show thesis using assms failed by (auto simp: AdmitResponse_def)
next
  case (Inr c)
  let ?t = "\<lparr>tx_conn = c, tx_tenant = tenant\<rparr>"
  note call = assms [unfolded AdmitResponse_def Inr sum.case]
  consider e where "admitResponseTx sha collate ?t inp now db = Inl e"
    | adm s where "admitResponseTx sha collate ?t inp now db = Inr (Inl adm, s)"
    | adm s where "admitResponseTx sha collate ?t inp now db = Inr (Inr adm, s)"
    by (metis old.prod.exhaust old.sum.exhaust)
  then show thesis
  proof cases
    case (1 e)
    have "r = Inl e" "db' = db" using call unfolding 1 sum.case by simp_all
    then show thesis by (rule failed)
  next
    case (2 adm s)
    have "r = Inr adm" "db' = db" using call unfolding 2 sum.case prod.case by simp_all
    with 2 show thesis by (intro answered [of ?t adm s]) simp_all
  next
    case (3 adm s)
    have "r = Inr adm" "db' = s" using call unfolding 3 sum.case prod.case by simp_all
    with 3 Inr show thesis by (intro admitted [of ?t adm]) simp_all
  qed
qed

lemma dispatch_result:
  fixes s s' :: "'a admission_db_scheme"
  assumes "dispatch t inp sid now s = Inr (u, s')"
  shows "runs s' = runs s \<and> sessions s' = sessions s \<and> responses s' = responses s \<and>
    usage_ledger s' = usage_ledger s \<and> budgets s' = budgets s \<and> quotas s' = quotas s \<and>
    idempotency_records s' = idempotency_records s \<and>
    (\<exists>e. events s' = events s @ [e] \<and> ev_session e = sid \<and> ev_seq e = last_seq s sid + 1 \<and>
       ev_type e = ''run.queued.v1'' \<and> ev_response e = Some (ai_ResponseID inp)) \<and>
    (\<exists>x. outbox s' = outbox s @ [x] \<and> ob_topic x = ''run.queued.v1'' \<and>
       ob_dedupe_key x = run_dedupe (ai_RunID inp) (last_seq s sid + 1)) \<and>
    (\<exists>j. durable_jobs s' = durable_jobs s @ [j] \<and> job_project j = tx_tenant t \<and> job_kind j = ''response.run'' \<and>
       job_payload j = JObj [(''run_id'', JStr (ai_RunID inp))])"
  using assms
  by (auto simp: dispatch_def tx_iffs enqueue_outbox_def newJobID_def enqueue_run_job_def bind_result_eq_Inr
      EnqueueOutbox_def EnqueueJob_def split: if_splits list.splits dest!: journal_event_result)

text \<open>The ledger after one entry.\<close>

definition settle_row :: "(string \<Rightarrow> string) \<Rightarrow> txn \<Rightarrow> int \<Rightarrow> usageEntry \<Rightarrow> ledger_row" where
  "settle_row sha t now e = \<lparr>lg_id = ledgerID sha (tx_tenant t) (ue_dedupeKey e),
     lg_project = tx_tenant t, lg_session = nullableText (ue_sessionID e), lg_run = nullableText (ue_runID e),
     lg_meter = ue_meter e, lg_quantity = ue_quantity e, lg_unit = ue_unit e, lg_dedupe = ue_dedupeKey e,
     lg_occurred_at = now, lg_model_request = nullableText (ue_modelRequestID e),
     lg_runner = nullableText (ue_runnerID e)\<rparr>"

definition ledger_key :: "ledger_row \<Rightarrow> string \<times> string" where
  "ledger_key l = (lg_project l, lg_dedupe l)"

definition settled :: "(string \<Rightarrow> string) \<Rightarrow> txn \<Rightarrow> int \<Rightarrow> usageEntry \<Rightarrow> ledger_row list \<Rightarrow> ledger_row list" where
  "settled sha t now e ledger =
     (if (tx_tenant t, ue_dedupeKey e) \<in> set (map ledger_key ledger) then ledger else ledger @ [settle_row sha t now e])"

lemma SettleUsage_settled:
  "SettleUsage sha t now e s = Inr (u, s') \<Longrightarrow> s' = s\<lparr>usage_ledger := settled sha t now e (usage_ledger s)\<rparr>"
  by (auto simp: SettleUsage_def settled_def settle_row_def ledger_key_def split: if_splits)

lemma settleUsage_one:
  "settleUsage sha t now [e] s = Inr (u, s') \<Longrightarrow> 0 < ue_quantity e \<Longrightarrow>
   usage_ledger s' = settled sha t now e (usage_ledger s)"
  by (auto simp: settleUsage_def tx_iffs dest: SettleUsage_settled)

text \<open>Everything but the statement's own table.\<close>

definition same_admission :: "'a admission_db_scheme \<Rightarrow> 'a admission_db_scheme \<Rightarrow> bool" where
  "same_admission s s' \<longleftrightarrow> runs s' = runs s \<and> sessions s' = sessions s \<and> responses s' = responses s \<and>
     budgets s' = budgets s \<and> quotas s' = quotas s \<and> idempotency_records s' = idempotency_records s \<and>
     events s' = events s \<and> outbox s' = outbox s \<and> durable_jobs s' = durable_jobs s \<and>
     session_sequences s' = session_sequences s \<and> usage_ledger s' = usage_ledger s"

interpretation admission_frame: tx_preorder same_admission
  by unfold_locales (simp_all add: same_admission_def)

lemma attach_frame: "tx_in same_admission (tx_each (\<lambda>a. tx_wrap msg (AttachArtifactRun t a runID)) ids)"
  by (intro admission_frame.in_intros) (auto intro!: tx_inI simp: AttachArtifactRun_def same_admission_def)

lemma workspace_frame:
  "tx_in same_admission (tx_when b (tx_bind newWorkspaceID (\<lambda>w. tx_wrap msg (AttachSessionWorkspace t w sid bid ref now))))"
  by (intro admission_frame.in_intros)
    (auto intro!: tx_inI simp: newWorkspaceID_def AttachSessionWorkspace_def same_admission_def split: list.splits if_splits)

text \<open>The rows that an accepted admission adds.\<close>

definition new_session :: "txn \<Rightarrow> string \<Rightarrow> bool \<Rightarrow> session_row list" where
  "new_session t sid new = (if new then [\<lparr>se_id = sid, se_project = tx_tenant t, se_state = SessionActive, se_name = ''''\<rparr>] else [])"

definition new_response :: "txn \<Rightarrow> AdmissionInput \<Rightarrow> string \<Rightarrow> int \<Rightarrow> response_row" where
  "new_response t inp sid now = \<lparr>rs_id = ai_ResponseID inp, rs_project = tx_tenant t, rs_session = sid,
     rs_state = ''queued'', rs_input = ai_Input inp, rs_output = None, rs_store = ai_Store inp, rs_created_at = now,
     rs_purged_at = None, rs_retracted_at = None,
     rs_metadata = (case ai_Metadata inp of None \<Rightarrow> JObj [] | Some m \<Rightarrow> m)\<rparr>"

lemma InsertRun_eq:
  "InsertRun t inp sid ag now s = Inr (Inr u, s') \<longleftrightarrow> insert_run t (root_run t inp sid ag now) s = Inr ((), s')"
  by (auto simp: InsertRun_def split: sum.splits if_splits)

lemma create_run_result:
  fixes s s' :: "'a admission_db_scheme"
  assumes "create_run sha t inp sid new ag now s = Inr (Inr u, s')"
  shows "sessions s' = sessions s @ new_session t sid new \<and>
    responses s' = responses s @ [new_response t inp sid now] \<and>
    runs s' = runs s @ [root_run t inp sid ag now] \<and>
    (\<forall>x \<in> set (runs s). rn_session x = sid \<longrightarrow> \<not> active_root x) \<and> ai_RunID inp \<notin> set (map rn_id (runs s)) \<and>
    budgets s' = budgets s \<and> quotas s' = quotas s \<and> idempotency_records s' = idempotency_records s \<and>
    usage_ledger s' = settled sha t now (admitted_entry sid (ai_RunID inp)) (usage_ledger s) \<and>
    (\<exists>e. events s' = events s @ [e] \<and> ev_session e = sid \<and> ev_seq e = last_seq s sid + 1 \<and>
       ev_type e = ''run.queued.v1'' \<and> ev_response e = Some (ai_ResponseID inp)) \<and>
    (\<exists>x. outbox s' = outbox s @ [x] \<and> ob_topic x = ''run.queued.v1'' \<and>
       ob_dedupe_key x = run_dedupe (ai_RunID inp) (last_seq s sid + 1)) \<and>
    (\<exists>j. durable_jobs s' = durable_jobs s @ [j] \<and> job_project j = tx_tenant t \<and> job_kind j = ''response.run'' \<and>
       job_payload j = JObj [(''run_id'', JStr (ai_RunID inp))])"
proof -
  from assms obtain s1 s2 s3 s4 s5 s6 where
    a: "tx_when new (tx_wrap ''insert session'' (InsertSession t sid '''')) s = Inr ((), s1)"
    and b: "InsertResponse t (ai_ResponseID inp) sid (ai_Input inp) (ai_Store inp) (ai_Metadata inp) now s1 = Inr ((), s2)"
    and c: "insert_run t (root_run t inp sid ag now) s2 = Inr ((), s3)"
    and d: "tx_each (\<lambda>a. tx_wrap ''attach inbound artifact to run'' (AttachArtifactRun t a (ai_RunID inp))) (ai_InboundArtifactIDs inp) s3 = Inr ((), s4)"
    and e: "settleUsage sha t now [admitted_entry sid (ai_RunID inp)] s4 = Inr ((), s5)"
    and f: "tx_when (ai_RepositoryBindingID inp \<noteq> '''') (tx_bind newWorkspaceID (\<lambda>w. tx_wrap ''attach session workspace''
             (AttachSessionWorkspace t w sid (ai_RepositoryBindingID inp) (ai_RepositoryRef inp) now))) s5 = Inr ((), s6)"
    and g: "dispatch t inp sid now s6 = Inr ((), s')"
    unfolding create_run_def tx_then_eq step_bind_go InsertRun_eq tx_wrap_eq by auto
  have 1: "sessions s1 = sessions s @ new_session t sid new" "same_admission (s\<lparr>sessions := sessions s1\<rparr>) s1"
    using a by (auto simp: tx_when_eq InsertSession_def new_session_def same_admission_def split: if_splits)
  have 2: "s2 = s1\<lparr>responses := responses s1 @ [new_response t inp sid now]\<rparr>"
    using b by (auto simp: InsertResponse_def new_response_def split: if_splits)
  have 3: "s3 = s2\<lparr>runs := runs s2 @ [root_run t inp sid ag now]\<rparr>" "ai_RunID inp \<notin> set (map rn_id (runs s2))"
    "\<forall>x \<in> set (runs s2). rn_session x = sid \<longrightarrow> \<not> active_root x"
    using c by (auto simp: insert_run_def root_run_def active_root_def list_ex_iff split: if_splits)
  have 4: "same_admission s3 s4" using tx_inD [OF attach_frame d] .
  have 5: "same_admission (s4\<lparr>usage_ledger := usage_ledger s5\<rparr>) s5"
    using e by (auto simp: settleUsage_def tx_iffs SettleUsage_def same_admission_def split: if_splits)
  have 6: "same_admission s5 s6" using tx_inD [OF workspace_frame f] .
  note rows = 1 2 3(1) 4 5 6
  have l: "last_seq s6 sid = last_seq s sid" using rows by (simp add: last_seq_def same_admission_def)
  have r6: "sessions s6 = sessions s @ new_session t sid new" "responses s6 = responses s @ [new_response t inp sid now]"
    "runs s6 = runs s @ [root_run t inp sid ag now]" "budgets s6 = budgets s" "quotas s6 = quotas s"
    "idempotency_records s6 = idempotency_records s" "events s6 = events s" "outbox s6 = outbox s"
    "durable_jobs s6 = durable_jobs s" "usage_ledger s6 = usage_ledger s5" "usage_ledger s4 = usage_ledger s" "runs s2 = runs s"
    using rows by (simp_all add: same_admission_def)
  have "usage_ledger s5 = settled sha t now (admitted_entry sid (ai_RunID inp)) (usage_ledger s)"
    using settleUsage_one [OF e] r6 by (simp add: admitted_entry_def)
  then show ?thesis using dispatch_result [OF g, unfolded l r6] 3(2,3) [unfolded r6] by (elim conjE, intro conjI) (assumption | simp)+
qed

section \<open>Answers\<close>

text \<open>The answers a step can give before the end lie in \<open>P\<close>.\<close>

definition answers_in :: "(Admission \<Rightarrow> bool) \<Rightarrow> ('s, 'a) step \<Rightarrow> bool" where
  "answers_in P m \<longleftrightarrow> (\<forall>s adm s'. m s = Inr (Inl adm, s') \<longrightarrow> P adm)"

lemma answers_inD: "answers_in P m \<Longrightarrow> m s = Inr (Inl adm, s') \<Longrightarrow> P adm"
  unfolding answers_in_def by blast

lemma answers_step: "answers_in P m \<Longrightarrow> (\<And>x. answers_in P (f x)) \<Longrightarrow> answers_in P (step_bind m f)"
  unfolding answers_in_def step_bind_eq by (metis Inl_inject prod.inject)

lemma answers_bind: "(\<And>a. answers_in P (f a)) \<Longrightarrow> answers_in P (tx_bind m f)"
  unfolding answers_in_def tx_bind_eq by blast

lemma answers_then: "answers_in P k \<Longrightarrow> answers_in P (tx_then m k)"
  by (simp add: tx_then_def answers_bind)

lemma answers_answer: "P adm \<Longrightarrow> answers_in P (answer adm)"
  by (simp add: answers_in_def)

lemma answers_go_on: "answers_in P (go_on x)"
  by (simp add: answers_in_def)

lemma answers_fail: "answers_in P (tx_fail e)"
  by (simp add: answers_in_def)

lemma answers_InsertRun:
  "P (zero_Admission\<lparr>ad_ActiveRunConflict := True\<rparr>) \<Longrightarrow> answers_in P (InsertRun t inp sid ag now)"
  by (auto simp: answers_in_def InsertRun_def split: sum.splits if_splits)

lemma answers_if: "(b \<Longrightarrow> answers_in P m) \<Longrightarrow> (\<not> b \<Longrightarrow> answers_in P k) \<Longrightarrow> answers_in P (if b then m else k)"
  by simp

lemma answers_option: "answers_in P m \<Longrightarrow> (\<And>x. answers_in P (f x)) \<Longrightarrow> answers_in P (case x of None \<Rightarrow> m | Some x \<Rightarrow> f x)"
  by (simp split: option.split)

lemma answers_sum: "(\<And>e. answers_in P (g e)) \<Longrightarrow> (\<And>x. answers_in P (f x)) \<Longrightarrow> answers_in P (case x of Inl e \<Rightarrow> g e | Inr x \<Rightarrow> f x)"
  by (simp split: sum.split)

lemma answers_pair: "(\<And>x y. answers_in P (f x y)) \<Longrightarrow> answers_in P (case p of (x, y) \<Rightarrow> f x y)"
  by (simp split: prod.split)

lemmas answers_intros = answers_step answers_bind answers_then answers_go_on answers_fail answers_if
  answers_option answers_sum answers_pair

text \<open>An answer that is given early carries no fresh body.\<close>

abbreviation early :: "('s, 'a) step \<Rightarrow> bool" where
  "early \<equiv> answers_in (\<lambda>adm. ad_Body adm = None \<or> ad_Replayed adm)"

lemma zero_body: "ad_Body zero_Admission = None"
  by (simp add: zero_Admission_def)

lemma early_resolve: "early (resolve_request t inp)"
  unfolding resolve_request_def resolve_session_def verify_binding_def verify_pins_def
    resolvePublishedAgent_def verifyPublishedRevision_def Let_def
  by (intro answers_intros; rule answers_answer; simp add: zero_body)

lemma early_reserve: "early (reserve_or_replay t inp body)"
  unfolding reserve_or_replay_def
  by (intro answers_intros; rule answers_answer; simp add: zero_body replay_def)

lemma early_create: "early (create_run sha t inp sid new ag now)"
  unfolding create_run_def by (intro answers_intros answers_InsertRun) (simp add: zero_body)

lemma early_gates: "early (gate_limits collate t now)" "early (gate_caps t inp)"
  unfolding gate_limits_def gate_caps_def by (intro answers_intros; rule answers_answer; simp add: zero_body)+

lemma early_admit: "early (admitResponseTx sha collate t inp now)"
  unfolding admitResponseTx_def
  by (intro answers_intros early_resolve early_reserve early_gates early_create)

lemma accepted_not_early [simp]: "ad_Body (accepted body) = Some body" "\<not> ad_Replayed (accepted body)"
  by (simp_all add: accepted_def zero_Admission_def)

text \<open>The record that an accepted admission leaves under the request's key.\<close>

definition new_record :: "txn \<Rightarrow> AdmissionInput \<Rightarrow> json \<Rightarrow> idempotency_row" where
  "new_record t inp body = \<lparr>id_project = tx_tenant t, id_principal = ai_Principal inp, id_method = ai_Method inp,
     id_route = ai_Route inp, id_key = ai_IdempotencyKey inp, id_hash = ai_RequestHash inp, id_body = Some body,
     id_purged_at = None, id_tombstone = None\<rparr>"

lemma reserve_result:
  "ReserveIdempotency t inp body s = Inr (True, s') \<Longrightarrow>
   s' = s\<lparr>idempotency_records := idempotency_records s @ [new_record t inp body]\<rparr> \<and>
   request_key (tx_tenant t) inp \<notin> set (map idempotency_key (idempotency_records s)) \<and>
   tenant_policy (tx_conn t) (tx_tenant t)"
  by (auto simp: ReserveIdempotency_def new_record_def split: if_splits)

lemma admitted_rows:
  fixes s s' :: "'a admission_db_scheme"
  assumes "admitResponseTx sha collate t inp now s = Inr (Inr adm, s')"
  obtains body sid new ag e b j where "adm = accepted body" "tenant_policy (tx_conn t) (tx_tenant t)"
    "resolve_request t inp s = Inr (Inr (sid, new, ag, body), s)"
    "checkDurableLimits collate t now s = Inr (None, s)"
    "request_key (tx_tenant t) inp \<notin> set (map idempotency_key (idempotency_records s))"
    "idempotency_records s' = idempotency_records s @ [new_record t inp body]"
    "sessions s' = sessions s @ new_session t sid new" "responses s' = responses s @ [new_response t inp sid now]"
    "runs s' = runs s @ [root_run t inp sid ag now]"
    "\<And>x. x \<in> set (runs s) \<Longrightarrow> rn_session x = sid \<Longrightarrow> \<not> active_root x" "ai_RunID inp \<notin> set (map rn_id (runs s))"
    "budgets s' = budgets s" "quotas s' = quotas s"
    "usage_ledger s' = settled sha t now (admitted_entry sid (ai_RunID inp)) (usage_ledger s)"
    "events s' = events s @ [e]" "ev_session e = sid" "ev_seq e = last_seq s sid + 1"
    "outbox s' = outbox s @ [b]" "ob_dedupe_key b = run_dedupe (ai_RunID inp) (last_seq s sid + 1)"
    "durable_jobs s' = durable_jobs s @ [j]" "job_payload j = JObj [(''run_id'', JStr (ai_RunID inp))]"
  using assms
proof (rule admit_accepted)
  fix sid new ag body s1
  assume r: "resolve_request t inp s = Inr (Inr (sid, new, ag, body), s)"
    and v: "ReserveIdempotency t inp body s = Inr (True, s1)"
    and g: "gate_limits collate t now s1 = Inr (Inr (), s1)"
    and c: "create_run sha t inp sid new ag now s1 = Inr (Inr (), s')" and a: "adm = accepted body"
  have s1: "s1 = s\<lparr>idempotency_records := idempotency_records s @ [new_record t inp body]\<rparr>"
    "request_key (tx_tenant t) inp \<notin> set (map idempotency_key (idempotency_records s))"
    "tenant_policy (tx_conn t) (tx_tenant t)" using reserve_result [OF v] by simp_all
  have "checkDurableLimits collate t now s1 = Inr (None, s1)"
    using g by (auto simp: gate_limits_def tx_bind_eq checkDurableLimits_def split: if_splits option.splits)
  then have l: "checkDurableLimits collate t now s = Inr (None, s)"
    by (simp add: checkDurableLimits_def tx_read_def s1(1) ExhaustedBudget_def ExhaustedQuota_def
        budget_spent_def quota_spent_def split: option.splits)
  have q: "last_seq s1 sid = last_seq s sid" by (simp add: s1(1) last_seq_def)
  from create_run_result [OF c] s1(2,3) r l a show thesis
    unfolding q by (elim conjE exE) (rule that, auto simp: s1(1))
qed

text \<open>
  C28. Admission is all or nothing.  Every answer but an acceptance, and every error, leaves the tables
  as they were.  An acceptance found the request's key unused and no active root run in the session, and
  it has added exactly one idempotency record, one response, one queued root run, one journal event with
  the session's next sequence number, one outbox row under that sequence, and one dispatch job.
\<close>

theorem admission_atomic:
  fixes db :: "'a admission_db_scheme"
  shows "case AdmitResponse sha collate ctx tenant inp now db of
     (Inl e, db') \<Rightarrow> db' = db
   | (Inr adm, db') \<Rightarrow> if ad_Body adm = None \<or> ad_Replayed adm then db' = db
       else \<exists>body r q x e b j. adm = accepted body \<and>
         request_key tenant inp \<notin> set (map idempotency_key (idempotency_records db)) \<and>
         idempotency_records db' = idempotency_records db @ [r] \<and> idempotency_key r = request_key tenant inp \<and>
         id_hash r = ai_RequestHash inp \<and> id_body r = Some body \<and>
         responses db' = responses db @ [q] \<and> rs_id q = ai_ResponseID inp \<and> rs_session q = rn_session x \<and>
         runs db' = runs db @ [x] \<and> rn_id x = ai_RunID inp \<and> rn_project x = tenant \<and> rn_state x = RunQueued \<and>
         rn_response x = Some (ai_ResponseID inp) \<and> rn_parent x = None \<and>
         (\<forall>y \<in> set (runs db). rn_session y = rn_session x \<longrightarrow> \<not> active_root y) \<and>
         events db' = events db @ [e] \<and> ev_session e = rn_session x \<and> ev_seq e = last_seq db (rn_session x) + 1 \<and>
         outbox db' = outbox db @ [b] \<and> ob_dedupe_key b = run_dedupe (ai_RunID inp) (ev_seq e) \<and>
         durable_jobs db' = durable_jobs db @ [j] \<and> job_payload j = JObj [(''run_id'', JStr (ai_RunID inp))]"
proof -
  obtain res db' where call: "AdmitResponse sha collate ctx tenant inp now db = (res, db')" by fastforce
  then show ?thesis
  proof (cases rule: admit_cases)
    case (answered t adm s)
    have "ad_Body adm = None \<or> ad_Replayed adm" using answers_inD [OF early_admit answered(2)] .
    with answered call show ?thesis by simp
  next
    case (admitted t adm)
    from admitted(3) obtain body sid new ag e b j where rows: "adm = accepted body"
      "request_key (tx_tenant t) inp \<notin> set (map idempotency_key (idempotency_records db))"
      "idempotency_records db' = idempotency_records db @ [new_record t inp body]"
      "responses db' = responses db @ [new_response t inp sid now]"
      "runs db' = runs db @ [root_run t inp sid ag now]"
      "\<And>x. x \<in> set (runs db) \<Longrightarrow> rn_session x = sid \<Longrightarrow> \<not> active_root x"
      "events db' = events db @ [e]" "ev_session e = sid" "ev_seq e = last_seq db sid + 1"
      "outbox db' = outbox db @ [b]" "ob_dedupe_key b = run_dedupe (ai_RunID inp) (last_seq db sid + 1)"
      "durable_jobs db' = durable_jobs db @ [j]" "job_payload j = JObj [(''run_id'', JStr (ai_RunID inp))]"
      by (rule admitted_rows) blast
    then show ?thesis using admitted(1,4) call
      by (auto simp: new_record_def idempotency_key_def request_key_def new_response_def root_run_def)
  qed (use call in simp)
qed

section \<open>Replay\<close>

inductive admission_step :: "(string \<Rightarrow> string) \<Rightarrow> (string \<Rightarrow> string) \<Rightarrow> 'a admission_db_scheme \<Rightarrow> 'a admission_db_scheme \<Rightarrow> bool"
  for sha collate where
  journal: "journal_step sha db db' \<Longrightarrow> admission_step sha collate db db'"
| admit: "AdmitResponse sha collate ctx tenant inp now db = (r, db') \<Longrightarrow> admission_step sha collate db db'"

definition same_records :: "'a admission_db_scheme \<Rightarrow> 'a admission_db_scheme \<Rightarrow> bool" where
  "same_records s s' \<longleftrightarrow> idempotency_records s' = idempotency_records s"

interpretation records: plain_statements same_records sha for sha
  by unfold_locales (auto intro!: tx_inI simp: same_records_def statement_defs journal_event_def newEventID_def tx_iffs
      CarrySessionSendMessages_def begin_tx_def commit_def
      split: if_splits list.splits sum.splits prod.splits)

lemma step_records:
  "admission_step sha collate db db' \<Longrightarrow> prefix (idempotency_records db) (idempotency_records db')"
proof (induction rule: admission_step.induct)
  case (journal db db')
  then have "same_records db db'" by (rule records.plain_ops.step_in)
  then show ?case by (simp add: same_records_def)
next
  case (admit ctx tenant inp now db r db')
  from admit show ?case
  proof (cases rule: admit_cases)
    case (admitted t adm)
    then show ?thesis by (elim admitted_rows) simp
  qed simp_all
qed

lemma steps_records:
  "(admission_step sha collate)\<^sup>*\<^sup>* db db' \<Longrightarrow> prefix (idempotency_records db) (idempotency_records db')"
  by (induction rule: rtranclp_induct) (auto dest: step_records intro: prefix_order.trans)

lemma find_prefix: "prefix xs ys \<Longrightarrow> List.find p xs = Some x \<Longrightarrow> List.find p ys = Some x"
proof -
  have "List.find p xs = Some x \<Longrightarrow> List.find p (xs @ zs) = Some x" for zs
    by (induction xs) (auto split: if_splits)
  then show "prefix xs ys \<Longrightarrow> List.find p xs = Some x \<Longrightarrow> List.find p ys = Some x" by (auto simp: prefix_def)
qed

text \<open>The answers that resolution can give, before the key is looked at.\<close>

definition unresolved :: "Admission \<Rightarrow> bool" where
  "unresolved adm \<longleftrightarrow> adm \<in> {zero_Admission\<lparr>ad_SessionNotFound := True\<rparr>, zero_Admission\<lparr>ad_SessionConflict := True\<rparr>,
     zero_Admission\<lparr>ad_RepositoryBindingNotFound := True\<rparr>, zero_Admission\<lparr>ad_PinnedRevisionNotFound := True\<rparr>,
     zero_Admission\<lparr>ad_PinnedRevisionNotPublished := True\<rparr>}"

lemma resolve_answers: "answers_in unresolved (resolve_request t inp)"
  unfolding resolve_request_def resolve_session_def verify_binding_def verify_pins_def
    resolvePublishedAgent_def verifyPublishedRevision_def Let_def
  by (intro answers_intros; rule answers_answer; simp add: unresolved_def)

text \<open>A request whose key is taken is answered from resolution or from the record.\<close>

lemma taken_answer:
  assumes "idempotency_records s = rows" and "List.find (\<lambda>r. idempotency_key r = request_key (tx_tenant t) inp) rows = Some r"
    and "admitResponseTx sha collate t inp now s = Inr (res, s')"
  shows "\<exists>adm. res = Inl adm \<and> (unresolved adm \<and> (\<exists>s1. resolve_request t inp s = Inr (Inl adm, s1)) \<or> adm = replay inp r)"
proof -
  have k: "request_key (tx_tenant t) inp \<in> set (map idempotency_key (idempotency_records s))"
    "id_project r = tx_tenant t"
    using assms(1,2) by (auto simp: find_Some_iff request_key_def idempotency_key_def image_iff) (metis nth_mem)+
  have reserve: "reserve_or_replay t inp body s = Inr (q, s1) \<Longrightarrow> q = Inl (replay inp r)" for body q s1
  proof -
    assume v: "reserve_or_replay t inp body s = Inr (q, s1)"
    then have pol: "tenant_policy (tx_conn t) (tx_tenant t)"
      by (auto simp: reserve_or_replay_def tx_bind_eq ReserveIdempotency_def split: if_splits)
    have "GetIdempotency t inp s = Some r"
    proof -
      have "(\<lambda>r. idempotency_key r = request_key (tx_tenant t) inp \<and> tenant_policy (tx_conn t) (id_project r)) =
          (\<lambda>r. idempotency_key r = request_key (tx_tenant t) inp)"
        using pol by (auto simp: idempotency_key_def request_key_def)
      with assms(1,2) show ?thesis by (simp add: GetIdempotency_def sql_row_def)
    qed
    with v k(1) pol show ?thesis by (auto simp: reserve_or_replay_def tx_bind_eq ReserveIdempotency_def)
  qed
  from assms(3) show ?thesis
    unfolding admitResponseTx_def
  proof (subst (asm) step_bind_eq, elim disjE exE conjE)
    fix adm s1 assume "resolve_request t inp s = Inr (Inl adm, s1)" "(res, s') = (Inl adm, s1)"
    then show ?thesis using answers_inD [OF resolve_answers] by blast
  next
    fix x s1
    assume x: "resolve_request t inp s = Inr (Inr x, s1)"
    obtain sid new ag body where p: "x = (sid, new, ag, body)" by (metis prod_cases4)
    have "s1 = s" using resolve_reads [OF x] .
    moreover assume "(case x of (sessionID, createSession, agentRevisionID, body) \<Rightarrow>
         step_bind (reserve_or_replay t inp body) (\<lambda>_. step_bind (gate_limits collate t now) (\<lambda>_.
         step_bind (gate_caps t inp) (\<lambda>_. step_bind (create_run sha t inp sessionID createSession agentRevisionID now)
         (\<lambda>_. go_on (zero_Admission\<lparr>ad_Body := Some body\<rparr>)))))) s1 = Inr (res, s')"
    ultimately show ?thesis unfolding p prod.case step_bind_eq by (auto dest!: reserve)
  qed
qed

lemma key_found:
  assumes "request_key project inp \<notin> set (map idempotency_key xs)" and "idempotency_key r = request_key project inp"
  shows "List.find (\<lambda>r. idempotency_key r = request_key project inp) (xs @ [r]) = Some r"
  using assms by (induction xs) auto

lemma resolve_plain:
  assumes "ai_PreviousResponseID inp = None" "ai_RequestedSessionID inp = None" "ai_RepositoryBindingID inp = ''''"
    "ai_AgentID inp = ''''" "ai_AgentRevisionID inp = ''''" "ai_RunTemplateRevisionID inp = ''''"
  shows "resolve_request t inp s = Inr (Inr (ai_SessionID inp, True, '''', ai_Body inp), s)"
  using assms by (simp add: resolve_request_def resolve_session_def verify_binding_def verify_pins_def
      step_bind_def go_on_def tx_bind_def tx_return_def)


text \<open>
  A chained request is not replayed once its session has left the active state.  Whatever the
  idempotency records hold, in particular an accepted record under the request's own key and hash, a
  request that names such a session is answered with a session conflict.
\<close>

theorem replay_needs_active_session:
  assumes "PrepareConn (ScopeToTenant ctx tenant) = Inr c" and "tenant_policy c tenant"
    and "ai_PreviousResponseID inp = None" and "ai_RequestedSessionID inp = Some sid"
    and "distinct (map se_id (sessions db))"
    and "x \<in> set (sessions db)" and "se_id x = sid" and "se_project x = tenant" and "se_state x \<noteq> SessionActive"
  shows "AdmitResponse sha collate ctx tenant inp now db = (Inr (zero_Admission\<lparr>ad_SessionConflict := True\<rparr>), db)"
proof -
  let ?t = "\<lparr>tx_conn = c, tx_tenant = tenant\<rparr>"
  have "SessionForCreate ?t sid db = Some x"
  proof (cases "SessionForCreate ?t sid db")
    case None
    then show ?thesis using assms by (auto simp: SessionForCreate_def sql_row_None sees_def)
  next
    case (Some y)
    then have "y \<in> set (sessions db)" "se_id y = sid" by (auto simp: SessionForCreate_def dest: sql_row_Some)
    with key_unique [OF assms(5)] assms(6,7) Some show ?thesis by metis
  qed
  then show ?thesis using assms(1,3,4,9)
    by (simp add: AdmitResponse_def admitResponseTx_def resolve_request_def resolve_session_def step_bind_def
        answer_def tx_bind_def tx_read_def tx_return_def)
qed

section \<open>One active root run\<close>

definition run_table_ok :: "'a journal_db_scheme \<Rightarrow> bool" where
  "run_table_ok db \<longleftrightarrow> distinct (map rn_id (runs db)) \<and> distinct (map rn_session (filter active_root (runs db)))"

lemma run_terminal_states:
  "run_terminal st \<longleftrightarrow> st \<in> {RunCompleted, RunFailed, RunCanceled, RunTimedOut, RunBudgetExceeded}"
  by (cases st) (simp_all add: run_terminal_def map_bool_def runTerminalStates_def TerminalStates_def RunTable_def Let_def)

lemma run_le_active:
  assumes "run_le r r'" and "active_root r'" shows "active_root r \<and> rn_session r' = rn_session r"
proof -
  from assms(1) obtain cs where eq: "r' = r\<lparr>rn_state := rn_state r'\<rparr>"
    and cs: "drive (rn_state r) cs RunTable = Some (rn_state r')" by (auto simp: run_le_def)
  have p: "rn_parent r' = rn_parent r" "rn_session r' = rn_session r" by (subst eq, simp)+
  have "\<not> run_terminal (rn_state r)"
  proof
    assume "run_terminal (rn_state r)"
    then have "rn_state r' = rn_state r"
      using run_table.drive_terminal [OF _ cs] by (simp add: run_terminal_def map_bool_Some_True runTerminalStates_def)
    with \<open>run_terminal _\<close> assms(2) show False by (auto simp: active_root_def run_terminal_states)
  qed
  with p assms(2) show ?thesis by (simp add: active_root_def run_terminal_states)
qed

lemma active_subset:
  "list_all2 run_le xs ys \<Longrightarrow> set (map rn_session (filter active_root ys)) \<subseteq> set (map rn_session (filter active_root xs))"
  by (induction rule: list_all2_induct) (auto dest: run_le_active split: if_splits)

lemma active_distinct:
  "list_all2 run_le xs ys \<Longrightarrow> distinct (map rn_session (filter active_root xs)) \<Longrightarrow>
   distinct (map rn_session (filter active_root ys))"
proof (induction rule: list_all2_induct)
  case (Cons x xs y ys)
  show ?case
  proof (cases "active_root y")
    case True
    with run_le_active [OF Cons(1)] Cons active_subset [OF Cons(2)] show ?thesis by auto
  next
    case False
    with Cons show ?thesis by (auto split: if_splits)
  qed
qed simp

lemma step_run_table: "admission_step sha collate db db' \<Longrightarrow> run_table_ok db \<Longrightarrow> run_table_ok db'"
proof (induction rule: admission_step.induct)
  case (journal db db')
  from journal(1) have "runs_le db db'" by (rule run_moves.step_in)
  then show ?case using journal(2) active_distinct by (auto simp: run_table_ok_def runs_le_def)
next
  case (admit ctx tenant inp now db r db')
  from admit(1) show ?case
  proof (cases rule: admit_cases)
    case (admitted t adm)
    from admitted(3) obtain sid ag where "runs db' = runs db @ [root_run t inp sid ag now]"
      "\<And>x. x \<in> set (runs db) \<Longrightarrow> rn_session x = sid \<Longrightarrow> \<not> active_root x" "ai_RunID inp \<notin> set (map rn_id (runs db))"
      by (rule admitted_rows) blast
    with admit(2) show ?thesis by (auto simp: run_table_ok_def root_run_def)
  qed (use admit(2) in simp_all)
qed

text \<open>
  C10. A session never has two active root runs.  The table of runs keeps its identifiers unique, and
  the root runs that are not terminal belong to different sessions, along every sequence of admissions,
  run transitions and commands.
\<close>

theorem one_active_root:
  assumes "run_table_ok db" and "(admission_step sha collate)\<^sup>*\<^sup>* db db'"
  shows "distinct (map rn_id (runs db')) \<and>
    (\<forall>x \<in> set (runs db'). \<forall>y \<in> set (runs db'). active_root x \<and> active_root y \<and> rn_session x = rn_session y \<longrightarrow> x = y)"
proof -
  have ok: "run_table_ok db'" using assms(2,1) by (induction rule: rtranclp_induct) (auto dest: step_run_table)
  have "x = y" if "x \<in> set (runs db')" "y \<in> set (runs db')" "active_root x" "active_root y" "rn_session x = rn_session y" for x y
    using key_unique [of rn_session "filter active_root (runs db')" x y] ok that by (simp add: run_table_ok_def)
  with ok show ?thesis by (auto simp: run_table_ok_def)
qed

section \<open>Limits\<close>

definition limit_order :: "(string \<Rightarrow> string) \<Rightarrow> ('r \<Rightarrow> string) \<Rightarrow> ('r \<Rightarrow> string) \<Rightarrow> ('r \<Rightarrow> string) \<Rightarrow> 'r list \<Rightarrow> 'r list" where
  "limit_order collate p m i rows =
     sort_key (\<lambda>r. p r = '''') (sort_key (\<lambda>r. collate (m r)) (sort_key (\<lambda>r. collate (i r)) rows))"

lemma set_limit_order: "set (limit_order collate p m i rows) = set rows"
  by (simp add: limit_order_def)

lemma sorted_limit_order: "sorted (map (\<lambda>r. p r = '''') (limit_order collate p m i rows))"
  by (simp add: limit_order_def)

lemma first_limit_order:
  "first_limit collate p m i rows = (case limit_order collate p m i rows of [] \<Rightarrow> None | r # _ \<Rightarrow> Some r)"
  by (simp add: first_limit_def limit_order_def)

lemma first_limit_None: "first_limit collate p m i rows = None \<longleftrightarrow> rows = []"
proof -
  have "limit_order collate p m i rows = [] \<longleftrightarrow> rows = []" using set_limit_order by (metis set_empty)
  then show ?thesis by (cases "limit_order collate p m i rows") (simp_all add: first_limit_order)
qed

text \<open>The reported row is one of the rows, and installation-wide only if no row of the project is there.\<close>

lemma first_limit_Some:
  assumes "first_limit collate p m i rows = Some r"
  shows "r \<in> set rows \<and> (p r = '''' \<longrightarrow> (\<forall>x \<in> set rows. p x = ''''))"
proof -
  obtain rest where s: "limit_order collate p m i rows = r # rest"
    using assms by (cases "limit_order collate p m i rows") (simp_all add: first_limit_order)
  have mem: "set rows = insert r (set rest)" using set_limit_order [of collate p m i rows] by (simp add: s)
  have "sorted ((p r = '''') # map (\<lambda>r. p r = '''') rest)"
    using sorted_limit_order [of p collate m i rows] unfolding s list.map .
  then have le: "\<forall>y \<in> (\<lambda>r. p r = '''') ` set rest. (p r = '''') \<le> y"
    unfolding sorted_simps set_map by (rule conjunct1)
  have "p x = ''''" if "p r = ''''" "x \<in> set rows" for x
  proof (cases "x = r")
    case False
    with that(2) mem have "x \<in> set rest" by simp
    then have "(p r = '''') \<le> (p x = '''')" by (rule bspec [OF le imageI])
    with that(1) show ?thesis by (simp only: le_bool_def simp_thms)
  qed (use that in simp)
  moreover have "r \<in> set rows" using mem by simp
  ultimately show ?thesis by blast
qed

definition budget_exhausted :: "txn \<Rightarrow> 'a usage_db_scheme \<Rightarrow> budget_row \<Rightarrow> bool" where
  "budget_exhausted t db b \<longleftrightarrow> b \<in> set (budgets db) \<and> binds t (bg_project b) \<and> bg_limit b \<le> budget_spent b db"

definition quota_exhausted :: "txn \<Rightarrow> int \<Rightarrow> 'a usage_db_scheme \<Rightarrow> quota_row \<Rightarrow> bool" where
  "quota_exhausted t now db q \<longleftrightarrow> q \<in> set (quotas db) \<and> binds t (qt_project q) \<and> qt_limit q \<le> quota_spent now q db"

lemma limit_none:
  assumes "checkDurableLimits collate t now db = Inr (None, db)"
  shows "\<not> budget_exhausted t db b" and "\<not> quota_exhausted t now db q"
  using assms by (auto simp: checkDurableLimits_def ExhaustedBudget_def ExhaustedQuota_def first_limit_None
      filter_empty_conv budget_exhausted_def quota_exhausted_def split: option.splits)

text \<open>
  The durable gate is exact and names the narrowest limit.  It passes if and only if no budget and
  no quota that binds the project, its own or the installation's, is used up.  Otherwise it reports one
  that is: a budget if there is one, else a quota, and the installation's only when none of the project's
  own of that kind is used up.
\<close>

theorem limit_gate_exact:
  fixes db :: "'a usage_db_scheme"
  shows "\<exists>out. checkDurableLimits collate t now db = Inr (out, db) \<and>
    (case out of
       None \<Rightarrow> (\<forall>b. \<not> budget_exhausted t db b) \<and> (\<forall>q. \<not> quota_exhausted t now db q)
     | Some l \<Rightarrow>
         (\<exists>b. budget_exhausted t db b \<and> l = \<lparr>le_Kind = ''budget'', le_MeterPrefix = bg_meter_prefix b, le_Limit = bg_limit b,
            le_Used = budget_spent b db, le_ResetAt = None, le_InstallationWide = (bg_project b = '''')\<rparr> \<and>
            (bg_project b = '''' \<longrightarrow> (\<forall>c. budget_exhausted t db c \<longrightarrow> bg_project c = ''''))) \<or>
         ((\<forall>b. \<not> budget_exhausted t db b) \<and>
          (\<exists>q. quota_exhausted t now db q \<and> le_Kind l = ''quota'' \<and> le_MeterPrefix l = qt_meter_prefix q \<and>
            le_Limit l = qt_limit q \<and> le_Used l = quota_spent now q db \<and> le_InstallationWide l = (qt_project q = '''') \<and>
            (qt_project q = '''' \<longrightarrow> (\<forall>c. quota_exhausted t now db c \<longrightarrow> qt_project c = '''')))))"
proof (cases "ExhaustedBudget collate t db")
  case (Some b)
  from first_limit_Some [OF this [unfolded ExhaustedBudget_def]] show ?thesis
    using Some by (auto simp: checkDurableLimits_def tx_read_def budget_exhausted_def)
next
  case nb: None
  have no: "\<not> budget_exhausted t db b" for b
    using nb by (auto simp: ExhaustedBudget_def first_limit_None filter_empty_conv budget_exhausted_def)
  show ?thesis
  proof (cases "ExhaustedQuota collate t now db")
    case None
    then have "\<not> quota_exhausted t now db q" for q
      by (auto simp: ExhaustedQuota_def first_limit_None filter_empty_conv quota_exhausted_def)
    with None nb no show ?thesis by (simp add: checkDurableLimits_def tx_read_def)
  next
    case (Some q)
    from first_limit_Some [OF this [unfolded ExhaustedQuota_def]] show ?thesis
      using Some nb no by (auto simp: checkDurableLimits_def tx_read_def quota_exhausted_def)
  qed
qed

subsection \<open>Budgets over a sequence of admissions\<close>

fun admit_all :: "(string \<Rightarrow> string) \<Rightarrow> (string \<Rightarrow> string) \<Rightarrow> (ctx \<times> string \<times> AdmissionInput \<times> int) list
    \<Rightarrow> 'a admission_db_scheme \<Rightarrow> 'a admission_db_scheme" where
  "admit_all sha collate [] db = db"
| "admit_all sha collate ((ctx, tenant, inp, now) # rest) db =
     admit_all sha collate rest (snd (AdmitResponse sha collate ctx tenant inp now db))"

lemma spent_settled:
  "spent project m since (settled sha t now e ledger) \<le> spent project m since ledger +
     (if metered project m since (settle_row sha t now e) then max 0 (ue_quantity e) else 0)"
  by (simp add: spent_def settled_def settle_row_def max_def)

text \<open>One admission adds at most one unit, and only to a limit that is not yet used up.\<close>

lemma admit_spent:
  fixes db :: "'a admission_db_scheme"
  assumes "AdmitResponse sha collate ctx tenant inp now db = (r, db')" and "b \<in> set (budgets db)"
  shows "budgets db' = budgets db \<and> (budget_spent b db' \<le> budget_spent b db \<or>
    budget_spent b db < bg_limit b \<and> budget_spent b db' \<le> budget_spent b db + 1)"
  using assms(1)
proof (cases rule: admit_cases)
  case (admitted t adm)
  from admitted(3) obtain sid where pol: "tenant_policy (tx_conn t) (tx_tenant t)"
    and lim: "checkDurableLimits collate t now db = Inr (None, db)" and bs: "budgets db' = budgets db"
    and led: "usage_ledger db' = settled sha t now (admitted_entry sid (ai_RunID inp)) (usage_ledger db)"
    by (rule admitted_rows) blast
  let ?e = "admitted_entry sid (ai_RunID inp)"
  let ?hit = "metered (bg_project b) (bg_meter_prefix b) (bg_period_start b) (settle_row sha t now ?e)"
  have q: "max 0 (ue_quantity ?e) = 1" by (simp add: admitted_entry_def)
  have up: "budget_spent b db' \<le> budget_spent b db + (if ?hit then 1 else 0)"
    using spent_settled [of "bg_project b" "bg_meter_prefix b" "bg_period_start b" sha t now ?e "usage_ledger db"]
    unfolding budget_spent_def led q .
  have "budget_spent b db < bg_limit b" if ?hit
  proof -
    have "bg_project b = '''' \<or> bg_project b = tx_tenant t" using that by (auto simp: metered_def settle_row_def)
    then have "binds t (bg_project b)" using pol by (auto simp: binds_def tenant_policy_def)
    moreover have "\<not> budget_exhausted t db b" using limit_none [OF lim] by blast
    ultimately show ?thesis using assms(2) by (auto simp: budget_exhausted_def)
  qed
  with up bs show ?thesis by (auto split: if_splits)
qed simp_all

text \<open>
  A budget is never overrun by more than one admission.  Starting below its limit plus one unit,
  whatever sequence of requests is admitted, by any projects, the settled usage a budget counts stays
  below its limit plus one unit.
\<close>

theorem budget_overrun_bounded:
  assumes "b \<in> set (budgets db)" and "budget_spent b db < bg_limit b + 1"
  shows "budget_spent b (admit_all sha collate requests db) < bg_limit b + 1"
  using assms
proof (induction requests arbitrary: db)
  case (Cons x rest)
  obtain ctx tenant inp now where x: "x = (ctx, tenant, inp, now)" by (metis prod_cases4)
  obtain r db' where c: "AdmitResponse sha collate ctx tenant inp now db = (r, db')" by fastforce
  have "b \<in> set (budgets db')" "budget_spent b db' < bg_limit b + 1"
    using admit_spent [OF c Cons.prems(1)] Cons.prems by auto
  then have "budget_spent b (admit_all sha collate rest db') < bg_limit b + 1" by (rule Cons.IH)
  then show ?case by (simp add: x c)
qed simp

section \<open>Settlement\<close>

lemma settled_idem:
  "set (map ledger_key ledger) \<subseteq> set (map ledger_key ledger') \<Longrightarrow>
   (tx_tenant t, ue_dedupeKey e) \<in> set (map ledger_key ledger) \<Longrightarrow> settled sha t now e ledger' = ledger'"
  by (auto simp: settled_def)

lemma settleUsage_Cons:
  "settleUsage sha t now (e # es) s = Inr (u, s') \<longleftrightarrow>
   (\<exists>s1. (if 0 < ue_quantity e then SettleUsage sha t now e s = Inr ((), s1) else s1 = s) \<and>
      settleUsage sha t now es s1 = Inr (u, s'))"
  by (cases "0 < ue_quantity e") (simp_all add: settleUsage_def tx_then_eq tx_when_eq)

lemma settle_keys:
  assumes "settleUsage sha t now es s = Inr (u, s')"
  shows "set (map ledger_key (usage_ledger s)) \<subseteq> set (map ledger_key (usage_ledger s')) \<and>
    (\<forall>e \<in> set es. 0 < ue_quantity e \<longrightarrow> (tx_tenant t, ue_dedupeKey e) \<in> set (map ledger_key (usage_ledger s')))"
  using assms
proof (induction es arbitrary: s)
  case (Cons e es)
  from Cons.prems obtain s1 where one: "if 0 < ue_quantity e then SettleUsage sha t now e s = Inr ((), s1) else s1 = s"
    and rest: "settleUsage sha t now es s1 = Inr (u, s')"
    unfolding settleUsage_Cons by blast
  have "set (map ledger_key (usage_ledger s)) \<subseteq> set (map ledger_key (usage_ledger s1))"
    "0 < ue_quantity e \<longrightarrow> (tx_tenant t, ue_dedupeKey e) \<in> set (map ledger_key (usage_ledger s1))"
    using one by (auto split: if_splits dest!: SettleUsage_settled simp: settled_def settle_row_def ledger_key_def)
  with Cons.IH [OF rest] show ?case by auto
qed (simp add: settleUsage_def)

text \<open>
  Settlement is idempotent.  Once the entries of an operation are settled, settling them again at
  any later time succeeds and leaves the ledger as it is, so a redelivered step is charged once.
\<close>

theorem settlement_idempotent:
  assumes "settleUsage sha t now es s = Inr ((), s')"
  shows "settleUsage sha t now' es s' = Inr ((), s')"
proof -
  have "settleUsage sha t now' ds s' = Inr ((), s')" if "set ds \<subseteq> set es" for ds
    using that
  proof (induction ds)
    case (Cons e ds)
    have "SettleUsage sha t now' e s' = Inr ((), s')" if "0 < ue_quantity e"
      using settle_keys [OF assms] Cons.prems that by (auto simp: SettleUsage_def ledger_key_def)
    with Cons show ?case unfolding settleUsage_Cons by (intro exI [of _ s']) auto
  qed (simp add: settleUsage_def)
  then show ?thesis by blast
qed

section \<open>Instances\<close>

text \<open>A project with an installation-wide budget of one run, and one request that opens a session.\<close>

definition sample_admission :: admission_db where
  "sample_admission = \<lparr>durable_jobs = [], job_attempts = [], outbox = [],
     sessions = [\<lparr>se_id = ''z'', se_project = ''p'', se_state = SessionClosing, se_name = ''''\<rparr>],
     session_sequences = [], events = [], runs = [], responses = [], commands = [], queue_connections = [],
     queue_deliveries = [], entropy = [''1'', ''2'', ''3'', ''4'', ''5''], usage_ledger = [],
     budgets = [\<lparr>bg_id = ''b'', bg_project = '''', bg_meter_prefix = ''run.'', bg_limit = 1, bg_period_start = 0\<rparr>],
     quotas = [], config_policies = [], pending_approvals = [], config_revisions = [], delivered_messages = [],
     idempotency_records = [], repository_bindings = [], agent_profiles = [], agent_revisions = [],
     run_template_revisions = [], artifacts = [], workspaces = []\<rparr>"

definition sample_request :: "string \<Rightarrow> string \<Rightarrow> AdmissionInput" where
  "sample_request key hash = \<lparr>ai_Principal = ''u'', ai_IdempotencyKey = key, ai_Method = ''POST'', ai_Route = ''/v1/responses'',
     ai_RequestHash = hash, ai_ResponseID = ''q'', ai_RunID = ''r'', ai_SessionID = ''s'', ai_RequestedSessionID = None,
     ai_PreviousResponseID = None, ai_Input = JStr ''hello'', ai_InboundArtifactIDs = [], ai_Body = JObj [], ai_Store = True,
     ai_Delegations = None, ai_OutputContract = None, ai_Instructions = '''', ai_Metadata = None,
     ai_RepositoryBindingID = '''', ai_RepositoryRef = '''', ai_AgentID = '''', ai_AgentRevisionID = '''',
     ai_RunTemplateRevisionID = '''', ai_MaxConcurrentRuns = 0, ai_MaxQueuedRuns = 0\<rparr>"

definition sample_admitted :: "Admission result \<times> admission_db" where
  "sample_admitted = AdmitResponse id id (WithTenant None ''p'') ''p'' (sample_request ''k'' ''h'') 7 sample_admission"

lemma sample_admitted_ok: "fst sample_admitted = Inr (accepted (JObj []))"
  by code_simp

theorem admission_atomic_witness:
  "map rn_id (runs (snd sample_admitted)) = [''r''] \<and> length (idempotency_records (snd sample_admitted)) = 1"
proof -
  obtain db1 where d: "sample_admitted = (Inr (accepted (JObj [])), db1)"
    using sample_admitted_ok by (metis prod.collapse)
  have "runs sample_admission = []" "idempotency_records sample_admission = []" by (simp_all add: sample_admission_def)
  then show ?thesis
    using admission_atomic [where sha = id and collate = id and ctx = "WithTenant None ''p''" and tenant = "''p''" and
        inp = "sample_request ''k'' ''h''" and now = 7 and db = sample_admission]
    unfolding sample_admitted_def [symmetric] d by (auto simp: sample_request_def)
qed


theorem replay_needs_active_session_witness:
  "AdmitResponse id id (WithTenant None ''p'') ''p'' (sample_request ''k'' ''h''\<lparr>ai_RequestedSessionID := Some ''z''\<rparr>) 7 sample_admission =
    (Inr (zero_Admission\<lparr>ad_SessionConflict := True\<rparr>), sample_admission)"
  by (rule replay_needs_active_session [where c = "\<lparr>palai_project_id = ''p'', palai_system = ''''\<rparr>" and sid = "''z''"
        and x = "\<lparr>se_id = ''z'', se_project = ''p'', se_state = SessionClosing, se_name = ''''\<rparr>"])
    (simp_all add: sample_admission_def sample_request_def PrepareConn_def ScopeToTenant_def WithTenant_def scopeFrom_def
      tenant_policy_def)

theorem one_active_root_witness: "distinct (map rn_id (runs (snd sample_admitted)))"
proof -
  have "run_table_ok sample_admission" by (simp add: run_table_ok_def sample_admission_def)
  moreover have "(admission_step id id)\<^sup>*\<^sup>* sample_admission (snd sample_admitted)"
    by (rule r_into_rtranclp, rule admission_step.admit [where r = "fst sample_admitted"]) (simp add: sample_admitted_def)
  ultimately show ?thesis using one_active_root by blast
qed

theorem limit_gate_exact_witness:
  "\<exists>l. checkDurableLimits id sample_txn 8 (snd sample_admitted) = Inr (Some l, snd sample_admitted) \<and> le_Kind l = ''budget''"
proof -
  let ?b = "hd (budgets sample_admission)"
  have "budget_exhausted sample_txn (snd sample_admitted) ?b" by code_simp
  then show ?thesis
    using limit_gate_exact [where collate = id and t = sample_txn and now = 8 and db = "snd sample_admitted"]
    by (auto split: option.splits)
qed

theorem budget_overrun_bounded_witness:
  "budget_spent (hd (budgets sample_admission)) (admit_all id id [(WithTenant None ''p'', ''p'', sample_request ''k'' ''h'', 7)] sample_admission) < 2"
  using budget_overrun_bounded [of "hd (budgets sample_admission)" sample_admission id id
      "[(WithTenant None ''p'', ''p'', sample_request ''k'' ''h'', 7)]"]
  by (simp add: sample_admission_def budget_spent_def spent_def)

theorem settlement_idempotent_witness:
  "\<exists>s'. settleUsage id sample_txn 8 [admitted_entry ''s'' ''r''] sample_admission = Inr ((), s') \<and>
     settleUsage id sample_txn 9 [admitted_entry ''s'' ''r''] s' = Inr ((), s')"
proof -
  have "case settleUsage id sample_txn 8 [admitted_entry ''s'' ''r''] sample_admission of Inr _ \<Rightarrow> True | Inl _ \<Rightarrow> False" by code_simp
  then obtain s' where "settleUsage id sample_txn 8 [admitted_entry ''s'' ''r''] sample_admission = Inr ((), s')"
    by (auto split: sum.splits)
  with settlement_idempotent [OF this, of 9] show ?thesis by blast
qed

end
