(* ===== verification/Execution.thy ===== *)
theory Execution
  imports Admission
begin

text \<open>
  The commits of a running attempt, \<^verbatim>\<open>src/packages/coordinator/orchestration.go\<close>: model requests and
  results, the tool-call ledger with its fence, reconciliation of uncertain calls, child runs, and the
  response ladder; the statements are those of \<^verbatim>\<open>src/storage/queries/responses.sql\<close>.

  A fence is a 64-bit unsigned number that is stored as the signed number of the same bits, under a
  check that it is not negative.  Tool calls and model requests have identifiers that are unique in the
  installation, and a statement that meets a taken identifier looks at that row whatever its project.
\<close>

section \<open>Tables\<close>

record model_request_row =
  mr_id :: string
  mr_project :: string
  mr_run :: string
  mr_completed :: bool
  mr_result :: "json option"

record tool_call_row =
  tc_id :: string
  tc_project :: string
  tc_run :: string
  tc_fence :: int
  tc_state :: ToolCallState
  tc_name :: string
  tc_arguments :: json
  tc_result :: "json option"
  tc_replay_class :: string
  tc_request_hash :: string
  tc_external_key :: string
  tc_lease_owner :: string
  tc_reconciliation :: string
  tc_boundary :: string
  tc_created_at :: int

record execution_db = admission_db +
  model_requests :: "model_request_row list"
  tool_calls :: "tool_call_row list"

definition CheckViolation :: error where
  "CheckViolation = Sentinel ''postgres'' ''23514''"

section \<open>Model steps\<close>

text \<open>\<open>False\<close> when the identifier was taken.\<close>

definition InsertModelRequest :: "txn \<Rightarrow> string \<Rightarrow> string \<Rightarrow> ('a execution_db_scheme, bool) tx" where
  [sql_defs]: "InsertModelRequest t requestID runID = (\<lambda>db.
     if \<not> tenant_policy (tx_conn t) (tx_tenant t) then Inl RowSecurity
     else if requestID \<in> set (map mr_id (model_requests db)) then Inr (False, db)
     else Inr (True, db\<lparr>model_requests := model_requests db @ [\<lparr>mr_id = requestID, mr_project = tx_tenant t,
        mr_run = runID, mr_completed = False, mr_result = None\<rparr>]\<rparr>))"

definition the_request :: "txn \<Rightarrow> string \<Rightarrow> model_request_row \<Rightarrow> bool" where
  "the_request t requestID r \<longleftrightarrow> mr_id r = requestID \<and> sees t (mr_project r)"

definition CompleteModelRequest :: "txn \<Rightarrow> string \<Rightarrow> json \<Rightarrow> ('a execution_db_scheme, unit) tx" where
  [sql_defs]: "CompleteModelRequest t requestID result = tx_write (\<lambda>db.
     db\<lparr>model_requests := sql_update (the_request t requestID)
          (\<lambda>r. r\<lparr>mr_completed := True, mr_result := Some result\<rparr>) (model_requests db)\<rparr>)"

definition MarkDeliveredMessagesFolded :: "txn \<Rightarrow> string \<Rightarrow> ('a execution_db_scheme, unit) tx" where
  [sql_defs]: "MarkDeliveredMessagesFolded t runID = tx_write (\<lambda>db.
     db\<lparr>delivered_messages := sql_update (\<lambda>m. dm_run m = runID \<and> sees t (dm_project m) \<and> dm_fold_state m = ''delivered'')
          (\<lambda>m. m\<lparr>dm_fold_state := ''folded''\<rparr>) (delivered_messages db)\<rparr>)"

definition CommitModelRequest :: "ctx \<Rightarrow> string \<Rightarrow> string \<Rightarrow> string \<Rightarrow> string \<Rightarrow> string \<Rightarrow> string \<Rightarrow> json
    \<Rightarrow> 'a execution_db_scheme \<Rightarrow> unit result \<times> 'a execution_db_scheme" where
  "CommitModelRequest ctx tenant sessionID responseID runID requestID eventType payload =
     begin_tx ctx tenant ''begin model request'' (\<lambda>t.
       tx_then (guardRunActive t runID)
       (tx_bind (tx_wrap ''insert model request'' (InsertModelRequest t requestID runID)) (\<lambda>fresh.
         tx_when fresh (tx_then (appendEvent t sessionID responseID eventType payload) (tx_return ())))))"

definition LookupModelResult :: "ctx \<Rightarrow> string \<Rightarrow> string \<Rightarrow> 'a execution_db_scheme \<Rightarrow> json option option result" where
  "LookupModelResult ctx tenant requestID db =
     (case PrepareConn (ScopeToTenant ctx tenant) of
        Inl e \<Rightarrow> Inl (Errorf [e] ''read model result'')
      | Inr c \<Rightarrow> Inr (case sql_row (the_request \<lparr>tx_conn = c, tx_tenant = tenant\<rparr> requestID) (model_requests db) of
          None \<Rightarrow> None
        | Some r \<Rightarrow> if mr_completed r then Some (mr_result r) else None))"

definition CommitModelResult :: "(string \<Rightarrow> string) \<Rightarrow> ctx \<Rightarrow> string \<Rightarrow> string \<Rightarrow> string \<Rightarrow> string \<Rightarrow> string \<Rightarrow> json
    \<Rightarrow> string \<Rightarrow> json \<Rightarrow> token_usage \<Rightarrow> int \<Rightarrow> 'a execution_db_scheme \<Rightarrow> int result \<times> 'a execution_db_scheme" where
  "CommitModelResult sha ctx tenant sessionID responseID runID requestID result eventType payload usage now =
     begin_tx ctx tenant ''begin model commit'' (\<lambda>t.
       tx_then (guardRunActive t runID)
       (tx_then (CompleteModelRequest t requestID result)
       (tx_then (MarkDeliveredMessagesFolded t runID)
       (tx_then (settleUsage sha t now (modelUsageEntries sessionID runID requestID usage))
       (appendEvent t sessionID responseID eventType payload)))))"

section \<open>Tool calls\<close>

definition ErrStaleToolCommit :: error where
  "ErrStaleToolCommit = Sentinel ''coordinator'' ''stale_tool_commit''"

definition the_call :: "txn \<Rightarrow> string \<Rightarrow> tool_call_row \<Rightarrow> bool" where
  "the_call t callID r \<longleftrightarrow> tc_id r = callID \<and> sees t (tc_project r)"

definition update_call :: "string \<Rightarrow> (tool_call_row \<Rightarrow> tool_call_row) \<Rightarrow> 'a execution_db_scheme \<Rightarrow> 'a execution_db_scheme" where
  "update_call callID f db = db\<lparr>tool_calls := sql_update (\<lambda>r. tc_id r = callID) f (tool_calls db)\<rparr>"

text \<open>
  An insert of \<open>row\<close> that on a taken identifier applies \<open>f\<close> to the row there if \<open>p\<close> holds of it;
  the result tells whether a row was touched.
\<close>

definition upsert_call :: "txn \<Rightarrow> tool_call_row \<Rightarrow> (tool_call_row \<Rightarrow> bool) \<Rightarrow> (tool_call_row \<Rightarrow> tool_call_row)
    \<Rightarrow> ('a execution_db_scheme, bool) tx" where
  "upsert_call t row p f = (\<lambda>db.
     if \<not> tenant_policy (tx_conn t) (tc_project row) then Inl RowSecurity
     else if tc_fence row < 0 then Inl CheckViolation
     else case sql_row (\<lambda>r. tc_id r = tc_id row) (tool_calls db) of
            None \<Rightarrow> Inr (True, db\<lparr>tool_calls := tool_calls db @ [row]\<rparr>)
          | Some old \<Rightarrow> if \<not> tenant_policy (tx_conn t) (tc_project old) then Inl RowSecurity
                        else if p old then Inr (True, update_call (tc_id row) f db) else Inr (False, db))"

definition UpsertToolCall :: "txn \<Rightarrow> string \<Rightarrow> string \<Rightarrow> uint64 \<Rightarrow> string \<Rightarrow> json \<Rightarrow> json \<Rightarrow> string \<Rightarrow> string \<Rightarrow> int
    \<Rightarrow> ('a execution_db_scheme, bool) tx" where
  [sql_defs]: "UpsertToolCall t callID runID fence name arguments result replayClass requestHash now =
     upsert_call t \<lparr>tc_id = callID, tc_project = tx_tenant t, tc_run = runID, tc_fence = sint fence,
         tc_state = ToolCallCompleted, tc_name = name, tc_arguments = arguments, tc_result = Some result,
         tc_replay_class = replayClass, tc_request_hash = requestHash, tc_external_key = '''', tc_lease_owner = '''',
         tc_reconciliation = '''', tc_boundary = '''', tc_created_at = now\<rparr>
       (\<lambda>old. tc_state old \<in> {ToolCallExecuting, ToolCallLeased} \<and> tc_fence old \<le> sint fence)
       (\<lambda>old. old\<lparr>tc_state := ToolCallCompleted, tc_result := Some result\<rparr>)"

definition InsertExecutingCall :: "txn \<Rightarrow> string \<Rightarrow> string \<Rightarrow> uint64 \<Rightarrow> string \<Rightarrow> json \<Rightarrow> string \<Rightarrow> string \<Rightarrow> string \<Rightarrow> string \<Rightarrow> int
    \<Rightarrow> ('a execution_db_scheme, bool) tx" where
  [sql_defs]: "InsertExecutingCall t callID runID fence name arguments replayClass requestHash externalKey boundary now =
     upsert_call t \<lparr>tc_id = callID, tc_project = tx_tenant t, tc_run = runID, tc_fence = sint fence,
         tc_state = ToolCallExecuting, tc_name = name, tc_arguments = arguments, tc_result = None,
         tc_replay_class = replayClass, tc_request_hash = requestHash, tc_external_key = externalKey,
         tc_lease_owner = FormatInt (uint fence), tc_reconciliation = '''', tc_boundary = boundary, tc_created_at = now\<rparr>
       (\<lambda>old. tc_state old \<notin> {ToolCallCompleted, ToolCallReconciledCompleted, ToolCallReconciledNotApplied})
       (\<lambda>old. old\<lparr>tc_fence := max (tc_fence old) (sint fence), tc_lease_owner := FormatInt (uint fence),
          tc_state := (if tc_state old = ToolCallReady then ToolCallExecuting else tc_state old)\<rparr>)"

text \<open>The call that only found the row completed returns sequence 0 and journals nothing.\<close>

definition CommitToolResult :: "ctx \<Rightarrow> string \<Rightarrow> string \<Rightarrow> string \<Rightarrow> string \<Rightarrow> uint64 \<Rightarrow> string \<Rightarrow> string \<Rightarrow> json \<Rightarrow> json
    \<Rightarrow> string \<Rightarrow> string \<Rightarrow> string \<Rightarrow> json \<Rightarrow> int \<Rightarrow> 'a execution_db_scheme \<Rightarrow> int result \<times> 'a execution_db_scheme" where
  "CommitToolResult ctx tenant sessionID responseID runID fence callID name arguments result replayClass requestHash
     eventType payload now =
     begin_tx ctx tenant ''begin tool commit'' (\<lambda>t.
       tx_then (guardRunActive t runID)
       (tx_bind (tx_wrap ''upsert tool call'' (UpsertToolCall t callID runID fence name arguments result replayClass requestHash now)) (\<lambda>changed.
         if changed then appendEvent t sessionID responseID eventType payload
         else tx_bind (tx_read (\<lambda>db. sql_row (the_call t callID) (tool_calls db))) (\<lambda>row.
           case row of None \<Rightarrow> tx_fail (Errorf [NoRows] ''classify unchanged tool commit'')
           | Some r \<Rightarrow> if tc_state r \<noteq> ToolCallCompleted then tx_fail ErrStaleToolCommit else tx_return 0))))"

definition LookupToolCall :: "txn \<Rightarrow> string \<Rightarrow> 'a execution_db_scheme
    \<Rightarrow> (ToolCallState \<times> json option \<times> string \<times> int \<times> string) option" where
  "LookupToolCall t callID db = map_option
     (\<lambda>r. (tc_state r, tc_result r, tc_replay_class r, tc_fence r, tc_request_hash r))
     (sql_row (the_call t callID) (tool_calls db))"

definition executing_payload :: "string \<Rightarrow> string \<Rightarrow> string \<Rightarrow> string \<Rightarrow> string \<Rightarrow> json" where
  "executing_payload runID callID replayClass name argumentsSummary =
     JObj ((if argumentsSummary \<noteq> '''' then [(''arguments_summary'', JStr argumentsSummary)] else []) @
       [(''replay_class'', JStr replayClass), (''run_id'', JStr runID), (''tool_call_id'', JStr callID), (''tool_name'', JStr name)])"

definition BeginToolCall :: "ctx \<Rightarrow> string \<Rightarrow> string \<Rightarrow> string \<Rightarrow> string \<Rightarrow> uint64 \<Rightarrow> string \<Rightarrow> string \<Rightarrow> json \<Rightarrow> string
    \<Rightarrow> string \<Rightarrow> string \<Rightarrow> string \<Rightarrow> string \<Rightarrow> int \<Rightarrow> 'a execution_db_scheme \<Rightarrow> unit result \<times> 'a execution_db_scheme" where
  "BeginToolCall ctx tenant sessionID responseID runID fence callID name arguments replayClass requestHash externalKey
     boundary argumentsSummary now =
     begin_tx ctx tenant ''begin tool pre-write'' (\<lambda>t.
       tx_then (guardRunActive t runID)
       (tx_bind (tx_wrap ''pre-write tool call''
           (InsertExecutingCall t callID runID fence name arguments replayClass requestHash externalKey boundary now)) (\<lambda>changed.
         tx_when changed (tx_then (appendEvent t sessionID responseID ''tool_call.executing.v1''
             (executing_payload runID callID replayClass name argumentsSummary)) (tx_return ())))))"

definition mark_uncertain :: "txn \<Rightarrow> string \<Rightarrow> ('a execution_db_scheme, bool) tx" where
  [sql_defs]: "mark_uncertain t callID = (\<lambda>db.
     let p = (\<lambda>r. the_call t callID r \<and> tc_state r \<in> {ToolCallExecuting, ToolCallLeased})
     in Inr (sql_affected p (tool_calls db) \<noteq> 0, db\<lparr>tool_calls := sql_update p
          (\<lambda>r. r\<lparr>tc_state := ToolCallUncertain, tc_reconciliation := ''reconciling''\<rparr>) (tool_calls db)\<rparr>))"

definition MarkToolCallUncertain :: "ctx \<Rightarrow> string \<Rightarrow> string \<Rightarrow> string \<Rightarrow> string \<Rightarrow> string
    \<Rightarrow> 'a execution_db_scheme \<Rightarrow> bool result \<times> 'a execution_db_scheme" where
  "MarkToolCallUncertain ctx tenant sessionID responseID runID callID =
     begin_tx ctx tenant ''begin mark uncertain'' (\<lambda>t.
       tx_then (guardRunActive t runID)
       (tx_bind (mark_uncertain t callID) (\<lambda>changed.
         tx_then (tx_when changed (tx_then (appendEvent t sessionID responseID ''tool_call.uncertain.v1''
             (JObj [(''run_id'', JStr runID), (''tool_call_id'', JStr callID)])) (tx_return ())))
           (tx_return changed))))"

section \<open>Reconciliation\<close>

definition reconcile_call :: "txn \<Rightarrow> string \<Rightarrow> ToolCallState \<Rightarrow> json option \<Rightarrow> ('a execution_db_scheme, bool) tx" where
  [sql_defs]: "reconcile_call t callID newState result = (\<lambda>db.
     let p = (\<lambda>r. the_call t callID r \<and> tc_state r = ToolCallUncertain)
     in Inr (sql_affected p (tool_calls db) \<noteq> 0, db\<lparr>tool_calls := sql_update p
          (\<lambda>r. r\<lparr>tc_state := newState, tc_reconciliation := ToolCallState_text newState,
                 tc_result := (case result of None \<Rightarrow> tc_result r | Some j \<Rightarrow> Some j)\<rparr>) (tool_calls db)\<rparr>))"

definition resolution_state :: "string \<Rightarrow> ToolCallState option" where
  "resolution_state resolution =
     (if resolution = ''reconciled_completed'' then Some ToolCallReconciledCompleted
      else if resolution = ''reconciled_not_applied'' then Some ToolCallReconciledNotApplied
      else if resolution = ''manual_resolution'' then Some ToolCallManualResolution else None)"

definition ReconcileToolCall :: "ctx \<Rightarrow> string \<Rightarrow> string \<Rightarrow> string \<Rightarrow> string \<Rightarrow> string \<Rightarrow> string \<Rightarrow> json option
    \<Rightarrow> 'a execution_db_scheme \<Rightarrow> unit result \<times> 'a execution_db_scheme" where
  "ReconcileToolCall ctx tenant sessionID responseID runID callID resolution result db =
     (case resolution_state resolution of
        None \<Rightarrow> (Inl (Errorf [] ''unknown tool reconciliation''), db)
      | Some newState \<Rightarrow>
          begin_tx ctx tenant ''begin reconcile tool call'' (\<lambda>t.
            tx_bind (reconcile_call t callID newState result) (\<lambda>changed.
              tx_when changed (tx_then (appendEvent t sessionID responseID (''tool_call.'' @ resolution @ ''.v1'')
                (JObj [(''resolution'', JStr resolution), (''run_id'', JStr runID), (''tool_call_id'', JStr callID)])) (tx_return ())))) db)"

definition resolved_states :: "ToolCallState set" where
  "resolved_states = {ToolCallCompleted, ToolCallReconciledCompleted, ToolCallReconciledNotApplied}"

definition by_age :: "tool_call_row list \<Rightarrow> tool_call_row list" where
  "by_age rows = sort_key tc_created_at (sort_key tc_id rows)"

definition RunResolvedToolCalls :: "txn \<Rightarrow> string \<Rightarrow> 'a execution_db_scheme \<Rightarrow> string list" where
  "RunResolvedToolCalls t runID db = map (\<lambda>r. tc_id r @ '':'' @ tc_replay_class r)
     (by_age (filter (\<lambda>r. tc_run r = runID \<and> sees t (tc_project r) \<and> tc_state r \<in> resolved_states) (tool_calls db)))"

definition PendingToolOperations :: "txn \<Rightarrow> string \<Rightarrow> 'a execution_db_scheme \<Rightarrow> json list" where
  "PendingToolOperations t runID db = map (\<lambda>r. JObj [(''name'', JStr (tc_name r)),
       (''reconciliation_state'', JStr (tc_reconciliation r)), (''replay_class'', JStr (tc_replay_class r)),
       (''tool_call_id'', JStr (tc_id r))])
     (by_age (filter (\<lambda>r. tc_run r = runID \<and> sees t (tc_project r) \<and> tc_state r \<in> {ToolCallUncertain, ToolCallManualResolution})
        (tool_calls db)))"

definition hasUncertainSideEffect :: "txn \<Rightarrow> string \<Rightarrow> 'a execution_db_scheme \<Rightarrow> bool" where
  "hasUncertainSideEffect t runID db = list_ex (\<lambda>r. tc_run r = runID \<and> sees t (tc_project r) \<and>
     tc_state r \<in> {ToolCallUncertain, ToolCallManualResolution} \<and> tc_replay_class r \<in> {''irreversible'', ''interactive''})
     (tool_calls db)"

record UncertainToolCall =
  uc_CallID :: string
  uc_Tenant :: string
  uc_RunID :: string
  uc_SessionID :: string
  uc_ResponseID :: string
  uc_Name :: string
  uc_ReplayClass :: string
  uc_ExternalKey :: string

text \<open>The sweep of all tenants, oldest first, at most \<open>limit\<close> rows.\<close>

definition UncertainToolCalls :: "nat \<Rightarrow> 'a execution_db_scheme \<Rightarrow> UncertainToolCall list" where
  "UncertainToolCalls limit db = take limit (concat (map (\<lambda>r. map (\<lambda>n. \<lparr>uc_CallID = tc_id r, uc_Tenant = tc_project r,
       uc_RunID = tc_run r, uc_SessionID = rn_session n, uc_ResponseID = or_empty (rn_response n), uc_Name = tc_name r,
       uc_ReplayClass = tc_replay_class r, uc_ExternalKey = tc_external_key r\<rparr>) (filter (\<lambda>n. rn_id n = tc_run r) (runs db)))
     (by_age (filter (\<lambda>r. tc_state r = ToolCallUncertain \<and> tc_reconciliation r = ''reconciling'') (tool_calls db)))))"

definition ReenqueueResponseRun :: "ctx \<Rightarrow> string \<Rightarrow> string \<Rightarrow> int \<Rightarrow> 'a execution_db_scheme
    \<Rightarrow> unit result \<times> 'a execution_db_scheme" where
  "ReenqueueResponseRun ctx tenant runID now =
     begin_tx ctx tenant ''re-enqueue response run'' (\<lambda>t.
       tx_bind newJobID (\<lambda>jobID. tx_wrap ''re-enqueue response run'' (enqueue_run_job t jobID runID now)))"

section \<open>Child runs and run events\<close>

record ChildRunInput =
  ch_ParentRunID :: string
  ch_ParentResponseID :: string
  ch_SessionID :: string
  ch_ChildRunID :: string
  ch_ChildResponseID :: string
  ch_Depth :: int
  ch_Input :: json
  ch_Delegation :: "json option"
  ch_Store :: bool
  ch_EnqueueRun :: bool

definition child_run :: "txn \<Rightarrow> ChildRunInput \<Rightarrow> int \<Rightarrow> run_row" where
  "child_run t inp now = \<lparr>rn_id = ch_ChildRunID inp, rn_project = tx_tenant t, rn_session = ch_SessionID inp,
     rn_response = Some (ch_ChildResponseID inp), rn_state = RunQueued, rn_created_at = now,
     rn_parent = Some (ch_ParentRunID inp), rn_depth = ch_Depth inp, rn_delegation = ch_Delegation inp,
     rn_agent_revision = None, rn_template_revision = None, rn_output_contract = None, rn_instructions = None\<rparr>"

definition CreateChildRun :: "(string \<Rightarrow> string) \<Rightarrow> ctx \<Rightarrow> string \<Rightarrow> ChildRunInput \<Rightarrow> string \<Rightarrow> json \<Rightarrow> int
    \<Rightarrow> 'a execution_db_scheme \<Rightarrow> unit result \<times> 'a execution_db_scheme" where
  "CreateChildRun sha ctx tenant inp eventType payload now =
     begin_tx ctx tenant ''begin child run'' (\<lambda>t.
       tx_then (guardRunActive t (ch_ParentRunID inp))
       (tx_then (tx_wrap ''insert child response''
           (InsertResponse t (ch_ChildResponseID inp) (ch_SessionID inp) (ch_Input inp) (ch_Store inp) None now))
       (tx_then (tx_wrap ''insert child run'' (insert_run t (child_run t inp now)))
       (tx_then (appendEvent t (ch_SessionID inp) (ch_ParentResponseID inp) eventType payload)
       (tx_then (settleUsage sha t now [admitted_entry (ch_SessionID inp) (ch_ChildRunID inp)])
       (tx_when (ch_EnqueueRun inp)
          (tx_bind newJobID (\<lambda>jobID. tx_wrap ''enqueue detached child job'' (enqueue_run_job t jobID (ch_ChildRunID inp) now)))))))))"

text \<open>\<^verbatim>\<open>JournalRunEvent\<close>, and \<^verbatim>\<open>JournalChildEvent\<close> with the parent's run and response.\<close>

definition JournalRunEvent :: "ctx \<Rightarrow> string \<Rightarrow> string \<Rightarrow> string \<Rightarrow> string \<Rightarrow> string \<Rightarrow> json
    \<Rightarrow> 'a execution_db_scheme \<Rightarrow> unit result \<times> 'a execution_db_scheme" where
  "JournalRunEvent ctx tenant sessionID responseID runID eventType payload =
     begin_tx ctx tenant ''begin run event'' (\<lambda>t.
       tx_then (guardRunActive t runID)
         (tx_then (appendEvent t sessionID responseID eventType payload) (tx_return ())))"

definition JournalChildEvent :: "ctx \<Rightarrow> string \<Rightarrow> string \<Rightarrow> string \<Rightarrow> string \<Rightarrow> string \<Rightarrow> json
    \<Rightarrow> 'a execution_db_scheme \<Rightarrow> unit result \<times> 'a execution_db_scheme" where
  "JournalChildEvent ctx tenant sessionID parentResponseID parentRunID eventType payload =
     begin_tx ctx tenant ''begin child event'' (\<lambda>t.
       tx_then (guardRunActive t parentRunID)
         (tx_then (appendEvent t sessionID parentResponseID eventType payload) (tx_return ())))"

definition ChildRunOutcome :: "txn \<Rightarrow> string \<Rightarrow> 'a execution_db_scheme \<Rightarrow> (RunState \<times> json option \<times> string) result" where
  "ChildRunOutcome t childRunID db =
     (case sql_row (\<lambda>r. rn_id r = childRunID \<and> sees t (rn_project r)) (runs db) of
        None \<Rightarrow> Inl (Errorf [NoRows] ''read child run outcome'')
      | Some r \<Rightarrow> (case sql_row (\<lambda>x. Some (rs_id x) = rn_response r \<and> tenant_policy (tx_conn t) (rs_project x)) (responses db) of
          None \<Rightarrow> Inl (Errorf [NoRows] ''read child run outcome'')
        | Some x \<Rightarrow> Inr (rn_state r, rs_output x, rs_id x)))"

section \<open>The response ladder\<close>

definition ResponseState_of :: "string \<Rightarrow> ResponseState option" where
  "ResponseState_of s = List.find (\<lambda>st. ResponseState_text st = s)
     [ResponseQueued, ResponseProvisioning, ResponseInProgress, ResponseWaitingForTool, ResponseWaitingForApproval,
      ResponseWaitingForInput, ResponseCompleted, ResponseFailed, ResponseCanceled, ResponseTimedOut, ResponseBudgetExceeded]"

text \<open>A text that names no state of the table has no transition in it.\<close>

definition AdvanceResponse :: "ctx \<Rightarrow> string \<Rightarrow> string \<Rightarrow> ResponseCommand \<Rightarrow> 'a execution_db_scheme
    \<Rightarrow> ResponseState result \<times> 'a execution_db_scheme" where
  "AdvanceResponse ctx tenant responseID cmd db =
     (case PrepareConn (ScopeToTenant ctx tenant) of
        Inl e \<Rightarrow> (Inl (Errorf [e] ''read response''), db)
      | Inr c \<Rightarrow>
        (let t = \<lparr>tx_conn = c, tx_tenant = tenant\<rparr>
         in case sql_row (\<lambda>r. rs_id r = responseID \<and> sees t (rs_project r)) (responses db) of
              None \<Rightarrow> (Inl (Errorf [] ''advance response: no such response in this tenant''), db)
            | Some r \<Rightarrow>
                (case ResponseState_of (rs_state r) of
                   None \<Rightarrow> (Inl (Errorf [ErrInvalidState] ''no transition''), db)
                 | Some from \<Rightarrow>
                     (case Apply from cmd ResponseTable of
                        Inl e \<Rightarrow> (Inl e, db)
                      | Inr (to, _) \<Rightarrow>
                          let p = (\<lambda>x. rs_id x = responseID \<and> sees t (rs_project x) \<and> rs_state x = ResponseState_text from)
                          in if sql_affected p (responses db) = 0 then (Inl ErrInvalidState, db)
                             else (Inr to, db\<lparr>responses := sql_update p (\<lambda>x. x\<lparr>rs_state := ResponseState_text to\<rparr>) (responses db)\<rparr>)))))"

end
