(* ===== verification/Background.thy ===== *)
theory Background
  imports Execution
begin

text \<open>
  Background tasks (\<^verbatim>\<open>src/packages/coordinator/background.go\<close>), the release of a waiting parent
  (\<^verbatim>\<open>detach.go\<close>, \<^verbatim>\<open>wakeParkedRunTx\<close> of \<^verbatim>\<open>approvals.go\<close>) and the cancellation of a run with its descendants
  (\<^verbatim>\<open>CancelChildren\<close> and \<^verbatim>\<open>CancelRunReconciled\<close> of \<^verbatim>\<open>orchestration.go\<close>).

  The observer and the killer, callbacks that ask a machine about a process, are functions of the task
  they are asked about; a killer that is not wired is \<open>None\<close>.  \<open>render\<close> is the database's text of a JSON value
  that is not a string.  The readings of the clock in one statement are one time.

  The recursive query of the descendants iterates a working table until it is empty, so it is a partial
  function into \<open>option\<close>: a cycle of parents would make it run for ever, and then the operation does not return.
\<close>

section \<open>Tables\<close>

record background_row =
  bt_id :: string
  bt_project :: string
  bt_run :: string
  bt_session :: string
  bt_response :: string
  bt_tool_call :: string
  bt_attempt_fence :: int
  bt_posture :: string
  bt_handle :: string
  bt_machine :: string
  bt_state :: string
  bt_exit_code :: "int option"
  bt_output_path :: string
  bt_env_keys :: "string list"
  bt_deadline_at :: "int option"
  bt_started_at :: int
  bt_finished_at :: "int option"
  bt_notified_at :: "int option"

record allocation_row =
  wa_workspace :: string
  wa_project :: string
  wa_fence :: int
  wa_host_path :: string

record background_db = execution_db +
  background_tasks :: "background_row list"
  workspace_allocations :: "allocation_row list"

record BackgroundTask =
  bk_ID :: string
  bk_Tenant :: string
  bk_RunID :: string
  bk_SessionID :: string
  bk_ResponseID :: string
  bk_Posture :: string
  bk_Handle :: string
  bk_MachineID :: string
  bk_OutputPath :: string
  bk_EnvKeys :: "string list"
  bk_AllocationRoot :: string
  bk_DeadlineAt :: "int option"

record BackgroundOutcome =
  bo_State :: string
  bo_ExitCode :: "int option"
  bo_Tail :: string
  bo_TailNote :: string

type_synonym BackgroundObserver = "BackgroundTask \<Rightarrow> BackgroundOutcome \<times> bool \<times> error option"
type_synonym BackgroundKiller = "BackgroundTask \<Rightarrow> string \<times> error option"

definition backgroundNoticePrefix :: string where
  "backgroundNoticePrefix = ''[palai:background]''"

definition backgroundNoticeKind :: string where
  "backgroundNoticeKind = ''background_notice''"

definition backgroundOrphanedWarning :: string where
  "backgroundOrphanedWarning = ''background_notice_orphaned''"

text \<open>The check constraints of the table.\<close>

definition background_states :: "string set" where
  "background_states = {''running'', ''exited'', ''killed'', ''expired'', ''lost''}"

definition background_postures :: "string set" where
  "background_postures = {''sandboxed-linux'', ''unsandboxed-host''}"

section \<open>Recording and reading\<close>

record BackgroundTaskInput =
  bi_TaskID :: string
  bi_RunID :: string
  bi_SessionID :: string
  bi_ResponseID :: string
  bi_ToolCallID :: string
  bi_Fence :: uint64
  bi_Posture :: string
  bi_Handle :: string
  bi_MachineID :: string
  bi_OutputPath :: string
  bi_DeadlineAt :: "int option"
  bi_EnvKeys :: "string list"

definition new_background_row :: "string \<Rightarrow> BackgroundTaskInput \<Rightarrow> int \<Rightarrow> background_row" where
  "new_background_row tenant inp now = \<lparr>bt_id = bi_TaskID inp, bt_project = tenant, bt_run = bi_RunID inp,
     bt_session = bi_SessionID inp, bt_response = bi_ResponseID inp, bt_tool_call = bi_ToolCallID inp,
     bt_attempt_fence = sint (bi_Fence inp), bt_posture = bi_Posture inp, bt_handle = bi_Handle inp,
     bt_machine = bi_MachineID inp, bt_state = ''running'', bt_exit_code = None, bt_output_path = bi_OutputPath inp,
     bt_env_keys = bi_EnvKeys inp, bt_deadline_at = bi_DeadlineAt inp, bt_started_at = now, bt_finished_at = None,
     bt_notified_at = None\<rparr>"

definition InsertBackgroundTask :: "txn \<Rightarrow> background_row \<Rightarrow> ('a background_db_scheme, unit) tx" where
  [sql_defs]: "InsertBackgroundTask t b = (\<lambda>db.
     if \<not> tenant_policy (tx_conn t) (bt_project b) then Inl RowSecurity
     else if bt_attempt_fence b < 0 \<or> bt_posture b \<notin> background_postures then Inl CheckViolation
     else if bt_id b \<in> set (map bt_id (background_tasks db)) \<or>
       bt_tool_call b \<in> set (map bt_tool_call (background_tasks db)) then Inl UniqueViolation
     else if bt_run b \<notin> set (map rn_id (runs db)) \<or> bt_session b \<notin> set (map se_id (sessions db)) \<or>
       bt_response b \<notin> set (map rs_id (responses db)) \<or> bt_tool_call b \<notin> set (map tc_id (tool_calls db))
     then Inl ForeignKeyViolation
     else Inr ((), db\<lparr>background_tasks := background_tasks db @ [b]\<rparr>))"

definition RecordBackgroundTask :: "ctx \<Rightarrow> string \<Rightarrow> BackgroundTaskInput \<Rightarrow> int \<Rightarrow> 'a background_db_scheme
    \<Rightarrow> unit result \<times> 'a background_db_scheme" where
  "RecordBackgroundTask ctx tenant inp now =
     begin_tx ctx tenant ''record background task'' (\<lambda>t.
       tx_wrap ''record background task'' (InsertBackgroundTask t (new_background_row tenant inp now)))"

definition by_start :: "background_row list \<Rightarrow> background_row list" where
  "by_start rows = sort_key bt_started_at (sort_key bt_id rows)"

text \<open>The host path of the newest allocation of the session's first workspace, or the empty text.\<close>

definition allocation_root :: "background_row \<Rightarrow> 'a background_db_scheme \<Rightarrow> string" where
  "allocation_root b db =
     (case sort_key ws_created_at (sort_key ws_id (filter (\<lambda>w. ws_session w = bt_session b \<and> ws_project w = bt_project b)
         (workspaces db))) of
        [] \<Rightarrow> ''''
      | w # _ \<Rightarrow>
          (case rev (sort_key wa_fence (filter (\<lambda>a. wa_workspace a = ws_id w \<and> wa_project a = bt_project b)
              (workspace_allocations db))) of
             [] \<Rightarrow> '''' | a # _ \<Rightarrow> wa_host_path a))"

definition task_of :: "'a background_db_scheme \<Rightarrow> background_row \<Rightarrow> BackgroundTask" where
  "task_of db b = \<lparr>bk_ID = bt_id b, bk_Tenant = bt_project b, bk_RunID = bt_run b, bk_SessionID = bt_session b,
     bk_ResponseID = bt_response b, bk_Posture = bt_posture b, bk_Handle = bt_handle b, bk_MachineID = bt_machine b,
     bk_OutputPath = bt_output_path b, bk_EnvKeys = bt_env_keys b, bk_AllocationRoot = allocation_root b db,
     bk_DeadlineAt = bt_deadline_at b\<rparr>"

definition runningBackgroundTasks :: "'a background_db_scheme \<Rightarrow> BackgroundTask list" where
  "runningBackgroundTasks db =
     map (task_of db) (by_start (filter (\<lambda>b. bt_state b = ''running'') (background_tasks db)))"

definition CountRunningBackgroundTasks :: "string \<Rightarrow> string \<Rightarrow> 'a background_db_scheme \<Rightarrow> int \<times> int" where
  "CountRunningBackgroundTasks tenant runID db =
     (let live = filter (\<lambda>b. bt_state b = ''running'') (background_tasks db)
      in (int (length (filter (\<lambda>b. bt_run b = runID \<and> bt_project b = tenant) live)), int (length live)))"

definition partial_task :: "string \<Rightarrow> string \<Rightarrow> background_row \<Rightarrow> BackgroundTask" where
  "partial_task tenant runID b = \<lparr>bk_ID = bt_id b, bk_Tenant = tenant, bk_RunID = runID, bk_SessionID = '''',
     bk_ResponseID = '''', bk_Posture = bt_posture b, bk_Handle = bt_handle b, bk_MachineID = bt_machine b,
     bk_OutputPath = bt_output_path b, bk_EnvKeys = [], bk_AllocationRoot = '''', bk_DeadlineAt = None\<rparr>"

definition ErrNoBackgroundTask :: error where
  "ErrNoBackgroundTask = Sentinel ''coordinator'' ''no background task with that id belongs to this run''"

definition BackgroundTaskForRun :: "txn \<Rightarrow> string \<Rightarrow> string \<Rightarrow> 'a background_db_scheme \<Rightarrow> BackgroundTask result" where
  "BackgroundTaskForRun t runID taskID db =
     (case sql_row (\<lambda>b. bt_id b = taskID \<and> bt_run b = runID \<and> sees t (bt_project b)) (background_tasks db) of
        None \<Rightarrow> Inl ErrNoBackgroundTask
      | Some b \<Rightarrow> Inr (partial_task (tx_tenant t) runID b))"

definition RunningBackgroundTasksOfRun :: "txn \<Rightarrow> string \<Rightarrow> 'a background_db_scheme \<Rightarrow> BackgroundTask list" where
  "RunningBackgroundTasksOfRun t runID db = map (partial_task (tx_tenant t) runID)
     (by_start (filter (\<lambda>b. bt_run b = runID \<and> sees t (bt_project b) \<and> bt_state b = ''running'') (background_tasks db)))"

section \<open>Waking a waiting run\<close>

definition wakeParkedRunTx :: "txn \<Rightarrow> string \<Rightarrow> int \<Rightarrow> ('a commands_db_scheme, unit) tx" where
  "wakeParkedRunTx t runID now = tx_bind (LockRun t runID) (\<lambda>row.
     case row of None \<Rightarrow> tx_fail (Errorf [NoRows] ''lock run for approval wake'')
     | Some r \<Rightarrow>
         tx_when (rn_state r = RunWaiting)
           (tx_then (applyRunTransitionTx t runID RunCmdResume)
             (tx_bind newJobID (\<lambda>jobID. tx_wrap ''enqueue approval wake job'' (enqueue_run_job t jobID runID now)))))"

definition EnqueueRunJob :: "ctx \<Rightarrow> string \<Rightarrow> string \<Rightarrow> int \<Rightarrow> 'a commands_db_scheme \<Rightarrow> unit result \<times> 'a commands_db_scheme" where
  "EnqueueRunJob ctx tenant runID now =
     begin_tx ctx tenant ''enqueue run job'' (\<lambda>t.
       tx_bind newJobID (\<lambda>jobID. tx_wrap ''enqueue run job'' (enqueue_run_job t jobID runID now)))"

definition live_states :: "RunState set" where
  "live_states = - {RunCompleted, RunFailed, RunCanceled, RunTimedOut, RunBudgetExceeded}"

definition HasNonTerminalChildRun :: "txn \<Rightarrow> string \<Rightarrow> 'a commands_db_scheme \<Rightarrow> bool" where
  "HasNonTerminalChildRun t parentRunID db =
     list_ex (\<lambda>r. rn_parent r = Some parentRunID \<and> sees t (rn_project r) \<and> rn_state r \<in> live_states) (runs db)"

definition WakeDetachedParent :: "ctx \<Rightarrow> string \<Rightarrow> string \<Rightarrow> int \<Rightarrow> 'a commands_db_scheme
    \<Rightarrow> bool result \<times> 'a commands_db_scheme" where
  "WakeDetachedParent ctx tenant parentRunID now =
     begin_tx ctx tenant ''begin wake parent'' (\<lambda>t.
       tx_bind (LockRun t parentRunID) (\<lambda>row.
         case row of None \<Rightarrow> tx_fail (Errorf [NoRows] ''lock parent for wake'')
         | Some r \<Rightarrow>
             if rn_state r \<noteq> RunWaiting then tx_return False
             else tx_bind (tx_read (\<lambda>db. PendingPauseCommand t parentRunID db \<noteq> None)) (\<lambda>pausePending.
               if pausePending then tx_return False
               else tx_bind (tx_read (HasNonTerminalChildRun t parentRunID)) (\<lambda>hasLive.
                 if hasLive then tx_return False
                 else tx_then (applyRunTransitionTx t parentRunID RunCmdResume)
                   (tx_bind newJobID (\<lambda>jobID.
                     tx_then (tx_wrap ''enqueue parent wake job'' (enqueue_run_job t jobID parentRunID now))
                       (tx_return True)))))))"

definition read_conn :: "ctx \<Rightarrow> string \<Rightarrow> string \<Rightarrow> (txn \<Rightarrow> 's \<Rightarrow> 'a result) \<Rightarrow> 's \<Rightarrow> 'a result" where
  "read_conn ctx tenant msg f s =
     (case PrepareConn (ScopeToTenant ctx tenant) of
        Inl e \<Rightarrow> Inl (Errorf [e] msg)
      | Inr c \<Rightarrow> f \<lparr>tx_conn = c, tx_tenant = tenant\<rparr> s)"

definition WakeParentOfChild :: "ctx \<Rightarrow> string \<Rightarrow> string \<Rightarrow> int \<Rightarrow> 'a commands_db_scheme
    \<Rightarrow> bool result \<times> 'a commands_db_scheme" where
  "WakeParentOfChild ctx tenant childRunID now db =
     (case read_conn ctx tenant ''read parent'' (\<lambda>t db.
             case sql_row (\<lambda>r. rn_id r = childRunID \<and> sees t (rn_project r)) (runs db) of
               None \<Rightarrow> Inl (Errorf [NoRows] ''read parent'') | Some r \<Rightarrow> Inr (rn_parent r)) db of
        Inl e \<Rightarrow> (Inl e, db)
      | Inr None \<Rightarrow> (Inr False, db)
      | Inr (Some parentRunID) \<Rightarrow> WakeDetachedParent (ScopeToTenant ctx tenant) tenant parentRunID now db)"

text \<open>The operator \<^verbatim>\<open>->>\<close>.\<close>

definition arrow_text :: "(json \<Rightarrow> string) \<Rightarrow> string \<Rightarrow> json \<Rightarrow> string option" where
  "arrow_text render key doc = (case doc of
     JObj kvs \<Rightarrow> (case map_of kvs key of
         None \<Rightarrow> None | Some JNull \<Rightarrow> None | Some (JStr s) \<Rightarrow> Some s | Some j \<Rightarrow> Some (render j))
   | _ \<Rightarrow> None)"

definition ChildLifecycleEventExists :: "(json \<Rightarrow> string) \<Rightarrow> txn \<Rightarrow> string \<Rightarrow> string \<Rightarrow> string
    \<Rightarrow> 'a journal_db_scheme \<Rightarrow> bool" where
  "ChildLifecycleEventExists render t responseID eventType childRunID db =
     list_ex (\<lambda>e. ev_response e = Some responseID \<and> sees t (ev_project e) \<and> ev_type e = eventType \<and>
       arrow_text render ''child_run_id'' (ev_payload e) = Some childRunID) (events db)"

definition JournalChildCompletionOnce :: "(json \<Rightarrow> string) \<Rightarrow> ctx \<Rightarrow> string \<Rightarrow> string \<Rightarrow> string \<Rightarrow> string \<Rightarrow> string \<Rightarrow> string
    \<Rightarrow> json \<Rightarrow> 'a journal_db_scheme \<Rightarrow> unit result \<times> 'a journal_db_scheme" where
  "JournalChildCompletionOnce render ctx tenant sessionID parentResponseID parentRunID eventType childRunID payload =
     begin_tx ctx tenant ''begin child completion'' (\<lambda>t.
       tx_then (guardRunActive t parentRunID)
       (tx_bind (tx_read (ChildLifecycleEventExists render t parentResponseID eventType childRunID)) (\<lambda>exists.
         tx_when (\<not> exists) (tx_then (appendEvent t sessionID parentResponseID eventType payload) (tx_return ())))))"

section \<open>Exit notices\<close>

text \<open>The parameter is a 32-bit integer.\<close>

definition int4_ok :: "int option \<Rightarrow> bool" where
  "int4_ok code \<longleftrightarrow> (case code of None \<Rightarrow> True | Some n \<Rightarrow> - 2147483648 \<le> n \<and> n \<le> 2147483647)"

definition unnotified :: "txn \<Rightarrow> string \<Rightarrow> background_row \<Rightarrow> bool" where
  "unnotified t taskID b \<longleftrightarrow> bt_id b = taskID \<and> sees t (bt_project b) \<and> bt_notified_at b = None"

definition notice_row :: "string \<Rightarrow> int option \<Rightarrow> int \<Rightarrow> background_row \<Rightarrow> background_row" where
  "notice_row state exitCode now b = b\<lparr>
     bt_state := (if bt_state b = ''running'' then state else bt_state b),
     bt_exit_code := (case bt_exit_code b of None \<Rightarrow> exitCode | Some n \<Rightarrow> Some n),
     bt_finished_at := (case bt_finished_at b of None \<Rightarrow> Some now | Some x \<Rightarrow> Some x),
     bt_notified_at := Some now\<rparr>"

definition ClaimBackgroundNotice :: "txn \<Rightarrow> string \<Rightarrow> string \<Rightarrow> int option \<Rightarrow> int
    \<Rightarrow> ('a background_db_scheme, background_row option) tx" where
  [sql_defs]: "ClaimBackgroundNotice t taskID state exitCode now = (\<lambda>db.
     if \<not> int4_ok exitCode then Inl (Errorf [] ''encode exit code'')
     else case sql_row (unnotified t taskID) (background_tasks db) of
            None \<Rightarrow> Inr (None, db)
          | Some b \<Rightarrow>
              if bt_state (notice_row state exitCode now b) \<notin> background_states then Inl CheckViolation
              else Inr (Some (notice_row state exitCode now b), db\<lparr>background_tasks :=
                     sql_update (unnotified t taskID) (notice_row state exitCode now) (background_tasks db)\<rparr>))"

definition newline :: string where
  "newline = [CHR 0x0A]"

definition backgroundNoticeText :: "string \<Rightarrow> string \<Rightarrow> int option \<Rightarrow> string \<Rightarrow> BackgroundOutcome \<Rightarrow> string" where
  "backgroundNoticeText taskID state exitCode outputPath outcome =
     backgroundNoticePrefix @ '' background task '' @ taskID @ '' '' @ state @
     (case exitCode of Some n \<Rightarrow> '' with exit code '' @ FormatInt n
      | None \<Rightarrow> '' with no exit code recorded (this control plane did not observe it exit)'') @
     ''.'' @ newline @ ''Output file (read it with palai.workspace.file): '' @ outputPath @ newline @
     (if bo_Tail outcome \<noteq> '''' then ''Last '' @ FormatInt (int (length (bo_Tail outcome))) @ '' bytes of that file:'' @
        newline @ bo_Tail outcome
      else if bo_TailNote outcome \<noteq> '''' then ''No output excerpt: '' @ bo_TailNote outcome
      else ''The output file is empty.'')"

definition newBackgroundCommandID :: "('a journal_db_scheme, string) tx" where
  "newBackgroundCommandID = (\<lambda>db. case entropy db of
     [] \<Rightarrow> Inl (Errorf [] ''generate background command id'')
   | r # rs \<Rightarrow> Inr (''cmd_'' @ r, db\<lparr>entropy := rs\<rparr>))"

definition orphaned_payload :: "string \<Rightarrow> RunState \<Rightarrow> background_row \<Rightarrow> json" where
  "orphaned_payload taskID runState b = JObj [(''background_task_id'', JStr taskID), (''code'', JStr backgroundOrphanedWarning),
     (''detail'', JStr ''this background task finished after its run reached a terminal state; there was no model turn left for the notification to fold into, so nothing was delivered. The output file is still on the allocation.''),
     (''exit_code'', case bt_exit_code b of None \<Rightarrow> JNull | Some n \<Rightarrow> JNum (of_int n)),
     (''output_path'', JStr (bt_output_path b)), (''run_id'', JStr (bt_run b)), (''run_state'', JStr (RunState_text runState))]"

definition deliver_notice :: "txn \<Rightarrow> BackgroundTask \<Rightarrow> BackgroundOutcome \<Rightarrow> background_row \<Rightarrow> int
    \<Rightarrow> ('a background_db_scheme, unit) tx" where
  "deliver_notice t task outcome b now =
     tx_bind newBackgroundCommandID (\<lambda>commandID.
     tx_then (tx_wrap ''enqueue background notice command'' (InsertCommand t (bt_session b) (bt_run b)
        \<lparr>ci_CommandID = commandID, ci_Kind = backgroundNoticeKind, ci_Delivery = ''queue'',
          ci_Payload = JObj [(''message'', JStr (backgroundNoticeText (bk_ID task) (bt_state b) (bt_exit_code b) (bt_output_path b) outcome))],
          ci_ForkSessionID = ''''\<rparr> now))
     (tx_then (appendEvent t (bt_session b) (bt_response b) commandAcceptedEvent
        (JObj [(''background_task_id'', JStr (bk_ID task)), (''command_id'', JStr commandID), (''delivery'', JStr ''queue''),
          (''kind'', JStr backgroundNoticeKind), (''run_id'', JStr (bt_run b))]))
     (wakeParkedRunTx t (bt_run b) now)))"

definition settleBackgroundTask :: "ctx \<Rightarrow> BackgroundTask \<Rightarrow> BackgroundOutcome \<Rightarrow> int \<Rightarrow> 'a background_db_scheme
    \<Rightarrow> bool result \<times> 'a background_db_scheme" where
  "settleBackgroundTask ctx task outcome now =
     begin_tx ctx (bk_Tenant task) ''begin background task settle'' (\<lambda>t.
       tx_bind (LockRun t (bk_RunID task)) (\<lambda>row.
         case row of None \<Rightarrow> tx_fail (Errorf [NoRows] ''lock run for background notice'')
         | Some r \<Rightarrow>
             tx_bind (tx_wrap ''claim background notice'' (ClaimBackgroundNotice t (bk_ID task) (bo_State outcome) (bo_ExitCode outcome) now)) (\<lambda>claimed.
               case claimed of None \<Rightarrow> tx_return False
               | Some b \<Rightarrow>
                   if run_terminal (rn_state r)
                   then tx_then (appendEvent t (bt_session b) (bt_response b) warningRaisedEvent
                          (orphaned_payload (bk_ID task) (rn_state r) b)) (tx_return True)
                   else tx_then (deliver_notice t task outcome b now) (tx_return True))))"

fun sweep_tasks :: "ctx \<Rightarrow> BackgroundObserver \<Rightarrow> int \<Rightarrow> BackgroundTask list \<Rightarrow> int \<Rightarrow> 'a background_db_scheme
    \<Rightarrow> (int \<times> error option) \<times> 'a background_db_scheme" where
  "sweep_tasks ctx observe now [] settled db = ((settled, None), db)"
| "sweep_tasks ctx observe now (task # rest) settled db =
     (case observe task of (outcome, done', oerr) \<Rightarrow>
        if oerr \<noteq> None \<or> \<not> done' then sweep_tasks ctx observe now rest settled db
        else case settleBackgroundTask ctx task outcome now db of
               (Inl e, db') \<Rightarrow> ((settled, Some e), db')
             | (Inr notified, db') \<Rightarrow> sweep_tasks ctx observe now rest (if notified then settled + 1 else settled) db')"

definition SweepFinishedBackgroundTasks :: "ctx \<Rightarrow> BackgroundObserver option \<Rightarrow> int \<Rightarrow> 'a background_db_scheme
    \<Rightarrow> (int \<times> error option) \<times> 'a background_db_scheme" where
  "SweepFinishedBackgroundTasks ctx observe now db = (case observe of
     None \<Rightarrow> ((0, None), db)
   | Some f \<Rightarrow> (case PrepareConn (WithSystemScope ctx) of
       Inl e \<Rightarrow> ((0, Some (Errorf [e] ''select running background tasks'')), db)
     | Inr c \<Rightarrow> sweep_tasks ctx f now (runningBackgroundTasks db) 0 db))"

section \<open>Ending the tasks of a run\<close>

definition settle_ended :: "txn \<Rightarrow> string \<Rightarrow> string \<Rightarrow> int \<Rightarrow> ('a background_db_scheme, unit) tx" where
  [sql_defs]: "settle_ended t taskID state now = (\<lambda>db.
     let p = (\<lambda>b. bt_id b = taskID \<and> sees t (bt_project b) \<and> bt_state b = ''running'')
     in if sql_affected p (background_tasks db) \<noteq> 0 \<and> state \<notin> background_states then Inl CheckViolation
        else Inr ((), db\<lparr>background_tasks := sql_update p (\<lambda>b. b\<lparr>bt_state := state,
          bt_finished_at := (case bt_finished_at b of None \<Rightarrow> Some now | Some x \<Rightarrow> Some x),
          bt_notified_at := (case bt_notified_at b of None \<Rightarrow> Some now | Some x \<Rightarrow> Some x)\<rparr>) (background_tasks db)\<rparr>))"

definition SettleEndedBackgroundTask :: "ctx \<Rightarrow> string \<Rightarrow> string \<Rightarrow> string \<Rightarrow> string \<Rightarrow> int \<Rightarrow> 'a background_db_scheme
    \<Rightarrow> unit result \<times> 'a background_db_scheme" where
  "SettleEndedBackgroundTask ctx tenant runID taskID state now =
     begin_tx ctx tenant ''begin background task settle'' (\<lambda>t.
       tx_bind (LockRun t runID) (\<lambda>row.
         case row of None \<Rightarrow> tx_fail (Errorf [NoRows] ''lock run for background settle'')
         | Some r \<Rightarrow> tx_wrap ''settle ended background task'' (settle_ended t taskID state now)))"

fun kill_tasks :: "ctx \<Rightarrow> string \<Rightarrow> string \<Rightarrow> BackgroundKiller \<Rightarrow> int \<Rightarrow> BackgroundTask list \<Rightarrow> 'a background_db_scheme
    \<Rightarrow> unit result \<times> 'a background_db_scheme" where
  "kill_tasks ctx tenant runID kill now [] db = (Inr (), db)"
| "kill_tasks ctx tenant runID kill now (task # rest) db =
     (case kill task of (state, kerr) \<Rightarrow>
        if kerr \<noteq> None \<and> state = '''' then kill_tasks ctx tenant runID kill now rest db
        else case SettleEndedBackgroundTask ctx tenant runID (bk_ID task) state now db of
               (Inl e, db') \<Rightarrow> (Inl e, db')
             | (Inr _, db') \<Rightarrow> kill_tasks ctx tenant runID kill now rest db')"

definition killRunBackgroundTasks :: "ctx \<Rightarrow> string \<Rightarrow> string \<Rightarrow> BackgroundKiller option \<Rightarrow> int \<Rightarrow> 'a background_db_scheme
    \<Rightarrow> unit result \<times> 'a background_db_scheme" where
  "killRunBackgroundTasks ctx tenant runID background now db = (case background of
     None \<Rightarrow> (Inr (), db)
   | Some kill \<Rightarrow>
       (case read_conn ctx tenant ''select running background tasks of run''
               (\<lambda>t db. Inr (RunningBackgroundTasksOfRun t runID db)) db of
          Inl e \<Rightarrow> (Inl e, db)
        | Inr tasks \<Rightarrow> kill_tasks ctx tenant runID kill now tasks db))"

section \<open>Cancellation\<close>

definition children_of :: "txn \<Rightarrow> run_row list \<Rightarrow> string set \<Rightarrow> run_row list" where
  "children_of t rows parents = filter (\<lambda>c. sees t (rn_project c) \<and> (\<exists>p \<in> parents. rn_parent c = Some p)) rows"

partial_function (option) subtree :: "txn \<Rightarrow> run_row list \<Rightarrow> run_row list \<Rightarrow> run_row list option" where
  "subtree t rows level =
     (if level = [] then Some []
      else Option.bind (subtree t rows (children_of t rows (set (map rn_id level)))) (\<lambda>below. Some (level @ below)))"

declare subtree.simps [code]

definition NonTerminalDescendantRuns :: "txn \<Rightarrow> string \<Rightarrow> 'a journal_db_scheme \<Rightarrow> run_row list option" where
  "NonTerminalDescendantRuns t parentRunID db =
     map_option (filter (\<lambda>r. rn_state r \<in> live_states)) (subtree t (runs db) (children_of t (runs db) {parentRunID}))"

definition NonTerminalChildRuns :: "ctx \<Rightarrow> string \<Rightarrow> string \<Rightarrow> 'a journal_db_scheme \<Rightarrow> (string \<times> string) list result option" where
  "NonTerminalChildRuns ctx tenant parentRunID db =
     (case PrepareConn (ScopeToTenant ctx tenant) of
        Inl e \<Rightarrow> Some (Inl (Errorf [e] ''read non-terminal child runs''))
      | Inr c \<Rightarrow> map_option (\<lambda>rows.
          if list_ex (\<lambda>r. rn_response r = None) rows then Inl (Errorf [] ''scan child run ref'')
          else Inr (map (\<lambda>r. (rn_id r, or_empty (rn_response r))) rows))
        (NonTerminalDescendantRuns \<lparr>tx_conn = c, tx_tenant = tenant\<rparr> parentRunID db))"

fun cancel_loop :: "ctx \<Rightarrow> string \<Rightarrow> json \<Rightarrow> (string \<times> string) list \<Rightarrow> int \<Rightarrow> 'a journal_db_scheme
    \<Rightarrow> (int \<times> error option) \<times> 'a journal_db_scheme" where
  "cancel_loop ctx tenant projection [] canceled db = ((canceled, None), db)"
| "cancel_loop ctx tenant projection ((runID, responseID) # rest) canceled db =
     (case ApplyRunTransition ctx tenant runID RunCmdCancel db of
        (Inl e, db1) \<Rightarrow> if errors_Is e ErrRunTerminal then cancel_loop ctx tenant projection rest canceled db1
                        else ((canceled, Some e), db1)
      | (Inr _, db1) \<Rightarrow>
          (case FinalizeResponse ctx tenant responseID ''canceled'' projection db1 of
             (Inl e, db2) \<Rightarrow> ((canceled, Some e), db2)
           | (Inr _, db2) \<Rightarrow> cancel_loop ctx tenant projection rest (canceled + 1) db2))"

definition CancelChildren :: "ctx \<Rightarrow> string \<Rightarrow> string \<Rightarrow> json \<Rightarrow> 'a journal_db_scheme
    \<Rightarrow> ((int \<times> error option) \<times> 'a journal_db_scheme) option" where
  "CancelChildren ctx0 tenant parentRunID projection db =
     (let ctx = ScopeToTenant ctx0 tenant
      in map_option (\<lambda>r. case r of Inl e \<Rightarrow> ((0, Some e), db) | Inr children \<Rightarrow> cancel_loop ctx tenant projection children 0 db)
           (NonTerminalChildRuns ctx tenant parentRunID db))"

text \<open>After the descendants: the run's tasks, its response if the run was canceled, and the response's state.\<close>

definition finish_cancel :: "ctx \<Rightarrow> string \<Rightarrow> string \<Rightarrow> string \<Rightarrow> string \<Rightarrow> json \<Rightarrow> BackgroundKiller option \<Rightarrow> int
    \<Rightarrow> 'a background_db_scheme \<Rightarrow> string result \<times> 'a background_db_scheme" where
  "finish_cancel ctx tenant responseID runID terminal projection background now db =
     (case killRunBackgroundTasks ctx tenant runID background now db of
        (Inl e, db1) \<Rightarrow> (Inl e, db1)
      | (Inr _, db1) \<Rightarrow>
        (case read_conn ctx tenant ''read run state for cancel finalize'' (\<lambda>t db.
               case sql_row (\<lambda>r. rn_id r = runID \<and> sees t (rn_project r)) (runs db) of
                 None \<Rightarrow> Inl (Errorf [NoRows] ''read run state for cancel finalize'') | Some r \<Rightarrow> Inr (rn_state r)) db1 of
           Inl e \<Rightarrow> (Inl e, db1)
         | Inr runState \<Rightarrow>
           (case (if runState = RunCanceled then FinalizeResponse ctx tenant responseID terminal projection db1
                  else (Inr (), db1)) of
              (Inl e, db2) \<Rightarrow> (Inl e, db2)
            | (Inr _, db2) \<Rightarrow>
                (read_conn ctx tenant ''read terminal response state'' (\<lambda>t db.
                   case sql_row (\<lambda>r. rs_id r = responseID \<and> sees t (rs_project r)) (responses db) of
                     None \<Rightarrow> Inl (Errorf [NoRows] ''read terminal response state'') | Some r \<Rightarrow> Inr (rs_state r)) db2, db2))))"

text \<open>The error of the run's own transition that ends the cancellation.\<close>

definition fatal :: "run_transition result \<Rightarrow> error option" where
  "fatal r = (case r of Inr _ \<Rightarrow> None
     | Inl e \<Rightarrow> if errors_Is e ErrRunTerminal \<or> errors_Is e ErrInvalidState then None else Some e)"

definition CancelRunReconciled :: "ctx \<Rightarrow> string \<Rightarrow> string \<Rightarrow> string \<Rightarrow> json \<Rightarrow> json \<Rightarrow> BackgroundKiller option \<Rightarrow> int
    \<Rightarrow> 'a background_db_scheme \<Rightarrow> (string result \<times> 'a background_db_scheme) option" where
  "CancelRunReconciled ctx0 tenant responseID runID canceledProjection uncertainProjection background now db =
     (let ctx = ScopeToTenant ctx0 tenant
      in case read_conn ctx tenant ''check uncertain side effect'' (\<lambda>t db. Inr (hasUncertainSideEffect t runID db)) db of
           Inl e \<Rightarrow> Some (Inl e, db)
         | Inr uncertain \<Rightarrow>
             (let terminal = (if uncertain then ''failed_with_uncertain_side_effect'' else ''canceled'');
                  projection = (if uncertain then uncertainProjection else canceledProjection)
              in case ApplyRunTransition ctx tenant runID RunCmdCancel db of (r, db1) \<Rightarrow>
                   (case fatal r of Some e \<Rightarrow> Some (Inl e, db1)
                    | None \<Rightarrow> Option.bind (CancelChildren ctx tenant runID canceledProjection db1) (\<lambda>((n, err), db2).
                        case err of Some e \<Rightarrow> Some (Inl e, db2)
                        | None \<Rightarrow> Some (finish_cancel ctx tenant responseID runID terminal projection background now db2)))))"

end
