(* ===== verification/Execution_Safety.thy ===== *)
theory Execution_Safety
  imports Admission_Safety Background
begin

text \<open>
  Correctness of the attempt's commits, the background tasks and cancellation.  The operations of
  \<open>Admission_Safety\<close>, \<open>Execution\<close> and \<open>Background\<close> are joined in one step relation, and the locale
  \<open>execution_statements\<close> says what a preorder on the tables must admit, statement by statement, to contain all
  of them.  It is interpreted for the tool-call ledger, for the background tasks and for the tree of runs.
\<close>

section \<open>Operations\<close>

inductive execution_step :: "(string \<Rightarrow> string) \<Rightarrow> (string \<Rightarrow> string) \<Rightarrow> (json \<Rightarrow> string)
    \<Rightarrow> 'a background_db_scheme \<Rightarrow> 'a background_db_scheme \<Rightarrow> bool" for sha collate render where
  admission: "admission_step sha collate db db' \<Longrightarrow> execution_step sha collate render db db'"
| model_request: "CommitModelRequest ctx tenant sid resp runID req ty payload db = (ru, db') \<Longrightarrow> execution_step sha collate render db db'"
| model_result: "CommitModelResult sha ctx tenant sid resp runID req res ty payload usage now db = (ri, db')
    \<Longrightarrow> execution_step sha collate render db db'"
| begin_call: "BeginToolCall ctx tenant sid resp runID fence callID name args rc hash key boundary summary now db = (ru, db')
    \<Longrightarrow> execution_step sha collate render db db'"
| commit_call: "CommitToolResult ctx tenant sid resp runID fence callID name args res rc hash ty payload now db = (ri, db')
    \<Longrightarrow> execution_step sha collate render db db'"
| uncertain: "MarkToolCallUncertain ctx tenant sid resp runID callID db = (rb, db') \<Longrightarrow> execution_step sha collate render db db'"
| reconcile: "ReconcileToolCall ctx tenant sid resp runID callID resolution resopt db = (ru, db')
    \<Longrightarrow> execution_step sha collate render db db'"
| child: "CreateChildRun sha ctx tenant inp ty payload now db = (ru, db') \<Longrightarrow> execution_step sha collate render db db'"
| run_event: "JournalRunEvent ctx tenant sid resp runID ty payload db = (ru, db') \<Longrightarrow> execution_step sha collate render db db'"
| child_event: "JournalChildEvent ctx tenant sid resp runID ty payload db = (ru, db') \<Longrightarrow> execution_step sha collate render db db'"
| child_once: "JournalChildCompletionOnce render ctx tenant sid resp runID ty childID payload db = (ru, db')
    \<Longrightarrow> execution_step sha collate render db db'"
| advance: "AdvanceResponse ctx tenant resp cmd db = (rs, db') \<Longrightarrow> execution_step sha collate render db db'"
| reenqueue: "ReenqueueResponseRun ctx tenant runID now db = (ru, db') \<Longrightarrow> execution_step sha collate render db db'"
| enqueue: "EnqueueRunJob ctx tenant runID now db = (ru, db') \<Longrightarrow> execution_step sha collate render db db'"
| wake: "WakeDetachedParent ctx tenant runID now db = (rb, db') \<Longrightarrow> execution_step sha collate render db db'"
| record_task: "RecordBackgroundTask ctx tenant task now db = (ru, db') \<Longrightarrow> execution_step sha collate render db db'"
| settle_task: "settleBackgroundTask ctx btask outcome now db = (rb, db') \<Longrightarrow> execution_step sha collate render db db'"
| end_task: "SettleEndedBackgroundTask ctx tenant runID taskID state now db = (ru, db') \<Longrightarrow> execution_step sha collate render db db'"

text \<open>What a relation must admit for every operation to stay inside it.\<close>

locale execution_statements = plain_statements R sha
  for R :: "'a background_db_scheme \<Rightarrow> 'a background_db_scheme \<Rightarrow> bool" and sha :: "string \<Rightarrow> string" +
  assumes ex_reserve: "tx_in R (ReserveIdempotency t inp body)"
    and ex_response: "tx_in R (InsertResponse t resp sid doc store meta now)"
    and ex_run: "tx_in R (insert_run t row)"
    and ex_artifact: "tx_in R (AttachArtifactRun t art runID)"
    and ex_workspace_id: "tx_in R newWorkspaceID"
    and ex_workspace: "tx_in R (AttachSessionWorkspace t wid sid binding ref now)"
    and ex_request: "tx_in R (InsertModelRequest t req runID)"
    and ex_complete: "tx_in R (CompleteModelRequest t req doc)"
    and ex_folded: "tx_in R (MarkDeliveredMessagesFolded t runID)"
    and ex_upsert: "tx_in R (UpsertToolCall t callID runID fence name args doc rc hash now)"
    and ex_begin: "tx_in R (InsertExecutingCall t callID runID fence name args rc hash key boundary now)"
    and ex_uncertain: "tx_in R (mark_uncertain t callID)"
    and ex_reconcile: "resolution_state resolution = Some st' \<Longrightarrow> tx_in R (reconcile_call t callID st' docopt)"
    and ex_advance: "AdvanceResponse ctx tenant resp cmd s = (rs, s') \<Longrightarrow> R s s'"
    and ex_task: "tx_in R (InsertBackgroundTask t task)"
    and ex_claim: "tx_in R (ClaimBackgroundNotice t taskID state code now)"
    and ex_command_id: "tx_in R newBackgroundCommandID"
    and ex_end: "tx_in R (settle_ended t taskID state now)"
begin

lemma ex_create: "tx_in R (create_run sha t inp sid new ag now)"
proof -
  have "tx_in R (InsertRun t inp sid ag now)"
    by (rule tx_inI) (auto simp: InsertRun_def R_refl split: sum.splits if_splits intro: tx_inD [OF ex_run])
  then show ?thesis
    unfolding create_run_def dispatch_def
    by (intro step_intros pl_session ex_response ex_artifact plain_ops.op_usage ex_workspace_id ex_workspace
        st_event st_outbox pl_job_id pl_job)
qed

lemma ex_reads:
  "tx_in R (resolve_request t inp)" "tx_in R (gate_limits collate t now)" "tx_in R (gate_caps t inp)"
  "tx_in R (tx_read (GetIdempotency t inp))"
  by (auto intro!: tx_inI dest!: resolve_reads gates_read simp: R_refl)

lemma ex_admit_tx: "tx_in R (admitResponseTx sha collate t inp now)"
  unfolding admitResponseTx_def reserve_or_replay_def
  by (intro step_intros ex_reads ex_create ex_reserve)

lemma ex_admit: "AdmitResponse sha collate ctx tenant inp now s = (r, s') \<Longrightarrow> R s s'"
  by (elim admit_cases) (auto intro: R_refl tx_inD [OF ex_admit_tx])

lemma ex_wake: "tx_in R (wakeParkedRunTx t runID now)"
  unfolding wakeParkedRunTx_def LockRun_def by (intro in_intros plain_cmds.in_run pl_job_id pl_job)

lemma ex_deliver: "tx_in R (deliver_notice t task outcome b now)"
  unfolding deliver_notice_def by (intro in_intros ex_command_id pl_insert st_append ex_wake)

lemma ex_guard: "tx_in R (guardRunActive t runID)"
  by (rule plain_ops.op_guard)

lemmas ex_intros = in_intros ex_guard st_append ex_request ex_complete ex_folded ex_upsert ex_begin ex_uncertain
  plain_ops.op_usage ex_response ex_run ex_task ex_claim ex_end ex_deliver pl_job_id pl_job plain_cmds.in_run

lemma ex_reconcile_op:
  assumes "ReconcileToolCall ctx tenant sid resp runID callID resolution docopt s = (r, s')" shows "R s s'"
proof (cases "resolution_state resolution")
  case None
  with assms show ?thesis by (simp add: ReconcileToolCall_def R_refl)
next
  case (Some st')
  note call = assms [unfolded ReconcileToolCall_def Some option.case]
  show ?thesis
    by (rule plain_ops.begin_in [OF call]) (intro ex_intros ex_reconcile [OF Some])
qed

theorem execution_in: "execution_step sha collate render s s' \<Longrightarrow> R s s'"
proof (induction rule: execution_step.induct)
  case (admission db db')
  then show ?case by (induction rule: admission_step.induct) (auto intro: plain_ops.step_in ex_admit)
next
  case (model_request ctx tenant sid resp runID req ty payload db ru db')
  then show ?case unfolding CommitModelRequest_def by (rule plain_ops.begin_in) (intro ex_intros)
next
  case (model_result ctx tenant sid resp runID req res ty payload usage now db ri db')
  then show ?case unfolding CommitModelResult_def by (rule plain_ops.begin_in) (intro ex_intros)
next
  case (begin_call ctx tenant sid resp runID fence callID name args rc hash key boundary summary now db ru db')
  then show ?case unfolding BeginToolCall_def by (rule plain_ops.begin_in) (intro ex_intros)
next
  case (commit_call ctx tenant sid resp runID fence callID name args res rc hash ty payload now db ri db')
  then show ?case unfolding CommitToolResult_def by (rule plain_ops.begin_in) (intro ex_intros)
next
  case (uncertain ctx tenant sid resp runID callID db rb db')
  then show ?case unfolding MarkToolCallUncertain_def by (rule plain_ops.begin_in) (intro ex_intros)
next
  case (child ctx tenant inp ty payload now db ru db')
  then show ?case unfolding CreateChildRun_def by (rule plain_ops.begin_in) (intro ex_intros)
next
  case (run_event ctx tenant sid resp runID ty payload db ru db')
  then show ?case unfolding JournalRunEvent_def by (rule plain_ops.begin_in) (intro ex_intros)
next
  case (child_event ctx tenant sid resp runID ty payload db ru db')
  then show ?case unfolding JournalChildEvent_def by (rule plain_ops.begin_in) (intro ex_intros)
next
  case (child_once ctx tenant sid resp runID ty childID payload db ru db')
  then show ?case unfolding JournalChildCompletionOnce_def by (rule plain_ops.begin_in) (intro ex_intros)
next
  case (reenqueue ctx tenant runID now db ru db')
  then show ?case unfolding ReenqueueResponseRun_def by (rule plain_ops.begin_in) (intro ex_intros)
next
  case (enqueue ctx tenant runID now db ru db')
  then show ?case unfolding EnqueueRunJob_def by (rule plain_ops.begin_in) (intro ex_intros)
next
  case (wake ctx tenant runID now db rb db')
  then show ?case unfolding WakeDetachedParent_def LockRun_def by (rule plain_ops.begin_in) (intro ex_intros)
next
  case (record_task ctx tenant task now db ru db')
  then show ?case unfolding RecordBackgroundTask_def by (rule plain_ops.begin_in) (intro ex_intros)
next
  case (settle_task ctx btask outcome now db rb db')
  then show ?case unfolding settleBackgroundTask_def LockRun_def by (rule plain_ops.begin_in) (intro ex_intros)
next
  case (end_task ctx tenant runID taskID state now db ru db')
  then show ?case unfolding SettleEndedBackgroundTask_def LockRun_def by (rule plain_ops.begin_in) (intro ex_intros)
qed (auto intro: ex_reconcile_op ex_advance)

lemma executions_in: "(execution_step sha collate render)\<^sup>*\<^sup>* s s' \<Longrightarrow> R s s'"
  by (induction rule: rtranclp_induct) (auto intro: R_refl R_trans execution_in)

end

section \<open>The tool-call ledger\<close>

text \<open>
  A call keeps its identity and its arguments, and its fence never falls.  A resolved call does not
  change at all; one handed to a human keeps its state and result; an uncertain one leaves that state only
  by reconciliation.
\<close>

definition tool_le :: "tool_call_row \<Rightarrow> tool_call_row \<Rightarrow> bool" where
  "tool_le r r' \<longleftrightarrow> (tc_id r', tc_project r', tc_run r', tc_name r', tc_arguments r', tc_replay_class r', tc_request_hash r') =
       (tc_id r, tc_project r, tc_run r, tc_name r, tc_arguments r, tc_replay_class r, tc_request_hash r) \<and>
     tc_fence r \<le> tc_fence r' \<and>
     (tc_state r \<in> resolved_states \<longrightarrow> r' = r) \<and>
     (tc_state r = ToolCallManualResolution \<longrightarrow> tc_state r' = ToolCallManualResolution \<and> tc_result r' = tc_result r) \<and>
     (tc_state r = ToolCallUncertain \<longrightarrow> tc_state r' \<in>
        {ToolCallUncertain, ToolCallReconciledCompleted, ToolCallReconciledNotApplied, ToolCallManualResolution})"

definition tools_le :: "'a execution_db_scheme \<Rightarrow> 'a execution_db_scheme \<Rightarrow> bool" where
  "tools_le s s' \<longleftrightarrow> (distinct (map tc_id (tool_calls s)) \<longrightarrow> distinct (map tc_id (tool_calls s')) \<and>
     (\<forall>r \<in> set (tool_calls s). \<exists>r' \<in> set (tool_calls s'). tool_le r r'))"

lemma tool_le_refl: "tool_le r r"
  by (simp add: tool_le_def)

lemma tool_le_trans: "tool_le a b \<Longrightarrow> tool_le b c \<Longrightarrow> tool_le a c"
  unfolding tool_le_def resolved_states_def by (elim conjE, intro conjI) auto

lemma tools_le_same: "tool_calls s' = tool_calls s \<Longrightarrow> tools_le s s'"
  by (auto simp: tools_le_def intro: tool_le_refl)

lemma tools_le_trans: "tools_le a b \<Longrightarrow> tools_le b c \<Longrightarrow> tools_le a c"
  unfolding tools_le_def by (meson tool_le_trans)

lemma tools_le_update:
  assumes "tool_calls s' = sql_update p f (tool_calls s)" and "\<And>r. p r \<Longrightarrow> tool_le r (f r)"
  shows "tools_le s s'"
proof -
  have "tc_id (f r) = tc_id r" if "p r" for r using assms(2) [OF that] by (simp add: tool_le_def)
  then have "map tc_id (tool_calls s') = map tc_id (tool_calls s)" by (simp add: assms(1) sql_update_def)
  moreover have "tool_le r (if p r then f r else r) \<and> (if p r then f r else r) \<in> set (tool_calls s')"
    if "r \<in> set (tool_calls s)" for r
    using that assms by (auto simp: sql_update_def tool_le_refl)
  ultimately show ?thesis unfolding tools_le_def by metis
qed

lemma upsert_call_le:
  assumes "\<And>old. tc_id old = tc_id row \<Longrightarrow> p old \<Longrightarrow> tool_le old (f old)"
  shows "tx_in tools_le (upsert_call t row p f)"
proof (rule tx_inI)
  fix s s' :: "'a execution_db_scheme" and b assume u: "upsert_call t row p f s = Inr (b, s')"
  show "tools_le s s'"
  proof (cases "sql_row (\<lambda>r. tc_id r = tc_id row) (tool_calls s)")
    case None
    with u have "s' = s\<lparr>tool_calls := tool_calls s @ [row]\<rparr>" by (auto simp: upsert_call_def split: if_splits)
    moreover have "tc_id row \<notin> tc_id ` set (tool_calls s)" using None by (auto simp: sql_row_None)
    ultimately show ?thesis by (auto simp: tools_le_def intro!: bexI tool_le_refl)
  next
    case (Some old)
    with u consider "s' = s" | "p old" "s' = update_call (tc_id row) f s"
      by (auto simp: upsert_call_def split: if_splits)
    then show ?thesis
    proof cases
      case 2
      show ?thesis
      proof (cases "distinct (map tc_id (tool_calls s))")
        case True
        have "r = old" if "r \<in> set (tool_calls s)" "tc_id r = tc_id row" for r
          using key_unique [OF True that(1), of old] sql_row_Some [OF Some] that(2) by simp
        then have "sql_update (\<lambda>r. tc_id r = tc_id row) f (tool_calls s) =
            sql_update (\<lambda>r. tc_id r = tc_id row \<and> p r) f (tool_calls s)"
          using 2(1) by (auto simp: sql_update_def)
        with 2(2) have "tool_calls s' = sql_update (\<lambda>r. tc_id r = tc_id row \<and> p r) f (tool_calls s)"
          by (simp add: update_call_def)
        then show ?thesis by (rule tools_le_update) (simp add: assms)
      qed (simp add: tools_le_def)
    qed (simp add: tools_le_same)
  qed
qed

lemma resolution_exits:
  "resolution_state resolution = Some st \<Longrightarrow>
   st \<in> {ToolCallReconciledCompleted, ToolCallReconciledNotApplied, ToolCallManualResolution}"
  by (auto simp: resolution_state_def split: if_splits)

lemma reconcile_le:
  assumes "st \<in> {ToolCallReconciledCompleted, ToolCallReconciledNotApplied, ToolCallManualResolution}"
  shows "tx_in tools_le (reconcile_call t callID st docopt)"
proof (rule tx_inI)
  fix s s' :: "'a execution_db_scheme" and b assume "reconcile_call t callID st docopt s = Inr (b, s')"
  then have "tool_calls s' = sql_update (\<lambda>r. the_call t callID r \<and> tc_state r = ToolCallUncertain)
      (\<lambda>r. r\<lparr>tc_state := st, tc_reconciliation := ToolCallState_text st,
             tc_result := (case docopt of None \<Rightarrow> tc_result r | Some j \<Rightarrow> Some j)\<rparr>) (tool_calls s)"
    by (auto simp: reconcile_call_def Let_def)
  then show "tools_le s s'"
    by (rule tools_le_update) (use assms in \<open>auto simp: tool_le_def resolved_states_def\<close>)
qed

lemma advance_same:
  "AdvanceResponse ctx tenant resp cmd s = (r, s') \<Longrightarrow> \<exists>rows. s' = s\<lparr>responses := rows\<rparr>"
  unfolding AdvanceResponse_def Let_def
  by (auto split: sum.splits option.splits prod.splits if_splits intro: exI [of _ "responses s"])

lemmas ex_statement_defs = statement_defs sql_defs newWorkspaceID_def newBackgroundCommandID_def journal_event_def newEventID_def
  tx_iffs CarrySessionSendMessages_def begin_tx_def commit_def

interpretation tools: execution_statements tools_le sha for sha
proof unfold_locales
  show "tools_le s u" if "tools_le s t" "tools_le t u" for s t u :: "'a background_db_scheme"
    using that by (rule tools_le_trans)
  show "tx_in tools_le (UpsertToolCall t callID runID fence name args doc rc hash now)" for t callID runID fence name args doc rc hash now
    unfolding UpsertToolCall_def by (rule upsert_call_le) (auto simp: tool_le_def resolved_states_def)
  show "tx_in tools_le (InsertExecutingCall t callID runID fence name args rc hash key boundary now)"
    for t callID runID fence name args rc hash key boundary now
    unfolding InsertExecutingCall_def by (rule upsert_call_le) (auto simp: tool_le_def resolved_states_def)
  show "tx_in tools_le (mark_uncertain t callID)" for t callID
    by (auto intro!: tx_inI tools_le_update simp: mark_uncertain_def Let_def tool_le_def resolved_states_def)
  show "tx_in tools_le (reconcile_call t callID st' docopt)" if "resolution_state resolution = Some st'"
    for t callID st' docopt resolution
    using resolution_exits [OF that] by (rule reconcile_le)
  show "tools_le s s'" if "AdvanceResponse ctx tenant resp cmd s = (rs, s')" for ctx tenant resp cmd s rs s'
    using advance_same [OF that] by (auto intro: tools_le_same)
qed (auto intro!: tx_inI tools_le_same simp: ex_statement_defs
    split: if_splits list.splits sum.splits prod.splits option.splits)

lemma guard_reads: "guardRunActive t runID s = Inr (u, s') \<Longrightarrow> s' = s"
  by (auto simp: guardRunActive_def lockRunStateTx_def LockRun_def tx_iffs split: option.splits if_splits)

lemma append_tools: "appendEvent t sid resp ty payload s = Inr (seq, s') \<Longrightarrow> tool_calls s' = tool_calls s"
  by (auto simp: appendEvent_def dest!: journal_event_result)

lemma call_row:
  assumes "distinct (map tc_id (tool_calls s))" and "r \<in> set (tool_calls s)" and "tc_id r = callID"
  shows "sql_row (\<lambda>r. tc_id r = callID) (tool_calls s) = Some r"
proof (cases "sql_row (\<lambda>r. tc_id r = callID) (tool_calls s)")
  case None
  with assms show ?thesis by (auto simp: sql_row_None)
next
  case (Some x)
  with key_unique [OF assms(1), of x r] assms(2,3) sql_row_Some [OF Some] show ?thesis by simp
qed

text \<open>A pre-write leaves the call at its fence or above, or found it resolved; it journals what it touched.\<close>

lemma begin_call_result:
  assumes "BeginToolCall ctx tenant sid resp runID fence callID name args rc hash key boundary summary now db = (Inr (), db')"
    and "distinct (map tc_id (tool_calls db))"
  shows "0 \<le> sint fence \<and> (\<exists>r \<in> set (tool_calls db'). tc_id r = callID \<and>
      (tc_state r \<in> resolved_states \<or> sint fence \<le> tc_fence r) \<and>
      (\<forall>old \<in> set (tool_calls db). tc_id old = callID \<longrightarrow> tc_state r = (if tc_state old = ToolCallReady then ToolCallExecuting else tc_state old) \<and>
         (tc_state old \<notin> resolved_states \<longrightarrow> (\<exists>e. events db' = events db @ [e] \<and> ev_type e = ''tool_call.executing.v1''))))"
proof -
  from begin_tx_cases [OF assms(1) [unfolded BeginToolCall_def]] obtain t changed s where
    up: "InsertExecutingCall t callID runID fence name args rc hash key boundary now db = Inr (changed, s)"
    and ev: "if changed then (\<exists>seq. appendEvent t sid resp ''tool_call.executing.v1'' (executing_payload runID callID rc name summary) s = Inr (seq, db')) else db' = s"
    by (auto simp: tx_iffs dest!: guard_reads split: if_splits)
  have tc: "tool_calls db' = tool_calls s" using ev by (auto dest: append_tools split: if_splits)
  have es: "events s = events db"
    using up by (auto simp: InsertExecutingCall_def upsert_call_def update_call_def split: if_splits option.splits)
  have e: "\<exists>e. events db' = events db @ [e] \<and> ev_type e = ''tool_call.executing.v1''" if changed
    using ev that es by (auto simp: appendEvent_def dest!: journal_event_result)
  note up' = up [unfolded InsertExecutingCall_def upsert_call_def]
  show ?thesis
  proof (cases "sql_row (\<lambda>r. tc_id r = callID) (tool_calls db)")
    case None
    then have "\<forall>old \<in> set (tool_calls db). tc_id old \<noteq> callID" by (auto simp: sql_row_None)
    moreover from None up' have "0 \<le> sint fence" "\<exists>r \<in> set (tool_calls s). tc_id r = callID \<and> tc_fence r = sint fence"
      by (auto split: if_splits)
    ultimately show ?thesis unfolding tc by auto
  next
    case (Some old)
    have old: "old \<in> set (tool_calls db)" "tc_id old = callID" using sql_row_Some [OF Some] by auto
    have uniq: "\<forall>x \<in> set (tool_calls db). tc_id x = callID \<longrightarrow> Q x" if "Q old" for Q
      using key_unique [OF assms(2) _ old(1)] old(2) that by metis
    from up' Some have f: "0 \<le> sint fence" by (auto split: if_splits)
    show ?thesis
    proof (cases "tc_state old \<in> resolved_states")
      case True
      with up' Some have "s = db" by (auto simp: resolved_states_def split: if_splits)
      with True tc old f show ?thesis by (intro conjI bexI [of _ old] uniq) (auto simp: resolved_states_def)
    next
      case False
      let ?f = "\<lambda>old. old\<lparr>tc_fence := max (tc_fence old) (sint fence), tc_lease_owner := FormatInt (uint fence),
          tc_state := (if tc_state old = ToolCallReady then ToolCallExecuting else tc_state old)\<rparr>"
      from False up' Some have c: changed and s: "s = update_call callID ?f db"
        by (auto simp: resolved_states_def split: if_splits)
      have "?f old \<in> set (tool_calls s)" using old by (auto simp: s update_call_def sql_update_def)
      with tc f e [OF c] old show ?thesis by (intro conjI bexI [of _ "?f old"] uniq) auto
    qed
  qed
qed

text \<open>A commit that meets a resolved call, or one with a higher fence, writes nothing.\<close>

lemma commit_superseded:
  assumes "CommitToolResult ctx tenant sid resp runID fence callID name args res rc hash ty payload now db = (x, db')"
    and "distinct (map tc_id (tool_calls db))" and "r \<in> set (tool_calls db)" and "tc_id r = callID"
    and "tc_state r \<in> resolved_states \<or> sint fence < tc_fence r"
  shows "db' = db \<and> (x = Inr 0 \<or> (\<exists>e. x = Inl e))"
proof -
  note row = call_row [OF assms(2-4)]
  have "UpsertToolCall t callID runID fence name args res rc hash now db = Inr (changed, s) \<Longrightarrow> \<not> changed \<and> s = db" for t changed s
    using assms(5) by (auto simp: UpsertToolCall_def upsert_call_def row resolved_states_def split: if_splits)
  then show ?thesis
    using begin_tx_cases [OF assms(1) [unfolded CommitToolResult_def]]
    by (auto simp: tx_iffs dest!: guard_reads split: if_splits option.splits)
qed

lemma commit_result:
  assumes "CommitToolResult ctx tenant sid resp runID fence callID name args res rc hash ty payload now db = (Inr seq, db')"
    and "seq \<noteq> 0"
  shows "\<exists>r \<in> set (tool_calls db'). tc_id r = callID \<and> tc_state r = ToolCallCompleted \<and> tc_result r = Some res"
proof -
  from begin_tx_cases [OF assms(1) [unfolded CommitToolResult_def]] assms(2) obtain t s where
    up: "UpsertToolCall t callID runID fence name args res rc hash now db = Inr (True, s)"
    and ev: "appendEvent t sid resp ty payload s = Inr (seq, db')"
    by (auto simp: tx_iffs dest!: guard_reads split: if_splits option.splits)
  show ?thesis
    unfolding append_tools [OF ev] using up
    by (auto simp: UpsertToolCall_def upsert_call_def update_call_def sql_update_def bex_Un
        split: if_splits option.splits dest!: sql_row_Some)
qed

lemma fence_order:
  fixes stale fence :: uint64
  assumes "stale < fence" and "0 \<le> sint fence"
  shows "sint stale < sint fence"
proof -
  have s: "sint fence = signed_take_bit 63 (uint fence)" by (simp add: sint_uint)
  have "uint fence < 2 ^ Suc 63" using uint_lt2p [of fence] by simp
  then have small: "\<not> 2 ^ 63 \<le> uint fence"
    using signed_take_bit_int_less_eq [of 63 "uint fence"] assms(2) unfolding s by linarith
  have "- (2 ^ 63) \<le> uint fence" "uint fence < 2 ^ 63" using small uint_ge_0 [of fence] by linarith+
  then have "sint fence = uint fence" unfolding s by (rule signed_take_bit_int_eq_self)
  moreover have "sint stale \<le> uint stale"
    using uint_ge_0 [of stale] by (auto simp: sint_uint signed_take_bit_int_less_eq_self_iff intro: order_trans [of _ 0])
  ultimately show ?thesis using assms(1) by (simp add: word_less_def)
qed

lemma begin_call_kept:
  assumes "distinct (map tc_id (tool_calls db))"
    and "BeginToolCall ctx tenant sid resp runID fence callID name args rc hash key boundary summary now db = (Inr (), db1)"
    and "(execution_step sha collate render)\<^sup>*\<^sup>* db1 db2"
  obtains r where "distinct (map tc_id (tool_calls db2))" "r \<in> set (tool_calls db2)" "tc_id r = callID"
    "tc_state r \<in> resolved_states \<or> sint fence \<le> tc_fence r" "0 \<le> sint fence"
proof -
  have le: "tools_le db db1" "tools_le db1 db2"
    using tools.execution_in [OF execution_step.begin_call [OF assms(2)]] tools.executions_in [OF assms(3)] .
  from begin_call_result [OF assms(2,1)] obtain r where r: "0 \<le> sint fence" "r \<in> set (tool_calls db1)" "tc_id r = callID"
    "tc_state r \<in> resolved_states \<or> sint fence \<le> tc_fence r" by blast
  from le assms(1) have d: "distinct (map tc_id (tool_calls db1))" "distinct (map tc_id (tool_calls db2))"
    by (auto simp: tools_le_def)
  from le(2) d(1) r(2) obtain r' where r': "r' \<in> set (tool_calls db2)" "tool_le r r'" by (auto simp: tools_le_def)
  from r'(2) r have "tc_id r' = callID" "tc_state r' \<in> resolved_states \<or> sint fence \<le> tc_fence r'"
    by (auto simp: tool_le_def)
  with d r' r(1) show thesis by (intro that)
qed


text \<open>
  C4. A superseded attempt cannot commit.  Once an attempt has pre-written a call under its fence, a commit of
  that call under a smaller fence, after any further operations, writes nothing: it fails, or it finds the
  call already completed and returns the sequence 0.  Fences are compared as unsigned 64-bit numbers although
  the column is signed.
\<close>

theorem stale_commit_rejected:
  assumes "distinct (map tc_id (tool_calls db))"
    and "BeginToolCall ctx tenant sid resp runID fence callID name args rc hash key boundary summary now db = (Inr (), db1)"
    and "(execution_step sha collate render)\<^sup>*\<^sup>* db1 db2"
    and "CommitToolResult ctx' tenant' sid' resp' runID' stale callID name' args' res' rc' hash' ty' payload' now' db2 = (x, db3)"
    and "stale < fence"
  shows "db3 = db2 \<and> (x = Inr 0 \<or> (\<exists>e. x = Inl e))"
proof -
  from assms(1-3) obtain r where r: "distinct (map tc_id (tool_calls db2))" "r \<in> set (tool_calls db2)" "tc_id r = callID"
    "tc_state r \<in> resolved_states \<or> sint fence \<le> tc_fence r" "0 \<le> sint fence" by (rule begin_call_kept)
  have "sint stale < sint fence" using fence_order [OF assms(5) r(5)] .
  with r(4) have "tc_state r \<in> resolved_states \<or> sint stale < tc_fence r" by linarith
  then show ?thesis using commit_superseded [OF assms(4) r(1-3)] by blast
qed

text \<open>
  A committed result is final.  After a commit that was journalled, and after any further operations, the
  ledger still holds the committed result, and every other commit of that call, under whatever fence, leaves
  the tables as they are.
\<close>

theorem committed_result_final:
  assumes "distinct (map tc_id (tool_calls db))"
    and "CommitToolResult ctx tenant sid resp runID fence callID name args res rc hash ty payload now db = (Inr seq, db1)" and "seq \<noteq> 0"
    and "(execution_step sha collate render)\<^sup>*\<^sup>* db1 db2"
    and "CommitToolResult ctx' tenant' sid' resp' runID' fence' callID name' args' res' rc' hash' ty' payload' now' db2 = (x, db3)"
  shows "(\<exists>r \<in> set (tool_calls db2). tc_id r = callID \<and> tc_state r = ToolCallCompleted \<and> tc_result r = Some res) \<and>
    db3 = db2 \<and> (x = Inr 0 \<or> (\<exists>e. x = Inl e))"
proof -
  have le: "tools_le db db1" "tools_le db1 db2"
    using tools.execution_in [OF execution_step.commit_call [OF assms(2)]] tools.executions_in [OF assms(4)] .
  from commit_result [OF assms(2,3)] obtain r where r: "r \<in> set (tool_calls db1)" "tc_id r = callID"
    "tc_state r = ToolCallCompleted" "tc_result r = Some res" by blast
  have "r \<in> set (tool_calls db2)" and d: "distinct (map tc_id (tool_calls db2))"
    using le assms(1) r(1,3) by (auto simp: tools_le_def tool_le_def resolved_states_def)
  with r commit_superseded [OF assms(5) d] show ?thesis by (auto simp: resolved_states_def)
qed

text \<open>
  A pre-write that finds a call in a state it does not change, for instance one that is uncertain, left
  to a human or denied, still journals that the call is executing.
\<close>

theorem executing_event_without_execution:
  assumes "distinct (map tc_id (tool_calls db))" and "r \<in> set (tool_calls db)" and "tc_id r = callID"
    and "tc_state r \<notin> resolved_states" and "tc_state r \<noteq> ToolCallReady"
    and "BeginToolCall ctx tenant sid resp runID fence callID name args rc hash key boundary summary now db = (Inr (), db')"
  shows "(\<exists>r' \<in> set (tool_calls db'). tc_id r' = callID \<and> tc_state r' = tc_state r) \<and>
    (\<exists>e. events db' = events db @ [e] \<and> ev_type e = ''tool_call.executing.v1'')"
  using begin_call_result [OF assms(6,1)] assms(2-5) by auto

section \<open>Background tasks\<close>

text \<open>A task keeps its identity; what has been recorded of its end is not overwritten.\<close>

definition task_le :: "background_row \<Rightarrow> background_row \<Rightarrow> bool" where
  "task_le b b' \<longleftrightarrow> b' = b\<lparr>bt_state := bt_state b', bt_exit_code := bt_exit_code b',
       bt_finished_at := bt_finished_at b', bt_notified_at := bt_notified_at b'\<rparr> \<and>
     (bt_state b \<noteq> ''running'' \<longrightarrow> bt_state b' = bt_state b) \<and>
     (bt_exit_code b \<noteq> None \<longrightarrow> bt_exit_code b' = bt_exit_code b) \<and>
     (bt_finished_at b \<noteq> None \<longrightarrow> bt_finished_at b' = bt_finished_at b) \<and>
     (bt_notified_at b \<noteq> None \<longrightarrow> bt_notified_at b' = bt_notified_at b)"

definition tasks_le :: "'a background_db_scheme \<Rightarrow> 'a background_db_scheme \<Rightarrow> bool" where
  "tasks_le s s' \<longleftrightarrow> (distinct (map bt_id (background_tasks s)) \<longrightarrow> distinct (map bt_id (background_tasks s')) \<and>
     (\<forall>b \<in> set (background_tasks s). \<exists>b' \<in> set (background_tasks s'). task_le b b'))"

lemma task_le_refl: "task_le b b"
  by (simp add: task_le_def)

lemma task_le_trans: "task_le a b \<Longrightarrow> task_le b c \<Longrightarrow> task_le a c"
  unfolding task_le_def by (cases a; cases b; cases c) auto

lemma task_le_id: "task_le b b' \<Longrightarrow> bt_id b' = bt_id b \<and> bt_run b' = bt_run b \<and> bt_project b' = bt_project b"
  unfolding task_le_def by (cases b; cases b') auto

lemma task_le_notified: "task_le b b' \<Longrightarrow> bt_notified_at b \<noteq> None \<Longrightarrow> bt_notified_at b' \<noteq> None"
  by (simp add: task_le_def)

lemma tasks_le_same: "background_tasks s' = background_tasks s \<Longrightarrow> tasks_le s s'"
  by (auto simp: tasks_le_def intro: task_le_refl)

lemma tasks_le_trans: "tasks_le a b \<Longrightarrow> tasks_le b c \<Longrightarrow> tasks_le a c"
  unfolding tasks_le_def by (meson task_le_trans)

lemma tasks_le_update:
  assumes "background_tasks s' = sql_update p f (background_tasks s)" and "\<And>b. p b \<Longrightarrow> task_le b (f b)"
  shows "tasks_le s s'"
proof -
  have "bt_id (f b) = bt_id b" if "p b" for b using task_le_id [OF assms(2) [OF that]] by simp
  then have "map bt_id (background_tasks s') = map bt_id (background_tasks s)" by (simp add: assms(1) sql_update_def)
  moreover have "task_le b (if p b then f b else b) \<and> (if p b then f b else b) \<in> set (background_tasks s')"
    if "b \<in> set (background_tasks s)" for b
    using that assms by (auto simp: sql_update_def task_le_refl)
  ultimately show ?thesis unfolding tasks_le_def by metis
qed

lemma claim_result:
  assumes "ClaimBackgroundNotice t taskID state code now s = Inr (x, s')"
  shows "x = None \<and> s' = s \<or> (\<exists>old. sql_row (unnotified t taskID) (background_tasks s) = Some old \<and>
    x = Some (notice_row state code now old) \<and> background_tasks s' =
      sql_update (unnotified t taskID) (notice_row state code now) (background_tasks s))"
  using assms by (cases "sql_row (unnotified t taskID) (background_tasks s)")
    (simp_all add: ClaimBackgroundNotice_def split: if_splits, auto)

lemma claim_le: "tx_in tasks_le (ClaimBackgroundNotice t taskID state code now)"
proof (rule tx_inI)
  fix s s' :: "'a background_db_scheme" and x assume "ClaimBackgroundNotice t taskID state code now s = Inr (x, s')"
  from claim_result [OF this] show "tasks_le s s'"
  proof (elim disjE conjE exE)
    assume "background_tasks s' = sql_update (unnotified t taskID) (notice_row state code now) (background_tasks s)"
    then show ?thesis
      by (rule tasks_le_update) (auto simp: unnotified_def notice_row_def task_le_def split: option.splits)
  qed (simp add: tasks_le_same)
qed

lemma end_le: "tx_in tasks_le (settle_ended t taskID state now)"
proof (rule tx_inI)
  fix s s' :: "'a background_db_scheme" and u assume "settle_ended t taskID state now s = Inr (u, s')"
  then have "background_tasks s' = sql_update (\<lambda>b. bt_id b = taskID \<and> sees t (bt_project b) \<and> bt_state b = ''running'')
      (\<lambda>b. b\<lparr>bt_state := state, bt_finished_at := (case bt_finished_at b of None \<Rightarrow> Some now | Some x \<Rightarrow> Some x),
          bt_notified_at := (case bt_notified_at b of None \<Rightarrow> Some now | Some x \<Rightarrow> Some x)\<rparr>) (background_tasks s)"
    by (auto simp: settle_ended_def Let_def split: if_splits)
  then show "tasks_le s s'" by (rule tasks_le_update) (auto simp: task_le_def split: option.splits)
qed

interpretation tasks: execution_statements tasks_le sha for sha
proof unfold_locales
  show "tasks_le s u" if "tasks_le s t" "tasks_le t u" for s t u :: "'a background_db_scheme"
    using that by (rule tasks_le_trans)
  show "tx_in tasks_le (InsertBackgroundTask t task)" for t task
    by (rule tx_inI) (auto simp: InsertBackgroundTask_def tasks_le_def split: if_splits intro!: bexI task_le_refl)
  show "tasks_le s s'" if "AdvanceResponse ctx tenant resp cmd s = (rs, s')" for ctx tenant resp cmd s rs s'
    using advance_same [OF that] by (auto intro: tasks_le_same)
  show "tx_in tasks_le (ClaimBackgroundNotice t taskID state code now)" "tx_in tasks_le (settle_ended t taskID state now)"
    for t taskID state code now
    by (rule claim_le end_le)+
qed (auto intro!: tx_inI tasks_le_same simp: ex_statement_defs upsert_call_def update_call_def
    split: if_splits list.splits sum.splits prod.splits option.splits)

lemma settle_task_cases:
  assumes "settleBackgroundTask ctx task outcome now db = (x, db')"
  obtains (failed) e where "x = Inl e" "db' = db"
  | (taken) t where "ClaimBackgroundNotice t (bk_ID task) (bo_State outcome) (bo_ExitCode outcome) now db = Inr (None, db')"
      "x = Inr False"
  | (claimed) t r b s where "ClaimBackgroundNotice t (bk_ID task) (bo_State outcome) (bo_ExitCode outcome) now db = Inr (Some b, s)"
      "x = Inr True" "tx_tenant t = bk_Tenant task" "sql_row (\<lambda>r. rn_id r = bk_RunID task \<and> sees t (rn_project r)) (runs db) = Some r"
      "if run_terminal (rn_state r)
       then \<exists>seq. appendEvent t (bt_session b) (bt_response b) warningRaisedEvent (orphaned_payload (bk_ID task) (rn_state r) b) s = Inr (seq, db')
       else deliver_notice t task outcome b now s = Inr ((), db')"
  using begin_tx_cases [OF assms [unfolded settleBackgroundTask_def]]
proof (elim disjE exE conjE)
  fix t a assume t: "tx_tenant t = bk_Tenant task" and x: "x = Inr a"
    and body: "tx_bind (LockRun t (bk_RunID task)) (\<lambda>row.
         case row of None \<Rightarrow> tx_fail (Errorf [NoRows] ''lock run for background notice'')
         | Some r \<Rightarrow>
             tx_bind (tx_wrap ''claim background notice'' (ClaimBackgroundNotice t (bk_ID task) (bo_State outcome) (bo_ExitCode outcome) now)) (\<lambda>claimed.
               case claimed of None \<Rightarrow> tx_return False
               | Some b \<Rightarrow>
                   if run_terminal (rn_state r)
                   then tx_then (appendEvent t (bt_session b) (bt_response b) warningRaisedEvent
                          (orphaned_payload (bk_ID task) (rn_state r) b)) (tx_return True)
                   else tx_then (deliver_notice t task outcome b now) (tx_return True))) db = Inr (a, db')"
  from body obtain r where r: "sql_row (\<lambda>r. rn_id r = bk_RunID task \<and> sees t (rn_project r)) (runs db) = Some r"
    by (cases "sql_row (\<lambda>r. rn_id r = bk_RunID task \<and> sees t (rn_project r)) (runs db)") (simp_all add: tx_bind_eq LockRun_def)
  from body r obtain c s where c: "ClaimBackgroundNotice t (bk_ID task) (bo_State outcome) (bo_ExitCode outcome) now db = Inr (c, s)"
    and rest: "(case c of None \<Rightarrow> tx_return False
        | Some b \<Rightarrow> if run_terminal (rn_state r)
            then tx_then (appendEvent t (bt_session b) (bt_response b) warningRaisedEvent (orphaned_payload (bk_ID task) (rn_state r) b)) (tx_return True)
            else tx_then (deliver_notice t task outcome b now) (tx_return True)) s = Inr (a, db')"
    by (simp add: tx_bind_eq LockRun_def) blast
  show thesis
  proof (cases c)
    case None
    with c rest x show thesis by (intro taken [of t]) simp_all
  next
    case (Some b)
    note known = c [unfolded Some] and rest' = rest [unfolded Some option.case]
    show thesis
    proof (cases "run_terminal (rn_state r)")
      case True
      with known rest' x t r show thesis by (intro claimed [of t b s r]) (auto simp: tx_then_eq)
    next
      case False
      with known rest' x t r show thesis by (intro claimed [of t b s r]) (auto simp: tx_then_eq)
    qed
  qed
qed (rule failed)

lemma settle_notifies:
  assumes "settleBackgroundTask ctx task outcome now db = (Inr True, db')"
    and "distinct (map bt_id (background_tasks db))"
  shows "\<exists>b \<in> set (background_tasks db'). bt_id b = bk_ID task \<and> bt_notified_at b \<noteq> None"
proof -
  from assms(1) obtain t b s and r :: run_row where
    claim: "ClaimBackgroundNotice t (bk_ID task) (bo_State outcome) (bo_ExitCode outcome) now db = Inr (Some b, s)"
    and rest: "deliver_notice t task outcome b now s = Inr ((), db') \<or>
      (\<exists>seq. appendEvent t (bt_session b) (bt_response b) warningRaisedEvent (orphaned_payload (bk_ID task) (rn_state r) b) s = Inr (seq, db'))"
  proof (cases rule: settle_task_cases)
    case (claimed t r b s)
    then show thesis by (intro that [of t b s r]) (simp_all split: if_splits)
  qed simp_all
  have le: "tasks_le db s" "tasks_le s db'"
    using tx_inD [OF claim_le claim] rest tx_inD [OF tasks.ex_deliver] tx_inD [OF tasks.st_append] by blast+
  from claim obtain old where "sql_row (unnotified t (bk_ID task)) (background_tasks db) = Some old"
    and b: "b = notice_row (bo_State outcome) (bo_ExitCode outcome) now old"
    and s: "background_tasks s = sql_update (unnotified t (bk_ID task)) (notice_row (bo_State outcome) (bo_ExitCode outcome) now) (background_tasks db)"
    using claim_result [OF claim] by auto
  from sql_row_Some [OF this(1)] have "b \<in> set (background_tasks s)" "bt_id b = bk_ID task" "bt_notified_at b \<noteq> None"
    by (auto simp: s b sql_update_def notice_row_def unnotified_def)
  moreover have "distinct (map bt_id (background_tasks s))" using le(1) assms(2) by (simp add: tasks_le_def)
  ultimately obtain b' where "b' \<in> set (background_tasks db')" "task_le b b'" using le(2) by (auto simp: tasks_le_def)
  then show ?thesis using task_le_id task_le_notified \<open>bt_id b = _\<close> \<open>bt_notified_at b \<noteq> None\<close> by metis
qed

text \<open>
  C32. The end of a background task is announced at most once.  After a sweep has announced it, a further
  attempt to announce the same task, by any control plane and after any operations, announces nothing and
  changes nothing.
\<close>

theorem notice_delivered_once:
  assumes "distinct (map bt_id (background_tasks db))"
    and "settleBackgroundTask ctx task outcome now db = (Inr True, db1)"
    and "(execution_step sha collate render)\<^sup>*\<^sup>* db1 db2"
    and "settleBackgroundTask ctx' task' outcome' now' db2 = (x, db3)" and "bk_ID task' = bk_ID task"
  shows "x \<noteq> Inr True \<and> db3 = db2"
proof -
  have le: "tasks_le db db1" "tasks_le db1 db2"
    using tasks.execution_in [OF execution_step.settle_task [OF assms(2)]] tasks.executions_in [OF assms(3)] .
  have d: "distinct (map bt_id (background_tasks db1))" "distinct (map bt_id (background_tasks db2))"
    using le assms(1) by (auto simp: tasks_le_def)
  from settle_notifies [OF assms(2,1)] obtain b where b: "b \<in> set (background_tasks db1)" "bt_id b = bk_ID task"
    "bt_notified_at b \<noteq> None" by blast
  from le(2) d(1) b(1) obtain b' where b': "b' \<in> set (background_tasks db2)" "task_le b b'" by (auto simp: tasks_le_def)
  then have b'': "bt_id b' = bk_ID task" "bt_notified_at b' \<noteq> None"
    using task_le_id [OF b'(2)] task_le_notified [OF b'(2) b(3)] b(2) by simp_all
  have "\<not> unnotified t (bk_ID task) y" if "y \<in> set (background_tasks db2)" for t y
    using key_unique [OF d(2) that b'(1)] b'' by (auto simp: unnotified_def)
  then have none: "sql_row (unnotified t (bk_ID task)) (background_tasks db2) = None" for t
    by (simp add: sql_row_None)
  have "ClaimBackgroundNotice t (bk_ID task) st code now'' db2 = Inr (c, s) \<Longrightarrow> c = None \<and> s = db2" for t st code now'' c s
    by (auto simp: ClaimBackgroundNotice_def none split: if_splits)
  note claim = this [folded assms(5)]
  from assms(4) show ?thesis by (cases rule: settle_task_cases) (auto dest!: claim)
qed

section \<open>Instances\<close>

text \<open>
  A run \<^verbatim>\<open>r\<close> and its child \<^verbatim>\<open>c\<close>, both running; an irreversible call of \<^verbatim>\<open>r\<close> that is left uncertain; a background
  task of each run.
\<close>

definition sample_run :: "string \<Rightarrow> string \<Rightarrow> string option \<Rightarrow> run_row" where
  "sample_run i resp parent = \<lparr>rn_id = i, rn_project = ''p'', rn_session = ''s'', rn_response = Some resp, rn_state = RunRunning,
     rn_created_at = 1, rn_parent = parent, rn_depth = 0, rn_delegation = None, rn_agent_revision = None,
     rn_template_revision = None, rn_output_contract = None, rn_instructions = None\<rparr>"

definition sample_response :: "string \<Rightarrow> response_row" where
  "sample_response i = \<lparr>rs_id = i, rs_project = ''p'', rs_session = ''s'', rs_state = ''in_progress'', rs_input = JNull, rs_output = None,
     rs_store = True, rs_created_at = 1, rs_purged_at = None, rs_retracted_at = None, rs_metadata = JNull\<rparr>"

definition sample_call :: tool_call_row where
  "sample_call = \<lparr>tc_id = ''u'', tc_project = ''p'', tc_run = ''r'', tc_fence = 1, tc_state = ToolCallUncertain, tc_name = ''deploy'',
     tc_arguments = JNull, tc_result = None, tc_replay_class = ''irreversible'', tc_request_hash = ''h'', tc_external_key = '''',
     tc_lease_owner = '''', tc_reconciliation = ''reconciling'', tc_boundary = '''', tc_created_at = 1\<rparr>"

definition sample_task :: "string \<Rightarrow> string \<Rightarrow> background_row" where
  "sample_task i runID = \<lparr>bt_id = i, bt_project = ''p'', bt_run = runID, bt_session = ''s'', bt_response = ''q'', bt_tool_call = i,
     bt_attempt_fence = 1, bt_posture = ''sandboxed-linux'', bt_handle = '''', bt_machine = '''', bt_state = ''running'',
     bt_exit_code = None, bt_output_path = ''out'', bt_env_keys = [], bt_deadline_at = None, bt_started_at = 1,
     bt_finished_at = None, bt_notified_at = None\<rparr>"

definition sample_execution :: background_db where
  "sample_execution = \<lparr>durable_jobs = [], job_attempts = [], outbox = [],
     sessions = [\<lparr>se_id = ''s'', se_project = ''p'', se_state = SessionActive, se_name = ''''\<rparr>],
     session_sequences = [], events = [], runs = [sample_run ''r'' ''q'' None, sample_run ''c'' ''d'' (Some ''r'')],
     responses = [sample_response ''q'', sample_response ''d''], commands = [], queue_connections = [],
     queue_deliveries = [], entropy = [''1'', ''2'', ''3'', ''4'', ''5'', ''6'', ''7'', ''8''], usage_ledger = [], budgets = [],
     quotas = [], config_policies = [], pending_approvals = [], config_revisions = [], delivered_messages = [],
     idempotency_records = [], repository_bindings = [], agent_profiles = [], agent_revisions = [],
     run_template_revisions = [], artifacts = [], workspaces = [], model_requests = [], tool_calls = [sample_call],
     background_tasks = [sample_task ''t1'' ''r'', sample_task ''t2'' ''c''], workspace_allocations = []\<rparr>"

definition sample_begin :: "string \<Rightarrow> background_db \<Rightarrow> unit result \<times> background_db" where
  "sample_begin callID = BeginToolCall (WithTenant None ''p'') ''p'' ''s'' ''q'' ''r'' 2 callID ''shell'' JNull ''pure'' ''h'' '''' '''' '''' 8"

definition sample_commit :: "uint64 \<Rightarrow> background_db \<Rightarrow> int result \<times> background_db" where
  "sample_commit fence = CommitToolResult (WithTenant None ''p'') ''p'' ''s'' ''q'' ''r'' fence ''x'' ''shell'' JNull (JStr ''done'') ''pure'' ''h''
     ''tool_call.completed.v1'' JNull 9"

lemma sample_execution_keys:
  "distinct (map tc_id (tool_calls sample_execution))" "distinct (map bt_id (background_tasks sample_execution))"
  "distinct (map tc_id (tool_calls (snd (sample_begin ''x'' sample_execution))))"
  by code_simp+

lemma sample_begin_ok: "fst (sample_begin ''x'' sample_execution) = Inr ()" "fst (sample_begin ''u'' sample_execution) = Inr ()"
  by code_simp+

lemma sample_pair: "fst p = a \<Longrightarrow> p = (a, snd p)"
  by (cases p) simp


theorem stale_commit_rejected_witness:
  "snd (sample_commit 1 (snd (sample_begin ''x'' sample_execution))) = snd (sample_begin ''x'' sample_execution)"
  using stale_commit_rejected [where sha = id and collate = id and render = "\<lambda>_. ''''", OF sample_execution_keys(1) sample_pair [OF sample_begin_ok(1), unfolded sample_begin_def] rtranclp.rtrancl_refl
      prod.collapse [symmetric], of 1]
  by (auto simp: sample_commit_def sample_begin_def)

theorem committed_result_final_witness:
  "snd (sample_commit 3 (snd (sample_commit 2 (snd (sample_begin ''x'' sample_execution))))) =
   snd (sample_commit 2 (snd (sample_begin ''x'' sample_execution)))"
proof -
  let ?db = "snd (sample_begin ''x'' sample_execution)"
  have "fst (sample_commit 2 ?db) = Inr 2" by code_simp
  note ok = sample_pair [OF this]
  show ?thesis
    using committed_result_final [where sha = id and collate = id and render = "\<lambda>_. ''''", OF sample_execution_keys(3) ok [unfolded sample_commit_def] _ rtranclp.rtrancl_refl
        prod.collapse [symmetric]]
    by (auto simp: sample_commit_def)
qed

theorem executing_event_without_execution_witness:
  "\<exists>e. events (snd (sample_begin ''u'' sample_execution)) = events sample_execution @ [e] \<and> ev_type e = ''tool_call.executing.v1''"
proof -
  have "sample_call \<in> set (tool_calls sample_execution)" "tc_id sample_call = ''u''" "tc_state sample_call \<notin> resolved_states"
    "tc_state sample_call \<noteq> ToolCallReady"
    by (simp_all add: sample_execution_def sample_call_def resolved_states_def)
  note row = this
  show ?thesis
    using executing_event_without_execution [OF sample_execution_keys(1) row sample_pair [OF sample_begin_ok(2), unfolded sample_begin_def]]
    by (simp add: sample_begin_def)
qed

theorem notice_delivered_once_witness:
  "let task = task_of sample_execution (sample_task ''t1'' ''r'');
       outcome = \<lparr>bo_State = ''exited'', bo_ExitCode = Some 0, bo_Tail = '''', bo_TailNote = ''''\<rparr>;
       db1 = snd (settleBackgroundTask (WithTenant None ''p'') task outcome 9 sample_execution)
   in snd (settleBackgroundTask (WithTenant None ''p'') task outcome 10 db1) = db1"
proof -
  let ?task = "task_of sample_execution (sample_task ''t1'' ''r'')"
  let ?outcome = "\<lparr>bo_State = ''exited'', bo_ExitCode = Some 0, bo_Tail = '''', bo_TailNote = ''''\<rparr>"
  have "fst (settleBackgroundTask (WithTenant None ''p'') ?task ?outcome 9 sample_execution) = Inr True" by code_simp
  from notice_delivered_once [where sha = id and collate = id and render = "\<lambda>_. ''''",
      OF sample_execution_keys(2) sample_pair [OF this] rtranclp.rtrancl_refl prod.collapse [symmetric] refl]
  show ?thesis by (simp add: Let_def)
qed

end
