(* ===== verification/Cancellation_Safety.thy ===== *)
theory Cancellation_Safety
  imports Execution_Safety
begin

text \<open>
  Correctness of the cancellation of a run: it returns, because the parents of runs have no cycle; when it
  succeeds, the run and every descendant have ended; the response takes the one terminal state that the
  run's uncertain side effects call for; and the background tasks of the descendants are left alone.
\<close>

section \<open>Which errors a call can return\<close>

definition tx_errs :: "(error \<Rightarrow> bool) \<Rightarrow> ('s, 'a) tx \<Rightarrow> bool" where
  "tx_errs P m \<longleftrightarrow> (\<forall>s e. m s = Inl e \<longrightarrow> P e)"

lemma tx_errsD: "tx_errs P m \<Longrightarrow> m s = Inl e \<Longrightarrow> P e"
  by (simp add: tx_errs_def)

text \<open>A class of errors that is closed under wrapping.\<close>

locale error_class =
  fixes P :: "error \<Rightarrow> bool"
  assumes P_wrap: "P e \<Longrightarrow> P (Errorf [e] msg)"
begin

lemma errs_return: "tx_errs P (tx_return a)" "tx_errs P (tx_read f)" "tx_errs P (tx_write g)"
  by (simp_all add: tx_errs_def tx_return_def tx_read_def tx_write_def)

lemma errs_bind: "tx_errs P m \<Longrightarrow> (\<And>a. tx_errs P (f a)) \<Longrightarrow> tx_errs P (tx_bind m f)"
  by (auto simp: tx_errs_def tx_bind_def bind_result_def split: sum.splits prod.splits)

lemma errs_then: "tx_errs P m \<Longrightarrow> tx_errs P k \<Longrightarrow> tx_errs P (tx_then m k)"
  by (simp add: tx_then_def errs_bind)

lemma errs_wrap: "tx_errs P m \<Longrightarrow> tx_errs P (tx_wrap msg m)"
  by (auto simp: tx_errs_def tx_wrap_def P_wrap split: sum.splits)

lemma errs_when: "tx_errs P m \<Longrightarrow> tx_errs P (tx_when b m)"
  by (simp add: tx_when_def errs_return)

lemma errs_each: "(\<And>x. tx_errs P (f x)) \<Longrightarrow> tx_errs P (tx_each f xs)"
  by (induction xs) (simp_all add: errs_return errs_then)

lemmas errs_intros = errs_return errs_bind errs_then errs_wrap errs_when errs_each

end

text \<open>The errors that do not count as a run that had ended before.\<close>

definition harmless :: "error \<Rightarrow> bool" where
  "harmless e \<longleftrightarrow> \<not> errors_Is e ErrRunTerminal \<and> \<not> errors_Is e ErrInvalidState"

interpretation harmless: error_class harmless
  by unfold_locales (simp add: harmless_def ErrRunTerminal_def ErrInvalidState_def)

lemma event_harmless: "tx_errs harmless (journal_event t sid resp ty payload msg app)"
  unfolding journal_event_def
  by (intro harmless.errs_intros)
    (auto simp: tx_errs_def AllocateSequence_def newEventID_def AppendEvent_def Let_def harmless_def ErrRunTerminal_def
      ErrInvalidState_def ForeignKeyViolation_def RowSecurity_def UniqueViolation_def split: if_splits list.splits)

lemma outbox_harmless: "tx_errs harmless (enqueue_outbox t topic key body)"
  by (auto simp: tx_errs_def enqueue_outbox_def EnqueueOutbox_def harmless_def ErrRunTerminal_def ErrInvalidState_def
      RowSecurity_def UniqueViolation_def split: if_splits)

lemma effects_harmless: "tx_errs harmless (runTransitionEffects t r runID next event)"
proof -
  have "tx_errs harmless (ExpireQueuedCommandsForRun t runID b)" for b
    by (simp add: tx_errs_def ExpireQueuedCommandsForRun_def Let_def)
  then show ?thesis
    unfolding runTransitionEffects_def sweepQueuedCommands_def warnSurvivingSendMessages_def appendEvent_def Let_def
      SurvivingQueuedSendMessagesForRun_def EnqueueTerminalQueueDeliveries_def
    by (intro harmless.errs_intros event_harmless outbox_harmless)
qed

lemma cancel_table: "Apply st RunCmdCancel RunTable = Inl e \<Longrightarrow> run_terminal st"
  "Apply st RunCmdCancel RunTable = Inr (nx, ev) \<Longrightarrow> nx = RunCanceled"
  by (cases st; simp add: RunTable_def run_terminal_states)+

text \<open>A cancel that succeeds, or fails because the run had ended, leaves the run ended.\<close>

lemma cancel_ends_run:
  fixes db :: "'a commands_db_scheme"
  assumes "ApplyRunTransition ctx tenant runID RunCmdCancel db = (x, db')" and "fatal x = None"
    and "PrepareConn (ScopeToTenant ctx tenant) = Inr c" and "distinct (map rn_id (runs db))"
  shows "tenant_policy c tenant \<and> (\<exists>r \<in> set (runs db'). rn_id r = runID \<and> rn_project r = tenant \<and> run_terminal (rn_state r) \<and>
    (\<forall>r0 \<in> set (runs db). rn_id r0 = runID \<longrightarrow> run_terminal (rn_state r0) \<or> rn_state r = RunCanceled))"
proof -
  let ?t = "\<lparr>tx_conn = c, tx_tenant = tenant\<rparr>"
  have call: "commit (applyRunTransitionTx ?t runID RunCmdCancel) db = (x, db')"
    using assms(1,3) by (simp add: ApplyRunTransition_def begin_tx_def)
  show ?thesis
  proof (cases "sql_row (\<lambda>r. rn_id r = runID \<and> sees ?t (rn_project r)) (runs db)")
    case None
    with call have "x = Inl (Errorf [] ''run not found in tenant scope'')"
      by (simp add: applyRunTransitionTx_def commit_def tx_bind_def LockRun_def tx_read_def tx_fail_def)
    with assms(2) show ?thesis by (simp add: fatal_def ErrRunTerminal_def ErrInvalidState_def)
  next
    case (Some r)
    have r: "r \<in> set (runs db)" "rn_id r = runID" "rn_project r = tenant" "tenant_policy c tenant"
      using sql_row_Some [OF Some] by (auto simp: sees_def)
    show ?thesis
    proof (cases "Apply (rn_state r) RunCmdCancel RunTable")
      case (Inl e)
      with call Some have "db' = db"
        by (simp add: applyRunTransitionTx_def commit_def tx_bind_def LockRun_def tx_read_def tx_fail_def)
      with cancel_table(1) [OF Inl] r key_unique [OF assms(4)] show ?thesis by metis
    next
      case (Inr p)
      obtain nx ev where p: "p = (nx, ev)" by (cases p)
      let ?s1 = "db\<lparr>runs := sql_update (\<lambda>r. rn_id r = runID \<and> sees ?t (rn_project r)) (\<lambda>r. r\<lparr>rn_state := nx\<rparr>) (runs db)\<rparr>"
      have run: "commit (\<lambda>_. runTransitionEffects ?t r runID nx ev ?s1) db = (x, db')"
        using call Some Inr p
        by (simp add: applyRunTransitionTx_def commit_def tx_bind_def tx_then_def LockRun_def tx_read_def UpdateRunState_def tx_write_def)
      show ?thesis
      proof (cases "runTransitionEffects ?t r runID nx ev ?s1")
        case (Inl e)
        with run have "x = Inl e" by (simp add: commit_def)
        with tx_errsD [OF effects_harmless Inl] assms(2) show ?thesis by (simp add: fatal_def harmless_def)
      next
        case (Inr q)
        obtain a s where q: "q = (a, s)" by (cases q)
        with Inr run have "db' = s" by (simp add: commit_def)
        with tx_inD [OF effects_same.st_effects Inr [unfolded q]] have "runs db' = runs ?s1" by (simp add: same_runs_def)
        moreover have "r\<lparr>rn_state := nx\<rparr> \<in> set (runs ?s1)"
          using r by (auto simp: sql_update_def sees_def)
        moreover have "nx = RunCanceled" using cancel_table(2) \<open>Apply _ _ _ = Inr p\<close> p by simp
        ultimately show ?thesis using r by (intro conjI bexI [of _ "r\<lparr>rn_state := nx\<rparr>"]) (auto simp: run_terminal_states)
      qed
    qed
  qed
qed

section \<open>The tree of runs\<close>

text \<open>Every parent is the run of an earlier row.\<close>

definition run_forest :: "run_row list \<Rightarrow> bool" where
  "run_forest rows \<longleftrightarrow> distinct (map rn_id rows) \<and>
     (\<forall>i < length rows. \<forall>p. rn_parent (rows ! i) = Some p \<longrightarrow> (\<exists>j < i. rn_id (rows ! j) = p))"

inductive descends :: "run_row list \<Rightarrow> string \<Rightarrow> string \<Rightarrow> string \<Rightarrow> bool" for rows tenant anc where
  child: "c \<in> set rows \<Longrightarrow> rn_project c = tenant \<Longrightarrow> rn_parent c = Some anc \<Longrightarrow> descends rows tenant anc (rn_id c)"
| grandchild: "descends rows tenant anc p \<Longrightarrow> c \<in> set rows \<Longrightarrow> rn_project c = tenant \<Longrightarrow> rn_parent c = Some p \<Longrightarrow>
    descends rows tenant anc (rn_id c)"

lemma set_children: "c \<in> set (children_of t rows ps) \<longleftrightarrow> c \<in> set rows \<and> sees t (rn_project c) \<and> (\<exists>p \<in> ps. rn_parent c = Some p)"
  by (simp add: children_of_def)

lemma subtree_returns:
  assumes "run_forest rows" and "\<forall>r \<in> set level. \<exists>i \<ge> k. i < length rows \<and> rows ! i = r"
  shows "\<exists>out. subtree t rows level = Some out"
  using assms(2)
proof (induction "length rows - k" arbitrary: k level rule: less_induct)
  case less
  show ?case
  proof (cases "level = []")
    case False
    then have k: "k < length rows" using less.prems by (metis last_in_set le_less_trans)
    have "\<exists>i \<ge> Suc k. i < length rows \<and> rows ! i = c" if "c \<in> set (children_of t rows (set (map rn_id level)))" for c
    proof -
      from that obtain s where c: "c \<in> set rows" "s \<in> set level" "rn_parent c = Some (rn_id s)" by (auto simp: set_children)
      from c(1) obtain i where i: "i < length rows" "rows ! i = c" by (auto simp: in_set_conv_nth)
      with assms(1) c(3) obtain j where j: "j < i" "rn_id (rows ! j) = rn_id s" by (auto simp: run_forest_def)
      from less.prems c(2) obtain m where m: "k \<le> m" "m < length rows" "rows ! m = s" by blast
      have "map rn_id rows ! j = map rn_id rows ! m" using i j m by simp
      then have "j = m" using nth_eq_iff_index_eq [of "map rn_id rows" j m] assms(1) i j m by (simp add: run_forest_def)
      with i j m show ?thesis by (intro exI [of _ i]) auto
    qed
    then have "\<exists>out. subtree t rows (children_of t rows (set (map rn_id level))) = Some out"
      using less.hyps [of "Suc k"] k by (simp add: diff_less_mono2)
    then show ?thesis by (subst subtree.simps) auto
  qed (simp add: subtree.simps)
qed

lemma descendants_return: "run_forest (runs db) \<Longrightarrow> \<exists>out. NonTerminalDescendantRuns t p db = Some out"
proof -
  assume f: "run_forest (runs db)"
  have "\<forall>r \<in> set (children_of t (runs db) {p}). \<exists>i \<ge> 0. i < length (runs db) \<and> runs db ! i = r"
    using in_set_conv_nth [of _ "runs db"] by (fastforce simp: set_children)
  from subtree_returns [OF f this] show ?thesis by (auto simp: NonTerminalDescendantRuns_def)
qed

definition child_closed :: "txn \<Rightarrow> run_row list \<Rightarrow> run_row list \<Rightarrow> run_row list \<Rightarrow> bool" where
  "child_closed t rows level out \<longleftrightarrow>
     set level \<subseteq> set out \<and> (\<forall>s \<in> set out. set (children_of t rows {rn_id s}) \<subseteq> set out)"

lemma subtree_closed: "subtree t rows level = Some out \<Longrightarrow> child_closed t rows level out"
proof (rule subtree.raw_induct [where P = child_closed])
  fix f t rows level out
  assume IH: "\<And>t rows level out. f t rows level = Some out \<Longrightarrow> child_closed t rows level out"
    and eq: "(if level = [] then Some []
      else Option.bind (f t rows (children_of t rows (set (map rn_id level)))) (\<lambda>below. Some (level @ below))) = Some out"
  show "child_closed t rows level out"
  proof (cases "level = []")
    case False
    with eq obtain below where b: "f t rows (children_of t rows (set (map rn_id level))) = Some below" "out = level @ below"
      by (auto simp: bind_eq_Some_conv)
    note below = IH [OF b(1)]
    have "c \<in> set below" if "s \<in> set level" "c \<in> set (children_of t rows {rn_id s})" for s c
      using below that by (auto simp: set_children child_closed_def)
    with below b(2) show ?thesis by (auto simp: child_closed_def)
  qed (use eq in \<open>simp add: child_closed_def\<close>)
qed

text \<open>The query finds every live descendant.\<close>

lemma descendants_found:
  assumes "NonTerminalDescendantRuns t anc db = Some out" and "sees t tenant" and "tx_tenant t = tenant"
    and "descends (runs db) tenant anc i"
  shows "\<exists>c \<in> set (runs db). rn_id c = i \<and> rn_project c = tenant \<and> (rn_state c \<in> live_states \<longrightarrow> c \<in> set out)"
proof -
  from assms(1) obtain all where all: "subtree t (runs db) (children_of t (runs db) {anc}) = Some all"
    and out: "out = filter (\<lambda>r. rn_state r \<in> live_states) all" by (auto simp: NonTerminalDescendantRuns_def)
  note closed = subtree_closed [OF all, unfolded child_closed_def]
  have "\<exists>c \<in> set (runs db). rn_id c = i \<and> rn_project c = tenant \<and> c \<in> set all"
    using assms(4)
  proof induction
    case (child c)
    with closed assms(2) show ?case by (intro bexI [of _ c]) (auto simp: set_children)
  next
    case (grandchild p c)
    then obtain s where "s \<in> set all" "rn_id s = p" by blast
    moreover have "c \<in> set (children_of t (runs db) {p})" using grandchild(2-4) assms(2) by (auto simp: set_children)
    ultimately show ?case using closed grandchild(2,3) by (intro bexI [of _ c]) auto
  qed
  then show ?thesis by (auto simp: out)
qed

lemma run_terminal_live: "run_terminal st \<longleftrightarrow> st \<notin> live_states"
  by (auto simp: run_terminal_states live_states_def)

text \<open>Runs that only moved along their table have the same descendants, and an ended one stays ended.\<close>

lemma run_le_same: "run_le a b \<Longrightarrow> rn_id b = rn_id a \<and> rn_project b = rn_project a \<and> rn_parent b = rn_parent a \<and> rn_response b = rn_response a"
  unfolding run_le_def by (cases a; cases b) auto

lemma run_le_terminal: "run_le a b \<Longrightarrow> run_terminal (rn_state a) \<Longrightarrow> rn_state b = rn_state a"
  using run_table.drive_terminal
  by (fastforce simp: run_le_def run_terminal_def map_bool_Some_True runTerminalStates_def)

lemma runs_le_row:
  assumes "list_all2 run_le xs ys" and "x \<in> set xs" shows "\<exists>y \<in> set ys. run_le x y"
  using assms by (metis in_set_conv_nth list_all2_conv_all_nth)

lemma descends_le: "list_all2 run_le xs ys \<Longrightarrow> descends ys tenant anc i \<Longrightarrow> descends xs tenant anc i"
proof (rotate_tac, induction rule: descends.induct)
  case (child c)
  then obtain x where "x \<in> set xs" "run_le x c" by (metis in_set_conv_nth list_all2_conv_all_nth)
  with child run_le_same [of x c] show ?case by (metis descends.child)
next
  case (grandchild p c)
  then obtain x where "x \<in> set xs" "run_le x c" by (metis in_set_conv_nth list_all2_conv_all_nth)
  with grandchild run_le_same [of x c] show ?case by (metis descends.grandchild)
qed

lemma run_forest_le:
  assumes "list_all2 run_le xs ys" and "run_forest xs" shows "run_forest ys"
proof -
  have n: "length ys = length xs" "\<And>i. i < length xs \<Longrightarrow> rn_id (ys ! i) = rn_id (xs ! i) \<and> rn_parent (ys ! i) = rn_parent (xs ! i)"
    using assms(1) run_le_same by (auto simp: list_all2_conv_all_nth)
  then have "map rn_id ys = map rn_id xs" by (simp add: list_eq_iff_nth_eq)
  with n assms(2) show ?thesis unfolding run_forest_def by (metis less_trans)
qed

section \<open>The tree of runs is kept\<close>

definition forest_le :: "'a background_db_scheme \<Rightarrow> 'a background_db_scheme \<Rightarrow> bool" where
  "forest_le s s' \<longleftrightarrow> (run_forest (runs s) \<longrightarrow> run_forest (runs s'))"

lemma forest_same: "runs s' = runs s \<Longrightarrow> forest_le s s'"
  by (simp add: forest_le_def)

lemma run_forest_append:
  assumes "run_forest rows" and "rn_id r \<notin> rn_id ` set rows" and "foreign_ok rn_id (rn_parent r) rows"
  shows "run_forest (rows @ [r])"
proof -
  have "\<exists>j < i. rn_id ((rows @ [r]) ! j) = p" if "i < length (rows @ [r])" "rn_parent ((rows @ [r]) ! i) = Some p" for i p
  proof (cases "i < length rows")
    case True
    with assms(1) that obtain j where "j < i" "rn_id (rows ! j) = p" by (auto simp: run_forest_def nth_append)
    with True show ?thesis by (intro exI [of _ j]) (simp add: nth_append)
  next
    case False
    with that have i: "i = length rows" "rn_parent r = Some p" by (auto simp: nth_append)
    with assms(3) obtain x where "x \<in> set rows" "rn_id x = p" by (auto simp: foreign_ok_def)
    then obtain j where "j < length rows" "rn_id (rows ! j) = p" by (auto simp: in_set_conv_nth)
    with i show ?thesis by (intro exI [of _ j]) (simp add: nth_append)
  qed
  with assms(1,2) show ?thesis unfolding run_forest_def by auto
qed

lemma forest_update: "runs s' = sql_update p (\<lambda>r. r\<lparr>rn_state := st\<rparr>) (runs s) \<Longrightarrow> forest_le s s'"
proof -
  assume new: "runs s' = sql_update p (\<lambda>r. r\<lparr>rn_state := st\<rparr>) (runs s)"
  have "map rn_id (runs s') = map rn_id (runs s)" by (simp add: new sql_update_def)
  moreover have "rn_id (runs s' ! i) = rn_id (runs s ! i) \<and> rn_parent (runs s' ! i) = rn_parent (runs s ! i)" if "i < length (runs s)" for i
    using that by (simp add: new sql_update_def)
  moreover have "length (runs s') = length (runs s)" by (simp add: new sql_update_def)
  ultimately show ?thesis unfolding forest_le_def run_forest_def by (metis less_trans)
qed

interpretation forest: execution_statements forest_le sha for sha
proof unfold_locales
  show "forest_le s u" if "forest_le s t" "forest_le t u" for s t u :: "'a background_db_scheme"
    using that by (simp add: forest_le_def)
  show "tx_in forest_le (UpdateRunState t runID next)" for t runID "next"
    by (rule tx_inI) (auto simp: UpdateRunState_def tx_write_def intro: forest_update)
  show "tx_in forest_le (insert_run t row)" for t row
    by (rule tx_inI) (auto simp: insert_run_def forest_le_def split: if_splits intro!: run_forest_append)
  show "forest_le s s'" if "AdvanceResponse ctx tenant resp cmd s = (rs, s')" for ctx tenant resp cmd s rs s'
    using advance_same [OF that] by (auto intro: forest_same)
qed (auto intro!: tx_inI forest_same simp: ex_statement_defs upsert_call_def update_call_def
    split: if_splits list.splits sum.splits prod.splits option.splits)

text \<open>
  In every reachable state the parents of the runs form a forest in insertion order: run identifiers are
  unique and a parent is the run of an earlier row.
\<close>

theorem run_forest_invariant:
  assumes "run_forest (runs db)" and "(execution_step sha collate render)\<^sup>*\<^sup>* db db'"
  shows "run_forest (runs db')"
  using forest.executions_in [OF assms(2)] assms(1) by (simp add: forest_le_def)

section \<open>Cancelling the descendants\<close>

lemma scope_again [simp]: "ScopeToTenant (ScopeToTenant ctx tenant) tenant = ScopeToTenant ctx tenant"
  by (auto simp: ScopeToTenant_def WithTenant_def scopeFrom_def Let_def)

lemma transition_runs:
  fixes db :: "'a commands_db_scheme"
  shows "ApplyRunTransition ctx tenant runID cmd db = (x, db') \<Longrightarrow> distinct (map rn_id (runs db)) \<Longrightarrow> list_all2 run_le (runs db) (runs db')"
  using run_moves.step_in [OF journal_step.transition] by (fastforce simp: runs_le_def)

lemma finalize_responses:
  "FinalizeResponse ctx tenant resp st proj db = (x, db') \<Longrightarrow> \<exists>rows. db' = db\<lparr>responses := rows\<rparr>"
  by (auto simp: FinalizeResponse_def begin_tx_def commit_def UpdateResponse_def tx_write_def
      split: sum.splits intro: exI [of _ "responses db"])

lemma run_le_ids: "list_all2 run_le xs ys \<Longrightarrow> map rn_id ys = map rn_id xs"
  by (induction rule: list_all2_induct) (auto dest: run_le_same)

lemma all_run_le_trans: "list_all2 run_le xs ys \<Longrightarrow> list_all2 run_le ys zs \<Longrightarrow> list_all2 run_le xs zs"
  by (rule list_all2_trans [OF run_le_trans])

text \<open>A list of runs of which every row with one of the given identifiers has ended.\<close>

definition ended :: "string set \<Rightarrow> run_row list \<Rightarrow> bool" where
  "ended ids rows \<longleftrightarrow> (\<forall>i \<in> ids. \<exists>r \<in> set rows. rn_id r = i \<and> run_terminal (rn_state r))"

lemma ended_le: "ended ids xs \<Longrightarrow> list_all2 run_le xs ys \<Longrightarrow> ended ids ys"
  unfolding ended_def by (metis run_le_same run_le_terminal runs_le_row)

lemma cancel_loop_ends:
  fixes db :: "'a commands_db_scheme"
  assumes "cancel_loop ctx tenant proj refs n db = ((m, None), db')"
    and "PrepareConn (ScopeToTenant ctx tenant) = Inr c" and "distinct (map rn_id (runs db))"
  shows "list_all2 run_le (runs db) (runs db') \<and> ended (fst ` set refs) (runs db')"
  using assms(1,3)
proof (induction refs arbitrary: n db)
  case Nil
  then show ?case by (simp add: list_all2_refl run_le_refl ended_def)
next
  case (Cons ref refs)
  obtain i resp where ref: "ref = (i, resp)" by (cases ref)
  obtain x db1 where tr: "ApplyRunTransition ctx tenant i RunCmdCancel db = (x, db1)" by (cases "ApplyRunTransition ctx tenant i RunCmdCancel db")
  from Cons.prems(1) obtain n' db2 where rest: "cancel_loop ctx tenant proj refs n' db2 = ((m, None), db')"
    and same: "runs db2 = runs db1" and x: "fatal x = None"
    by (auto simp: ref tr fatal_def split: sum.splits if_splits prod.splits dest: finalize_responses)
  have 1: "list_all2 run_le (runs db) (runs db2)" using transition_runs [OF tr Cons.prems(2)] same by simp
  have "distinct (map rn_id (runs db2))" using Cons.prems(2) run_le_ids [OF 1] by simp
  from Cons.IH [OF rest this] have 2: "list_all2 run_le (runs db2) (runs db')" "ended (fst ` set refs) (runs db')" by simp_all
  have "ended {i} (runs db2)" using cancel_ends_run [OF tr x assms(2) Cons.prems(2)] same by (auto simp: ended_def)
  then have "ended {i} (runs db')" using 2(1) by (rule ended_le)
  with 1 2 show ?case by (auto simp: ref ended_def intro: all_run_le_trans)
qed

lemma cancel_children_ends:
  fixes db :: "'a commands_db_scheme"
  assumes "CancelChildren ctx tenant runID proj db = Some ((n, None), db')"
    and "PrepareConn (ScopeToTenant ctx tenant) = Inr c" and "tenant_policy c tenant" and "run_forest (runs db)"
  shows "list_all2 run_le (runs db) (runs db') \<and> (\<forall>i. descends (runs db) tenant runID i \<longrightarrow> ended {i} (runs db'))"
proof -
  let ?t = "\<lparr>tx_conn = c, tx_tenant = tenant\<rparr>"
  note call = assms(1) [unfolded CancelChildren_def NonTerminalChildRuns_def Let_def scope_again assms(2) sum.case]
  from call obtain out where out: "NonTerminalDescendantRuns ?t runID db = Some out"
    by (cases "NonTerminalDescendantRuns ?t runID db") simp_all
  from call have loop: "cancel_loop (ScopeToTenant ctx tenant) tenant proj (map (\<lambda>r. (rn_id r, or_empty (rn_response r))) out) 0 db = ((n, None), db')"
    by (simp add: out split: if_splits)
  have "distinct (map rn_id (runs db))" using assms(4) by (simp add: run_forest_def)
  with cancel_loop_ends [OF loop] assms(2) have le: "list_all2 run_le (runs db) (runs db')" and e: "ended (rn_id ` set out) (runs db')"
    by (auto simp: image_image)
  have "ended {i} (runs db')" if "descends (runs db) tenant runID i" for i
  proof -
    from descendants_found [OF out _ _ that] assms(3) obtain r where r: "r \<in> set (runs db)" "rn_id r = i"
      "rn_state r \<in> live_states \<longrightarrow> r \<in> set out" by (auto simp: sees_def)
    show ?thesis
    proof (cases "rn_state r \<in> live_states")
      case True
      with r e show ?thesis by (auto simp: ended_def)
    next
      case False
      with r have "ended {i} (runs db)" by (auto simp: ended_def run_terminal_live)
      then show ?thesis using le by (rule ended_le)
    qed
  qed
  with le show ?thesis by blast
qed

section \<open>Cancelling a run\<close>

lemma settle_end_tasks:
  fixes db :: "'a background_db_scheme"
  assumes "SettleEndedBackgroundTask ctx tenant runID taskID state now db = (x, db')"
  shows "\<exists>rows. db' = db\<lparr>background_tasks := rows\<rparr>"
proof -
  have "\<exists>rows. s' = s\<lparr>background_tasks := rows\<rparr>" if "settle_ended t taskID state now s = Inr (u, s')" for t s s' u
    using that by (auto simp: settle_ended_def Let_def split: if_splits)
  moreover have "\<exists>rows. db = db\<lparr>background_tasks := rows\<rparr>" by (rule exI [of _ "background_tasks db"]) simp
  ultimately show ?thesis
    using begin_tx_cases [OF assms [unfolded SettleEndedBackgroundTask_def]]
    by (auto simp: tx_bind_eq LockRun_def split: option.splits)
qed

lemma kill_only_tasks:
  "kill_tasks ctx tenant runID kill now tasks db = (x, db') \<Longrightarrow> \<exists>rows. db' = db\<lparr>background_tasks := rows\<rparr>"
proof (induction tasks arbitrary: db)
  case Nil
  then show ?case by (auto intro: exI [of _ "background_tasks db"])
next
  case (Cons task tasks)
  then show ?case by (fastforce split: prod.splits if_splits sum.splits dest!: settle_end_tasks)
qed

lemma finish_result:
  fixes db :: "'a background_db_scheme"
  assumes "finish_cancel ctx tenant resp runID terminal proj bg now db = (Inr st, db')"
    and "PrepareConn (ScopeToTenant ctx tenant) = Inr c"
  obtains tasks r q db1 where "db1 = db\<lparr>background_tasks := tasks\<rparr>"
    "sql_row (\<lambda>r. rn_id r = runID \<and> sees \<lparr>tx_conn = c, tx_tenant = tenant\<rparr> (rn_project r)) (runs db) = Some r"
    "if rn_state r = RunCanceled then FinalizeResponse ctx tenant resp terminal proj db1 = (Inr (), db') else db' = db1"
    "sql_row (\<lambda>r. rs_id r = resp \<and> sees \<lparr>tx_conn = c, tx_tenant = tenant\<rparr> (rs_project r)) (responses db') = Some q" "st = rs_state q"
proof -
  let ?t = "\<lparr>tx_conn = c, tx_tenant = tenant\<rparr>"
  note call = assms(1) [unfolded finish_cancel_def read_conn_def assms(2) sum.case]
  obtain k db1 where kill: "killRunBackgroundTasks ctx tenant runID bg now db = (k, db1)" by fastforce
  have "\<exists>rows. db = db\<lparr>background_tasks := rows\<rparr>" by (rule exI [of _ "background_tasks db"]) simp
  with kill obtain tasks where db1: "db1 = db\<lparr>background_tasks := tasks\<rparr>"
    by (auto simp: killRunBackgroundTasks_def read_conn_def assms(2) split: option.splits dest!: kill_only_tasks)
  then have runs: "runs db1 = runs db" by simp
  note call = call [unfolded kill prod.case runs]
  obtain u where k: "k = Inr u" using call by (cases k) simp_all
  obtain r where r: "sql_row (\<lambda>r. rn_id r = runID \<and> sees ?t (rn_project r)) (runs db) = Some r"
    using call k by (cases "sql_row (\<lambda>r. rn_id r = runID \<and> sees ?t (rn_project r)) (runs db)") simp_all
  obtain y db2 where fin: "(if rn_state r = RunCanceled then FinalizeResponse ctx tenant resp terminal proj db1 else (Inr (), db1)) = (y, db2)"
    by fastforce
  note call = call [unfolded k r sum.case option.case fin prod.case]
  obtain v where y: "y = Inr v" using call by (cases y) simp_all
  from call y have db2: "db2 = db'" by simp
  obtain q where q: "sql_row (\<lambda>r. rs_id r = resp \<and> sees ?t (rs_project r)) (responses db') = Some q"
    using call y db2 by (cases "sql_row (\<lambda>r. rs_id r = resp \<and> sees ?t (rs_project r)) (responses db')") simp_all
  have "st = rs_state q" using call y db2 q by simp
  with db1 r q fin y db2 show thesis by (intro that [of db1 tasks r q]) (auto split: if_splits)
qed

lemma cancel_run_result:
  fixes db :: "'a background_db_scheme"
  assumes "CancelRunReconciled ctx tenant resp runID cproj uproj bg now db = Some (Inr st, db')"
  obtains c x db1 n db2 where "PrepareConn (ScopeToTenant ctx tenant) = Inr c"
    "ApplyRunTransition (ScopeToTenant ctx tenant) tenant runID RunCmdCancel db = (x, db1)" "fatal x = None"
    "CancelChildren (ScopeToTenant ctx tenant) tenant runID cproj db1 = Some ((n, None), db2)"
    "finish_cancel (ScopeToTenant ctx tenant) tenant resp runID
       (if hasUncertainSideEffect \<lparr>tx_conn = c, tx_tenant = tenant\<rparr> runID db then ''failed_with_uncertain_side_effect'' else ''canceled'')
       (if hasUncertainSideEffect \<lparr>tx_conn = c, tx_tenant = tenant\<rparr> runID db then uproj else cproj) bg now db2 = (Inr st, db')"
proof -
  obtain c where c: "PrepareConn (ScopeToTenant ctx tenant) = Inr c"
    using assms by (cases "PrepareConn (ScopeToTenant ctx tenant)") (simp_all add: CancelRunReconciled_def read_conn_def Let_def)
  obtain x db1 where tr: "ApplyRunTransition (ScopeToTenant ctx tenant) tenant runID RunCmdCancel db = (x, db1)"
    by (cases "ApplyRunTransition (ScopeToTenant ctx tenant) tenant runID RunCmdCancel db")
  note call = assms [unfolded CancelRunReconciled_def read_conn_def Let_def scope_again c sum.case tr prod.case]
  have x: "fatal x = None" using call by (cases "fatal x") simp_all
  from call x obtain n err db2 where ch: "CancelChildren (ScopeToTenant ctx tenant) tenant runID cproj db1 = Some ((n, err), db2)"
    by (cases "CancelChildren (ScopeToTenant ctx tenant) tenant runID cproj db1") auto
  with call x have "err = None" by (cases err) simp_all
  with call x ch c tr show thesis by (intro that) simp_all
qed

lemma finish_runs:
  fixes db :: "'a background_db_scheme"
  assumes "finish_cancel ctx tenant resp runID terminal proj bg now db = (Inr st, db')"
    and "PrepareConn (ScopeToTenant ctx tenant) = Inr c"
  shows "runs db' = runs db"
  using assms
proof (rule finish_result)
  fix tasks r db1 assume "db1 = db\<lparr>background_tasks := tasks\<rparr>"
    and "if rn_state r = RunCanceled then FinalizeResponse ctx tenant resp terminal proj db1 = (Inr (), db') else db' = db1"
  then show ?thesis by (auto split: if_splits dest!: finalize_responses)
qed

lemma cancel_run_returns:
  fixes db :: "'a background_db_scheme"
  assumes "run_forest (runs db)"
  shows "\<exists>y. CancelRunReconciled ctx tenant resp runID cproj uproj bg now db = Some y"
proof -
  let ?c = "ScopeToTenant ctx tenant"
  obtain x db1 where tr: "ApplyRunTransition ?c tenant runID RunCmdCancel db = (x, db1)" by fastforce
  have "run_forest (runs db1)"
    using run_forest_le [OF transition_runs [OF tr] assms] assms by (simp add: run_forest_def)
  note found = descendants_return [OF this]
  have "NonTerminalChildRuns ?c tenant runID db1 \<noteq> None"
    by (cases "PrepareConn ?c") (use found in \<open>auto simp: NonTerminalChildRuns_def\<close>)
  then obtain found' where "NonTerminalChildRuns ?c tenant runID db1 = Some found'" by blast
  then obtain z where z: "CancelChildren ?c tenant runID cproj db1 = Some z"
    by (simp only: CancelChildren_def Let_def scope_again option.map)
  obtain n err db2 where "z = ((n, err), db2)" by (metis surj_pair)
  with z show ?thesis
    by (cases "fatal x"; cases "PrepareConn ?c"; cases err) (simp_all add: CancelRunReconciled_def read_conn_def Let_def tr)
qed

text \<open>
  C11. A cancellation returns, and a successful one ends the whole subtree.  The run and every run that
  descends from it within the project have reached a terminal state, those that had ended before keeping
  theirs.  That the descendant query returns rests on the order in which runs were inserted: a parent is
  an earlier row.
\<close>

theorem cancel_ends_subtree:
  fixes db :: "'a background_db_scheme"
  assumes "run_forest (runs db)"
  shows "\<exists>x db'. CancelRunReconciled ctx tenant resp runID cproj uproj bg now db = Some (x, db') \<and>
    (\<forall>st. x = Inr st \<longrightarrow> list_all2 run_le (runs db) (runs db') \<and>
       (\<forall>r \<in> set (runs db'). rn_id r = runID \<or> descends (runs db') tenant runID (rn_id r) \<longrightarrow> run_terminal (rn_state r)))"
proof -
  obtain x db' where call: "CancelRunReconciled ctx tenant resp runID cproj uproj bg now db = Some (x, db')"
    using cancel_run_returns [OF assms] by (metis surj_pair)
  have "list_all2 run_le (runs db) (runs db') \<and>
      (\<forall>r \<in> set (runs db'). rn_id r = runID \<or> descends (runs db') tenant runID (rn_id r) \<longrightarrow> run_terminal (rn_state r))"
    if x: "x = Inr st" for st
  proof -
    from call [unfolded x] obtain c y db1 n db2 where c: "PrepareConn (ScopeToTenant ctx tenant) = Inr c"
      and tr: "ApplyRunTransition (ScopeToTenant ctx tenant) tenant runID RunCmdCancel db = (y, db1)" "fatal y = None"
      and ch: "CancelChildren (ScopeToTenant ctx tenant) tenant runID cproj db1 = Some ((n, None), db2)"
      and fin: "finish_cancel (ScopeToTenant ctx tenant) tenant resp runID
        (if hasUncertainSideEffect \<lparr>tx_conn = c, tx_tenant = tenant\<rparr> runID db then ''failed_with_uncertain_side_effect'' else ''canceled'')
        (if hasUncertainSideEffect \<lparr>tx_conn = c, tx_tenant = tenant\<rparr> runID db then uproj else cproj) bg now db2 = (Inr st, db')"
      by (rule cancel_run_result)
    have d: "distinct (map rn_id (runs db))" using assms by (simp add: run_forest_def)
    have c': "PrepareConn (ScopeToTenant (ScopeToTenant ctx tenant) tenant) = Inr c" using c by simp
    have le1: "list_all2 run_le (runs db) (runs db1)" using transition_runs [OF tr(1) d] .
    have root: "tenant_policy c tenant" "ended {runID} (runs db1)"
      using cancel_ends_run [OF tr c' d] by (auto simp: ended_def)
    note sub = cancel_children_ends [OF ch c' root(1) run_forest_le [OF le1 assms]]
    note last = finish_runs [OF fin c']
    from sub have le2: "list_all2 run_le (runs db1) (runs db')" by (simp add: last)
    have "list_all2 run_le (runs db) (runs db')" using le1 le2 by (rule all_run_le_trans)
    moreover from this have d': "distinct (map rn_id (runs db'))" using d run_le_ids by metis
    moreover have "ended {rn_id r} (runs db')" if "rn_id r = runID \<or> descends (runs db') tenant runID (rn_id r)" for r
      using that root(2) ended_le [OF root(2) le2] descends_le [OF le2] sub by (auto simp: last)
    ultimately show ?thesis using key_unique [OF d'] by (metis ended_def singletonI)
  qed
  with call show ?thesis by blast
qed

section \<open>What a cancellation leaves\<close>

definition same_outcome :: "'a background_db_scheme \<Rightarrow> 'a background_db_scheme \<Rightarrow> bool" where
  "same_outcome s s' \<longleftrightarrow> responses s' = responses s \<and> background_tasks s' = background_tasks s"

interpretation outcome_same: effect_statements same_outcome
  by unfold_locales (auto intro!: tx_inI simp: same_outcome_def sql_defs enqueue_outbox_def Let_def journal_event_def newEventID_def
      tx_iffs split: if_splits list.splits)

lemma transition_outcome:
  "ApplyRunTransition ctx tenant runID cmd db = (x, db') \<Longrightarrow> same_outcome db db'"
proof -
  assume "ApplyRunTransition ctx tenant runID cmd db = (x, db')"
  from begin_tx_cases [OF this [unfolded ApplyRunTransition_def]] show ?thesis
    using tx_inD [OF outcome_same.st_run] by (fastforce simp: same_outcome_def UpdateRunState_def tx_write_def tx_in_def)
qed

lemma finalize_result:
  assumes "FinalizeResponse ctx tenant resp st proj db = (Inr (), db')" and "PrepareConn (ScopeToTenant ctx tenant) = Inr c"
  shows "db' = db\<lparr>responses := sql_update (\<lambda>r. rs_id r = resp \<and> sees \<lparr>tx_conn = c, tx_tenant = tenant\<rparr> (rs_project r) \<and>
      rs_state r \<notin> set settled_response_states) (\<lambda>r. r\<lparr>rs_state := st, rs_output := Some proj\<rparr>) (responses db)\<rparr>"
  using assms by (simp add: FinalizeResponse_def begin_tx_def commit_def UpdateResponse_def tx_write_def)

text \<open>The rows of some responses, and the tasks, through the cancellation of runs that answer other responses.\<close>

definition spared :: "string set \<Rightarrow> 'a background_db_scheme \<Rightarrow> 'a background_db_scheme \<Rightarrow> bool" where
  "spared ids s s' \<longleftrightarrow> filter (\<lambda>q. rs_id q \<in> ids) (responses s') = filter (\<lambda>q. rs_id q \<in> ids) (responses s) \<and>
     background_tasks s' = background_tasks s"

lemma spared_refl: "spared ids s s"
  by (simp add: spared_def)

lemma spared_trans: "spared ids a b \<Longrightarrow> spared ids b c \<Longrightarrow> spared ids a c"
  by (simp add: spared_def)

lemma finalize_spares:
  assumes "FinalizeResponse ctx tenant other st proj db = (x, db')" and "other \<notin> ids" shows "spared ids db db'"
proof -
  have "filter (\<lambda>q. rs_id q \<in> ids) (sql_update p (\<lambda>r. r\<lparr>rs_state := st, rs_output := Some proj\<rparr>) rows) =
      filter (\<lambda>q. rs_id q \<in> ids) rows" if "\<And>r. p r \<Longrightarrow> rs_id r = other" for p and rows :: "response_row list"
    using that assms(2) by (induction rows) (auto simp: sql_update_def)
  note kept = this
  show ?thesis
    using begin_tx_cases [OF assms(1) [unfolded FinalizeResponse_def]]
    by (auto simp: spared_def UpdateResponse_def tx_write_def intro!: kept)
qed

lemma cancel_loop_spares:
  "cancel_loop ctx tenant proj refs n db = (z, db') \<Longrightarrow> ids \<inter> snd ` set refs = {} \<Longrightarrow> spared ids db db'"
proof (induction refs arbitrary: n db)
  case (Cons ref refs)
  obtain i other where ref: "ref = (i, other)" by (cases ref)
  obtain x db1 where tr: "ApplyRunTransition ctx tenant i RunCmdCancel db = (x, db1)" by fastforce
  from transition_outcome [OF tr] have 1: "spared ids db db1" by (simp add: spared_def same_outcome_def)
  show ?case
  proof (cases x)
    case (Inl e)
    with Cons tr ref 1 show ?thesis by (auto split: if_splits intro: spared_trans)
  next
    case (Inr a)
    obtain y db2 where fin: "FinalizeResponse ctx tenant other ''canceled'' proj db1 = (y, db2)" by fastforce
    have 2: "spared ids db1 db2" using finalize_spares [OF fin] Cons.prems(2) ref by auto
    show ?thesis using Cons tr ref Inr fin 1 2 by (cases y) (auto intro: spared_trans)
  qed
qed (simp add: spared_refl)

lemma subtree_rows: "subtree t rows level = Some out \<Longrightarrow> set out \<subseteq> set level \<union> set rows"
proof (rule subtree.raw_induct [where P = "\<lambda>t rows level out. set out \<subseteq> set level \<union> set rows"])
  fix f t rows level out
  assume IH: "\<And>t rows level out. f t rows level = Some out \<Longrightarrow> set out \<subseteq> set level \<union> set rows"
    and eq: "(if level = [] then Some []
      else Option.bind (f t rows (children_of t rows (set (map rn_id level)))) (\<lambda>below. Some (level @ below))) = Some out"
  show "set out \<subseteq> set level \<union> set rows"
  proof (cases "level = []")
    case False
    with eq obtain below where b: "f t rows (children_of t rows (set (map rn_id level))) = Some below" "out = level @ below"
      by (auto simp: bind_eq_Some_conv)
    from IH [OF b(1)] b(2) show ?thesis by (auto simp: set_children)
  qed (use eq in simp)
qed

lemma descendants_rows:
  "NonTerminalDescendantRuns t anc db = Some out \<Longrightarrow> r \<in> set out \<Longrightarrow> r \<in> set (runs db) \<and> rn_state r \<in> live_states"
  by (auto simp: NonTerminalDescendantRuns_def set_children dest!: subtree_rows)

lemma cancel_children_spares:
  assumes "CancelChildren ctx tenant runID proj db = Some (z, db')"
    and "\<forall>r \<in> set (runs db). (\<exists>i \<in> ids. rn_response r = Some i) \<longrightarrow> run_terminal (rn_state r)"
  shows "spared ids db db'"
proof -
  let ?ctx = "ScopeToTenant ctx tenant"
  from assms(1) obtain found where found: "NonTerminalChildRuns ?ctx tenant runID db = Some found"
    and "(case found of Inl e \<Rightarrow> ((0, Some e), db) | Inr refs \<Rightarrow> cancel_loop ?ctx tenant proj refs 0 db) = (z, db')"
    by (auto simp: CancelChildren_def Let_def)
  moreover have "ids \<inter> snd ` set refs = {}" if refs: "found = Inr refs" for refs
  proof -
    from found refs obtain t out where out: "NonTerminalDescendantRuns t runID db = Some out"
      and refs': "refs = map (\<lambda>r. (rn_id r, or_empty (rn_response r))) out" and "\<not> list_ex (\<lambda>r. rn_response r = None) out"
      by (auto simp: NonTerminalChildRuns_def split: sum.splits if_splits)
    with descendants_rows [OF out] assms(2) run_terminal_live show ?thesis
      by (fastforce simp: list_ex_iff or_empty_def)
  qed
  ultimately show ?thesis by (cases found) (auto intro: spared_refl dest: cancel_loop_spares)
qed

text \<open>A response that only an ended run answers.\<close>

lemma answered_by_one:
  assumes "list_all2 run_le rows rows'" and "distinct (map rn_id rows')" and "r \<in> set rows'" and "run_terminal (rn_state r)"
    and "\<forall>r \<in> set rows. rn_response r = Some resp \<longrightarrow> rn_id r = runID" and "rn_id r = runID"
  shows "\<forall>r \<in> set rows'. (\<exists>i \<in> {resp}. rn_response r = Some i) \<longrightarrow> run_terminal (rn_state r)"
proof safe
  fix y assume y: "y \<in> set rows'" "rn_response y = Some resp"
  with assms(1) obtain y0 where "y0 \<in> set rows" "run_le y0 y" by (metis in_set_conv_nth list_all2_conv_all_nth)
  with y assms(5) run_le_same have "rn_id y = runID" by metis
  with key_unique [OF assms(2) y(1) assms(3)] assms(4,6) show "run_terminal (rn_state y)" by simp
qed

lemma update_keyed_row:
  fixes rows :: "response_row list"
  assumes "filter (\<lambda>q. rs_id q = k) rows = [q]"
  shows "filter (\<lambda>q. rs_id q = k) (sql_update (\<lambda>r. rs_id r = k \<and> p r) (\<lambda>r. r\<lparr>rs_state := st, rs_output := out\<rparr>) rows) =
    [if p q then q\<lparr>rs_state := st, rs_output := out\<rparr> else q]"
proof -
  have "filter (\<lambda>q. rs_id q = k) (sql_update (\<lambda>r. rs_id r = k \<and> p r) (\<lambda>r. r\<lparr>rs_state := st, rs_output := out\<rparr>) rows) =
      map (\<lambda>r. if p r then r\<lparr>rs_state := st, rs_output := out\<rparr> else r) (filter (\<lambda>q. rs_id q = k) rows)"
    by (induction rows) (auto simp: sql_update_def)
  with assms show ?thesis by simp
qed

lemma in_keyed_rows: "x \<in> set rows \<Longrightarrow> f x = k \<Longrightarrow> x \<in> set (filter (\<lambda>x. f x = k) rows)"
  by simp

text \<open>
  A cancelled run settles its response exactly once and truthfully.  When the run had not ended and its
  response, which no other run answers, was open, a successful cancellation returns, and stores, the state
  that says whether the run's irreversible or interactive calls are left uncertain, with the matching output.
\<close>

theorem cancel_outcome:
  fixes db :: "'a background_db_scheme"
  assumes "run_forest (runs db)"
    and "CancelRunReconciled ctx tenant resp runID cproj uproj bg now db = Some (Inr st, db')"
    and "r \<in> set (runs db)" and "rn_id r = runID" and "\<not> run_terminal (rn_state r)"
    and "\<forall>r \<in> set (runs db). rn_response r = Some resp \<longrightarrow> rn_id r = runID"
    and "filter (\<lambda>q. rs_id q = resp) (responses db) = [q]" and "rs_project q = tenant"
    and "rs_state q \<notin> set settled_response_states"
  shows "let uncertain = (\<exists>c \<in> set (tool_calls db). tc_run c = runID \<and> tc_project c = tenant \<and>
        tc_state c \<in> {ToolCallUncertain, ToolCallManualResolution} \<and> tc_replay_class c \<in> {''irreversible'', ''interactive''})
    in st = (if uncertain then ''failed_with_uncertain_side_effect'' else ''canceled'') \<and>
       filter (\<lambda>q. rs_id q = resp) (responses db') = [q\<lparr>rs_state := st, rs_output := Some (if uncertain then uproj else cproj)\<rparr>]"
proof -
  let ?ctx = "ScopeToTenant ctx tenant"
  from assms(2) obtain c x db1 n db2 where c: "PrepareConn ?ctx = Inr c"
    and tr: "ApplyRunTransition ?ctx tenant runID RunCmdCancel db = (x, db1)" "fatal x = None"
    and ch: "CancelChildren ?ctx tenant runID cproj db1 = Some ((n, None), db2)"
    and fin: "finish_cancel ?ctx tenant resp runID
       (if hasUncertainSideEffect \<lparr>tx_conn = c, tx_tenant = tenant\<rparr> runID db then ''failed_with_uncertain_side_effect'' else ''canceled'')
       (if hasUncertainSideEffect \<lparr>tx_conn = c, tx_tenant = tenant\<rparr> runID db then uproj else cproj) bg now db2 = (Inr st, db')"
    by (rule cancel_run_result)
  let ?t = "\<lparr>tx_conn = c, tx_tenant = tenant\<rparr>"
  let ?u = "hasUncertainSideEffect ?t runID db"
  let ?st = "if ?u then ''failed_with_uncertain_side_effect'' else ''canceled''" and ?proj = "if ?u then uproj else cproj"
  have c': "PrepareConn (ScopeToTenant ?ctx tenant) = Inr c" using c by simp
  have d: "distinct (map rn_id (runs db))" using assms(1) by (simp add: run_forest_def)
  from cancel_ends_run [OF tr c' d] assms(3-5) obtain r1 where pol: "tenant_policy c tenant" and r1: "r1 \<in> set (runs db1)"
    "rn_id r1 = runID" "rn_state r1 = RunCanceled" by blast
  have le1: "list_all2 run_le (runs db) (runs db1)" using transition_runs [OF tr(1) d] .
  have d1: "distinct (map rn_id (runs db1))" using d run_le_ids [OF le1] by simp
  have others: "\<forall>r \<in> set (runs db1). (\<exists>i \<in> {resp}. rn_response r = Some i) \<longrightarrow> run_terminal (rn_state r)"
    using le1 d1 r1(1) _ assms(6) by (rule answered_by_one) (simp_all add: r1 run_terminal_states)
  have "spared {resp} db db1" using transition_outcome [OF tr(1)] by (simp add: spared_def same_outcome_def)
  from spared_trans [OF this cancel_children_spares [OF ch others]] have q: "filter (\<lambda>q. rs_id q = resp) (responses db2) = [q]"
    using assms(7) by (simp add: spared_def)
  have le2: "list_all2 run_le (runs db1) (runs db2)" using cancel_children_ends [OF ch c' pol run_forest_le [OF le1 assms(1)]] by simp
  from runs_le_row [OF le2 r1(1)] obtain r2 where r2: "r2 \<in> set (runs db2)" "rn_id r2 = runID" "rn_state r2 = RunCanceled"
    using run_le_same run_le_terminal r1 by (metis run_terminal_states insertI1 insert_iff)
  have d2: "distinct (map rn_id (runs db2))" using d1 run_le_ids [OF le2] by simp
  from fin c' obtain tasks r3 q' db3 where db3: "db3 = db2\<lparr>background_tasks := tasks\<rparr>"
    and r3: "sql_row (\<lambda>r. rn_id r = runID \<and> sees ?t (rn_project r)) (runs db2) = Some r3"
    and fz: "if rn_state r3 = RunCanceled then FinalizeResponse ?ctx tenant resp ?st ?proj db3 = (Inr (), db') else db' = db3"
    and q': "sql_row (\<lambda>r. rs_id r = resp \<and> sees ?t (rs_project r)) (responses db') = Some q'" "st = rs_state q'"
    by (rule finish_result)
  have "r3 = r2" using sql_row_Some [OF r3] r2 key_unique [OF d2] by simp
  with fz r2 have "FinalizeResponse ?ctx tenant resp ?st ?proj db3 = (Inr (), db')" by simp
  note new = finalize_result [OF this c']
  have "filter (\<lambda>q. rs_id q = resp) (responses db') = [q\<lparr>rs_state := ?st, rs_output := Some ?proj\<rparr>]"
    using update_keyed_row [OF q] pol assms(8,9) by (simp add: new db3 sees_def)
  moreover from this have "st = ?st"
    using sql_row_Some [OF q'(1)] q'(2) in_keyed_rows [of q' "responses db'" rs_id resp] by simp
  moreover have "?u = (\<exists>c \<in> set (tool_calls db). tc_run c = runID \<and> tc_project c = tenant \<and>
        tc_state c \<in> {ToolCallUncertain, ToolCallManualResolution} \<and> tc_replay_class c \<in> {''irreversible'', ''interactive''})"
    using pol by (auto simp: hasUncertainSideEffect_def list_ex_iff sees_def)
  ultimately show ?thesis by (simp add: Let_def)
qed

lemma settle_end_spares:
  assumes "SettleEndedBackgroundTask ctx tenant runID taskID state now db = (x, db')"
    and "b \<in> set (background_tasks db)" and "bt_id b \<noteq> taskID"
  shows "b \<in> set (background_tasks db')"
proof -
  have "b \<in> set (background_tasks s')" if "settle_ended t taskID state now db = Inr (u, s')" for t s' u
    using that assms(2,3) by (auto simp: settle_ended_def sql_update_def Let_def image_iff split: if_splits intro!: bexI [of _ b])
  then show ?thesis
    using assms(2) begin_tx_cases [OF assms(1) [unfolded SettleEndedBackgroundTask_def]]
    by (auto simp: tx_bind_eq LockRun_def split: option.splits)
qed

lemma kill_spares:
  "kill_tasks ctx tenant runID kill now tasks db = (x, db') \<Longrightarrow> b \<in> set (background_tasks db) \<Longrightarrow>
   bt_id b \<notin> bk_ID ` set tasks \<Longrightarrow> b \<in> set (background_tasks db')"
proof (induction tasks arbitrary: db)
  case (Cons task tasks)
  obtain st kerr where kill: "kill task = (st, kerr)" by fastforce
  obtain y db1 where ended: "SettleEndedBackgroundTask ctx tenant runID (bk_ID task) st now db = (y, db1)" by fastforce
  have "b \<in> set (background_tasks db1)" using settle_end_spares [OF ended] Cons.prems by auto
  then show ?case using Cons kill ended by (cases y) (auto split: if_splits)
qed simp

lemma finish_spares:
  assumes "finish_cancel ctx tenant resp runID terminal proj bg now db = (x, db')"
    and "distinct (map bt_id (background_tasks db))" and "b \<in> set (background_tasks db)" and "bt_run b \<noteq> runID"
  shows "b \<in> set (background_tasks db')"
proof -
  obtain k db1 where kill: "killRunBackgroundTasks ctx tenant runID bg now db = (k, db1)" by fastforce
  have own: "bt_id b \<notin> bk_ID ` set (RunningBackgroundTasksOfRun t runID db)" for t
    using key_unique [OF assms(2,3)] assms(4) by (fastforce simp: RunningBackgroundTasksOfRun_def by_start_def partial_task_def)
  have b: "b \<in> set (background_tasks db1)"
    using kill assms(3)
    by (auto simp: killRunBackgroundTasks_def read_conn_def split: option.splits sum.splits intro: kill_spares [OF _ _ own])
  have fin: "background_tasks s' = background_tasks s" if "FinalizeResponse ctx tenant resp terminal proj s = (y, s')"
    for y and s s' :: "'a background_db_scheme"
    using finalize_responses [OF that] by auto
  show ?thesis
  proof (cases k)
    case (Inr u)
    obtain y db2 where f: "FinalizeResponse ctx tenant resp terminal proj db1 = (y, db2)" by fastforce
    show ?thesis using assms(1) kill Inr b f fin [OF f]
      by (cases y) (auto simp: finish_cancel_def split: sum.splits if_splits)
  qed (use assms(1) kill b in \<open>auto simp: finish_cancel_def\<close>)
qed

text \<open>
  A cancellation ends the background tasks of the run it is given and of no other.  The tasks of the
  descendants, which it cancels too, are left running.
\<close>

theorem cancel_spares_child_tasks:
  fixes db :: "'a background_db_scheme"
  assumes "CancelRunReconciled ctx tenant resp runID cproj uproj bg now db = Some (x, db')"
    and "distinct (map bt_id (background_tasks db))" and "b \<in> set (background_tasks db)" and "bt_run b \<noteq> runID"
  shows "b \<in> set (background_tasks db')"
proof -
  let ?ctx = "ScopeToTenant ctx tenant"
  obtain y db1 where tr: "ApplyRunTransition ?ctx tenant runID RunCmdCancel db = (y, db1)" by fastforce
  have t1: "background_tasks db1 = background_tasks db" using transition_outcome [OF tr] by (simp add: same_outcome_def)
  have "background_tasks db2 = background_tasks db" if "CancelChildren ?ctx tenant runID cproj db1 = Some (z, db2)" for z db2
    using cancel_children_spares [OF that, of "{}"] t1 by (simp add: spared_def)
  with finish_spares [OF _ _ _ assms(4)] assms(1-3) tr t1 show ?thesis
    by (fastforce simp: CancelRunReconciled_def read_conn_def Let_def bind_eq_Some_conv split: sum.splits option.splits)
qed

section \<open>Instances\<close>

definition sample_cancel :: "(string result \<times> background_db) option" where
  "sample_cancel = CancelRunReconciled (WithTenant None ''p'') ''p'' ''q'' ''r'' JNull (JStr ''uncertain'')
     (Some (\<lambda>_. (''killed'', None))) 9 sample_execution"

definition sample_canceled :: background_db where
  "sample_canceled = snd (the sample_cancel)"

lemma sample_cancel_ok: "map_option fst sample_cancel = Some (Inr ''failed_with_uncertain_side_effect'')"
  by code_simp

lemma returned_pair: "map_option fst z = Some a \<Longrightarrow> z = Some (a, snd (the z))"
  by (cases z) auto

lemma sample_cancel_eq: "sample_cancel = Some (Inr ''failed_with_uncertain_side_effect'', sample_canceled)"
  unfolding sample_canceled_def by (rule returned_pair [OF sample_cancel_ok])

lemma sample_forest: "run_forest (runs sample_execution)"
  by (auto simp: run_forest_def sample_execution_def sample_run_def less_Suc_eq)

theorem run_forest_invariant_witness: "run_forest (runs (snd (sample_begin ''u'' sample_execution)))"
proof -
  have "(execution_step id id (\<lambda>_. ''''))\<^sup>*\<^sup>* sample_execution (snd (sample_begin ''u'' sample_execution))"
    unfolding sample_begin_def
    by (rule r_into_rtranclp, rule execution_step.begin_call, rule sample_pair [OF sample_begin_ok(2) [unfolded sample_begin_def]])
  with sample_forest show ?thesis by (rule run_forest_invariant)
qed

theorem cancel_ends_subtree_witness: "\<exists>r \<in> set (runs sample_canceled). rn_id r = ''r'' \<and> run_terminal (rn_state r)"
proof -
  have "list_all2 run_le (runs sample_execution) (runs sample_canceled)"
    and ended: "\<forall>r \<in> set (runs sample_canceled). rn_id r = ''r'' \<longrightarrow> run_terminal (rn_state r)"
    using cancel_ends_subtree [OF sample_forest, of "WithTenant None ''p''" "''p''" "''q''" "''r''" JNull "JStr ''uncertain''"
        "Some (\<lambda>_. (''killed'', None))" 9] sample_cancel_eq [unfolded sample_cancel_def]
    by auto
  from runs_le_row [OF this(1), of "sample_run ''r'' ''q'' None"] obtain r where "r \<in> set (runs sample_canceled)" "rn_id r = ''r''"
    by (auto simp: sample_execution_def sample_run_def dest: run_le_same)
  with ended show ?thesis by blast
qed

theorem cancel_outcome_witness:
  "filter (\<lambda>q. rs_id q = ''q'') (responses sample_canceled) =
     [sample_response ''q''\<lparr>rs_state := ''failed_with_uncertain_side_effect'', rs_output := Some (JStr ''uncertain'')\<rparr>]"
  using cancel_outcome [OF sample_forest sample_cancel_eq [unfolded sample_cancel_def], of "sample_run ''r'' ''q'' None" "sample_response ''q''"]
  by (simp add: sample_execution_def sample_run_def sample_response_def sample_call_def run_terminal_states settled_response_states_def)

theorem cancel_spares_child_tasks_witness: "sample_task ''t2'' ''c'' \<in> set (background_tasks sample_canceled)"
  by (rule cancel_spares_child_tasks [OF sample_cancel_eq [unfolded sample_cancel_def] sample_execution_keys(2)])
    (simp_all add: sample_execution_def sample_task_def)

end
