(* ===== verification/Recovery.thy ===== *)
theory Recovery
  imports Background
begin

text \<open>
  Recovery of an interrupted run: the attempts of a run (\<^verbatim>\<open>RecordAttempt\<close> of
  \<^verbatim>\<open>src/packages/coordinator/store.go\<close>), the durable recovery objects
  (\<^verbatim>\<open>src/packages/coordinator/recovery/objects.go\<close>), the recovery ladder (\<^verbatim>\<open>ladder.go\<close>), the proof of a
  recovery (\<^verbatim>\<open>proof.go\<close>), and the control plane's half: the checkpoint sink
  (\<^verbatim>\<open>src/apps/control-plane/internal/execution/checkpoint.go\<close>) and the consultation of the ladder
  (\<^verbatim>\<open>restore.go\<close>).

  The object store is a service: \<open>put\<close> and \<open>get\<close> are functions of its state \<open>'o\<close>.  SHA-256, base64 decoding
  and the database's JSON parser are arguments.  The effective configuration of a run and the restorability
  of a workspace snapshot, which other components resolve, are arguments of the consultation.
\<close>

section \<open>Tables\<close>

record attempt_row =
  at_id :: string
  at_project :: string
  at_run :: string
  at_fence :: int
  at_state :: string

record boundary_row =
  tb_id :: string
  tb_run :: string
  tb_attempt :: string
  tb_project :: string
  tb_sequence :: int

record checkpoint_row =
  cp_id :: string
  cp_run :: string
  cp_attempt :: string
  cp_boundary :: string
  cp_project :: string
  cp_engine_digest :: string
  cp_engine_version :: string
  cp_protocol_version :: string
  cp_format :: string
  cp_format_version :: int
  cp_config_hash :: string
  cp_sequence :: int
  cp_snapshot :: "string option"
  cp_checksum :: string
  cp_object_key :: string
  cp_size :: int
  cp_pending :: json
  cp_created_at :: int

record snapshot_row =
  sn_id :: string
  sn_project :: string
  sn_object_key :: string

record recovery_db = background_db +
  attempts :: "attempt_row list"
  transcript_boundaries :: "boundary_row list"
  checkpoints :: "checkpoint_row list"
  workspace_snapshots :: "snapshot_row list"

definition NumericOutOfRange :: error where
  "NumericOutOfRange = Sentinel ''postgres'' ''22003''"

definition InvalidText :: error where
  "InvalidText = Sentinel ''postgres'' ''22P02''"

section \<open>Attempts\<close>

text \<open>The states of the partial unique index, and those that a new attempt supersedes.\<close>

definition active_attempt_states :: "string list" where
  "active_attempt_states = [''assigned'', ''starting'', ''active'', ''draining'']"

definition superseded_states :: "string list" where
  "superseded_states = active_attempt_states @ [''awaiting_capacity'']"

definition SupersedeActiveAttempts :: "txn \<Rightarrow> string \<Rightarrow> string \<Rightarrow> ('a recovery_db_scheme, unit) tx" where
  [sql_defs]: "SupersedeActiveAttempts t runID attemptID = tx_write (\<lambda>db.
     db\<lparr>attempts := sql_update (\<lambda>a. at_run a = runID \<and> sees t (at_project a) \<and> at_id a \<noteq> attemptID \<and>
            at_state a \<in> set superseded_states)
          (\<lambda>a. a\<lparr>at_state := ''preempted''\<rparr>) (attempts db)\<rparr>)"

text \<open>\<^verbatim>\<open>COALESCE(MAX(...), 0)\<close>.\<close>

definition max_or_zero :: "int list \<Rightarrow> int" where
  "max_or_zero xs = (case xs of [] \<Rightarrow> 0 | x # rest \<Rightarrow> foldl max x rest)"

definition UpsertAttempt :: "txn \<Rightarrow> string \<Rightarrow> string \<Rightarrow> ('a recovery_db_scheme, unit) tx" where
  [sql_defs]: "UpsertAttempt t attemptID runID = (\<lambda>db.
     let fence = max_or_zero (map at_fence (filter (\<lambda>a. at_run a = runID \<and> sees t (at_project a)) (attempts db))) + 1;
         row = \<lparr>at_id = attemptID, at_project = tx_tenant t, at_run = runID, at_fence = fence, at_state = ''assigned''\<rparr>
     in if fence > 2 ^ 63 - 1 then Inl NumericOutOfRange
        else if \<not> tenant_policy (tx_conn t) (at_project row) then Inl RowSecurity
        else if fence < 1 then Inl CheckViolation
        else if attemptID \<in> set (map at_id (attempts db)) then Inr ((), db)
        else if list_ex (\<lambda>a. at_run a = runID \<and> (at_fence a = fence \<or> at_state a \<in> set active_attempt_states)) (attempts db)
        then Inl UniqueViolation
        else if runID \<notin> set (map rn_id (runs db)) then Inl ForeignKeyViolation
        else Inr ((), db\<lparr>attempts := attempts db @ [row]\<rparr>))"

definition RecordAttempt :: "ctx \<Rightarrow> string \<Rightarrow> string \<Rightarrow> string \<Rightarrow> 'a recovery_db_scheme \<Rightarrow> unit result \<times> 'a recovery_db_scheme" where
  "RecordAttempt ctx tenant runID attemptID =
     begin_tx ctx tenant ''begin record attempt'' (\<lambda>t.
       tx_then (tx_wrap ''supersede prior attempts'' (SupersedeActiveAttempts t runID attemptID))
         (tx_wrap ''record attempt'' (UpsertAttempt t attemptID runID)))"

section \<open>Reads of the ladder\<close>

definition CommittedModelStepCount :: "ctx \<Rightarrow> string \<Rightarrow> string \<Rightarrow> 'a execution_db_scheme \<Rightarrow> int result" where
  "CommittedModelStepCount ctx tenant runID = read_conn ctx tenant ''read committed model step count'' (\<lambda>t db.
     Inr (int (length (filter (\<lambda>m. mr_run m = runID \<and> sees t (mr_project m) \<and> mr_completed m) (model_requests db)))))"

text \<open>The newest checkpoint of a run; among checkpoints of one instant the query leaves the choice open.\<close>

definition latest_checkpoint :: "txn \<Rightarrow> string \<Rightarrow> 'a recovery_db_scheme \<Rightarrow> checkpoint_row option" where
  "latest_checkpoint t runID db =
     (case rev (sort_key cp_created_at (filter (\<lambda>c. cp_run c = runID \<and> sees t (cp_project c)) (checkpoints db))) of
        [] \<Rightarrow> None | c # _ \<Rightarrow> Some c)"

definition LatestRunCheckpoint :: "ctx \<Rightarrow> string \<Rightarrow> string \<Rightarrow> 'a recovery_db_scheme \<Rightarrow> checkpoint_row option result" where
  "LatestRunCheckpoint ctx tenant runID = read_conn ctx tenant ''read latest run checkpoint'' (\<lambda>t db. Inr (latest_checkpoint t runID db))"

section \<open>Recovery objects\<close>

definition MaxCheckpointBytes :: int where
  "MaxCheckpointBytes = 2 ^ 20"

definition ErrCheckpointExists :: error where
  "ErrCheckpointExists = Sentinel ''recovery'' ''checkpoint_exists''"

definition ErrCheckpointTooLarge :: error where
  "ErrCheckpointTooLarge = Sentinel ''recovery'' ''checkpoint_too_large''"

definition ErrChecksumRequired :: error where
  "ErrChecksumRequired = Sentinel ''recovery'' ''checkpoint_checksum_required''"

record PersistInput =
  pi_CheckpointID :: string
  pi_BoundaryID :: string
  pi_Project :: string
  pi_RunID :: string
  pi_AttemptID :: string
  pi_EngineDigest :: string
  pi_EngineVersion :: string
  pi_ProtocolVersion :: string
  pi_Format :: string
  pi_FormatVersion :: int
  pi_ConfigSnapshotHash :: string
  pi_TranscriptSequence :: int
  pi_WorkspaceSnapshotID :: string
  pi_ContentChecksum :: string
  pi_ObjectKey :: string
  pi_SizeBytes :: int
  pi_PendingOperations :: string

definition InsertTranscriptBoundary :: "txn \<Rightarrow> boundary_row \<Rightarrow> ('a recovery_db_scheme, unit) tx" where
  [sql_defs]: "InsertTranscriptBoundary t b = (\<lambda>db.
     if \<not> tenant_policy (tx_conn t) (tb_project b) then Inl RowSecurity
     else if tb_id b \<in> set (map tb_id (transcript_boundaries db)) then Inr ((), db)
     else if tb_attempt b \<notin> set (map at_id (attempts db)) \<or> tb_run b \<notin> set (map rn_id (runs db)) then Inl ForeignKeyViolation
     else Inr ((), db\<lparr>transcript_boundaries := transcript_boundaries db @ [b]\<rparr>))"

definition InsertCheckpoint :: "txn \<Rightarrow> checkpoint_row \<Rightarrow> ('a recovery_db_scheme, unit) tx" where
  [sql_defs]: "InsertCheckpoint t c = (\<lambda>db.
     if \<not> int4_ok (Some (cp_format_version c)) then Inl (Errorf [] ''encode format version'')
     else if \<not> tenant_policy (tx_conn t) (cp_project c) then Inl RowSecurity
     else if cp_id c \<in> set (map cp_id (checkpoints db)) then Inl UniqueViolation
     else if cp_attempt c \<notin> set (map at_id (attempts db)) \<or> cp_boundary c \<notin> set (map tb_id (transcript_boundaries db)) \<or>
       cp_run c \<notin> set (map rn_id (runs db)) \<or> \<not> foreign_ok sn_id (cp_snapshot c) (workspace_snapshots db)
     then Inl ForeignKeyViolation
     else Inr ((), db\<lparr>checkpoints := checkpoints db @ [c]\<rparr>))"

definition checkpoint_of :: "PersistInput \<Rightarrow> json \<Rightarrow> int \<Rightarrow> checkpoint_row" where
  "checkpoint_of inp pending now = \<lparr>cp_id = pi_CheckpointID inp, cp_run = pi_RunID inp, cp_attempt = pi_AttemptID inp,
     cp_boundary = pi_BoundaryID inp, cp_project = pi_Project inp, cp_engine_digest = pi_EngineDigest inp,
     cp_engine_version = pi_EngineVersion inp, cp_protocol_version = pi_ProtocolVersion inp, cp_format = pi_Format inp,
     cp_format_version = pi_FormatVersion inp, cp_config_hash = pi_ConfigSnapshotHash inp,
     cp_sequence = pi_TranscriptSequence inp, cp_snapshot = nullableText (pi_WorkspaceSnapshotID inp),
     cp_checksum = pi_ContentChecksum inp, cp_object_key = pi_ObjectKey inp, cp_size = pi_SizeBytes inp,
     cp_pending = pending, cp_created_at = now\<rparr>"

text \<open>An error of the insert: the unique violation is the immutability of the row.\<close>

definition insert_checkpoint :: "(string \<Rightarrow> json option) \<Rightarrow> txn \<Rightarrow> PersistInput \<Rightarrow> int \<Rightarrow> ('a recovery_db_scheme, unit) tx" where
  "insert_checkpoint parse t inp now = (\<lambda>db.
     let pendingOps = (if pi_PendingOperations inp = '''' then ''[]'' else pi_PendingOperations inp)
     in case parse pendingOps of
          None \<Rightarrow> Inl (Errorf [InvalidText] ''insert checkpoint'')
        | Some pending \<Rightarrow>
            (case InsertCheckpoint t (checkpoint_of inp pending now) db of
               Inl e \<Rightarrow> Inl (if e = UniqueViolation then ErrCheckpointExists else Errorf [e] ''insert checkpoint'')
             | Inr r \<Rightarrow> Inr r))"

definition Persist :: "(string \<Rightarrow> json option) \<Rightarrow> ctx \<Rightarrow> PersistInput \<Rightarrow> int \<Rightarrow> 'a recovery_db_scheme
    \<Rightarrow> unit result \<times> 'a recovery_db_scheme" where
  "Persist parse ctx inp now db =
     (if pi_ContentChecksum inp = '''' then (Inl ErrChecksumRequired, db)
      else if pi_SizeBytes inp < 0 \<or> pi_SizeBytes inp > MaxCheckpointBytes then (Inl ErrCheckpointTooLarge, db)
      else begin_tx ctx (pi_Project inp) ''begin checkpoint tx'' (\<lambda>t.
        tx_then (tx_wrap ''insert transcript boundary'' (InsertTranscriptBoundary t
            \<lparr>tb_id = pi_BoundaryID inp, tb_run = pi_RunID inp, tb_attempt = pi_AttemptID inp, tb_project = pi_Project inp,
              tb_sequence = pi_TranscriptSequence inp\<rparr>))
          (insert_checkpoint parse t inp now)) db)"

section \<open>The ladder\<close>

definition LevelExact :: string where "LevelExact = ''exact''"

definition LevelCompatibleCheckpoint :: string where "LevelCompatibleCheckpoint = ''compatible_checkpoint''"

definition LevelTranscriptReconstruction :: string where "LevelTranscriptReconstruction = ''transcript_reconstruction''"

definition LevelExplicitFailure :: string where "LevelExplicitFailure = ''explicit_failure''"

lemmas level_defs = LevelExact_def LevelCompatibleCheckpoint_def LevelTranscriptReconstruction_def LevelExplicitFailure_def

record Candidate =
  ca_Present :: bool
  ca_Format :: string
  ca_FormatVersion :: int
  ca_RecordedChecksum :: string
  ca_ComputedChecksum :: string
  ca_ConfigSnapshotHash :: string
  ca_ProtocolVersion :: string
  ca_TranscriptSequence :: int
  ca_WorkspaceSnapshotID :: string
  ca_WorkspaceRestorable :: bool

record Target =
  tt_OriginalLeaseAlive :: bool
  tt_SupportedFormats :: "string list"
  tt_ConfigSnapshotHash :: string
  tt_ProtocolVersion :: string
  tt_JournalSequence :: int
  tt_TranscriptAvailable :: bool
  tt_ReconstructionForbidden :: bool

record Decision =
  de_Level :: string
  de_Failures :: "string list"

definition containsFormatName :: "string list \<Rightarrow> string \<Rightarrow> bool" where
  "containsFormatName supported name =
     (let pre = name @ ''/'' in list_ex (\<lambda>s. length pre \<le> length s \<and> take (length pre) s = pre) supported)"

definition contains :: "string list \<Rightarrow> string \<Rightarrow> bool" where
  "contains xs want = list_ex (\<lambda>s. s = want) xs"

definition compatibilityFailures :: "Candidate \<Rightarrow> Target \<Rightarrow> string list" where
  "compatibilityFailures c t =
     (let formatID = ca_Format c @ ''/'' @ FormatInt (ca_FormatVersion c)
      in (if \<not> containsFormatName (tt_SupportedFormats t) (ca_Format c) then [''format_unsupported'']
          else if \<not> contains (tt_SupportedFormats t) formatID then [''format_version_unsupported''] else []) @
         (if ca_ComputedChecksum c = '''' \<or> ca_ComputedChecksum c \<noteq> ca_RecordedChecksum c then [''checksum_mismatch''] else []) @
         (if ca_ConfigSnapshotHash c \<noteq> tt_ConfigSnapshotHash t then [''config_changed''] else []) @
         (if ca_ProtocolVersion c \<noteq> tt_ProtocolVersion t then [''protocol_incompatible''] else []) @
         (if ca_TranscriptSequence c > tt_JournalSequence t then [''boundary_inconsistent''] else []) @
         (if ca_WorkspaceSnapshotID c \<noteq> '''' \<and> \<not> ca_WorkspaceRestorable c then [''workspace_unrestorable''] else []))"

definition reconstructOrFail :: "Target \<Rightarrow> string list \<Rightarrow> Decision" where
  "reconstructOrFail t reasons =
     (if tt_ReconstructionForbidden t then \<lparr>de_Level = LevelExplicitFailure, de_Failures = reasons\<rparr>
      else if \<not> tt_TranscriptAvailable t then \<lparr>de_Level = LevelExplicitFailure, de_Failures = reasons @ [''no_transcript'']\<rparr>
      else \<lparr>de_Level = LevelTranscriptReconstruction, de_Failures = reasons\<rparr>)"

definition Decide :: "Candidate \<Rightarrow> Target \<Rightarrow> Decision" where
  "Decide c t =
     (if tt_OriginalLeaseAlive t then \<lparr>de_Level = LevelExact, de_Failures = []\<rparr>
      else if ca_Present c
      then (let fails = compatibilityFailures c t
            in if fails = [] then \<lparr>de_Level = LevelCompatibleCheckpoint, de_Failures = []\<rparr> else reconstructOrFail t fails)
      else reconstructOrFail t [''no_checkpoint''])"

section \<open>The proof of a recovery\<close>

text \<open>A list that is \<open>None\<close> is nil: the accounting never happened.\<close>

record RecoveryProof =
  rp_PreviousAttemptID :: string
  rp_NewAttemptID :: string
  rp_Level :: string
  rp_CheckpointID :: string
  rp_WorkspaceSnapshotID :: string
  rp_TranscriptBoundaryID :: string
  rp_ReplayedToolCalls :: "string list option"
  rp_ReusedToolCalls :: "string list option"
  rp_ConfigModelChanges :: "string list option"
  rp_SemanticLossAssessed :: bool
  rp_SemanticLossWarning :: string
  rp_DurationMS :: int

definition RecoveryProof_Complete :: "RecoveryProof \<Rightarrow> bool" where
  "RecoveryProof_Complete p \<longleftrightarrow> rp_PreviousAttemptID p \<noteq> '''' \<and> rp_NewAttemptID p \<noteq> '''' \<and>
     rp_PreviousAttemptID p \<noteq> rp_NewAttemptID p \<and> rp_Level p \<noteq> '''' \<and> rp_CheckpointID p \<noteq> '''' \<and>
     rp_TranscriptBoundaryID p \<noteq> '''' \<and> rp_ReplayedToolCalls p \<noteq> None \<and> rp_ReusedToolCalls p \<noteq> None \<and>
     rp_ConfigModelChanges p \<noteq> None \<and> rp_SemanticLossAssessed p \<and> rp_DurationMS p > 0"

section \<open>The checkpoint sink\<close>

record CheckpointMeta =
  mt_Project :: string
  mt_RunID :: string
  mt_AttemptID :: string
  mt_OfferSequence :: int
  mt_EngineDigest :: string
  mt_EngineVersion :: string
  mt_ProtocolVersion :: string
  mt_ConfigSnapshotHash :: string
  mt_TranscriptSequence :: int
  mt_WorkspaceSnapshotID :: string
  mt_PendingOperations :: string

definition ErrEmptyCheckpoint :: error where
  "ErrEmptyCheckpoint = Sentinel ''execution'' ''empty checkpoint state''"

definition sha_text :: "(string \<Rightarrow> string) \<Rightarrow> string \<Rightarrow> string" where
  "sha_text sha body = ''sha256:'' @ EncodeToString (sha body)"

text \<open>
  The object store of \<^verbatim>\<open>internal/artifacts/store.go\<close> over the service: \<open>put\<close> stores a body or fails, \<open>get\<close>
  reads one, and a missing object is not an error.
\<close>

type_synonym 'o put_object = "string \<Rightarrow> string \<Rightarrow> 'o \<Rightarrow> error option \<times> 'o"
type_synonym 'o get_object = "string \<Rightarrow> 'o \<Rightarrow> string option result"

definition maxReadBytes :: int where
  "maxReadBytes = 64 * 1024 * 1024"

definition Store_Put :: "'o put_object \<Rightarrow> (string \<Rightarrow> string) \<Rightarrow> string \<Rightarrow> string \<Rightarrow> 'o \<Rightarrow> (string \<times> int) result \<times> 'o" where
  "Store_Put put sha key body objs = (case put key body objs of
     (Some e, objs') \<Rightarrow> (Inl (Errorf [e] ''put object''), objs')
   | (None, objs') \<Rightarrow> (Inr (sha_text sha body, int (length body)), objs'))"

definition Store_Get :: "'o get_object \<Rightarrow> string \<Rightarrow> 'o \<Rightarrow> string option result" where
  "Store_Get get key objs = (case get key objs of
     Inl e \<Rightarrow> Inl (Errorf [e] ''get object'')
   | Inr None \<Rightarrow> Inr None
   | Inr (Some body) \<Rightarrow> if int (length body) > maxReadBytes then Inl (Errorf [] ''object exceeds read bound'') else Inr (Some body))"

definition unit_separator :: string where
  "unit_separator = [CHR 0x1F]"

definition recoveryObjectID :: "(string \<Rightarrow> string) \<Rightarrow> string \<Rightarrow> string \<Rightarrow> string \<Rightarrow> int \<Rightarrow> string" where
  "recoveryObjectID sha pre runID attemptID seq = pre @ ''_'' @ EncodeToString (take 16 (sha
     (pre @ unit_separator @ runID @ unit_separator @ attemptID @ unit_separator @ FormatInt seq)))"

definition checkpointObjectKey :: "string \<Rightarrow> string \<Rightarrow> string \<Rightarrow> string" where
  "checkpointObjectKey project runID checkpointID = project @ ''/'' @ runID @ ''/checkpoints/'' @ checkpointID"

text \<open>The number of a decoded JSON field, truncated; zero when the field is not a number.\<close>

definition checkpointIntField :: "json option \<Rightarrow> int" where
  "checkpointIntField v = (case v of Some (JNum n) \<Rightarrow> if n < 0 then - \<lfloor>- n\<rfloor> else \<lfloor>n\<rfloor> | _ \<Rightarrow> 0)"

definition member :: "json \<Rightarrow> string \<Rightarrow> json option" where
  "member d k = (case d of JObj kvs \<Rightarrow> map_of kvs k | _ \<Rightarrow> None)"

definition persist_input :: "(string \<Rightarrow> string) \<Rightarrow> CheckpointMeta \<Rightarrow> json \<Rightarrow> string \<Rightarrow> int \<Rightarrow> PersistInput" where
  "persist_input sha meta offer checksum bytes_put =
     (let checkpointID = recoveryObjectID sha ''chk'' (mt_RunID meta) (mt_AttemptID meta) (mt_OfferSequence meta)
      in \<lparr>pi_CheckpointID = checkpointID,
          pi_BoundaryID = recoveryObjectID sha ''bnd'' (mt_RunID meta) (mt_AttemptID meta) (mt_OfferSequence meta),
          pi_Project = mt_Project meta, pi_RunID = mt_RunID meta, pi_AttemptID = mt_AttemptID meta,
          pi_EngineDigest = mt_EngineDigest meta, pi_EngineVersion = mt_EngineVersion meta,
          pi_ProtocolVersion = mt_ProtocolVersion meta, pi_Format = or_empty (json_text offer ''format''),
          pi_FormatVersion = checkpointIntField (member offer ''format_version''),
          pi_ConfigSnapshotHash = mt_ConfigSnapshotHash meta, pi_TranscriptSequence = mt_TranscriptSequence meta,
          pi_WorkspaceSnapshotID = mt_WorkspaceSnapshotID meta, pi_ContentChecksum = checksum,
          pi_ObjectKey = checkpointObjectKey (mt_Project meta) (mt_RunID meta) checkpointID,
          pi_SizeBytes = bytes_put, pi_PendingOperations = mt_PendingOperations meta\<rparr>)"

definition Sink_Persist :: "(string \<Rightarrow> string result) \<Rightarrow> 'o put_object \<Rightarrow> (string \<Rightarrow> string) \<Rightarrow> (string \<Rightarrow> json option) \<Rightarrow> ctx
    \<Rightarrow> CheckpointMeta \<Rightarrow> json \<Rightarrow> int \<Rightarrow> 'o \<times> 'a recovery_db_scheme \<Rightarrow> unit result \<times> 'o \<times> 'a recovery_db_scheme" where
  "Sink_Persist decode64 put sha parse ctx meta offer now = (\<lambda>(objs, db).
     case decode64 (or_empty (json_text offer ''state'')) of
       Inl e \<Rightarrow> (Inl (Errorf [e] ''decode checkpoint state''), objs, db)
     | Inr raw \<Rightarrow>
         if raw = '''' then (Inl ErrEmptyCheckpoint, objs, db)
         else if int (length raw) > MaxCheckpointBytes then (Inl ErrCheckpointTooLarge, objs, db)
         else case Store_Put put sha (pi_ObjectKey (persist_input sha meta offer '''' 0)) raw objs of
                (Inl e, objs') \<Rightarrow> (Inl (Errorf [e] ''store checkpoint bytes''), objs', db)
              | (Inr (checksum, bytes_put), objs') \<Rightarrow>
                  (case Persist parse ctx (persist_input sha meta offer checksum bytes_put) now db of (r, db') \<Rightarrow> (r, objs', db')))"

definition Retrieve :: "'o get_object \<Rightarrow> (string \<Rightarrow> string) \<Rightarrow> string \<Rightarrow> 'o \<Rightarrow> (string \<times> string) option result" where
  "Retrieve get sha key objs = (case Store_Get get key objs of
     Inl e \<Rightarrow> Inl (Errorf [e] ''get checkpoint bytes'')
   | Inr None \<Rightarrow> Inr None
   | Inr (Some raw) \<Rightarrow> Inr (Some (raw, sha_text sha raw)))"

section \<open>Consulting the ladder\<close>

record recoveryPlan =
  pl_decision :: "Decision option"
  pl_checkpoint :: "checkpoint_row option"
  pl_bytes :: string
  pl_committedSteps :: int

definition supportedFormats :: "json \<Rightarrow> string list" where
  "supportedFormats ready = (case member ready ''checkpoint_formats'' of
     Some (JArr vs) \<Rightarrow> concat (map (\<lambda>v. case v of JStr s \<Rightarrow> [s] | _ \<Rightarrow> []) vs)
   | _ \<Rightarrow> [])"

text \<open>
  The arguments: the sink, if one is wired, the tenant, run and session, the engine's ready frame, the protocol,
  what the other components resolve, and the policy.  A plan without a decision means that the ladder is not
  engaged, because the run has no checkpoint.
\<close>

definition weigh_checkpoint :: "checkpoint_row \<Rightarrow> string \<Rightarrow> json \<Rightarrow> string \<Rightarrow> string \<Rightarrow> int \<Rightarrow> bool \<Rightarrow> bool \<Rightarrow> Decision" where
  "weigh_checkpoint cp computed ready configHash protocolVersion journalSeq restorable forbidden =
     Decide \<lparr>ca_Present = True, ca_Format = cp_format cp, ca_FormatVersion = cp_format_version cp,
         ca_RecordedChecksum = cp_checksum cp, ca_ComputedChecksum = computed, ca_ConfigSnapshotHash = cp_config_hash cp,
         ca_ProtocolVersion = cp_protocol_version cp, ca_TranscriptSequence = cp_sequence cp,
         ca_WorkspaceSnapshotID = or_empty (cp_snapshot cp), ca_WorkspaceRestorable = restorable\<rparr>
       \<lparr>tt_OriginalLeaseAlive = False, tt_SupportedFormats = supportedFormats ready, tt_ConfigSnapshotHash = configHash,
         tt_ProtocolVersion = protocolVersion, tt_JournalSequence = journalSeq, tt_TranscriptAvailable = True,
         tt_ReconstructionForbidden = forbidden\<rparr>"

definition wrapped :: "string \<Rightarrow> 'a result \<Rightarrow> 'a result" where
  "wrapped msg r = (case r of Inl e \<Rightarrow> Inl (Errorf [e] msg) | Inr a \<Rightarrow> Inr a)"

definition consultCheckpointLadder :: "(string \<Rightarrow> string) \<Rightarrow> 'o get_object option \<Rightarrow> ctx \<Rightarrow> string \<Rightarrow> string \<Rightarrow> string \<Rightarrow> json \<Rightarrow> string
    \<Rightarrow> string result \<Rightarrow> (string \<Rightarrow> bool result) \<Rightarrow> bool \<Rightarrow> 'o \<times> 'a recovery_db_scheme \<Rightarrow> recoveryPlan result" where
  "consultCheckpointLadder sha sink ctx tenant runID sessionID ready protocolVersion effectiveConfigHash workspaceRestorable forbidden = (\<lambda>(objs, db).
     bind_result (CommittedModelStepCount ctx tenant runID db) (\<lambda>committed.
     bind_result (LatestRunCheckpoint ctx tenant runID db) (\<lambda>found.
     let plan = \<lparr>pl_decision = None, pl_checkpoint = None, pl_bytes = '''', pl_committedSteps = committed\<rparr>
     in case found of
          None \<Rightarrow> Inr plan
        | Some cp \<Rightarrow>
            bind_result (case sink of None \<Rightarrow> Inr None | Some get \<Rightarrow> Retrieve get sha (cp_object_key cp) objs) (\<lambda>fetched.
            bind_result (wrapped ''resolve config for recovery'' effectiveConfigHash) (\<lambda>configHash.
            bind_result (wrapped ''read journal boundary for recovery'' (CurrentJournalSequence ctx tenant sessionID db)) (\<lambda>journalSeq.
            bind_result (wrapped ''resolve workspace restorability for recovery'' (workspaceRestorable (or_empty (cp_snapshot cp)))) (\<lambda>restorable.
            case (case fetched of None \<Rightarrow> ('''', '''') | Some p \<Rightarrow> p) of (raw, computed) \<Rightarrow>
              Inr (plan\<lparr>pl_checkpoint := Some cp, pl_bytes := raw,
                pl_decision := Some (weigh_checkpoint cp computed ready configHash protocolVersion journalSeq restorable forbidden)\<rparr>))))))))"

end
