(* ===== verification/Recovery_Safety.thy ===== *)
theory Recovery_Safety
  imports Execution_Safety Recovery
begin

text \<open>
  Correctness of recovery: the ladder takes exactly the rung that the facts call for, what it restores has
  the recorded checksum, checkpoints are immutable, attempts of a run are fenced.  Two defects: re-recording
  an old attempt preempts its successor, and a retransmitted offer destroys the checkpoint that it repeats.
\<close>

section \<open>The ladder\<close>

text \<open>When a checkpoint may be restored.\<close>

definition restorable :: "Candidate \<Rightarrow> Target \<Rightarrow> bool" where
  "restorable c t \<longleftrightarrow> ca_Present c \<and> ca_Format c @ ''/'' @ FormatInt (ca_FormatVersion c) \<in> set (tt_SupportedFormats t) \<and>
     ca_ComputedChecksum c \<noteq> '''' \<and> ca_ComputedChecksum c = ca_RecordedChecksum c \<and>
     ca_ConfigSnapshotHash c = tt_ConfigSnapshotHash t \<and> ca_ProtocolVersion c = tt_ProtocolVersion t \<and>
     ca_TranscriptSequence c \<le> tt_JournalSequence t \<and> (ca_WorkspaceSnapshotID c = '''' \<or> ca_WorkspaceRestorable c)"

lemma supported_name: "contains xs (name @ ''/'' @ v) \<Longrightarrow> containsFormatName xs name"
  unfolding contains_def containsFormatName_def list_ex_iff Let_def by (auto intro!: bexI [of _ "name @ CHR ''/'' # v"])

lemma contains_set: "contains xs x \<longleftrightarrow> x \<in> set xs"
  by (auto simp: contains_def list_ex_iff)

lemma compatible_iff: "ca_Present c \<Longrightarrow> compatibilityFailures c t = [] \<longleftrightarrow> restorable c t"
  using supported_name [of "tt_SupportedFormats t" "ca_Format c" "FormatInt (ca_FormatVersion c)"]
  by (auto simp: compatibilityFailures_def restorable_def contains_set Let_def)


lemma restored_row:
  assumes "consultCheckpointLadder sha sink ctx tenant runID sessionID ready protocol config restore forbidden (objs, db) = Inr plan"
    and "pl_decision plan = Some d"
  obtains cp computed h n ok where "LatestRunCheckpoint ctx tenant runID db = Inr (Some cp)" "pl_checkpoint plan = Some cp"
    "computed = '''' \<or> computed = sha_text sha (pl_bytes plan)" "config = Inr h" "CurrentJournalSequence ctx tenant sessionID db = Inr n"
    "d = weigh_checkpoint cp computed ready h protocol n ok forbidden"
proof -
  note call = assms(1) [unfolded consultCheckpointLadder_def prod.case]
  obtain m where m: "CommittedModelStepCount ctx tenant runID db = Inr m"
    using call by (cases "CommittedModelStepCount ctx tenant runID db") simp_all
  obtain found where found: "LatestRunCheckpoint ctx tenant runID db = Inr found"
    using call m by (cases "LatestRunCheckpoint ctx tenant runID db") simp_all
  note call = call [unfolded m found bind_result_simps Let_def]
  obtain cp where cp: "found = Some cp" using call assms(2) by (cases found) auto
  note call = call [unfolded cp option.case]
  let ?f = "case sink of None \<Rightarrow> Inr None | Some get \<Rightarrow> Retrieve get sha (cp_object_key cp) objs"
  obtain fetched where f: "?f = Inr fetched" using call by (cases ?f) simp_all
  obtain h where h: "config = Inr h" using call f by (cases config) (simp_all add: wrapped_def)
  obtain n where n: "CurrentJournalSequence ctx tenant sessionID db = Inr n"
    using call f h by (cases "CurrentJournalSequence ctx tenant sessionID db") (simp_all add: wrapped_def)
  obtain ok where ok: "restore (or_empty (cp_snapshot cp)) = Inr ok"
    using call f h n by (cases "restore (or_empty (cp_snapshot cp))") (simp_all add: wrapped_def)
  have plan: "case (case fetched of None \<Rightarrow> ('''', '''') | Some p \<Rightarrow> p) of (raw, computed) \<Rightarrow> pl_checkpoint plan = Some cp \<and>
      pl_bytes plan = raw \<and> d = weigh_checkpoint cp computed ready h protocol n ok forbidden"
    using call f h n ok assms(2) by (cases fetched) (auto simp: wrapped_def)
  note cp = found [unfolded cp]
  have "fetched = None \<or> (\<exists>raw. fetched = Some (raw, sha_text sha raw))"
    using f by (auto simp: Retrieve_def split: option.splits sum.splits)
  then show thesis
  proof (elim disjE exE)
    assume "fetched = None"
    with plan show thesis by (intro that [OF cp _ _ h n, of "''''" ok]) simp_all
  next
    fix raw assume "fetched = Some (raw, sha_text sha raw)"
    with plan show thesis by (intro that [OF cp _ _ h n, of "sha_text sha raw" ok]) simp_all
  qed
qed

text \<open>
  C9. Nothing is restored blind.  When the consultation decides to restore, the plan carries the bytes of the
  run's newest checkpoint, their checksum is the recorded one, and the checkpoint's configuration, protocol
  and place in the journal are the current ones.
\<close>

theorem restore_verified:
  assumes "consultCheckpointLadder sha sink ctx tenant runID sessionID ready protocol config restore forbidden (objs, db) = Inr plan"
    and "pl_decision plan = Some d" and "de_Level d = LevelCompatibleCheckpoint"
  shows "\<exists>cp n. LatestRunCheckpoint ctx tenant runID db = Inr (Some cp) \<and> pl_checkpoint plan = Some cp \<and>
    sha_text sha (pl_bytes plan) = cp_checksum cp \<and> config = Inr (cp_config_hash cp) \<and> cp_protocol_version cp = protocol \<and>
    CurrentJournalSequence ctx tenant sessionID db = Inr n \<and> cp_sequence cp \<le> n"
proof -
  from assms(1,2) obtain cp computed h n ok where cp: "LatestRunCheckpoint ctx tenant runID db = Inr (Some cp)" "pl_checkpoint plan = Some cp"
    "computed = '''' \<or> computed = sha_text sha (pl_bytes plan)" "config = Inr h" "CurrentJournalSequence ctx tenant sessionID db = Inr n"
    and d: "d = weigh_checkpoint cp computed ready h protocol n ok forbidden" by (rule restored_row)
  have "computed \<noteq> '''' \<and> computed = cp_checksum cp \<and> cp_config_hash cp = h \<and> cp_protocol_version cp = protocol \<and> cp_sequence cp \<le> n"
    using assms(3) d
    by (auto simp: weigh_checkpoint_def Decide_def reconstructOrFail_def Let_def level_defs compatible_iff restorable_def split: if_splits)
  with cp show ?thesis by auto
qed

section \<open>Attempts\<close>

definition attempts_ok :: "attempt_row list \<Rightarrow> bool" where
  "attempts_ok rows \<longleftrightarrow> distinct (map at_id rows) \<and> distinct (map (\<lambda>a. (at_run a, at_fence a)) rows) \<and>
     distinct (map at_run (filter (\<lambda>a. at_state a \<in> set active_attempt_states) rows)) \<and> (\<forall>a \<in> set rows. 1 \<le> at_fence a)"

lemma foldl_max_ge: "(y :: int) \<le> foldl max y ys"
  by (induction ys arbitrary: y) (auto intro: order_trans [OF max.cobounded1])

lemma max_or_zero_ge: "x \<in> set xs \<Longrightarrow> x \<le> max_or_zero xs"
proof -
  have "x \<le> foldl max y ys" if "x = y \<or> x \<in> set ys" for y :: int and ys
    using that
  proof (induction ys arbitrary: y)
    case (Cons z zs)
    then show ?case using foldl_max_ge [of "max y z" zs] Cons.IH [of "max y z"] by auto
  qed simp
  then show "x \<in> set xs \<Longrightarrow> x \<le> max_or_zero xs" by (auto simp: max_or_zero_def split: list.splits)
qed

lemma preempted_inactive [simp]: "''preempted'' \<notin> set active_attempt_states" "''assigned'' \<in> set active_attempt_states"
  by (simp_all add: active_attempt_states_def)

lemma supersede_active:
  "filter (\<lambda>a. at_state a \<in> set active_attempt_states) (sql_update p (\<lambda>a. a\<lparr>at_state := ''preempted''\<rparr>) rows) =
   filter (\<lambda>a. at_state a \<in> set active_attempt_states) (filter (\<lambda>a. \<not> p a) rows)"
  by (induction rows) (auto simp: sql_update_def)

lemma supersede_ok:
  assumes "attempts_ok rows"
  shows "attempts_ok (sql_update p (\<lambda>a. a\<lparr>at_state := ''preempted''\<rparr>) rows)"
proof -
  have "map at_id (sql_update p (\<lambda>a. a\<lparr>at_state := ''preempted''\<rparr>) rows) = map at_id rows"
    "map (\<lambda>a. (at_run a, at_fence a)) (sql_update p (\<lambda>a. a\<lparr>at_state := ''preempted''\<rparr>) rows) = map (\<lambda>a. (at_run a, at_fence a)) rows"
    by (auto simp: sql_update_def)
  moreover have "distinct (map at_run (filter (\<lambda>a. at_state a \<in> set active_attempt_states) (filter (\<lambda>a. \<not> p a) rows)))"
    using assms by (auto simp: attempts_ok_def distinct_map inj_on_def)
  ultimately show ?thesis using assms by (auto simp: attempts_ok_def supersede_active set_sql_update)
qed

lemma record_attempt_cases:
  assumes "RecordAttempt ctx tenant runID attemptID db = (x, db')"
  obtains (failed) e where "x = Inl e" "db' = db"
  | (recorded) t rows where "tx_tenant t = tenant" "tenant_policy (tx_conn t) tenant"
      "rows = sql_update (\<lambda>a. at_run a = runID \<and> sees t (at_project a) \<and> at_id a \<noteq> attemptID \<and> at_state a \<in> set superseded_states)
          (\<lambda>a. a\<lparr>at_state := ''preempted''\<rparr>) (attempts db)" "x = Inr ()"
      "db' = db\<lparr>attempts := rows\<rparr> \<and> attemptID \<in> set (map at_id rows) \<or>
       (\<exists>fence. fence = max_or_zero (map at_fence (filter (\<lambda>a. at_run a = runID \<and> sees t (at_project a)) rows)) + 1 \<and> 1 \<le> fence \<and>
        db' = db\<lparr>attempts := rows @ [\<lparr>at_id = attemptID, at_project = tenant, at_run = runID, at_fence = fence, at_state = ''assigned''\<rparr>]\<rparr> \<and>
        attemptID \<notin> set (map at_id rows) \<and> \<not> list_ex (\<lambda>a. at_run a = runID \<and> (at_fence a = fence \<or> at_state a \<in> set active_attempt_states)) rows)"
  using begin_tx_cases [OF assms [unfolded RecordAttempt_def]]
proof (elim disjE exE conjE)
  fix t a assume t: "tx_tenant t = tenant" and x: "x = Inr a"
    and body: "tx_then (tx_wrap ''supersede prior attempts'' (SupersedeActiveAttempts t runID attemptID))
         (tx_wrap ''record attempt'' (UpsertAttempt t attemptID runID)) db = Inr (a, db')"
  let ?rows = "sql_update (\<lambda>a. at_run a = runID \<and> sees t (at_project a) \<and> at_id a \<noteq> attemptID \<and> at_state a \<in> set superseded_states)
      (\<lambda>a. a\<lparr>at_state := ''preempted''\<rparr>) (attempts db)"
  from body have up: "UpsertAttempt t attemptID runID (db\<lparr>attempts := ?rows\<rparr>) = Inr (a, db')"
    by (simp add: tx_then_eq SupersedeActiveAttempts_def)
  then show thesis using t x by (intro recorded [of t ?rows]) (auto simp: UpsertAttempt_def Let_def split: if_splits)
qed (rule failed)

lemma record_keeps_attempts: "RecordAttempt ctx tenant runID attemptID db = (x, db') \<Longrightarrow> attempts_ok (attempts db) \<Longrightarrow> attempts_ok (attempts db')"
proof (elim record_attempt_cases disjE exE conjE)
  fix t rows fence assume ok: "attempts_ok (attempts db)"
    and rows: "rows = sql_update (\<lambda>a. at_run a = runID \<and> sees t (at_project a) \<and> at_id a \<noteq> attemptID \<and> at_state a \<in> set superseded_states)
          (\<lambda>a. a\<lparr>at_state := ''preempted''\<rparr>) (attempts db)"
    and new: "db' = db\<lparr>attempts := rows @ [\<lparr>at_id = attemptID, at_project = tenant, at_run = runID, at_fence = fence, at_state = ''assigned''\<rparr>]\<rparr>"
      "attemptID \<notin> set (map at_id rows)" "1 \<le> fence"
      "\<not> list_ex (\<lambda>a. at_run a = runID \<and> (at_fence a = fence \<or> at_state a \<in> set active_attempt_states)) rows"
  have "attempts_ok rows" unfolding rows by (rule supersede_ok [OF ok])
  with new show "attempts_ok (attempts db')" by (auto simp: attempts_ok_def list_ex_iff)
qed (auto simp: supersede_ok)

text \<open>
  C19. The attempts of a run are fenced.  Recording keeps attempt identifiers and the fences of a run
  unique and at most one attempt of a run active; a new attempt that is recorded is the active one, and
  its fence is above that of every other attempt of the run in its project.
\<close>

theorem attempt_fenced:
  assumes "attempts_ok (attempts db)" and "RecordAttempt ctx tenant runID attemptID db = (Inr (), db')"
    and "attemptID \<notin> set (map at_id (attempts db))"
  shows "attempts_ok (attempts db') \<and> (\<exists>a \<in> set (attempts db'). at_id a = attemptID \<and> at_run a = runID \<and> at_state a = ''assigned'' \<and>
    (\<forall>b \<in> set (attempts db'). at_run b = runID \<and> b \<noteq> a \<longrightarrow> at_state b \<notin> set active_attempt_states \<and>
       (at_project b = tenant \<longrightarrow> at_fence b < at_fence a)))"
proof
  show "attempts_ok (attempts db')" using record_keeps_attempts [OF assms(2,1)] .
  from assms(2) show "\<exists>a \<in> set (attempts db'). at_id a = attemptID \<and> at_run a = runID \<and> at_state a = ''assigned'' \<and>
    (\<forall>b \<in> set (attempts db'). at_run b = runID \<and> b \<noteq> a \<longrightarrow> at_state b \<notin> set active_attempt_states \<and>
       (at_project b = tenant \<longrightarrow> at_fence b < at_fence a))"
  proof (cases rule: record_attempt_cases)
    case (recorded t rows)
    have ids: "map at_id rows = map at_id (attempts db)" by (auto simp: recorded(3) sql_update_def)
    with recorded(5) assms(3) obtain fence where
      fence: "fence = max_or_zero (map at_fence (filter (\<lambda>a. at_run a = runID \<and> sees t (at_project a)) rows)) + 1"
      and new: "db' = db\<lparr>attempts := rows @ [\<lparr>at_id = attemptID, at_project = tenant, at_run = runID, at_fence = fence, at_state = ''assigned''\<rparr>]\<rparr>"
      "\<not> list_ex (\<lambda>a. at_run a = runID \<and> (at_fence a = fence \<or> at_state a \<in> set active_attempt_states)) rows" by metis
    have "at_fence b < fence" if "b \<in> set rows" "at_run b = runID" "at_project b = tenant" for b
      using max_or_zero_ge [of "at_fence b" "map at_fence (filter (\<lambda>a. at_run a = runID \<and> sees t (at_project a)) rows)"] that recorded(1,2) fence
      by (auto simp: sees_def)
    with new show ?thesis by (auto simp: list_ex_iff)
  qed simp
qed

text \<open>
  Recording an attempt again is not harmless.  When a newer attempt of the run is active, recording an
  older one that is still on file preempts the newer one and does not make the older one active again.
\<close>

theorem rerecord_preempts_successor:
  assumes "attempts_ok (attempts db)" and "a \<in> set (attempts db)" and "b \<in> set (attempts db)" and "at_id a \<noteq> at_id b"
    and "at_run a = runID" and "at_run b = runID" and "at_project b = tenant"
    and "at_state a \<notin> set superseded_states" and "at_state b \<in> set active_attempt_states"
    and "RecordAttempt ctx tenant runID (at_id a) db = (Inr (), db')"
  shows "a \<in> set (attempts db') \<and> b\<lparr>at_state := ''preempted''\<rparr> \<in> set (attempts db') \<and>
    (\<forall>c \<in> set (attempts db'). at_run c = runID \<longrightarrow> at_state c \<notin> set active_attempt_states)"
  using assms(10)
proof (cases rule: record_attempt_cases)
  case (recorded t rows)
  have ids: "map at_id rows = map at_id (attempts db)" by (auto simp: recorded(3) sql_update_def)
  with recorded(5) assms(2) have db': "attempts db' = rows" by auto
  have sup: "at_state b \<in> set superseded_states" using assms(9) by (simp add: superseded_states_def)
  have other: "at_state c \<notin> set active_attempt_states" if "c \<in> set (attempts db)" "at_run c = runID" "c \<noteq> b" for c
    using that assms(1,3,6,9) by (auto simp: attempts_ok_def distinct_map inj_on_def)
  let ?p = "\<lambda>x. at_run x = runID \<and> sees t (at_project x) \<and> at_id x \<noteq> at_id a \<and> at_state x \<in> set superseded_states"
  have b: "?p b" "\<not> ?p a" using assms(4,6-8) recorded(1,2) sup by (auto simp: sees_def)
  have "a \<in> set rows" "b\<lparr>at_state := ''preempted''\<rparr> \<in> set rows"
    unfolding recorded(3) set_sql_update using b assms(2,3) by metis+
  moreover have "at_state c \<notin> set active_attempt_states" if c: "c \<in> set rows" "at_run c = runID" for c
  proof -
    from c(1) obtain x where x: "x \<in> set (attempts db)" "c = (if ?p x then x\<lparr>at_state := ''preempted''\<rparr> else x)"
      unfolding recorded(3) set_sql_update by blast
    show ?thesis
    proof (cases "?p x")
      case False
      with x c(2) b(1) have "x \<noteq> b" "at_run x = runID" "c = x" by auto
      with other x(1) show ?thesis by simp
    qed (simp add: x(2))
  qed
  ultimately show ?thesis using db' by simp
qed simp

section \<open>Checkpoints are immutable\<close>

inductive recovery_step :: "(string \<Rightarrow> string) \<Rightarrow> (string \<Rightarrow> string) \<Rightarrow> (json \<Rightarrow> string) \<Rightarrow> (string \<Rightarrow> json option)
    \<Rightarrow> 'a recovery_db_scheme \<Rightarrow> 'a recovery_db_scheme \<Rightarrow> bool" for sha collate render parse where
  execution: "execution_step sha collate render db db' \<Longrightarrow> recovery_step sha collate render parse db db'"
| attempt: "RecordAttempt ctx tenant runID attemptID db = (x, db') \<Longrightarrow> recovery_step sha collate render parse db db'"
| persist: "Persist parse ctx inp now db = (x, db') \<Longrightarrow> recovery_step sha collate render parse db db'"

definition same_checkpoints :: "'a recovery_db_scheme \<Rightarrow> 'a recovery_db_scheme \<Rightarrow> bool" where
  "same_checkpoints s s' \<longleftrightarrow> checkpoints s' = checkpoints s"

lemma advance_checkpoints: "AdvanceResponse ctx tenant resp cmd s = (r, s') \<Longrightarrow> same_checkpoints s s'"
  by (auto simp: same_checkpoints_def dest!: advance_same)

interpretation checkpoint_frame: execution_statements same_checkpoints sha for sha
  by unfold_locales (auto intro!: tx_inI intro: advance_checkpoints simp: same_checkpoints_def ex_statement_defs upsert_call_def update_call_def
      dest: advance_checkpoints split: if_splits list.splits sum.splits prod.splits option.splits)

lemma persist_cases:
  assumes "Persist parse ctx inp now db = (x, db')"
  obtains (failed) e where "x = Inl e" "db' = db"
  | (stored) bs pending where "x = Inr ()" "pi_CheckpointID inp \<notin> set (map cp_id (checkpoints db))"
      "db' = db\<lparr>transcript_boundaries := bs, checkpoints := checkpoints db @ [checkpoint_of inp pending now]\<rparr>"
      "pi_BoundaryID inp \<in> set (map tb_id bs)"
proof -
  have "(\<exists>e. x = Inl e) \<and> db' = db \<or> (x = Inr () \<and> pi_CheckpointID inp \<notin> set (map cp_id (checkpoints db)) \<and>
     (\<exists>bs pending. db' = db\<lparr>transcript_boundaries := bs, checkpoints := checkpoints db @ [checkpoint_of inp pending now]\<rparr> \<and>
        pi_BoundaryID inp \<in> set (map tb_id bs)))"
  proof (cases "pi_ContentChecksum inp = '''' \<or> pi_SizeBytes inp < 0 \<or> pi_SizeBytes inp > MaxCheckpointBytes")
    case True
    then have "\<exists>e. Persist parse ctx inp now db = (Inl e, db)" by (auto simp: Persist_def)
    with assms show ?thesis by auto
  next
    case False
    let ?b = "\<lparr>tb_id = pi_BoundaryID inp, tb_run = pi_RunID inp, tb_attempt = pi_AttemptID inp, tb_project = pi_Project inp,
              tb_sequence = pi_TranscriptSequence inp\<rparr>"
    have ins: "\<exists>bs. s = db\<lparr>transcript_boundaries := bs\<rparr>" if "InsertTranscriptBoundary t ?b db = Inr (u, s)" for t u s
      using that by (auto simp: InsertTranscriptBoundary_def split: if_splits intro: exI [of _ "transcript_boundaries db"])
    have chk: "cp_id c \<notin> set (map cp_id (checkpoints s)) \<and> s' = s\<lparr>checkpoints := checkpoints s @ [c]\<rparr> \<and>
        cp_boundary c \<in> set (map tb_id (transcript_boundaries s))"
      if "InsertCheckpoint t c s = Inr (u, s')" for t c s s' u
      using that by (auto simp: InsertCheckpoint_def split: if_splits)
    let ?body = "\<lambda>t. tx_then (tx_wrap ''insert transcript boundary'' (InsertTranscriptBoundary t ?b)) (insert_checkpoint parse t inp now)"
    have "begin_tx ctx (pi_Project inp) ''begin checkpoint tx'' ?body db = (x, db')" using assms False by (simp add: Persist_def)
    from begin_tx_cases [OF this] show ?thesis
    proof (elim disjE exE conjE)
      fix t a assume "?body t db = Inr (a, db')" and x: "x = Inr a"
      then obtain u s where b: "InsertTranscriptBoundary t ?b db = Inr (u, s)" and c: "insert_checkpoint parse t inp now s = Inr (a, db')"
        by (auto simp: tx_then_eq)
      from c obtain pending where "InsertCheckpoint t (checkpoint_of inp pending now) s = Inr (a, db')"
        by (auto simp: insert_checkpoint_def Let_def split: option.splits sum.splits)
      note new = chk [OF this, unfolded checkpoint_of_def checkpoint_row.select_convs, folded checkpoint_of_def]
      obtain bs where "s = db\<lparr>transcript_boundaries := bs\<rparr>" using ins [OF b] by blast
      with new x show ?thesis by (intro disjI2 conjI exI [of _ bs] exI [of _ pending]) simp_all
    qed simp
  qed
  then show thesis using failed stored by blast
qed

lemma persist_row: "Persist parse ctx inp now db = (Inr (), db') \<Longrightarrow> \<exists>pending. checkpoint_of inp pending now \<in> set (checkpoints db')"
  by (erule persist_cases) auto

lemma persist_taken:
  "Persist parse ctx inp now db = (x, db') \<Longrightarrow> pi_CheckpointID inp \<in> set (map cp_id (checkpoints db)) \<Longrightarrow> db' = db \<and> (\<exists>e. x = Inl e)"
  by (erule persist_cases) auto

text \<open>
  A checkpoint is immutable.  Once it is stored, its row is kept through every further operation, and
  every later attempt to store a checkpoint under its identifier fails and changes nothing.
\<close>

theorem checkpoint_immutable:
  assumes "Persist parse ctx inp now db = (Inr (), db1)" and "(recovery_step sha collate render parse)\<^sup>*\<^sup>* db1 db2"
    and "Persist parse' ctx' inp' now' db2 = (x, db3)" and "pi_CheckpointID inp' = pi_CheckpointID inp"
  shows "(\<exists>pending. checkpoint_of inp pending now \<in> set (checkpoints db2)) \<and> db3 = db2 \<and> (\<exists>e. x = Inl e)"
proof -
  have step: "set (checkpoints s) \<subseteq> set (checkpoints s')" if "recovery_step sha collate render parse s s'" for s s' :: "'a recovery_db_scheme"
    using that
  proof cases
    case execution
    then show ?thesis using checkpoint_frame.execution_in by (fastforce simp: same_checkpoints_def)
  next
    case (attempt ctx tenant runID attemptID x)
    then show ?thesis by (auto elim!: record_attempt_cases)
  next
    case (persist ctx inp now x)
    then show ?thesis by (auto elim!: persist_cases)
  qed
  have kept: "set (checkpoints db1) \<subseteq> set (checkpoints db2)"
    using assms(2) by (induction rule: rtranclp_induct) (auto dest!: step)
  from persist_row [OF assms(1)] obtain pending where "checkpoint_of inp pending now \<in> set (checkpoints db1)" by blast
  with kept have row: "checkpoint_of inp pending now \<in> set (checkpoints db2)" by blast
  then have "pi_CheckpointID inp' \<in> set (map cp_id (checkpoints db2))"
    using assms(4) by (force simp: checkpoint_of_def)
  with persist_taken [OF assms(3)] row show ?thesis by blast
qed

section \<open>A retransmitted offer\<close>

lemma sink_persist_result:
  assumes "Sink_Persist decode64 put sha parse ctx meta offer now (objs, db) = (x, objs', db')"
    and "decode64 (or_empty (json_text offer ''state'')) = Inr raw" and "raw \<noteq> ''''" and "int (length raw) \<le> MaxCheckpointBytes"
    and "put (pi_ObjectKey (persist_input sha meta offer '''' 0)) raw objs = (None, objs1)"
  shows "objs' = objs1 \<and> Persist parse ctx (persist_input sha meta offer (sha_text sha raw) (int (length raw))) now db = (x, db')"
  using assms by (auto simp: Sink_Persist_def Store_Put_def split: prod.splits)

text \<open>
  C36. A retransmitted offer destroys the checkpoint that it repeats.  The bytes are put into the object store before
  the row's immutability is checked: when an offer of the same attempt and sequence carries other bytes, the
  row is refused and kept, but its object now holds the other bytes, and the ladder rejects it.
\<close>

theorem retransmission_destroys_checkpoint:
  assumes "\<And>k b s s'. put k b s = (None, s') \<Longrightarrow> get k s' = Inr (Some b)"
    and "Sink_Persist decode64 put sha parse ctx meta offer now (objs, db) = (Inr (), objs1, db1)"
    and "decode64 (or_empty (json_text offer ''state'')) = Inr raw" and "put (pi_ObjectKey (persist_input sha meta offer '''' 0)) raw objs = (None, o1)"
    and "Sink_Persist decode64 put sha parse ctx meta offer' now' (objs1, db1) = (x, objs2, db2)"
    and "decode64 (or_empty (json_text offer' ''state'')) = Inr raw'" and "put (pi_ObjectKey (persist_input sha meta offer' '''' 0)) raw' objs1 = (None, o2)"
    and "raw \<noteq> ''''" and "raw' \<noteq> ''''" and "int (length raw) \<le> MaxCheckpointBytes" and "int (length raw') \<le> MaxCheckpointBytes"
    and "sha_text sha raw \<noteq> sha_text sha raw'"
  shows "db2 = db1 \<and> (\<exists>e. x = Inl e) \<and> (\<exists>cp \<in> set (checkpoints db2). cp_id cp = pi_CheckpointID (persist_input sha meta offer '''' 0) \<and>
    Retrieve get sha (cp_object_key cp) objs2 = Inr (Some (raw', sha_text sha raw')) \<and>
    de_Level (weigh_checkpoint cp (sha_text sha raw') ready configHash protocol seq restore forbidden) \<noteq> LevelCompatibleCheckpoint)"
proof -
  let ?inp = "persist_input sha meta offer (sha_text sha raw) (int (length raw))"
  let ?inp' = "persist_input sha meta offer' (sha_text sha raw') (int (length raw'))"
  have first: "Persist parse ctx ?inp now db = (Inr (), db1)"
    using sink_persist_result [OF assms(2,3,8,10,4)] by simp
  have second: "objs2 = o2" "Persist parse ctx ?inp' now' db1 = (x, db2)"
    using sink_persist_result [OF assms(5,6,9,11,7)] by simp_all
  have ids: "pi_CheckpointID ?inp' = pi_CheckpointID ?inp" "pi_ObjectKey ?inp = pi_ObjectKey (persist_input sha meta offer' '''' 0)"
    "pi_CheckpointID ?inp = pi_CheckpointID (persist_input sha meta offer '''' 0)"
    by (simp_all add: persist_input_def Let_def)
  from persist_row [OF first] obtain pending where row: "checkpoint_of ?inp pending now \<in> set (checkpoints db1)" by blast
  then have "pi_CheckpointID ?inp' \<in> set (map cp_id (checkpoints db1))" using ids(1) by (force simp: checkpoint_of_def)
  with persist_taken [OF second(2)] have same: "db2 = db1" "\<exists>e. x = Inl e" by simp_all
  let ?cp = "checkpoint_of ?inp pending now"
  have "get (cp_object_key ?cp) objs2 = Inr (Some raw')"
    using assms(1) [OF assms(7)] second(1) ids(2) by (simp add: checkpoint_of_def)
  moreover have "\<not> int (length raw') > maxReadBytes" using assms(11) by (simp add: MaxCheckpointBytes_def maxReadBytes_def)
  ultimately have "Retrieve get sha (cp_object_key ?cp) objs2 = Inr (Some (raw', sha_text sha raw'))"
    by (simp add: Retrieve_def Store_Get_def)
  moreover have "cp_checksum ?cp = sha_text sha raw" by (simp add: checkpoint_of_def persist_input_def Let_def)
  then have "de_Level (weigh_checkpoint ?cp (sha_text sha raw') ready configHash protocol seq restore forbidden) \<noteq> LevelCompatibleCheckpoint"
    using assms(12) by (simp add: weigh_checkpoint_def Decide_def compatible_iff restorable_def reconstructOrFail_def level_defs Let_def)
  moreover have "cp_id ?cp = pi_CheckpointID (persist_input sha meta offer '''' 0)" using ids(3) by (simp add: checkpoint_of_def)
  ultimately show ?thesis using same row by blast
qed

section \<open>Instances\<close>

definition sample_attempt :: "string \<Rightarrow> int \<Rightarrow> string \<Rightarrow> attempt_row" where
  "sample_attempt i fence st = \<lparr>at_id = i, at_project = ''p'', at_run = ''r'', at_fence = fence, at_state = st\<rparr>"

definition sample_recovery :: recovery_db where
  "sample_recovery = background_db.extend sample_execution (recovery_db.fields
     [sample_attempt ''a1'' 1 ''preempted'', sample_attempt ''a2'' 2 ''active''] [] [] [])"

definition sample_record :: "string \<Rightarrow> unit result \<times> recovery_db" where
  "sample_record i = RecordAttempt (WithTenant None ''p'') ''p'' ''r'' i sample_recovery"

lemma sample_recovery_attempts: "attempts sample_recovery = [sample_attempt ''a1'' 1 ''preempted'', sample_attempt ''a2'' 2 ''active'']"
  by (simp add: sample_recovery_def background_db.extend_def recovery_db.fields_def)

lemma sample_attempts_ok: "attempts_ok (attempts sample_recovery)"
  by (simp add: sample_recovery_attempts attempts_ok_def sample_attempt_def active_attempt_states_def)

lemma sample_record_ok: "fst (sample_record ''a3'') = Inr ()" "fst (sample_record ''a1'') = Inr ()"
  by code_simp+

theorem attempt_fenced_witness:
  "\<exists>a \<in> set (attempts (snd (sample_record ''a3''))). at_id a = ''a3'' \<and> at_run a = ''r'' \<and> at_state a = ''assigned''"
  using attempt_fenced [OF sample_attempts_ok sample_pair [OF sample_record_ok(1), unfolded sample_record_def]]
  by (simp add: sample_recovery_attempts sample_attempt_def sample_record_def) blast

theorem rerecord_preempts_successor_witness:
  "sample_attempt ''a2'' 2 ''preempted'' \<in> set (attempts (snd (sample_record ''a1'')))"
  using rerecord_preempts_successor [OF sample_attempts_ok, of "sample_attempt ''a1'' 1 ''preempted''" "sample_attempt ''a2'' 2 ''active''" "''r''" "''p''"
      "WithTenant None ''p''" "snd (sample_record ''a1'')"] sample_pair [OF sample_record_ok(2)]
  by (simp add: sample_recovery_attempts sample_attempt_def sample_record_def superseded_states_def active_attempt_states_def)

text \<open>An object store that keeps what was put last, the identity as base64, and a JSON parser for the empty array.\<close>

definition sample_put :: "(string \<rightharpoonup> string) put_object" where
  "sample_put k b m = (None, m(k \<mapsto> b))"

definition sample_get :: "(string \<rightharpoonup> string) get_object" where
  "sample_get k m = Inr (m k)"

definition sample_parse :: "string \<Rightarrow> json option" where
  "sample_parse s = (if s = ''[]'' then Some (JArr []) else None)"

definition sample_meta :: CheckpointMeta where
  "sample_meta = \<lparr>mt_Project = ''p'', mt_RunID = ''r'', mt_AttemptID = ''a2'', mt_OfferSequence = 4, mt_EngineDigest = '''', mt_EngineVersion = '''',
     mt_ProtocolVersion = ''1'', mt_ConfigSnapshotHash = ''h'', mt_TranscriptSequence = 0, mt_WorkspaceSnapshotID = '''', mt_PendingOperations = ''''\<rparr>"

definition sample_offer :: "string \<Rightarrow> json" where
  "sample_offer state = JObj [(''format'', JStr ''k''), (''format_version'', JNum 1), (''state'', JStr state)]"

definition sample_offered :: "string \<Rightarrow> (string \<rightharpoonup> string) \<times> recovery_db \<Rightarrow> unit result \<times> (string \<rightharpoonup> string) \<times> recovery_db" where
  "sample_offered state = Sink_Persist Inr sample_put id sample_parse (WithTenant None ''p'') sample_meta (sample_offer state) 9"

definition sample_checkpointed :: "(string \<rightharpoonup> string) \<times> recovery_db" where
  "sample_checkpointed = snd (sample_offered ''one'' (Map.empty, sample_recovery))"

lemma sample_offered_ok: "fst (sample_offered ''one'' (Map.empty, sample_recovery)) = Inr ()"
  by code_simp

lemma sample_first: "sample_offered ''one'' (Map.empty, sample_recovery) = (Inr (), fst sample_checkpointed, snd sample_checkpointed)"
  unfolding sample_checkpointed_def using sample_offered_ok by (metis prod.collapse)

lemma sample_state: "Inr (or_empty (json_text (sample_offer state) ''state'')) = (Inr state :: string result)"
  by (simp add: sample_offer_def json_text_def or_empty_def)

theorem retransmission_destroys_checkpoint_witness:
  "\<exists>cp \<in> set (checkpoints (snd sample_checkpointed)).
     Retrieve sample_get id (cp_object_key cp) (fst (snd (sample_offered ''two'' sample_checkpointed))) = Inr (Some (''two'', sha_text id ''two'')) \<and>
     de_Level (weigh_checkpoint cp (sha_text id ''two'') (JObj []) ''h'' ''1'' 0 True False) \<noteq> LevelCompatibleCheckpoint"
proof -
  have law: "sample_put k b s = (None, s') \<Longrightarrow> sample_get k s' = Inr (Some b)" for k b s s'
    by (auto simp: sample_put_def sample_get_def)
  have second: "sample_offered ''two'' (fst sample_checkpointed, snd sample_checkpointed) = (fst (sample_offered ''two'' sample_checkpointed),
      fst (snd (sample_offered ''two'' sample_checkpointed)), snd (snd (sample_offered ''two'' sample_checkpointed)))" by simp
  have differ: "sha_text id ''one'' \<noteq> sha_text id ''two''" by code_simp
  have "snd (snd (sample_offered ''two'' sample_checkpointed)) = snd sample_checkpointed \<and>
      (\<exists>e. fst (sample_offered ''two'' sample_checkpointed) = Inl e) \<and>
      (\<exists>cp \<in> set (checkpoints (snd (snd (sample_offered ''two'' sample_checkpointed)))).
         cp_id cp = pi_CheckpointID (persist_input id sample_meta (sample_offer ''one'') '''' 0) \<and>
         Retrieve sample_get id (cp_object_key cp) (fst (snd (sample_offered ''two'' sample_checkpointed))) = Inr (Some (''two'', sha_text id ''two'')) \<and>
         de_Level (weigh_checkpoint cp (sha_text id ''two'') (JObj []) ''h'' ''1'' 0 True False) \<noteq> LevelCompatibleCheckpoint)"
    by (rule retransmission_destroys_checkpoint [where put = sample_put and get = sample_get and ?decode64.0 = Inr and parse = sample_parse
          and ctx = "WithTenant None ''p''" and offer' = "sample_offer ''two''" and now = 9 and now' = 9 and objs = Map.empty and db = sample_recovery
          and ?objs1.0 = "fst sample_checkpointed" and raw = "''one''"
          and ?o1.0 = "[pi_ObjectKey (persist_input id sample_meta (sample_offer ''one'') '''' 0) \<mapsto> ''one'']"
          and ?o2.0 = "(fst sample_checkpointed)(pi_ObjectKey (persist_input id sample_meta (sample_offer ''two'') '''' 0) \<mapsto> ''two'')"])
      (use law sample_first sample_state second differ in \<open>simp_all add: sample_put_def MaxCheckpointBytes_def sample_offered_def\<close>)
  then show ?thesis by metis
qed

definition sample_input :: PersistInput where
  "sample_input = persist_input id sample_meta (sample_offer ''one'') (sha_text id ''one'') 3"

definition sample_stored :: "unit result \<times> recovery_db" where
  "sample_stored = Persist sample_parse (WithTenant None ''p'') sample_input 9 sample_recovery"

lemma sample_stored_ok: "fst sample_stored = Inr ()"
  by code_simp

theorem checkpoint_immutable_witness:
  "snd (Persist sample_parse (WithTenant None ''p'') sample_input 10 (snd sample_stored)) = snd sample_stored"
  using checkpoint_immutable [where sha = id and collate = id and render = "\<lambda>_. ''''",
      OF sample_pair [OF sample_stored_ok, unfolded sample_stored_def] rtranclp.rtrancl_refl prod.collapse [symmetric] refl]
  by (simp add: sample_stored_def)

definition sample_ready :: json where
  "sample_ready = JObj [(''checkpoint_formats'', JArr [JStr ''k/1''])]"

definition sample_plan :: "recoveryPlan result" where
  "sample_plan = consultCheckpointLadder id (Some sample_get) (WithTenant None ''p'') ''p'' ''r'' ''s'' sample_ready ''1'' (Inr ''h'') (\<lambda>_. Inr True) False
     sample_checkpointed"

lemma sample_plan_ok: "case sample_plan of Inr plan \<Rightarrow> map_option de_Level (pl_decision plan) = Some LevelCompatibleCheckpoint | Inl _ \<Rightarrow> False"
  by code_simp

theorem restore_verified_witness:
  "\<exists>plan cp. sample_plan = Inr plan \<and> pl_checkpoint plan = Some cp \<and> sha_text id (pl_bytes plan) = cp_checksum cp"
proof -
  from sample_plan_ok obtain plan d where "sample_plan = Inr plan" "pl_decision plan = Some d" "de_Level d = LevelCompatibleCheckpoint"
    by (auto split: sum.splits)
  with restore_verified [of id "Some sample_get" "WithTenant None ''p''" "''p''" "''r''" "''s''" sample_ready "''1''" "Inr ''h''" "\<lambda>_. Inr True" False
      "fst sample_checkpointed" "snd sample_checkpointed" plan d]
  show ?thesis by (auto simp: sample_plan_def)
qed

end
