(* ===== verification/Approvals.thy ===== *)
theory Approvals
  imports Background
begin

text \<open>
  The approval of gated tool calls (\<^verbatim>\<open>src/packages/coordinator/approvals.go\<close>, the approver check of
  \<^verbatim>\<open>publication.go\<close>): a call is parked with a question, a person answers it or its deadline passes, and the run
  that waits for the answer is woken in the same transaction.  The statements are those of
  \<^verbatim>\<open>src/storage/queries\<close>.

  One argument \<open>now\<close> stands for the readings of the clock in one operation, by the process and by the database.
  The rows of publications share the table of approvals; they have no tool call.
\<close>

section \<open>Tables\<close>

record approval_row =
  ap_id :: string
  ap_tool_call :: "string option"
  ap_project :: string
  ap_request_hash :: string
  ap_decided_by :: string
  ap_expires_at :: "int option"
  ap_created_at :: int

record approval_db = background_db +
  approvals :: "approval_row list"

definition approvalRequestedEvent :: string where
  "approvalRequestedEvent = ''approval.requested.v1''"

definition approvalApprovedEvent :: string where
  "approvalApprovedEvent = ''approval.approved.v1''"

definition approvalDeniedEvent :: string where
  "approvalDeniedEvent = ''approval.denied.v1''"

definition approvalExpiredEvent :: string where
  "approvalExpiredEvent = ''approval.expired.v1''"

definition ErrApproverNotAuthorized :: error where
  "ErrApproverNotAuthorized = Sentinel ''coordinator'' ''approver_not_authorized''"

text \<open>Nanoseconds.\<close>

definition defaultApprovalTTL :: int where
  "defaultApprovalTTL = 30 * 60 * 1000000000"

text \<open>\<open>getenv\<close> is \<^verbatim>\<open>os.Getenv\<close> and \<open>parseDuration\<close> is \<^verbatim>\<open>time.ParseDuration\<close>.\<close>

definition ApprovalTTL :: "(string \<Rightarrow> string) \<Rightarrow> (string \<Rightarrow> int result) \<Rightarrow> int" where
  "ApprovalTTL getenv parseDuration =
     (let raw = getenv ''PALAI_APPROVAL_TTL''
      in if raw = '''' then defaultApprovalTTL
         else case parseDuration raw of Inl e \<Rightarrow> defaultApprovalTTL | Inr d \<Rightarrow> if d \<le> 0 then defaultApprovalTTL else d)"

section \<open>Asking\<close>

record ToolApprovalRequest =
  tq_ApprovalID :: string
  tq_ToolCallID :: string
  tq_SessionID :: string
  tq_ResponseID :: string
  tq_RunID :: string
  tq_Fence :: uint64
  tq_ToolName :: string
  tq_Arguments :: json
  tq_ReplayClass :: string
  tq_RequestHash :: string
  tq_ExpiresAt :: "int option"
  tq_Boundary :: string

definition parked_call :: "string \<Rightarrow> ToolApprovalRequest \<Rightarrow> int \<Rightarrow> tool_call_row" where
  "parked_call tenant inp now = \<lparr>tc_id = tq_ToolCallID inp, tc_project = tenant, tc_run = tq_RunID inp,
     tc_fence = sint (tq_Fence inp), tc_state = ToolCallApprovalPending, tc_name = tq_ToolName inp,
     tc_arguments = tq_Arguments inp, tc_result = None, tc_replay_class = tq_ReplayClass inp,
     tc_request_hash = tq_RequestHash inp, tc_external_key = '''', tc_lease_owner = '''', tc_reconciliation = '''',
     tc_boundary = tq_Boundary inp, tc_created_at = now\<rparr>"

text \<open>\<open>False\<close> when the identifier was taken.\<close>

definition BeginToolCallApproval :: "txn \<Rightarrow> tool_call_row \<Rightarrow> ('a execution_db_scheme, bool) tx" where
  [sql_defs]: "BeginToolCallApproval t row = (\<lambda>db.
     if \<not> tenant_policy (tx_conn t) (tc_project row) then Inl RowSecurity
     else if tc_fence row < 0 then Inl CheckViolation
     else if tc_id row \<in> set (map tc_id (tool_calls db)) then Inr (False, db)
     else Inr (True, db\<lparr>tool_calls := tool_calls db @ [row]\<rparr>))"

definition InsertToolApproval :: "txn \<Rightarrow> approval_row \<Rightarrow> ('a approval_db_scheme, unit) tx" where
  [sql_defs]: "InsertToolApproval t row = (\<lambda>db.
     if \<not> tenant_policy (tx_conn t) (ap_project row) then Inl RowSecurity
     else if ap_tool_call row \<in> set (map ap_tool_call (approvals db)) then Inr ((), db)
     else if ap_id row \<in> set (map ap_id (approvals db)) then Inl UniqueViolation
     else Inr ((), db\<lparr>approvals := approvals db @ [row]\<rparr>))"

definition question :: "string \<Rightarrow> ToolApprovalRequest \<Rightarrow> int \<Rightarrow> approval_row" where
  "question tenant inp now = \<lparr>ap_id = tq_ApprovalID inp, ap_tool_call = Some (tq_ToolCallID inp), ap_project = tenant,
     ap_request_hash = tq_RequestHash inp, ap_decided_by = '''', ap_expires_at = tq_ExpiresAt inp, ap_created_at = now\<rparr>"

definition call_payload :: "string \<Rightarrow> string \<Rightarrow> json" where
  "call_payload runID callID = JObj [(''run_id'', JStr runID), (''tool_call_id'', JStr callID)]"

definition RequestToolApproval :: "ctx \<Rightarrow> string \<Rightarrow> ToolApprovalRequest \<Rightarrow> int \<Rightarrow> 'a approval_db_scheme
    \<Rightarrow> unit result \<times> 'a approval_db_scheme" where
  "RequestToolApproval ctx tenant inp now =
     begin_tx ctx tenant ''begin request tool approval'' (\<lambda>t.
       tx_then (guardRunActive t (tq_RunID inp))
       (tx_bind (tx_wrap ''park tool call for approval'' (BeginToolCallApproval t (parked_call tenant inp now))) (\<lambda>fresh.
         tx_when fresh
          (tx_then (tx_wrap ''open tool approval'' (InsertToolApproval t (question tenant inp now)))
          (tx_then (appendEvent t (tq_SessionID inp) (tq_ResponseID inp) approvalRequestedEvent
              (JObj [(''approval_id'', JStr (tq_ApprovalID inp)), (''request_hash'', JStr (tq_RequestHash inp)),
                (''run_id'', JStr (tq_RunID inp)), (''tool_call_id'', JStr (tq_ToolCallID inp)), (''tool_name'', JStr (tq_ToolName inp))]))
          (tx_then (appendEvent t (tq_SessionID inp) (tq_ResponseID inp) ''tool_call.approval_pending.v1''
              (call_payload (tq_RunID inp) (tq_ToolCallID inp))) (tx_return ())))))))"

section \<open>Reading\<close>

record ToolApproval =
  tv_ApprovalID :: string
  tv_ToolCallID :: string
  tv_RunID :: string
  tv_SessionID :: string
  tv_ResponseID :: string
  tv_ToolName :: string
  tv_Arguments :: json
  tv_RequestHash :: string
  tv_State :: ToolCallState
  tv_ExpiresAt :: "int option"
  tv_DecidedBy :: string

record PendingToolApproval = ToolApproval +
  tv_CreatedAt :: int

text \<open>The join of the approvals that satisfy \<open>p\<close> with their calls and runs, as the connection's row policies show them.\<close>

definition approval_join :: "conn \<Rightarrow> (approval_row \<Rightarrow> bool) \<Rightarrow> 'a approval_db_scheme \<Rightarrow> (approval_row \<times> tool_call_row \<times> run_row) list" where
  "approval_join c p db = concat (map (\<lambda>a. concat (map (\<lambda>call. map (\<lambda>r. (a, call, r))
       (filter (\<lambda>r. rn_id r = tc_run call \<and> tenant_policy c (rn_project r)) (runs db)))
     (filter (\<lambda>call. ap_tool_call a = Some (tc_id call) \<and> tenant_policy c (tc_project call)) (tool_calls db))))
   (filter (\<lambda>a. p a \<and> tenant_policy c (ap_project a)) (approvals db)))"

definition pending_view :: "approval_row \<times> tool_call_row \<times> run_row \<Rightarrow> PendingToolApproval" where
  "pending_view x = (case x of (a, call, r) \<Rightarrow> \<lparr>tv_ApprovalID = ap_id a, tv_ToolCallID = tc_id call, tv_RunID = tc_run call,
     tv_SessionID = rn_session r, tv_ResponseID = or_empty (rn_response r), tv_ToolName = tc_name call,
     tv_Arguments = tc_arguments call, tv_RequestHash = ap_request_hash a, tv_State = tc_state call,
     tv_ExpiresAt = ap_expires_at a, tv_DecidedBy = ap_decided_by a, tv_CreatedAt = ap_created_at a\<rparr>)"

definition first_row :: "'a list \<Rightarrow> 'a option" where
  "first_row xs = (case xs of [] \<Rightarrow> None | x # _ \<Rightarrow> Some x)"

definition approval_of :: "txn \<Rightarrow> string \<Rightarrow> 'a approval_db_scheme \<Rightarrow> (approval_row \<times> tool_call_row \<times> run_row) option" where
  "approval_of t callID db = first_row (approval_join (tx_conn t) (\<lambda>a. ap_tool_call a = Some callID \<and> ap_project a = tx_tenant t) db)"

definition ToolApprovalForCall :: "ctx \<Rightarrow> string \<Rightarrow> string \<Rightarrow> 'a approval_db_scheme \<Rightarrow> ToolApproval option result" where
  "ToolApprovalForCall ctx tenant callID = read_conn ctx tenant ''read tool approval'' (\<lambda>t db.
     Inr (map_option (\<lambda>x. ToolApproval.truncate (pending_view x)) (approval_of t callID db)))"

definition ToolApprovalByID :: "ctx \<Rightarrow> string \<Rightarrow> string \<Rightarrow> 'a approval_db_scheme \<Rightarrow> PendingToolApproval option result" where
  "ToolApprovalByID ctx tenant approvalID db = (if approvalID = '''' then Inr None
     else read_conn ctx tenant ''scan tool approval'' (\<lambda>t db. Inr (map_option pending_view (first_row
       (approval_join (tx_conn t) (\<lambda>a. ap_id a = approvalID \<and> ap_project a = tx_tenant t) db)))) db)"

definition is_pending :: "approval_row \<times> tool_call_row \<times> run_row \<Rightarrow> bool" where
  "is_pending x = (case x of (a, call, r) \<Rightarrow> tc_state call = ToolCallApprovalPending)"

definition asked_at :: "approval_row \<times> 'b \<Rightarrow> int \<times> string" where
  "asked_at x = (ap_created_at (fst x), ap_id (fst x))"

text \<open>\<^verbatim>\<open>ORDER BY a.created_at, a.id\<close>.\<close>

definition by_question :: "(approval_row \<times> 'b) list \<Rightarrow> (approval_row \<times> 'b) list" where
  "by_question xs = sort_key (\<lambda>x. ap_created_at (fst x)) (sort_key (\<lambda>x. ap_id (fst x)) xs)"

record ToolApprovalWindow =
  aw_CreatedGTE :: "int option"
  aw_CreatedLTE :: "int option"
  aw_AfterCreatedAt :: "int option"
  aw_AfterID :: string
  aw_Limit :: int

definition in_window :: "ToolApprovalWindow \<Rightarrow> approval_row \<Rightarrow> bool" where
  "in_window w a \<longleftrightarrow>
     (case aw_CreatedGTE w of None \<Rightarrow> True | Some x \<Rightarrow> ap_created_at a \<ge> x) \<and>
     (case aw_CreatedLTE w of None \<Rightarrow> True | Some x \<Rightarrow> ap_created_at a \<le> x) \<and>
     (case aw_AfterCreatedAt w of None \<Rightarrow> True
      | Some x \<Rightarrow> ap_created_at a > x \<or> (ap_created_at a = x \<and> ap_id a > aw_AfterID w))"

definition PendingToolApprovals :: "ctx \<Rightarrow> string \<Rightarrow> ToolApprovalWindow \<Rightarrow> 'a approval_db_scheme \<Rightarrow> PendingToolApproval list result" where
  "PendingToolApprovals ctx tenant w db = (if aw_Limit w \<le> 0 then Inr []
     else read_conn ctx tenant ''list pending tool approvals'' (\<lambda>t db. Inr (map pending_view (take (nat (aw_Limit w)) (by_question
       (filter is_pending (approval_join (tx_conn t) (\<lambda>a. ap_project a = tx_tenant t \<and> in_window w a) db)))))) db)"

definition PendingToolApprovalForSession :: "ctx \<Rightarrow> string \<Rightarrow> string \<Rightarrow> string \<Rightarrow> 'a approval_db_scheme \<Rightarrow> ToolApproval option result" where
  "PendingToolApprovalForSession ctx tenant sessionID requestHash db =
     (if sessionID = '''' \<or> requestHash = '''' then Inr None
      else read_conn ctx tenant ''read the session's pending tool approval'' (\<lambda>t db.
        Inr (map_option (\<lambda>x. ToolApproval.truncate (pending_view x)) (first_row (sort_key (\<lambda>x. ap_created_at (fst x))
          (filter (\<lambda>x. is_pending x \<and> rn_session (snd (snd x)) = sessionID)
            (approval_join (tx_conn t) (\<lambda>a. ap_project a = tx_tenant t \<and> ap_request_hash a = requestHash) db)))))) db)"

section \<open>Deciding\<close>

record ToolApprovalDecision =
  td_ToolCallID :: string
  td_RequestHash :: string
  td_DecidedBy :: string
  td_Approve :: bool
  td_Reason :: string

definition approverAuthorizedTx :: "txn \<Rightarrow> string \<Rightarrow> ('a commands_db_scheme, bool) tx" where
  "approverAuthorizedTx t approver = tx_bind (projectConfigTx t) (\<lambda>policy. tx_return (ApproverAllowed policy approver))"

definition LockToolCallForDecision :: "txn \<Rightarrow> string \<Rightarrow> ('a execution_db_scheme, tool_call_row option) tx" where
  "LockToolCallForDecision t callID = tx_read (\<lambda>db. sql_row (the_call t callID) (tool_calls db))"

definition lockRunForWake :: "txn \<Rightarrow> string \<Rightarrow> ('a journal_db_scheme, string \<times> string) tx" where
  "lockRunForWake t runID = tx_bind (LockRun t runID) (\<lambda>row.
     case row of None \<Rightarrow> tx_fail (Errorf [NoRows] ''lock parked run'')
     | Some r \<Rightarrow> tx_return (rn_session r, or_empty (rn_response r)))"

definition ApproveToolCall :: "txn \<Rightarrow> string \<Rightarrow> ('a execution_db_scheme, unit) tx" where
  [sql_defs]: "ApproveToolCall t callID = tx_write (\<lambda>db. db\<lparr>tool_calls :=
     sql_update (\<lambda>r. the_call t callID r \<and> tc_state r = ToolCallApprovalPending) (\<lambda>r. r\<lparr>tc_state := ToolCallReady\<rparr>) (tool_calls db)\<rparr>)"

definition CancelToolCall :: "txn \<Rightarrow> string \<Rightarrow> json \<Rightarrow> ('a execution_db_scheme, unit) tx" where
  [sql_defs]: "CancelToolCall t callID result = tx_write (\<lambda>db. db\<lparr>tool_calls :=
     sql_update (\<lambda>r. the_call t callID r \<and> tc_state r \<in> {ToolCallApprovalPending, ToolCallReady})
       (\<lambda>r. r\<lparr>tc_state := ToolCallCanceled, tc_result := Some result\<rparr>) (tool_calls db)\<rparr>)"

text \<open>The statement names no project; the row policies still apply.\<close>

definition SetToolApprovalDecision :: "txn \<Rightarrow> string \<Rightarrow> string \<Rightarrow> ('a approval_db_scheme, unit) tx" where
  [sql_defs]: "SetToolApprovalDecision t callID decidedBy = tx_write (\<lambda>db. db\<lparr>approvals :=
     sql_update (\<lambda>a. ap_tool_call a = Some callID \<and> tenant_policy (tx_conn t) (ap_project a)) (\<lambda>a. a\<lparr>ap_decided_by := decidedBy\<rparr>)
       (approvals db)\<rparr>)"

definition expired_answer :: json where
  "expired_answer = JObj [(''reason'', JStr ''this call's approval expired before anyone decided; nothing ran. Ask again if it is still wanted.''),
     (''status'', JStr ''denied'')]"

definition denied_answer :: "ToolApprovalDecision \<Rightarrow> json" where
  "denied_answer d = JObj [(''decided_by'', JStr (td_DecidedBy d)), (''reason'', JStr (td_Reason d)), (''status'', JStr ''denied'')]"

definition expireToolCallTx :: "txn \<Rightarrow> string \<Rightarrow> string \<Rightarrow> string \<Rightarrow> string \<Rightarrow> int \<Rightarrow> ('a approval_db_scheme, unit) tx" where
  "expireToolCallTx t sessionID responseID runID callID now =
     tx_then (CancelToolCall t callID expired_answer)
     (tx_then (appendEvent t sessionID responseID approvalExpiredEvent (call_payload runID callID))
     (tx_then (appendEvent t sessionID responseID ''tool_call.canceled.v1'' (call_payload runID callID))
     (wakeParkedRunTx t runID now)))"

definition decision_payload :: "string \<Rightarrow> string \<Rightarrow> string \<Rightarrow> json" where
  "decision_payload callID approvalID name =
     JObj [(''approval_id'', JStr approvalID), (''tool_call_id'', JStr callID), (''tool_name'', JStr name)]"

definition record_answer :: "txn \<Rightarrow> ToolApprovalDecision \<Rightarrow> string \<Rightarrow> string \<Rightarrow> string \<Rightarrow> string \<Rightarrow> string
    \<Rightarrow> ('a approval_db_scheme, unit) tx" where
  "record_answer t d sessionID responseID runID approvalID name =
     (if td_Approve d
      then tx_then (ApproveToolCall t (td_ToolCallID d))
          (tx_then (appendEvent t sessionID responseID ''tool_call.ready.v1'' (call_payload runID (td_ToolCallID d)))
          (tx_then (appendEvent t sessionID responseID approvalApprovedEvent (decision_payload (td_ToolCallID d) approvalID name))
             (tx_return ())))
      else tx_then (CancelToolCall t (td_ToolCallID d) (denied_answer d))
          (tx_then (appendEvent t sessionID responseID ''tool_call.canceled.v1'' (call_payload runID (td_ToolCallID d)))
          (tx_then (appendEvent t sessionID responseID approvalDeniedEvent (decision_payload (td_ToolCallID d) approvalID name))
             (tx_return ()))))"

definition elapsed :: "int option \<Rightarrow> int \<Rightarrow> bool" where
  "elapsed expiresAt now = (case expiresAt of None \<Rightarrow> False | Some e \<Rightarrow> e < now)"

definition decide_tx :: "txn \<Rightarrow> ToolApprovalDecision \<Rightarrow> int \<Rightarrow> ('a approval_db_scheme, bool) tx" where
  "decide_tx t d now =
     tx_bind (approverAuthorizedTx t (td_DecidedBy d)) (\<lambda>ok.
       if \<not> ok then tx_fail ErrApproverNotAuthorized
       else tx_bind (LockToolCallForDecision t (td_ToolCallID d)) (\<lambda>row.
         case row of None \<Rightarrow> tx_return False
         | Some call \<Rightarrow>
             if tc_state call \<noteq> ToolCallApprovalPending then tx_return False
             else tx_bind (tx_read (approval_of t (td_ToolCallID d))) (\<lambda>found.
               case found of None \<Rightarrow> tx_fail (Errorf [NoRows] ''read tool approval for decision'')
               | Some (a, _, _) \<Rightarrow>
                   tx_bind (lockRunForWake t (tc_run call)) (\<lambda>(sessionID, responseID).
                     if elapsed (ap_expires_at a) now
                     then tx_then (expireToolCallTx t sessionID responseID (tc_run call) (td_ToolCallID d) now) (tx_return False)
                     else if td_RequestHash d \<noteq> '''' \<and> td_RequestHash d \<noteq> tc_request_hash call then tx_return False
                     else tx_then (record_answer t d sessionID responseID (tc_run call) (ap_id a) (tc_name call))
                         (tx_then (SetToolApprovalDecision t (td_ToolCallID d) (td_DecidedBy d))
                         (tx_then (wakeParkedRunTx t (tc_run call) now) (tx_return True)))))))"

definition DecideToolApproval :: "ctx \<Rightarrow> string \<Rightarrow> ToolApprovalDecision \<Rightarrow> int \<Rightarrow> 'a approval_db_scheme
    \<Rightarrow> bool result \<times> 'a approval_db_scheme" where
  "DecideToolApproval ctx tenant d now = begin_tx ctx tenant ''begin decide tool approval'' (\<lambda>t. decide_tx t d now)"

section \<open>Expiring\<close>

definition expireOneToolApproval :: "ctx \<Rightarrow> string \<Rightarrow> string \<Rightarrow> string \<Rightarrow> string \<Rightarrow> string \<Rightarrow> int \<Rightarrow> 'a approval_db_scheme
    \<Rightarrow> bool result \<times> 'a approval_db_scheme" where
  "expireOneToolApproval ctx tenant sessionID responseID runID callID now =
     begin_tx ctx tenant ''begin expire tool approval'' (\<lambda>t.
       tx_bind (LockToolCallForDecision t callID) (\<lambda>row.
         case row of None \<Rightarrow> tx_return False
         | Some call \<Rightarrow>
             if tc_state call \<noteq> ToolCallApprovalPending then tx_return False
             else tx_then (lockRunForWake t runID)
                 (tx_then (expireToolCallTx t sessionID responseID runID callID now) (tx_return True))))"

definition SelectExpiredToolApprovals :: "conn \<Rightarrow> int \<Rightarrow> 'a approval_db_scheme \<Rightarrow> (approval_row \<times> tool_call_row \<times> run_row) list" where
  "SelectExpiredToolApprovals c now db = by_question (filter is_pending (approval_join c (\<lambda>a. elapsed (ap_expires_at a) now) db))"

fun expire_loop :: "ctx \<Rightarrow> int \<Rightarrow> (approval_row \<times> tool_call_row \<times> run_row) list \<Rightarrow> int \<Rightarrow> 'a approval_db_scheme
    \<Rightarrow> (int \<times> error option) \<times> 'a approval_db_scheme" where
  "expire_loop ctx now [] swept db = ((swept, None), db)"
| "expire_loop ctx now ((a, call, r) # rest) swept db =
     (case expireOneToolApproval ctx (tc_project call) (rn_session r) (or_empty (rn_response r)) (tc_run call) (tc_id call) now db of
        (Inl e, db') \<Rightarrow> ((swept, Some e), db')
      | (Inr expired, db') \<Rightarrow> expire_loop ctx now rest (if expired then swept + 1 else swept) db')"

definition SweepExpiredToolApprovals :: "ctx \<Rightarrow> int \<Rightarrow> 'a approval_db_scheme \<Rightarrow> (int \<times> error option) \<times> 'a approval_db_scheme" where
  "SweepExpiredToolApprovals ctx now db =
     (case PrepareConn (WithSystemScope ctx) of
        Inl e \<Rightarrow> ((0, Some (Errorf [e] ''select expired tool approvals'')), db)
      | Inr c \<Rightarrow> expire_loop ctx now (SelectExpiredToolApprovals c now db) 0 db)"

end
