(* ===== verification/Approvals_Safety.thy ===== *)
theory Approvals_Safety
  imports Execution_Safety Approvals
begin

text \<open>
  Correctness of the approval gate.  The operations of \<open>Approvals\<close> join those of \<open>Execution_Safety\<close> in one step relation,
  whose argument \<open>approvable\<close> says for which calls an approving answer is among the steps.  The locale
  \<open>approval_statements\<close> extends the contract of \<open>execution_statements\<close> by the statements of the gate.  It is
  interpreted for the calls that nobody approved and for the calls whose question is closed.
\<close>

section \<open>Operations\<close>

inductive approval_step :: "(string \<Rightarrow> string) \<Rightarrow> (string \<Rightarrow> string) \<Rightarrow> (json \<Rightarrow> string) \<Rightarrow> (string \<Rightarrow> bool)
    \<Rightarrow> 'a approval_db_scheme \<Rightarrow> 'a approval_db_scheme \<Rightarrow> bool" for sha collate render approvable where
  execution: "execution_step sha collate render db db' \<Longrightarrow> approval_step sha collate render approvable db db'"
| request: "RequestToolApproval ctx tenant inp now db = (ru, db') \<Longrightarrow> approval_step sha collate render approvable db db'"
| decide: "DecideToolApproval ctx tenant d now db = (rb, db') \<Longrightarrow> \<not> td_Approve d \<or> approvable (td_ToolCallID d)
    \<Longrightarrow> approval_step sha collate render approvable db db'"
| expire: "expireOneToolApproval ctx tenant sid resp runID callID now db = (rb, db') \<Longrightarrow> approval_step sha collate render approvable db db'"

locale approval_statements = execution_statements R sha
  for R :: "'a approval_db_scheme \<Rightarrow> 'a approval_db_scheme \<Rightarrow> bool" and sha :: "string \<Rightarrow> string" +
  fixes approvable :: "string \<Rightarrow> bool"
  assumes ap_begin: "tx_in R (BeginToolCallApproval t row)"
    and ap_question: "tx_in R (InsertToolApproval t a)"
    and ap_approve: "approvable callID \<Longrightarrow> tx_in R (ApproveToolCall t callID)"
    and ap_cancel: "tx_in R (CancelToolCall t callID doc)"
    and ap_decision: "tx_in R (SetToolApprovalDecision t callID who)"
begin

lemma ap_reads: "tx_in R (approverAuthorizedTx t who)" "tx_in R (LockToolCallForDecision t callID)" "tx_in R (lockRunForWake t runID)"
  unfolding approverAuthorizedTx_def projectConfigTx_def LockToolCallForDecision_def lockRunForWake_def LockRun_def
  by (intro in_intros)+

lemma ap_expire: "tx_in R (expireToolCallTx t sid resp runID callID now)"
  unfolding expireToolCallTx_def by (intro in_intros ap_cancel st_append ex_wake)

lemma ap_answer:
  assumes "\<not> td_Approve d \<or> approvable (td_ToolCallID d)"
  shows "tx_in R (record_answer t d sid resp runID aid name)"
  using assms unfolding record_answer_def by (auto intro!: in_intros ap_cancel ap_approve st_append)

lemma ap_decide:
  assumes "\<not> td_Approve d \<or> approvable (td_ToolCallID d)"
  shows "tx_in R (decide_tx t d now)"
  unfolding decide_tx_def by (intro in_intros ap_reads ap_expire ap_answer [OF assms] ap_decision ex_wake)

theorem approval_in: "approval_step sha collate render approvable s s' \<Longrightarrow> R s s'"
proof (induction rule: approval_step.induct)
  case (execution db db')
  then show ?case by (rule execution_in)
next
  case (request ctx tenant inp now db ru db')
  then show ?case unfolding RequestToolApproval_def
    by (rule plain_ops.begin_in) (intro ex_intros ap_begin ap_question)
next
  case (decide ctx tenant d now db rb db')
  show ?case by (rule plain_ops.begin_in [OF decide(1) [unfolded DecideToolApproval_def]]) (rule ap_decide [OF decide(2)])
next
  case (expire ctx tenant sid resp runID callID now db rb db')
  then show ?case unfolding expireOneToolApproval_def
    by (rule plain_ops.begin_in) (intro in_intros ap_reads ap_expire)
qed

lemma approvals_in: "(approval_step sha collate render approvable)\<^sup>*\<^sup>* s s' \<Longrightarrow> R s s'"
  by (induction rule: rtranclp_induct) (auto intro: R_refl R_trans approval_in)

end

section \<open>A call that keeps its state within a set\<close>

definition call_in :: "ToolCallState set \<Rightarrow> string \<Rightarrow> 'a execution_db_scheme \<Rightarrow> bool" where
  "call_in H callID s \<longleftrightarrow> distinct (map tc_id (tool_calls s)) \<and> (\<exists>r \<in> set (tool_calls s). tc_id r = callID \<and> tc_state r \<in> H)"

definition call_stays :: "ToolCallState set \<Rightarrow> string \<Rightarrow> 'a execution_db_scheme \<Rightarrow> 'a execution_db_scheme \<Rightarrow> bool" where
  "call_stays H callID s s' \<longleftrightarrow> (call_in H callID s \<longrightarrow> call_in H callID s')"

lemma call_stays_same: "tool_calls s' = tool_calls s \<Longrightarrow> call_stays H callID s s'"
  by (simp add: call_stays_def call_in_def)

lemma call_stays_update:
  assumes rows: "tool_calls s' = sql_update p f (tool_calls s)"
    and kept: "\<And>r. p r \<Longrightarrow> tc_id (f r) = tc_id r \<and> (tc_id r = callID \<longrightarrow> tc_state r \<in> H \<longrightarrow> tc_state (f r) \<in> H)"
  shows "call_stays H callID s s'"
proof -
  have "map tc_id (tool_calls s') = map tc_id (tool_calls s)" using kept by (simp add: rows sql_update_def)
  moreover have "\<exists>x \<in> set (tool_calls s'). tc_id x = callID \<and> tc_state x \<in> H"
    if "r \<in> set (tool_calls s)" "tc_id r = callID" "tc_state r \<in> H" for r
    using that kept [of r] by (intro bexI [of _ "if p r then f r else r"]) (auto simp: rows sql_update_def)
  ultimately show ?thesis by (auto simp: call_stays_def call_in_def)
qed

lemma call_write_stays:
  assumes "\<And>s a s'. m s = Inr (a, s') \<Longrightarrow> tool_calls s' = sql_update p f (tool_calls s)"
    and "\<And>r. p r \<Longrightarrow> tc_id (f r) = tc_id r \<and> (tc_id r = callID \<longrightarrow> tc_state r \<in> H \<longrightarrow> tc_state (f r) \<in> H)"
  shows "tx_in (call_stays H callID) m"
  by (rule tx_inI) (rule call_stays_update [OF assms])

lemma call_stays_append:
  "tool_calls s' = tool_calls s @ [row] \<Longrightarrow> tc_id row \<notin> tc_id ` set (tool_calls s) \<Longrightarrow> call_stays H callID s s'"
  by (auto simp: call_stays_def call_in_def)

lemma upsert_call_stays:
  assumes kept: "\<And>old. p old \<Longrightarrow> tc_id (f old) = tc_id old \<and> (tc_id old = callID \<longrightarrow> tc_state old \<in> H \<longrightarrow> tc_state (f old) \<in> H)"
  shows "tx_in (call_stays H callID) (upsert_call t row p f)"
proof (rule tx_inI)
  fix s s' :: "'a execution_db_scheme" and b assume u: "upsert_call t row p f s = Inr (b, s')"
  show "call_stays H callID s s'"
  proof (cases "sql_row (\<lambda>r. tc_id r = tc_id row) (tool_calls s)")
    case None
    with u have "tool_calls s' = tool_calls s @ [row]" by (auto simp: upsert_call_def split: if_splits)
    then show ?thesis using None by (intro call_stays_append) (auto simp: sql_row_None)
  next
    case (Some old)
    with u consider "s' = s" | "p old" "s' = update_call (tc_id row) f s"
      by (auto simp: upsert_call_def split: if_splits)
    then show ?thesis
    proof cases
      case 2
      show ?thesis
      proof (cases "distinct (map tc_id (tool_calls s))")
        case True
        have "r = old" if "r \<in> set (tool_calls s)" "tc_id r = tc_id row" for r
          using key_unique [OF True that(1), of old] sql_row_Some [OF Some] that(2) by simp
        with 2 have "tool_calls s' = sql_update (\<lambda>r. tc_id r = tc_id row \<and> p r) f (tool_calls s)"
          by (auto simp: sql_update_def update_call_def)
        then show ?thesis by (rule call_stays_update) (use kept in blast)
      qed (simp add: call_stays_def call_in_def)
    qed (simp add: call_stays_same)
  qed
qed

text \<open>A set of states that the statements which write a call do not leave; the last condition is on the approvals that are among the steps.\<close>

locale call_states =
  fixes H :: "ToolCallState set" and callID :: string and approvable :: "string \<Rightarrow> bool"
  assumes running: "H \<inter> {ToolCallExecuting, ToolCallLeased} = {} \<or> {ToolCallCompleted, ToolCallUncertain} \<subseteq> H"
    and prewrite: "ToolCallReady \<in> H \<Longrightarrow> ToolCallExecuting \<in> H"
    and resolve: "ToolCallUncertain \<in> H \<Longrightarrow>
      {ToolCallReconciledCompleted, ToolCallReconciledNotApplied, ToolCallManualResolution} \<subseteq> H"
    and cancel: "ToolCallCanceled \<in> H"
    and approve: "approvable callID \<Longrightarrow> ToolCallApprovalPending \<in> H \<Longrightarrow> ToolCallReady \<in> H"
begin

lemma upsert_stays: "tx_in (call_stays H callID) (UpsertToolCall t cid runID fence name args doc rc hash now)"
  unfolding UpsertToolCall_def by (rule upsert_call_stays) (use running in auto)

lemma prewrite_stays: "tx_in (call_stays H callID) (InsertExecutingCall t cid runID fence name args rc hash key boundary now)"
  unfolding InsertExecutingCall_def by (rule upsert_call_stays) (use prewrite in auto)

lemma uncertain_stays: "tx_in (call_stays H callID) (mark_uncertain t cid)"
  by (rule call_write_stays [where p = "\<lambda>r. the_call t cid r \<and> tc_state r \<in> {ToolCallExecuting, ToolCallLeased}"
        and f = "\<lambda>r. r\<lparr>tc_state := ToolCallUncertain, tc_reconciliation := ''reconciling''\<rparr>"])
    (use running in \<open>auto simp: mark_uncertain_def Let_def\<close>)

lemma reconcile_stays:
  assumes "resolution_state resolution = Some st"
  shows "tx_in (call_stays H callID) (reconcile_call t cid st docopt)"
  by (rule call_write_stays [where p = "\<lambda>r. the_call t cid r \<and> tc_state r = ToolCallUncertain"
        and f = "\<lambda>r. r\<lparr>tc_state := st, tc_reconciliation := ToolCallState_text st,
           tc_result := (case docopt of None \<Rightarrow> tc_result r | Some j \<Rightarrow> Some j)\<rparr>"])
    (use resolution_exits [OF assms] resolve in \<open>auto simp: reconcile_call_def Let_def\<close>)

lemma cancel_stays: "tx_in (call_stays H callID) (CancelToolCall t cid doc)"
  by (rule call_write_stays [where p = "\<lambda>r. the_call t cid r \<and> tc_state r \<in> {ToolCallApprovalPending, ToolCallReady}"
        and f = "\<lambda>r. r\<lparr>tc_state := ToolCallCanceled, tc_result := Some doc\<rparr>"])
    (use cancel in \<open>auto simp: CancelToolCall_def\<close>)

lemma park_stays: "tx_in (call_stays H callID) (BeginToolCallApproval t row)"
  by (rule tx_inI) (auto simp: BeginToolCallApproval_def split: if_splits intro: call_stays_append call_stays_same)

lemma approve_stays: "approvable cid \<Longrightarrow> tx_in (call_stays H callID) (ApproveToolCall t cid)"
  by (rule call_write_stays [where p = "\<lambda>r. the_call t cid r \<and> tc_state r = ToolCallApprovalPending"
        and f = "\<lambda>r. r\<lparr>tc_state := ToolCallReady\<rparr>"]) (use approve in \<open>auto simp: ApproveToolCall_def the_call_def\<close>)

end

lemma advance_stays: "AdvanceResponse ctx tenant resp cmd s = (r, s') \<Longrightarrow> call_stays H callID s s'"
  by (auto dest!: advance_same intro: call_stays_same)

lemma call_stays_trans: "call_stays H c s t \<Longrightarrow> call_stays H c t u \<Longrightarrow> call_stays H c s u"
  by (simp add: call_stays_def)

sublocale call_states \<subseteq> approval_statements "call_stays H callID" sha approvable for sha
proof unfold_locales
  show "call_stays H callID s u" if "call_stays H callID s t" "call_stays H callID t u" for s t u :: "'a approval_db_scheme"
    using that by (rule call_stays_trans)
qed ((fact upsert_stays prewrite_stays uncertain_stays reconcile_stays cancel_stays park_stays approve_stays advance_stays)[1]
  | (auto intro!: tx_inI call_stays_same simp: ex_statement_defs InsertToolApproval_def SetToolApprovalDecision_def
      split: if_splits list.splits sum.splits prod.splits option.splits)[1])+

section \<open>Nothing gated runs unapproved\<close>

definition unapproved :: "ToolCallState set" where
  "unapproved = {ToolCallApprovalPending, ToolCallCanceled}"

definition answered_states :: "ToolCallState set" where
  "answered_states = - {ToolCallApprovalPending}"

interpretation gate: call_states unapproved callID "\<lambda>x. x \<noteq> callID" for callID
  by unfold_locales (auto simp: unapproved_def)

interpretation answered: call_states answered_states callID "\<lambda>x. True" for callID
  by unfold_locales (auto simp: answered_states_def)

lemma request_parks:
  assumes "RequestToolApproval ctx tenant inp now db = (Inr (), db')" and "distinct (map tc_id (tool_calls db))"
    and "tq_ToolCallID inp \<notin> tc_id ` set (tool_calls db)"
  shows "call_in {ToolCallApprovalPending} (tq_ToolCallID inp) db'"
proof -
  have fresh: "tool_calls s = tool_calls db @ [parked_call who inp now] \<and> b"
    if "BeginToolCallApproval t (parked_call who inp now) db = Inr (b, s)" for t b s who
    using that assms(3) by (auto simp: BeginToolCallApproval_def parked_call_def split: if_splits)
  have "tool_calls db' = tool_calls db @ [parked_call tenant inp now]"
    using begin_tx_cases [OF assms(1) [unfolded RequestToolApproval_def]]
    by (auto simp: tx_iffs InsertToolApproval_def dest!: guard_reads fresh append_tools split: if_splits)
  then show ?thesis using assms(2,3) by (auto simp: call_in_def parked_call_def)
qed

lemma commit_needs_execution:
  assumes "CommitToolResult ctx tenant sid resp runID fence callID name args res rc hash ty payload now db = (x, db')"
    and "call_in unapproved callID db"
  shows "db' = db \<and> (\<exists>e. x = Inl e)"
proof -
  from assms(2) obtain r where d: "distinct (map tc_id (tool_calls db))" and r: "r \<in> set (tool_calls db)" "tc_id r = callID"
    "tc_state r \<in> unapproved" by (auto simp: call_in_def)
  note row = call_row [OF d r(1,2)]
  have up: "\<not> changed \<and> s = db" if "UpsertToolCall t callID runID fence name args res rc hash now db = Inr (changed, s)" for t changed s
    using that r(3) by (auto simp: UpsertToolCall_def upsert_call_def row unapproved_def split: if_splits)
  have "tc_state q \<noteq> ToolCallCompleted" if "sql_row (the_call t callID) (tool_calls db) = Some q" for t q
    using key_unique [OF d _ r(1), of q] sql_row_Some [OF that] r(2,3) by (auto simp: the_call_def unapproved_def)
  then show ?thesis
    using begin_tx_cases [OF assms(1) [unfolded CommitToolResult_def]]
    by (auto simp: tx_iffs dest!: guard_reads up split: if_splits option.splits)
qed

text \<open>
  C5. A gated call never runs without an approval.  Once a call is parked with its question, no sequence of operations in
  which nobody approves that call lets its result be committed: the commit fails and writes nothing.
\<close>

theorem gated_call_needs_approval:
  assumes "distinct (map tc_id (tool_calls db))" and "tq_ToolCallID inp \<notin> tc_id ` set (tool_calls db)"
    and "RequestToolApproval ctx tenant inp now db = (Inr (), db1)"
    and "(approval_step sha collate render (\<lambda>callID. callID \<noteq> tq_ToolCallID inp))\<^sup>*\<^sup>* db1 db2"
    and "CommitToolResult ctx' tenant' sid resp runID fence (tq_ToolCallID inp) name args res rc hash ty payload now' db2 = (x, db3)"
  shows "db3 = db2 \<and> (\<exists>e. x = Inl e)"
proof -
  have "call_in unapproved (tq_ToolCallID inp) db1"
    using request_parks [OF assms(3,1,2)] by (auto simp: call_in_def unapproved_def)
  then have "call_in unapproved (tq_ToolCallID inp) db2"
    using gate.approvals_in [OF assms(4)] by (simp add: call_stays_def)
  with assms(5) show ?thesis by (rule commit_needs_execution)
qed

section \<open>The effect of an answer\<close>

definition same_calls :: "'a approval_db_scheme \<Rightarrow> 'a approval_db_scheme \<Rightarrow> bool" where
  "same_calls s s' \<longleftrightarrow> tool_calls s' = tool_calls s \<and> approvals s' = approvals s"

interpretation unrelated: plain_statements same_calls sha for sha
  by unfold_locales (auto intro!: tx_inI simp: same_calls_def ex_statement_defs
      split: if_splits list.splits sum.splits prod.splits option.splits)

lemma wake_same: "wakeParkedRunTx t runID now s = Inr (u, s') \<Longrightarrow> same_calls s s'"
  by (erule tx_inD [rotated])
    (simp only: wakeParkedRunTx_def LockRun_def, intro unrelated.in_intros unrelated.plain_cmds.in_run unrelated.pl_job_id unrelated.pl_job)

lemma append_same: "appendEvent t sid resp ty payload s = Inr (seq, s') \<Longrightarrow> same_calls s s'"
  by (erule tx_inD [rotated]) (rule unrelated.st_append)

text \<open>The rows of the calls after an approval and after a cancellation.\<close>

definition approved_calls :: "txn \<Rightarrow> string \<Rightarrow> tool_call_row list \<Rightarrow> tool_call_row list" where
  "approved_calls t callID = sql_update (\<lambda>r. the_call t callID r \<and> tc_state r = ToolCallApprovalPending) (\<lambda>r. r\<lparr>tc_state := ToolCallReady\<rparr>)"

definition canceled_calls :: "txn \<Rightarrow> string \<Rightarrow> json \<Rightarrow> tool_call_row list \<Rightarrow> tool_call_row list" where
  "canceled_calls t callID doc = sql_update (\<lambda>r. the_call t callID r \<and> tc_state r \<in> {ToolCallApprovalPending, ToolCallReady})
     (\<lambda>r. r\<lparr>tc_state := ToolCallCanceled, tc_result := Some doc\<rparr>)"

lemma expire_calls:
  assumes "expireToolCallTx t sid resp runID callID now s = Inr (u, s')"
  shows "tool_calls s' = canceled_calls t callID expired_answer (tool_calls s)" and "approvals s' = approvals s"
  using assms unfolding expireToolCallTx_def tx_then_eq CancelToolCall_def canceled_calls_def
  by (auto simp: same_calls_def dest!: append_same wake_same)

lemma answer_calls:
  assumes "record_answer t d sid resp runID aid name s = Inr (u, s')"
  shows "tool_calls s' = (if td_Approve d then approved_calls t (td_ToolCallID d) (tool_calls s)
      else canceled_calls t (td_ToolCallID d) (denied_answer d) (tool_calls s)) \<and> approvals s' = approvals s"
  using assms unfolding record_answer_def CancelToolCall_def ApproveToolCall_def canceled_calls_def approved_calls_def
  by (auto simp: same_calls_def tx_then_eq dest!: append_same split: if_splits)

lemma lock_reads: "lockRunForWake t runID s = Inr (x, s') \<Longrightarrow> s' = s"
  by (auto simp: lockRunForWake_def LockRun_def tx_iffs split: option.splits)

text \<open>What a decision that returns has done, by the call it found, its question and the answer.\<close>

definition decided :: "txn \<Rightarrow> ToolApprovalDecision \<Rightarrow> int \<Rightarrow> bool \<Rightarrow> 'a approval_db_scheme \<Rightarrow> 'a approval_db_scheme \<Rightarrow> bool" where
  "decided t d now applied db db' =
     (case sql_row (the_call t (td_ToolCallID d)) (tool_calls db) of None \<Rightarrow> \<not> applied \<and> db' = db
      | Some call \<Rightarrow>
          if tc_state call \<noteq> ToolCallApprovalPending then \<not> applied \<and> db' = db
          else case approval_of t (td_ToolCallID d) db of None \<Rightarrow> False
               | Some (a, _, _) \<Rightarrow>
                   if elapsed (ap_expires_at a) now
                   then \<not> applied \<and> tool_calls db' = canceled_calls t (td_ToolCallID d) expired_answer (tool_calls db) \<and> approvals db' = approvals db
                   else if td_RequestHash d \<noteq> '''' \<and> td_RequestHash d \<noteq> tc_request_hash call then \<not> applied \<and> db' = db
                   else applied \<and> tool_calls db' = (if td_Approve d then approved_calls t (td_ToolCallID d) (tool_calls db)
                            else canceled_calls t (td_ToolCallID d) (denied_answer d) (tool_calls db)) \<and>
                        approvals db' = sql_update (\<lambda>a. ap_tool_call a = Some (td_ToolCallID d) \<and> tenant_policy (tx_conn t) (ap_project a))
                          (\<lambda>a. a\<lparr>ap_decided_by := td_DecidedBy d\<rparr>) (approvals db))"

definition approver_ok :: "txn \<Rightarrow> string \<Rightarrow> 'a commands_db_scheme \<Rightarrow> bool" where
  "approver_ok t who db = ApproverAllowed (decodeConfigPolicy (case map_of (config_policies db) (tx_tenant t) of None \<Rightarrow> None
      | Some raw \<Rightarrow> if tenant_policy (tx_conn t) (tx_tenant t) then raw else None)) who"

lemma bind_reads:
  "tx_bind (tx_read g) f s = f (g s) s"
  "tx_bind (approverAuthorizedTx t who) f' s = f' (approver_ok t who s) s"
  by (simp_all add: approverAuthorizedTx_def projectConfigTx_def approver_ok_def tx_bind_def tx_read_def tx_return_def)

lemma decide_tx_result:
  assumes "decide_tx t d now db = Inr (applied, db')"
  shows "approver_ok t (td_DecidedBy d) db \<and> decided t d now applied db db'"
proof -
  note steps = assms [unfolded decide_tx_def LockToolCallForDecision_def bind_reads]
  have ok: "approver_ok t (td_DecidedBy d) db" using steps by (auto split: if_splits)
  show ?thesis
  proof (cases "sql_row (the_call t (td_ToolCallID d)) (tool_calls db)")
    case None
    with steps ok show ?thesis by (simp add: decided_def bind_reads)
  next
    case call: (Some call)
    show ?thesis
    proof (cases "tc_state call = ToolCallApprovalPending")
      case False
      with steps ok call show ?thesis by (simp add: decided_def bind_reads)
    next
      case pending: True
      show ?thesis
      proof (cases "approval_of t (td_ToolCallID d) db")
        case None
        with steps ok call pending show ?thesis by (simp add: bind_reads)
      next
        case (Some q)
        obtain a c r where q: "q = (a, c, r)" by (cases q)
        from steps ok call pending Some q obtain sid resp where
          answer: "(if elapsed (ap_expires_at a) now
             then tx_then (expireToolCallTx t sid resp (tc_run call) (td_ToolCallID d) now) (tx_return False)
             else if td_RequestHash d \<noteq> '''' \<and> td_RequestHash d \<noteq> tc_request_hash call then tx_return False
             else tx_then (record_answer t d sid resp (tc_run call) (ap_id a) (tc_name call))
               (tx_then (SetToolApprovalDecision t (td_ToolCallID d) (td_DecidedBy d))
               (tx_then (wakeParkedRunTx t (tc_run call) now) (tx_return True)))) db = Inr (applied, db')"
          by (auto simp: bind_reads tx_bind_eq [of "lockRunForWake t (tc_run call)"] dest!: lock_reads)
        show ?thesis
          using answer ok call pending Some q unfolding decided_def
          by (auto simp: tx_then_eq SetToolApprovalDecision_def same_calls_def expire_calls
              dest!: answer_calls wake_same split: if_splits)
      qed
    qed
  qed
qed

lemma decide_result:
  assumes "DecideToolApproval ctx tenant d now db = (Inr applied, db')"
  obtains t where "tx_tenant t = tenant" "PrepareConn (ScopeToTenant ctx tenant) = Inr (tx_conn t)"
    "approver_ok t (td_DecidedBy d) db" "decided t d now applied db db'"
  using begin_tx_cases [OF assms [unfolded DecideToolApproval_def]] decide_tx_result by blast

lemma closed_row:
  assumes "call_in answered_states callID s" and "sql_row (the_call t callID) (tool_calls s) = Some q"
  shows "tc_state q \<noteq> ToolCallApprovalPending"
proof -
  from assms(1) obtain r where "distinct (map tc_id (tool_calls s))" "r \<in> set (tool_calls s)" "tc_id r = callID" "tc_state r \<in> answered_states"
    by (auto simp: call_in_def)
  moreover have "q \<in> set (tool_calls s)" "tc_id q = callID" using sql_row_Some [OF assms(2)] by (auto simp: the_call_def)
  ultimately have "q = r" by (metis key_unique)
  with \<open>tc_state r \<in> answered_states\<close> show ?thesis by (simp add: answered_states_def)
qed

lemma answer_written:
  assumes "sql_row (the_call t callID) rows = Some call" and "tc_state call = ToolCallApprovalPending"
  shows "call\<lparr>tc_state := ToolCallReady\<rparr> \<in> set (approved_calls t callID rows)"
    and "call\<lparr>tc_state := ToolCallCanceled, tc_result := Some doc\<rparr> \<in> set (canceled_calls t callID doc rows)"
  using sql_row_Some [OF assms(1)] assms(2)
  by (auto simp: approved_calls_def canceled_calls_def sql_update_def intro!: image_eqI [of _ _ call])

lemma answer_ids:
  "map tc_id (approved_calls t callID rows) = map tc_id rows" "map tc_id (canceled_calls t callID doc rows) = map tc_id rows"
  by (simp_all add: approved_calls_def canceled_calls_def sql_update_def)

lemma applied_closes:
  assumes "DecideToolApproval ctx tenant d now db = (Inr True, db')" and "distinct (map tc_id (tool_calls db))"
  shows "call_in answered_states (td_ToolCallID d) db'"
proof -
  obtain t where "decided t d now True db db'" using decide_result [OF assms(1)] .
  then obtain call where call: "sql_row (the_call t (td_ToolCallID d)) (tool_calls db) = Some call" "tc_state call = ToolCallApprovalPending"
    and rows: "tool_calls db' = (if td_Approve d then approved_calls t (td_ToolCallID d) (tool_calls db)
                            else canceled_calls t (td_ToolCallID d) (denied_answer d) (tool_calls db))"
    by (auto simp: decided_def split: option.splits if_splits)
  have "tc_id call = td_ToolCallID d" using sql_row_Some [OF call(1)] by (simp add: the_call_def)
  then have "\<exists>r \<in> set (tool_calls db'). tc_id r = td_ToolCallID d \<and> tc_state r \<in> answered_states"
    using bexI [OF _ answer_written(1) [OF call], of "\<lambda>r. tc_id r = td_ToolCallID d \<and> tc_state r \<in> answered_states"]
      bexI [OF _ answer_written(2) [OF call], of "\<lambda>r. tc_id r = td_ToolCallID d \<and> tc_state r \<in> answered_states"]
    unfolding rows by (simp add: answered_states_def)
  then show ?thesis using assms(2) by (auto simp: call_in_def rows answer_ids)
qed

lemma closed_decide:
  assumes "DecideToolApproval ctx tenant d now db = (x, db')" and "call_in answered_states (td_ToolCallID d) db"
  shows "db' = db \<and> x \<noteq> Inr True"
proof (cases x)
  case (Inl e)
  then show ?thesis using begin_tx_cases [OF assms(1) [unfolded DecideToolApproval_def]] by auto
next
  case (Inr applied)
  obtain t where "decided t d now applied db db'" using decide_result [OF assms(1) [unfolded Inr]] .
  then show ?thesis using Inr closed_row [OF assms(2), of t] by (auto simp: decided_def split: option.splits)
qed

lemma closed_expire:
  assumes "expireOneToolApproval ctx tenant sid resp runID callID now db = (x, db')" and "call_in answered_states callID db"
  shows "db' = db \<and> x \<noteq> Inr True"
  using begin_tx_cases [OF assms(1) [unfolded expireOneToolApproval_def]] closed_row [OF assms(2)]
  by (auto simp: LockToolCallForDecision_def bind_reads split: option.splits)

text \<open>
  A question is answered once.  After an answer has been applied, every later answer to the same call, and every
  expiry of it, after any further operations, reports that it was not applied and changes nothing.
\<close>

theorem answered_once:
  assumes "distinct (map tc_id (tool_calls db))" and "DecideToolApproval ctx tenant d now db = (Inr True, db1)"
    and "(approval_step sha collate render (\<lambda>callID. True))\<^sup>*\<^sup>* db1 db2"
    and "DecideToolApproval ctx' tenant' d' now' db2 = (x, db3)" and "td_ToolCallID d' = td_ToolCallID d"
    and "expireOneToolApproval ctx'' tenant'' sid resp runID (td_ToolCallID d) now'' db2 = (y, db4)"
  shows "db3 = db2 \<and> x \<noteq> Inr True \<and> db4 = db2 \<and> y \<noteq> Inr True"
proof -
  have "call_in answered_states (td_ToolCallID d) db2"
    using applied_closes [OF assms(2,1)] answered.approvals_in [OF assms(3)] by (simp add: call_stays_def)
  then show ?thesis using closed_decide [OF assms(4)] closed_expire [OF assms(6)] assms(5) by simp
qed

lemma join_rows:
  assumes "(a, call, r) \<in> set (approval_join c p db)"
  shows "a \<in> set (approvals db)" "p a" "tenant_policy c (ap_project a)" "call \<in> set (tool_calls db)" "ap_tool_call a = Some (tc_id call)"
    "tenant_policy c (tc_project call)" "r \<in> set (runs db)" "rn_id r = tc_run call" "tenant_policy c (rn_project r)"
  using assms by (auto simp: approval_join_def)

lemma approval_of_row:
  assumes "approval_of t callID db = Some (a, call, r)"
  shows "a \<in> set (approvals db)" "ap_tool_call a = Some callID"
proof -
  have "(a, call, r) \<in> set (approval_join (tx_conn t) (\<lambda>a. ap_tool_call a = Some callID \<and> ap_project a = tx_tenant t) db)"
    using assms by (auto simp: approval_of_def first_row_def split: list.splits)
  from join_rows(1,2) [OF this] show "a \<in> set (approvals db)" "ap_tool_call a = Some callID" by auto
qed

text \<open>The state of a call after an answer.\<close>

definition answer_state :: "tool_call_row \<Rightarrow> approval_row \<Rightarrow> ToolApprovalDecision \<Rightarrow> int \<Rightarrow> ToolCallState" where
  "answer_state r a d now =
     (if tc_state r \<noteq> ToolCallApprovalPending then tc_state r
      else if elapsed (ap_expires_at a) now then ToolCallCanceled
      else if td_RequestHash d \<notin> {'''', tc_request_hash r} then ToolCallApprovalPending
      else if td_Approve d then ToolCallReady else ToolCallCanceled)"

text \<open>
  C21. An answer does exactly what it may.  A decision that returns was made by an approver of the project.  It is applied
  exactly when the call is pending, its deadline has not passed, and the decision names the hash of the call or none; then
  the call is ready or canceled as decided.  An answer after the deadline cancels the call, every other one leaves it as it is,
  and no other call changes.
\<close>

theorem answer_exact:
  assumes distinct: "distinct (map tc_id (tool_calls db))"
    and question: "\<forall>q \<in> set (approvals db). ap_tool_call q = Some (td_ToolCallID d) \<longrightarrow> q = a"
    and call: "r \<in> set (tool_calls db)" "tc_id r = td_ToolCallID d" "tc_project r = tenant"
    and conn: "PrepareConn (ScopeToTenant ctx tenant) = Inr c" "tenant_policy c tenant"
    and decision: "DecideToolApproval ctx tenant d now db = (Inr applied, db')"
  shows "approver_ok \<lparr>tx_conn = c, tx_tenant = tenant\<rparr> (td_DecidedBy d) db
    \<and> (applied \<longleftrightarrow> tc_state r = ToolCallApprovalPending \<and> \<not> elapsed (ap_expires_at a) now \<and> td_RequestHash d \<in> {'''', tc_request_hash r})
    \<and> (\<exists>r' \<in> set (tool_calls db'). tc_id r' = td_ToolCallID d \<and> tc_state r' = answer_state r a d now)
    \<and> filter (\<lambda>x. tc_id x \<noteq> td_ToolCallID d) (tool_calls db') = filter (\<lambda>x. tc_id x \<noteq> td_ToolCallID d) (tool_calls db)"
proof -
  obtain t where t: "tx_tenant t = tenant" "tx_conn t = c" "approver_ok t (td_DecidedBy d) db" "decided t d now applied db db'"
    using decide_result [OF decision] conn(1) by auto
  have [simp]: "t = \<lparr>tx_conn = c, tx_tenant = tenant\<rparr>" using t(1,2) by (cases t) simp
  have row: "sql_row (the_call t (td_ToolCallID d)) (tool_calls db) = Some r"
  proof (cases "sql_row (the_call t (td_ToolCallID d)) (tool_calls db)")
    case None
    then show ?thesis using call conn(2) by (auto simp: sql_row_None the_call_def sees_def)
  next
    case (Some q)
    then show ?thesis using key_unique [OF distinct, of q r] sql_row_Some [OF Some] call by (simp add: the_call_def)
  qed
  have others: "filter (\<lambda>x. tc_id x \<noteq> td_ToolCallID d) (approved_calls t (td_ToolCallID d) rows) = filter (\<lambda>x. tc_id x \<noteq> td_ToolCallID d) rows"
    "filter (\<lambda>x. tc_id x \<noteq> td_ToolCallID d) (canceled_calls t (td_ToolCallID d) doc rows) = filter (\<lambda>x. tc_id x \<noteq> td_ToolCallID d) rows" for rows doc
    by (induction rows) (auto simp: approved_calls_def canceled_calls_def sql_update_def the_call_def)
  have written: "\<exists>r' \<in> set (approved_calls t (td_ToolCallID d) (tool_calls db)). tc_id r' = td_ToolCallID d \<and> tc_state r' = ToolCallReady"
    "\<exists>r' \<in> set (canceled_calls t (td_ToolCallID d) doc (tool_calls db)). tc_id r' = td_ToolCallID d \<and> tc_state r' = ToolCallCanceled"
    if "tc_state r = ToolCallApprovalPending" for doc
    using bexI [OF _ answer_written(1) [OF row that], of "\<lambda>x. tc_id x = td_ToolCallID d \<and> tc_state x = ToolCallReady"]
      bexI [OF _ answer_written(2) [OF row that], of "\<lambda>x. tc_id x = td_ToolCallID d \<and> tc_state x = ToolCallCanceled"] call(2) by auto
  have found: "q = a" if "approval_of t (td_ToolCallID d) db = Some (q, x)" for q x
    using question approval_of_row [of t _ db q "fst x" "snd x"] that by simp
  from t(4) show ?thesis
    unfolding decided_def row option.case answer_state_def
    using t(3) call written others found by (auto split: option.splits if_splits)
qed

section \<open>The sweep releases every overdue run\<close>

definition idle :: "string \<Rightarrow> 'a journal_db_scheme \<Rightarrow> bool" where
  "idle runID s \<longleftrightarrow> (\<forall>r \<in> set (runs s). rn_id r = runID \<longrightarrow> rn_state r \<noteq> RunWaiting)"

definition released :: "tool_call_row \<Rightarrow> 'a execution_db_scheme \<Rightarrow> bool" where
  "released call s \<longleftrightarrow> idle (tc_run call) s \<and>
     (\<exists>q \<in> set (tool_calls s). tc_id q = tc_id call \<and> tc_state q = ToolCallCanceled \<and> tc_result q = Some expired_answer)"

lemma update_ball: "(\<forall>r \<in> set (sql_update p f rows). P r) \<longleftrightarrow> (\<forall>x \<in> set rows. P (if p x then f x else x))"
  by (auto simp: sql_update_def)

lemma resume_runs: "Apply RunWaiting RunCmdResume RunTable = Inr (nx, ev) \<Longrightarrow> nx = RunRunning"
  by (simp add: RunTable_def)

lemma job_runs:
  "newJobID s = Inr (j, s') \<Longrightarrow> runs s' = runs s" "enqueue_run_job t j runID now s = Inr (u, s') \<Longrightarrow> runs s' = runs s"
  by (auto simp: newJobID_def enqueue_run_job_def bind_result_eq_Inr split: list.splits)

lemma wake_runs:
  assumes "wakeParkedRunTx t runID now s = Inr (u, s')" and distinct: "distinct (map rn_id (runs s))"
  shows "map rn_id (runs s') = map rn_id (runs s) \<and> idle runID s' \<and> (\<forall>x. idle x s \<longrightarrow> idle x s')"
proof -
  from assms(1) obtain r where r: "sql_row (\<lambda>r. rn_id r = runID \<and> sees t (rn_project r)) (runs s) = Some r"
    and wake: "tx_when (rn_state r = RunWaiting) (tx_then (applyRunTransitionTx t runID RunCmdResume)
       (tx_bind newJobID (\<lambda>jobID. tx_wrap ''enqueue approval wake job'' (enqueue_run_job t jobID runID now)))) s = Inr (u, s')"
    by (auto simp: wakeParkedRunTx_def LockRun_def bind_reads split: option.splits)
  have mine: "x = r" if "x \<in> set (runs s)" "rn_id x = runID" for x
    using key_unique [OF distinct that(1), of r] sql_row_Some [OF r] that(2) by simp
  show ?thesis
  proof (cases "rn_state r = RunWaiting")
    case False
    then have "s' = s" using wake by (simp add: tx_when_def)
    then show ?thesis using False mine by (auto simp: idle_def)
  next
    case True
    then obtain a s1 where step: "applyRunTransitionTx t runID RunCmdResume s = Inr (a, s1)" and jobs: "runs s' = runs s1"
      using wake by (auto simp: tx_when_def tx_iffs job_runs)
    from step obtain r' nx ev s0 where r': "r' \<in> set (runs s)" "rn_id r' = runID" "Apply (rn_state r') RunCmdResume RunTable = Inr (nx, ev)"
      and eff: "runTransitionEffects t r' runID nx ev s0 = Inr (a, s1)"
      and s0: "s0 = s\<lparr>runs := sql_update (\<lambda>r. rn_id r = runID \<and> sees t (rn_project r)) (\<lambda>r. r\<lparr>rn_state := nx\<rparr>) (runs s)\<rparr>"
      by (rule run_transition_row)
    have nx: "nx = RunRunning" by (rule resume_runs [OF r'(3) [unfolded mine [OF r'(1,2)] True]])
    have "runs s1 = runs s0" using tx_inD [OF effects_same.st_effects eff] by (simp add: same_runs_def)
    then have rows: "runs s' = sql_update (\<lambda>r. rn_id r = runID \<and> sees t (rn_project r)) (\<lambda>r. r\<lparr>rn_state := RunRunning\<rparr>) (runs s)"
      using jobs s0 nx by simp
    have seen: "sees t (rn_project x)" if "x \<in> set (runs s)" "rn_id x = runID" for x
      using mine [OF that] sql_row_Some [OF r] by simp
    show ?thesis
    proof (intro conjI allI impI)
      show "map rn_id (runs s') = map rn_id (runs s)" by (simp add: rows sql_update_def)
      show "idle runID s'" using seen by (simp add: idle_def rows update_ball)
      show "idle x s'" if "idle x s" for x using that by (simp add: idle_def rows update_ball)
    qed
  qed
qed

lemma append_runs: "appendEvent t sid resp ty payload s = Inr (seq, s') \<Longrightarrow> runs s' = runs s"
  by (auto simp: appendEvent_def dest!: journal_event_same)

lemma expire_tx_runs:
  assumes "expireToolCallTx t sid resp runID callID now s = Inr (u, s')" and "distinct (map rn_id (runs s))"
  shows "map rn_id (runs s') = map rn_id (runs s) \<and> idle runID s' \<and> (\<forall>x. idle x s \<longrightarrow> idle x s')"
proof -
  from assms(1) obtain s1 where "runs s1 = runs s" "wakeParkedRunTx t runID now s1 = Inr (u, s')"
    by (auto simp: expireToolCallTx_def tx_then_eq CancelToolCall_def dest!: append_runs)
  with wake_runs [of t runID now s1 u s'] assms(2) show ?thesis by (simp add: idle_def)
qed

text \<open>An expiry of a call by the sweep, whose context carries no scope.\<close>

lemma expire_one_result:
  assumes one: "expireOneToolApproval None (tc_project call) sid resp (tc_run call) (tc_id call) now db = (Inr b, db')"
    and calls: "distinct (map tc_id (tool_calls db))" and runs: "distinct (map rn_id (runs db))"
  shows "map tc_id (tool_calls db') = map tc_id (tool_calls db)" "map rn_id (runs db') = map rn_id (runs db)"
    and "call \<in> set (tool_calls db) \<Longrightarrow> tc_state call = ToolCallApprovalPending \<Longrightarrow> released call db'"
    and "released k db \<Longrightarrow> released k db'"
    and "k \<in> set (tool_calls db) \<Longrightarrow> tc_id k \<noteq> tc_id call \<Longrightarrow> k \<in> set (tool_calls db')"
proof -
  obtain t where t: "tx_tenant t = tc_project call" "PrepareConn (ScopeToTenant None (tc_project call)) = Inr (tx_conn t)"
    and body: "(case sql_row (the_call t (tc_id call)) (tool_calls db) of None \<Rightarrow> tx_return False
       | Some q \<Rightarrow> if tc_state q \<noteq> ToolCallApprovalPending then tx_return False
           else tx_then (lockRunForWake t (tc_run call)) (tx_then (expireToolCallTx t sid resp (tc_run call) (tc_id call) now) (tx_return True))) db
      = Inr (b, db')"
    using begin_tx_cases [OF one [unfolded expireOneToolApproval_def]]
    by (auto simp: LockToolCallForDecision_def bind_reads)
  have sees: "sees t (tc_project call)"
    using t by (cases "tx_conn t") (auto simp: sees_def tenant_policy_def PrepareConn_def ScopeToTenant_def WithTenant_def scopeFrom_def
        Let_def split: if_splits)
  consider (void) "db' = db" "\<And>q. sql_row (the_call t (tc_id call)) (tool_calls db) = Some q \<Longrightarrow> tc_state q \<noteq> ToolCallApprovalPending"
    | (expired) q where "sql_row (the_call t (tc_id call)) (tool_calls db) = Some q" "tc_state q = ToolCallApprovalPending"
        "tool_calls db' = canceled_calls t (tc_id call) expired_answer (tool_calls db)"
        "map rn_id (runs db') = map rn_id (runs db)" "idle (tc_run call) db'" "\<And>x. idle x db \<Longrightarrow> idle x db'"
  proof (cases "sql_row (the_call t (tc_id call)) (tool_calls db)")
    case (Some q)
    show thesis
    proof (cases "tc_state q = ToolCallApprovalPending")
      case True
      then have "expireToolCallTx t sid resp (tc_run call) (tc_id call) now db = Inr ((), db')"
        using body Some by (auto simp: tx_then_eq dest!: lock_reads)
      then show thesis using expired Some True expire_calls(1) expire_tx_runs [OF _ runs] by blast
    qed (use body Some void in simp)
  qed (use body void in simp)
  note cases = this
  have row: "sql_row (the_call t (tc_id call)) (tool_calls db) = Some call" if "call \<in> set (tool_calls db)"
  proof (cases "sql_row (the_call t (tc_id call)) (tool_calls db)")
    case None
    with that sees show ?thesis by (auto simp: sql_row_None the_call_def)
  next
    case (Some q)
    then show ?thesis using key_unique [OF calls, of q call] sql_row_Some [OF Some] that by (simp add: the_call_def)
  qed
  show "map tc_id (tool_calls db') = map tc_id (tool_calls db)" using cases by cases (auto simp: answer_ids)
  show "map rn_id (runs db') = map rn_id (runs db)" using cases by cases auto
  show "released call db'" if pending: "call \<in> set (tool_calls db)" "tc_state call = ToolCallApprovalPending"
    using cases
  proof cases
    case void
    then show ?thesis using row [OF pending(1)] pending(2) by simp
  next
    case (expired q)
    show ?thesis unfolding released_def expired(3)
      using expired(5) answer_written(2) [OF row [OF pending(1)] pending(2), of expired_answer]
      by (auto intro: bexI [OF _ answer_written(2) [OF row [OF pending(1)] pending(2)]])
  qed
  show "released k db'" if "released k db"
    using cases
  proof cases
    case void
    then show ?thesis using that by simp
  next
    case (expired q)
    from that obtain x where x: "x \<in> set (tool_calls db)" "tc_id x = tc_id k" "tc_state x = ToolCallCanceled" "tc_result x = Some expired_answer"
      by (auto simp: released_def)
    then have "x \<in> set (tool_calls db')"
      unfolding expired(3) canceled_calls_def set_sql_update by (intro bexI [of _ x]) simp_all
    with x that expired(6) show ?thesis by (auto simp: released_def)
  qed
  show "k \<in> set (tool_calls db')" if k: "k \<in> set (tool_calls db)" "tc_id k \<noteq> tc_id call"
    using cases
  proof cases
    case (expired q)
    then show ?thesis using k unfolding expired(3) canceled_calls_def set_sql_update
      by (intro bexI [of _ k]) (simp_all add: the_call_def)
  qed (use k in simp)
qed

lemma expire_loop_releases:
  assumes "expire_loop None now xs swept db = ((n, None), db')"
    and "distinct (map tc_id (tool_calls db))" and "distinct (map rn_id (runs db))"
    and "\<And>a call r. (a, call, r) \<in> set xs \<Longrightarrow> released call db \<or> (call \<in> set (tool_calls db) \<and> tc_state call = ToolCallApprovalPending)"
  shows "(\<forall>(a, call, r) \<in> set xs. released call db') \<and> (\<forall>k. released k db \<longrightarrow> released k db') \<and>
    map rn_id (runs db') = map rn_id (runs db)"
  using assms
proof (induction xs arbitrary: swept db)
  case Nil
  then show ?case by simp
next
  case (Cons x xs)
  obtain a call r where x: "x = (a, call, r)" by (cases x)
  from Cons.prems(1) obtain b db1 where one: "expireOneToolApproval None (tc_project call) (rn_session r) (or_empty (rn_response r)) (tc_run call) (tc_id call) now db = (Inr b, db1)"
    and rest: "expire_loop None now xs (if b then swept + 1 else swept) db1 = ((n, None), db')"
    by (auto simp: x split: prod.splits sum.splits)
  note result = expire_one_result [OF one Cons.prems(2,3)]
  have head: "released call db1"
    using Cons.prems(4) [of a call r] result(3,4) by (auto simp: x)
  have tail: "released k db1 \<or> (k \<in> set (tool_calls db1) \<and> tc_state k = ToolCallApprovalPending)" if k: "(a', k, r') \<in> set xs" for a' k r'
  proof (cases "k \<in> set (tool_calls db) \<and> tc_state k = ToolCallApprovalPending")
    case True
    show ?thesis
    proof (cases "tc_id k = tc_id call")
      case same: True
      have "call = k" if "call \<in> set (tool_calls db)"
        by (rule key_unique [OF Cons.prems(2) that _ same [symmetric]]) (use True in simp)
      moreover have "\<not> released call db"
      proof
        assume "released call db"
        then obtain q where q: "q \<in> set (tool_calls db)" "tc_id q = tc_id k" "tc_state q = ToolCallCanceled"
          using same by (auto simp: released_def)
        have "q = k" by (rule key_unique [OF Cons.prems(2) q(1) _ q(2)]) (use True in simp)
        with q(3) True show False by simp
      qed
      ultimately have "call = k" using Cons.prems(4) [of a call r] by (auto simp: x)
      with head show ?thesis by simp
    next
      case False
      then show ?thesis using result(5) True by blast
    qed
  next
    case False
    then show ?thesis using Cons.prems(4) [of a' k r'] k result(4) by auto
  qed
  have "(\<forall>(a, call, r) \<in> set xs. released call db') \<and> (\<forall>k. released k db1 \<longrightarrow> released k db') \<and>
      map rn_id (runs db') = map rn_id (runs db1)"
    using Cons.prems(2,3) result(1,2) tail by (intro Cons.IH [OF rest]) simp_all
  then show ?case using head result(2,4) by (auto simp: x)
qed

text \<open>
  C20. No run waits for an overdue question.  When a sweep returns without an error, every call whose deadline had passed is
  canceled with the answer that tells the model so, and the run that asked is no longer waiting.
\<close>

theorem sweep_releases:
  assumes "distinct (map tc_id (tool_calls db))" and "distinct (map rn_id (runs db))"
    and "SweepExpiredToolApprovals None now db = ((n, None), db')"
    and "a \<in> set (approvals db)" and "call \<in> set (tool_calls db)" and "r \<in> set (runs db)"
    and "ap_tool_call a = Some (tc_id call)" and "rn_id r = tc_run call"
    and "tc_state call = ToolCallApprovalPending" and "elapsed (ap_expires_at a) now"
  shows "(\<exists>q \<in> set (tool_calls db'). tc_id q = tc_id call \<and> tc_state q = ToolCallCanceled \<and> tc_result q = Some expired_answer)
    \<and> (\<exists>x \<in> set (runs db'). rn_id x = tc_run call \<and> rn_state x \<noteq> RunWaiting)"
proof -
  obtain c where c: "PrepareConn (WithSystemScope None) = Inr c" "palai_system c = ''on''"
    by (simp add: PrepareConn_def WithSystemScope_def scopeFrom_def)
  then have all: "tenant_policy c p" for p by (simp add: tenant_policy_def)
  have loop: "expire_loop None now (SelectExpiredToolApprovals c now db) 0 db = ((n, None), db')"
    using assms(3) c(1) by (simp add: SweepExpiredToolApprovals_def)
  have listed: "(a, call, r) \<in> set (SelectExpiredToolApprovals c now db)"
    using assms(4-10) all by (auto simp: SelectExpiredToolApprovals_def by_question_def approval_join_def is_pending_def)
  have pending: "k \<in> set (tool_calls db) \<and> tc_state k = ToolCallApprovalPending"
    if "(a', k, r') \<in> set (SelectExpiredToolApprovals c now db)" for a' k r'
    using that join_rows(4) by (auto simp: SelectExpiredToolApprovals_def by_question_def is_pending_def)
  have done': "released call db'" "map rn_id (runs db') = map rn_id (runs db)"
    using expire_loop_releases [OF loop assms(1,2)] pending listed by blast+
  have "tc_run call \<in> set (map rn_id (runs db'))" using assms(6,8) done'(2) by force
  with done'(1) show ?thesis by (auto simp: released_def idle_def)
qed

section \<open>Instances\<close>

text \<open>The call \<^verbatim>\<open>g\<close> of the run \<^verbatim>\<open>r\<close> is parked at time 10 with a deadline at time 100; then the run waits.\<close>

definition sample_gate :: approval_db where
  "sample_gate = background_db.extend sample_execution (approval_db.fields [])"

definition sample_question :: ToolApprovalRequest where
  "sample_question = \<lparr>tq_ApprovalID = ''a'', tq_ToolCallID = ''g'', tq_SessionID = ''s'', tq_ResponseID = ''q'', tq_RunID = ''r'', tq_Fence = 1,
     tq_ToolName = ''deploy'', tq_Arguments = JNull, tq_ReplayClass = ''irreversible'', tq_RequestHash = ''h'', tq_ExpiresAt = Some 100,
     tq_Boundary = ''''\<rparr>"

definition sample_asked :: "unit result \<times> approval_db" where
  "sample_asked = RequestToolApproval (WithTenant None ''p'') ''p'' sample_question 10 sample_gate"

definition sample_parked :: approval_db where
  "sample_parked = (snd sample_asked)\<lparr>runs := map (\<lambda>r. r\<lparr>rn_state := RunWaiting\<rparr>) (runs (snd sample_asked))\<rparr>"

definition sample_answer :: "bool \<Rightarrow> ToolApprovalDecision" where
  "sample_answer b = \<lparr>td_ToolCallID = ''g'', td_RequestHash = ''h'', td_DecidedBy = ''u'', td_Approve = b, td_Reason = ''no''\<rparr>"

definition sample_decide :: "bool \<Rightarrow> approval_db \<Rightarrow> bool result \<times> approval_db" where
  "sample_decide b = DecideToolApproval (WithTenant None ''p'') ''p'' (sample_answer b) 20"

lemma sample_gate_facts:
  "distinct (map tc_id (tool_calls sample_gate))" "''g'' \<notin> tc_id ` set (tool_calls sample_gate)" "fst sample_asked = Inr ()"
  by code_simp+

lemma sample_parked_facts:
  "distinct (map tc_id (tool_calls sample_parked))" "distinct (map rn_id (runs sample_parked))"
  "fst (sample_decide True sample_parked) = Inr True" "fst (SweepExpiredToolApprovals None 200 sample_parked) = (1, None)"
  by code_simp+

lemma sample_parked_rows:
  "tool_calls sample_parked = [sample_call, parked_call ''p'' sample_question 10]"
  "approvals sample_parked = [question ''p'' sample_question 10]"
  "runs sample_parked = [(sample_run ''r'' ''q'' None)\<lparr>rn_state := RunWaiting\<rparr>, (sample_run ''c'' ''d'' (Some ''r''))\<lparr>rn_state := RunWaiting\<rparr>]"
  by code_simp+

theorem gated_call_needs_approval_witness:
  "\<exists>e. fst (CommitToolResult (WithTenant None ''p'') ''p'' ''s'' ''q'' ''r'' 1 ''g'' ''deploy'' JNull JNull ''irreversible'' ''h''
      ''tool_call.completed.v1'' JNull 11 (snd sample_asked)) = Inl e"
proof -
  have call: "''g'' = tq_ToolCallID sample_question" by (simp add: sample_question_def)
  show ?thesis
    using gated_call_needs_approval [where sha = id and collate = id and render = "\<lambda>_. ''''", OF sample_gate_facts(1)
        sample_gate_facts(2) [unfolded call] sample_pair [OF sample_gate_facts(3), unfolded sample_asked_def] rtranclp.rtrancl_refl
        prod.collapse [symmetric]]
    unfolding call sample_asked_def by blast
qed

theorem answered_once_witness:
  "snd (sample_decide False (snd (sample_decide True sample_parked))) = snd (sample_decide True sample_parked)"
proof -
  have same: "td_ToolCallID (sample_answer False) = td_ToolCallID (sample_answer True)" by (simp add: sample_answer_def)
  show ?thesis
    using answered_once [where sha = id and collate = id and render = "\<lambda>_. ''''", OF sample_parked_facts(1)
        sample_pair [OF sample_parked_facts(3), unfolded sample_decide_def] rtranclp.rtrancl_refl prod.collapse [symmetric] same
        prod.collapse [symmetric]]
    unfolding sample_decide_def by blast
qed

theorem answer_exact_witness:
  "\<exists>r' \<in> set (tool_calls (snd (sample_decide True sample_parked))). tc_id r' = ''g'' \<and> tc_state r' = ToolCallReady"
proof -
  have rows: "\<forall>q \<in> set (approvals sample_parked). ap_tool_call q = Some (td_ToolCallID (sample_answer True)) \<longrightarrow> q = question ''p'' sample_question 10"
    "parked_call ''p'' sample_question 10 \<in> set (tool_calls sample_parked)"
    "tc_id (parked_call ''p'' sample_question 10) = td_ToolCallID (sample_answer True)" "tc_project (parked_call ''p'' sample_question 10) = ''p''"
    by (simp_all add: sample_parked_rows parked_call_def sample_answer_def sample_question_def)
  have conn: "PrepareConn (ScopeToTenant (WithTenant None ''p'') ''p'') = Inr \<lparr>palai_project_id = ''p'', palai_system = ''''\<rparr>"
    "tenant_policy \<lparr>palai_project_id = ''p'', palai_system = ''''\<rparr> ''p''" by code_simp+
  have state: "answer_state (parked_call ''p'' sample_question 10) (question ''p'' sample_question 10) (sample_answer True) 20 = ToolCallReady"
    "td_ToolCallID (sample_answer True) = ''g''" by code_simp+
  show ?thesis
    using answer_exact [OF sample_parked_facts(1) rows conn sample_pair [OF sample_parked_facts(3), unfolded sample_decide_def]]
    unfolding state sample_decide_def by blast
qed

theorem sweep_releases_witness:
  "\<exists>x \<in> set (runs (snd (SweepExpiredToolApprovals None 200 sample_parked))). rn_id x = ''r'' \<and> rn_state x \<noteq> RunWaiting"
proof -
  have rows: "question ''p'' sample_question 10 \<in> set (approvals sample_parked)" "parked_call ''p'' sample_question 10 \<in> set (tool_calls sample_parked)"
    "(sample_run ''r'' ''q'' None)\<lparr>rn_state := RunWaiting\<rparr> \<in> set (runs sample_parked)"
    by (simp_all add: sample_parked_rows)
  have facts: "ap_tool_call (question ''p'' sample_question 10) = Some (tc_id (parked_call ''p'' sample_question 10))"
    "rn_id ((sample_run ''r'' ''q'' None)\<lparr>rn_state := RunWaiting\<rparr>) = tc_run (parked_call ''p'' sample_question 10)"
    "tc_state (parked_call ''p'' sample_question 10) = ToolCallApprovalPending" "elapsed (ap_expires_at (question ''p'' sample_question 10)) 200"
    "tc_run (parked_call ''p'' sample_question 10) = ''r''" by code_simp+
  show ?thesis
    using sweep_releases [OF sample_parked_facts(1,2) sample_pair [OF sample_parked_facts(4)] rows facts(1-4)] unfolding facts(5) by blast
qed

end
