(* ===== verification/Placement.thy ===== *)
theory Placement
  imports Recovery
begin

text \<open>
  Machines and the sessions that hold them: occupancies (\<^verbatim>\<open>src/packages/coordinator/occupancy.go\<close>), their
  bill (\<^verbatim>\<open>occupancy_billing.go\<close>) and the placement of runs on pools with the park of a run that finds no machine
  (\<^verbatim>\<open>placement.go\<close>).  The statements are those of \<^verbatim>\<open>leases.sql\<close>, \<^verbatim>\<open>runners.sql\<close> and \<^verbatim>\<open>jobs.sql\<close> in
  \<^verbatim>\<open>src/storage/queries\<close>, the two counting functions those of migrations 000003 and 000008.

  Times are microseconds of one clock; one argument \<open>now\<close> stands for the readings of an operation.  \<open>fl\<close> rounds a
  number to a \<^verbatim>\<open>float64\<close>.  The counting functions run as their owner: \<open>bypass\<close> says whether that role is exempt from
  row security, which the migrations force on the owner of a table.  \<open>locked\<close> holds for the runs that another transaction has
  locked.  The columns \<^verbatim>\<open>pool_id\<close> of \<^verbatim>\<open>runs\<close> and \<^verbatim>\<open>updated_at\<close> of \<^verbatim>\<open>attempts\<close>, which only this part of the program reads, are
  maps from the row's identifier.
\<close>

section \<open>Tables\<close>

record runner_row =
  ru_id :: string
  ru_project :: "string option"
  ru_pool :: string
  ru_capacity :: int

record pool_row =
  po_id :: string
  po_project :: "string option"
  po_name :: string

record runner_lease =
  ls_id :: string
  ls_project :: string
  ls_runner :: string
  ls_session :: string
  ls_started :: int
  ls_active :: int
  ls_released :: "int option"
  ls_reason :: "string option"

record placement_db = recovery_db +
  runners :: "runner_row list"
  runner_pools :: "pool_row list"
  runner_leases :: "runner_lease list"
  run_pools :: "(string \<times> string) list"
  attempts_updated_at :: "(string \<times> int) list"

definition ReleaseReasonIdle :: string where
  "ReleaseReasonIdle = ''idle''"

definition ReleaseReasonLost :: string where
  "ReleaseReasonLost = ''lost''"

definition release_reasons :: "string list" where
  "release_reasons = [''idle'', ''closed'', ''preempted'', ''lost'']"

definition ErrOccupancyNotFound :: error where
  "ErrOccupancyNotFound = Sentinel ''coordinator'' ''occupancy not found''"

definition ErrMachineUnavailable :: error where
  "ErrMachineUnavailable = Sentinel ''coordinator'' ''machine is not one this tenant can occupy''"

definition ErrMachineAtCapacity :: error where
  "ErrMachineAtCapacity = Sentinel ''coordinator'' ''machine already holds as many occupancies as its capacity allows''"

definition ErrMachineHeldByAnotherTenant :: error where
  "ErrMachineHeldByAnotherTenant =
     Sentinel ''coordinator'' ''machine is currently held by another tenant, and a machine serves one at a time''"

definition ErrRunPoolNotRecordable :: error where
  "ErrRunPoolNotRecordable = Sentinel ''coordinator'' ''run pool is not one this tenant can be served by''"

definition AttemptAwaitingCapacity :: string where
  "AttemptAwaitingCapacity = ''awaiting_capacity''"

text \<open>A machine or a pool of the tenant, or one that the plane owns.\<close>

definition serves :: "txn \<Rightarrow> string option \<Rightarrow> bool" where
  "serves t project \<longleftrightarrow> (project = Some (tx_tenant t) \<or> project = None) \<and> fleet_read_policy (tx_conn t) project"

definition open_on :: "string \<Rightarrow> runner_lease \<Rightarrow> bool" where
  "open_on machine l \<longleftrightarrow> ls_runner l = machine \<and> ls_released l = None"

section \<open>Taking a machine\<close>

definition newLeaseID :: "('a journal_db_scheme, string) tx" where
  "newLeaseID = (\<lambda>db. case entropy db of
     [] \<Rightarrow> Inl (Errorf [] ''generate lease id'')
   | r # rs \<Rightarrow> Inr (''lse_'' @ r, db\<lparr>entropy := rs\<rparr>))"

definition palai_machine_open_occupancies :: "bool \<Rightarrow> txn \<Rightarrow> string \<Rightarrow> 'a placement_db_scheme \<Rightarrow> int" where
  "palai_machine_open_occupancies bypass t machine db = int (length (filter (\<lambda>l. open_on machine l \<and>
     (bypass \<or> tenant_policy (tx_conn t) (ls_project l))) (runner_leases db)))"

definition palai_machine_held_by_another_tenant :: "bool \<Rightarrow> txn \<Rightarrow> string \<Rightarrow> 'a placement_db_scheme \<Rightarrow> bool" where
  "palai_machine_held_by_another_tenant bypass t machine db \<longleftrightarrow> list_ex (\<lambda>l. open_on machine l \<and>
     (bypass \<or> tenant_policy (tx_conn t) (ls_project l)) \<and> ls_project l \<noteq> tx_tenant t) (runner_leases db)"

definition LockMachineForPlacement :: "txn \<Rightarrow> string \<Rightarrow> ('a placement_db_scheme, int option) tx" where
  "LockMachineForPlacement t runnerID = tx_read (\<lambda>db. map_option ru_capacity
     (sql_row (\<lambda>r. ru_id r = runnerID \<and> serves t (ru_project r)) (runners db)))"

text \<open>The row that the statement's SELECT yields.\<close>

definition lease_candidate :: "bool \<Rightarrow> txn \<Rightarrow> string \<Rightarrow> string \<Rightarrow> string \<Rightarrow> int \<Rightarrow> 'a placement_db_scheme \<Rightarrow> runner_lease option" where
  "lease_candidate bypass t leaseID runnerID sessionID now db =
     (case (sql_row (\<lambda>r. ru_id r = runnerID \<and> serves t (ru_project r) \<and>
                (ru_capacity r = 0 \<or> palai_machine_open_occupancies bypass t (ru_id r) db < ru_capacity r) \<and>
                \<not> palai_machine_held_by_another_tenant bypass t (ru_id r) db) (runners db),
            sql_row (\<lambda>s. se_id s = sessionID \<and> sees t (se_project s)) (sessions db)) of
        (Some r, Some s) \<Rightarrow> Some \<lparr>ls_id = leaseID, ls_project = tx_tenant t, ls_runner = ru_id r, ls_session = se_id s,
           ls_started = now, ls_active = now, ls_released = None, ls_reason = None\<rparr>
      | _ \<Rightarrow> None)"

definition insert_lease :: "txn \<Rightarrow> runner_lease \<Rightarrow> ('a placement_db_scheme, string option) tx" where
  "insert_lease t l = (\<lambda>db.
     if \<not> tenant_policy (tx_conn t) (ls_project l) then Inl RowSecurity
     else if ls_id l \<in> set (map ls_id (runner_leases db)) then Inl UniqueViolation
     else Inr (Some (ls_id l), db\<lparr>runner_leases := runner_leases db @ [l]\<rparr>))"

definition InsertOccupancy :: "bool \<Rightarrow> txn \<Rightarrow> string \<Rightarrow> string \<Rightarrow> string \<Rightarrow> int \<Rightarrow> ('a placement_db_scheme, string option) tx" where
  "InsertOccupancy bypass t leaseID runnerID sessionID now = (\<lambda>db.
     case lease_candidate bypass t leaseID runnerID sessionID now db of
       None \<Rightarrow> Inr (None, db) | Some l \<Rightarrow> insert_lease t l db)"

record PoolMachineLoad =
  pl_RunnerID :: string
  pl_Open :: int
  pl_Capacity :: int

definition HasRoom :: "PoolMachineLoad \<Rightarrow> bool" where
  "HasRoom l \<longleftrightarrow> pl_Capacity l \<le> 0 \<or> pl_Open l < pl_Capacity l"

text \<open>Which of its guards refused the insert.\<close>

definition refusal :: "bool \<Rightarrow> txn \<Rightarrow> string \<Rightarrow> int \<Rightarrow> 'a placement_db_scheme \<Rightarrow> error" where
  "refusal bypass t runnerID capacity db =
     (if palai_machine_held_by_another_tenant bypass t runnerID db then Errorf [ErrMachineHeldByAnotherTenant] ''machine''
      else if \<not> HasRoom \<lparr>pl_RunnerID = '''', pl_Open = palai_machine_open_occupancies bypass t runnerID db, pl_Capacity = capacity\<rparr>
      then Errorf [ErrMachineAtCapacity] ''machine''
      else Errorf [ErrMachineUnavailable] ''session'')"

definition acquire_tx :: "bool \<Rightarrow> txn \<Rightarrow> string \<Rightarrow> string \<Rightarrow> string \<Rightarrow> int \<Rightarrow> ('a placement_db_scheme, string) tx" where
  "acquire_tx bypass t leaseID sessionID runnerID now =
     tx_bind (LockMachineForPlacement t runnerID) (\<lambda>capacity.
       case capacity of None \<Rightarrow> tx_fail (Errorf [ErrMachineUnavailable] ''machine'')
       | Some cap \<Rightarrow>
           tx_bind (tx_wrap ''acquire lease'' (InsertOccupancy bypass t leaseID runnerID sessionID now)) (\<lambda>stored.
             case stored of Some i \<Rightarrow> tx_return i
             | None \<Rightarrow> tx_bind (tx_read (refusal bypass t runnerID cap)) tx_fail))"

definition AcquireLease :: "bool \<Rightarrow> ctx \<Rightarrow> string \<Rightarrow> string \<Rightarrow> string \<Rightarrow> int \<Rightarrow> 'a placement_db_scheme
    \<Rightarrow> string result \<times> 'a placement_db_scheme" where
  "AcquireLease bypass ctx tenant sessionID runnerID now db =
     (if sessionID = '''' \<or> runnerID = ''''
      then (Inl (Errorf [] ''a session and a machine are required to open an occupancy''), db)
      else case newLeaseID db of
             Inl e \<Rightarrow> (Inl e, db)
           | Inr (leaseID, db1) \<Rightarrow>
               begin_tx ctx tenant ''begin acquire lease'' (\<lambda>t. acquire_tx bypass t leaseID sessionID runnerID now) db1)"

definition PoolMachineLoads :: "bool \<Rightarrow> ctx \<Rightarrow> string \<Rightarrow> string \<Rightarrow> 'a placement_db_scheme \<Rightarrow> PoolMachineLoad list result" where
  "PoolMachineLoads bypass ctx tenant poolID db =
     (if tenant = '''' \<or> poolID = '''' then Inl (Errorf [] ''a tenant and a pool are required to weigh a pool's machines'')
      else read_conn ctx tenant ''read the machine loads'' (\<lambda>t db. Inr (map (\<lambda>r. \<lparr>pl_RunnerID = ru_id r,
             pl_Open = palai_machine_open_occupancies bypass t (ru_id r) db, pl_Capacity = ru_capacity r\<rparr>)
           (sort_key ru_id (filter (\<lambda>r. serves t (ru_project r) \<and> ru_pool r = poolID) (runners db))))) db)"

section \<open>Reading an occupancy\<close>

text \<open>The zero time of an open hold is \<open>None\<close>; \<open>oc_Billed\<close> is a duration in nanoseconds.\<close>

record Occupancy =
  oc_ID :: string
  oc_RunnerID :: string
  oc_SessionID :: string
  oc_StartedAt :: int
  oc_LastActivityAt :: int
  oc_ReleasedAt :: "int option"
  oc_ReleaseReason :: string
  oc_Billed :: int

text \<open>The interval of the statement's CASE.\<close>

definition billed_interval :: "int \<Rightarrow> runner_lease \<Rightarrow> int" where
  "billed_interval now l =
     (if ls_reason l = Some ''idle'' then ls_active l else case ls_released l of Some r \<Rightarrow> r | None \<Rightarrow> now) - ls_started l"

definition trunc :: "rat \<Rightarrow> int" where
  "trunc x = (if x < 0 then \<lceil>x\<rceil> else \<lfloor>x\<rfloor>)"

text \<open>The seconds that the statement computes, converted to a duration; an interval is far below 292 years.\<close>

definition interval_duration :: "(rat \<Rightarrow> rat) \<Rightarrow> int \<Rightarrow> int" where
  "interval_duration fl us = trunc (fl (fl (of_int us / 1000000) * 1000000000))"

definition scanOccupancy :: "(rat \<Rightarrow> rat) \<Rightarrow> int \<Rightarrow> runner_lease \<Rightarrow> Occupancy" where
  "scanOccupancy fl now l = \<lparr>oc_ID = ls_id l, oc_RunnerID = ls_runner l, oc_SessionID = ls_session l,
     oc_StartedAt = ls_started l, oc_LastActivityAt = ls_active l, oc_ReleasedAt = ls_released l,
     oc_ReleaseReason = or_empty (ls_reason l), oc_Billed = interval_duration fl (billed_interval now l)\<rparr>"

definition the_lease :: "txn \<Rightarrow> string \<Rightarrow> runner_lease \<Rightarrow> bool" where
  "the_lease t leaseID l \<longleftrightarrow> ls_id l = leaseID \<and> sees t (ls_project l)"

text \<open>The method \<^verbatim>\<open>Occupancy\<close>.\<close>

definition read_occupancy :: "(rat \<Rightarrow> rat) \<Rightarrow> ctx \<Rightarrow> string \<Rightarrow> string \<Rightarrow> int \<Rightarrow> 'a placement_db_scheme \<Rightarrow> Occupancy result" where
  "read_occupancy fl ctx tenant leaseID now = read_conn ctx tenant ''read occupancy'' (\<lambda>t db.
     case sql_row (the_lease t leaseID) (runner_leases db) of
       None \<Rightarrow> Inl (Errorf [ErrOccupancyNotFound] '''') | Some l \<Rightarrow> Inr (scanOccupancy fl now l))"

text \<open>\<^verbatim>\<open>ORDER BY started_at, id\<close>.\<close>

definition lease_order :: "runner_lease list \<Rightarrow> runner_lease list" where
  "lease_order ls = sort_key ls_started (sort_key ls_id ls)"

definition SessionOccupancies :: "(rat \<Rightarrow> rat) \<Rightarrow> ctx \<Rightarrow> string \<Rightarrow> string \<Rightarrow> int \<Rightarrow> 'a placement_db_scheme \<Rightarrow> Occupancy list result" where
  "SessionOccupancies fl ctx tenant sessionID now = read_conn ctx tenant ''read occupancies'' (\<lambda>t db.
     Inr (map (scanOccupancy fl now) (lease_order (filter (\<lambda>l. sees t (ls_project l) \<and> ls_session l = sessionID) (runner_leases db)))))"

definition before_cursor :: "int option \<Rightarrow> string \<Rightarrow> runner_lease \<Rightarrow> bool" where
  "before_cursor cursor cursorID l \<longleftrightarrow>
     (case cursor of None \<Rightarrow> True | Some c \<Rightarrow> ls_started l < c \<or> (ls_started l = c \<and> ls_id l < cursorID))"

definition MachineOccupancies :: "(rat \<Rightarrow> rat) \<Rightarrow> ctx \<Rightarrow> string \<Rightarrow> string \<Rightarrow> int option \<Rightarrow> string \<Rightarrow> int \<Rightarrow> int
    \<Rightarrow> 'a placement_db_scheme \<Rightarrow> Occupancy list result" where
  "MachineOccupancies fl ctx tenant runnerID before beforeID limit now =
     read_conn ctx tenant ''read occupancies'' (\<lambda>t db.
       Inr (map (scanOccupancy fl now) (take (nat (if limit \<le> 0 then 50 else limit)) (rev (lease_order
         (filter (\<lambda>l. ls_runner l = runnerID \<and> sees t (ls_project l) \<and> before_cursor before beforeID l) (runner_leases db)))))))"

definition OpenOccupancy :: "(rat \<Rightarrow> rat) \<Rightarrow> ctx \<Rightarrow> string \<Rightarrow> string \<Rightarrow> int \<Rightarrow> 'a placement_db_scheme \<Rightarrow> Occupancy option result" where
  "OpenOccupancy fl ctx tenant sessionID now db = bind_result (SessionOccupancies fl ctx tenant sessionID now db) (\<lambda>held.
     Inr (foldl (\<lambda>out occupancy. if oc_ReleasedAt occupancy = None then Some occupancy else out) None held))"

record StrandedOccupancy =
  so_ID :: string
  so_Project :: string
  so_SessionID :: string

definition handed_back :: "conn \<Rightarrow> runner_lease \<Rightarrow> workspace_row list \<Rightarrow> bool" where
  "handed_back c l ws \<longleftrightarrow>
     (let mine = filter (\<lambda>w. ws_session w = ls_session l \<and> ws_project w = ls_project l \<and> tenant_policy c (ws_project w)) ws
      in list_ex (\<lambda>w. ws_state w = WorkspacePaused) mine \<and> \<not> list_ex (\<lambda>w. ws_state w \<noteq> WorkspacePaused) mine)"

definition StrandedOccupancies :: "ctx \<Rightarrow> int \<Rightarrow> 'a placement_db_scheme \<Rightarrow> StrandedOccupancy list result" where
  "StrandedOccupancies ctx limit db =
     (if limit \<le> 0 then Inl (Errorf [] ''stranded occupancy batch must be positive'')
      else case PrepareConn (WithSystemScope ctx) of
             Inl e \<Rightarrow> Inl (Errorf [e] ''read stranded occupancies'')
           | Inr c \<Rightarrow> Inr (map (\<lambda>l. \<lparr>so_ID = ls_id l, so_Project = ls_project l, so_SessionID = ls_session l\<rparr>)
               (take (nat limit) (sort_key ls_id (filter (\<lambda>l. tenant_policy c (ls_project l) \<and> ls_released l = None \<and>
                  handed_back c l (workspaces db)) (runner_leases db))))))"

section \<open>Keeping and giving back\<close>

definition open_lease :: "txn \<Rightarrow> string \<Rightarrow> runner_lease \<Rightarrow> bool" where
  "open_lease t leaseID l \<longleftrightarrow> the_lease t leaseID l \<and> ls_released l = None"

definition touch_lease :: "txn \<Rightarrow> string \<Rightarrow> int \<Rightarrow> ('a placement_db_scheme, nat) tx" where
  "touch_lease t leaseID now = (\<lambda>db. Inr (sql_affected (open_lease t leaseID) (runner_leases db),
     db\<lparr>runner_leases := sql_update (open_lease t leaseID) (\<lambda>l. l\<lparr>ls_active := now\<rparr>) (runner_leases db)\<rparr>))"

definition TouchLease :: "(rat \<Rightarrow> rat) \<Rightarrow> ctx \<Rightarrow> string \<Rightarrow> string \<Rightarrow> int \<Rightarrow> 'a placement_db_scheme
    \<Rightarrow> unit result \<times> 'a placement_db_scheme" where
  "TouchLease fl ctx tenant leaseID now db =
     (if leaseID = '''' then (Inl (Errorf [] ''an occupancy id is required''), db)
      else case begin_tx ctx tenant ''touch lease'' (\<lambda>t. touch_lease t leaseID now) db of
             (Inl e, db1) \<Rightarrow> (Inl e, db1)
           | (Inr n, db1) \<Rightarrow>
               if n = 0 then (bind_result (read_occupancy fl (ScopeToTenant ctx tenant) tenant leaseID now db1) (\<lambda>_. Inr ()), db1)
               else (Inr (), db1))"

text \<open>The statement \<^verbatim>\<open>ReleaseLease\<close>; \<open>None\<close> when it matched no row.\<close>

definition release_lease :: "txn \<Rightarrow> string \<Rightarrow> string \<Rightarrow> int \<Rightarrow> ('a placement_db_scheme, int option) tx" where
  "release_lease t leaseID reason now = (\<lambda>db.
     case sql_row (open_lease t leaseID) (runner_leases db) of
       None \<Rightarrow> Inr (None, db)
     | Some _ \<Rightarrow> if reason \<notin> set release_reasons then Inl CheckViolation
         else Inr (Some now, db\<lparr>runner_leases := sql_update (open_lease t leaseID)
           (\<lambda>l. l\<lparr>ls_released := Some now, ls_reason := Some reason\<rparr>) (runner_leases db)\<rparr>))"

definition ReleaseLease :: "(rat \<Rightarrow> rat) \<Rightarrow> ctx \<Rightarrow> string \<Rightarrow> string \<Rightarrow> string \<Rightarrow> int \<Rightarrow> 'a placement_db_scheme
    \<Rightarrow> unit result \<times> 'a placement_db_scheme" where
  "ReleaseLease fl ctx tenant leaseID reason now db =
     (if leaseID = '''' \<or> reason = '''' then (Inl (Errorf [] ''an occupancy id and a release reason are required''), db)
      else case begin_tx ctx tenant ''release lease'' (\<lambda>t. tx_wrap ''release lease'' (release_lease t leaseID reason now)) db of
             (Inl e, db1) \<Rightarrow> (Inl e, db1)
           | (Inr None, db1) \<Rightarrow> (bind_result (read_occupancy fl (ScopeToTenant ctx tenant) tenant leaseID now db1) (\<lambda>_. Inr ()), db1)
           | (Inr (Some _), db1) \<Rightarrow> (Inr (), db1))"

section \<open>Placing a run\<close>

record Placement_record =
  pm_PoolID :: string
  pm_QueuedAt :: int
  pm_DefaultPoolID :: string

text \<open>Pools named \<^verbatim>\<open>default\<close>: one with a machine first, then the tenant's own.\<close>

definition default_pool :: "txn \<Rightarrow> 'a placement_db_scheme \<Rightarrow> string" where
  "default_pool t db =
     (let machine = (\<lambda>p. list_ex (\<lambda>r. ru_pool r = po_id p \<and> fleet_read_policy (tx_conn t) (ru_project r)) (runners db))
      in case sort_key (\<lambda>p. \<not> machine p) (sort_key (\<lambda>p. po_project p = None)
                (filter (\<lambda>p. po_name p = ''default'' \<and> serves t (po_project p)) (runner_pools db))) of
           [] \<Rightarrow> '''' | p # _ \<Rightarrow> po_id p)"

definition RunPlacement :: "ctx \<Rightarrow> string \<Rightarrow> string \<Rightarrow> 'a placement_db_scheme \<Rightarrow> Placement_record result" where
  "RunPlacement ctx tenant runID = read_conn ctx tenant ''read run placement'' (\<lambda>t db.
     case sql_row (\<lambda>r. rn_id r = runID \<and> sees t (rn_project r)) (runs db) of
       None \<Rightarrow> Inl (Errorf [NoRows] ''read run placement'')
     | Some r \<Rightarrow> Inr \<lparr>pm_PoolID = or_empty (map_of (run_pools db) (rn_id r)), pm_QueuedAt = rn_created_at r,
         pm_DefaultPoolID = default_pool t db\<rparr>)"

definition record_run_pool :: "txn \<Rightarrow> string \<Rightarrow> string \<Rightarrow> ('a placement_db_scheme, bool) tx" where
  "record_run_pool t runID poolID = (\<lambda>db.
     if list_ex (\<lambda>r. rn_id r = runID \<and> sees t (rn_project r)) (runs db) \<and> map_of (run_pools db) runID = None \<and>
        list_ex (\<lambda>p. po_id p = poolID \<and> serves t (po_project p)) (runner_pools db)
     then Inr (True, db\<lparr>run_pools := AList.update runID poolID (run_pools db)\<rparr>)
     else Inr (False, db))"

definition RecordRunPool :: "ctx \<Rightarrow> string \<Rightarrow> string \<Rightarrow> string \<Rightarrow> 'a placement_db_scheme
    \<Rightarrow> string result \<times> 'a placement_db_scheme" where
  "RecordRunPool ctx tenant runID poolID db =
     (if poolID = '''' then (Inr '''', db)
      else case begin_tx ctx tenant ''record run pool'' (\<lambda>t. record_run_pool t runID poolID) db of
             (Inl e, db1) \<Rightarrow> (Inl e, db1)
           | (Inr True, db1) \<Rightarrow> (Inr poolID, db1)
           | (Inr False, db1) \<Rightarrow>
               (bind_result (RunPlacement (ScopeToTenant ctx tenant) tenant runID db1) (\<lambda>current.
                  if pm_PoolID current = '''' then Inl (Errorf [ErrRunPoolNotRecordable] '''') else Inr (pm_PoolID current)), db1))"

section \<open>Parking and waking\<close>

definition MarkAttemptAwaitingCapacity :: "txn \<Rightarrow> string \<Rightarrow> int \<Rightarrow> ('a placement_db_scheme, unit) tx" where
  "MarkAttemptAwaitingCapacity t attemptID now = tx_write (\<lambda>db.
     let p = (\<lambda>a. at_id a = attemptID \<and> sees t (at_project a))
     in db\<lparr>attempts := sql_update p (\<lambda>a. a\<lparr>at_state := AttemptAwaitingCapacity\<rparr>) (attempts db),
           attempts_updated_at := (if list_ex p (attempts db) then AList.update attemptID now (attempts_updated_at db)
             else attempts_updated_at db)\<rparr>)"

definition RefundCapacityParkAttempt :: "txn \<Rightarrow> string \<Rightarrow> int \<Rightarrow> ('a placement_db_scheme, unit) tx" where
  "RefundCapacityParkAttempt t jobID now = tx_write (\<lambda>db. db\<lparr>durable_jobs :=
     sql_update (\<lambda>j. job_id j = jobID \<and> sees t (job_project j) \<and> job_kind j = ''response.run'')
       (\<lambda>j. j\<lparr>attempt_count := max (attempt_count j - 1) 0, job_updated_at := now\<rparr>) (durable_jobs db)\<rparr>)"

definition ParkRunForCapacity :: "ctx \<Rightarrow> string \<Rightarrow> string \<Rightarrow> string \<Rightarrow> string \<Rightarrow> int \<Rightarrow> 'a placement_db_scheme
    \<Rightarrow> unit result \<times> 'a placement_db_scheme" where
  "ParkRunForCapacity ctx tenant runID attemptID jobID now =
     begin_tx ctx tenant ''begin capacity park'' (\<lambda>t.
       tx_then (applyRunTransitionTx t runID RunCmdWait)
       (tx_then (tx_wrap ''mark attempt awaiting capacity'' (MarkAttemptAwaitingCapacity t attemptID now))
       (tx_when (jobID \<noteq> '''')
          (tx_wrap ''refund the attempt this capacity park consumed'' (RefundCapacityParkAttempt t jobID now)))))"

definition awaits_capacity :: "conn \<Rightarrow> run_row \<Rightarrow> attempt_row \<Rightarrow> bool" where
  "awaits_capacity c r a \<longleftrightarrow> at_run a = rn_id r \<and> at_project a = rn_project r \<and> tenant_policy c (at_project a) \<and>
     at_state a = AttemptAwaitingCapacity"

text \<open>The empty tenant is the plane.\<close>

definition parked_in :: "(string \<Rightarrow> bool) \<Rightarrow> txn \<Rightarrow> string \<Rightarrow> 'a placement_db_scheme \<Rightarrow> run_row \<Rightarrow> bool" where
  "parked_in locked t poolID db r \<longleftrightarrow> (tx_tenant t = '''' \<or> rn_project r = tx_tenant t) \<and> tenant_policy (tx_conn t) (rn_project r) \<and>
     map_of (run_pools db) (rn_id r) = Some poolID \<and> rn_state r = RunWaiting \<and>
     list_ex (awaits_capacity (tx_conn t) r) (attempts db) \<and> \<not> locked (rn_id r)"

definition OldestRunAwaitingCapacity :: "(string \<Rightarrow> bool) \<Rightarrow> txn \<Rightarrow> string \<Rightarrow> 'a placement_db_scheme \<Rightarrow> run_row option" where
  "OldestRunAwaitingCapacity locked t poolID db =
     (case sort_key rn_created_at (sort_key rn_id (filter (parked_in locked t poolID db) (runs db))) of
        [] \<Rightarrow> None | r # _ \<Rightarrow> Some r)"

definition newest_run_job :: "txn \<Rightarrow> string \<Rightarrow> job list \<Rightarrow> job option" where
  "newest_run_job t runID rows =
     (case rev (sort_key job_created_at (sort_key job_id (filter (\<lambda>j. sees t (job_project j) \<and> job_kind j = ''response.run'' \<and>
          json_text (job_payload j) ''run_id'' = Some runID) rows))) of
        [] \<Rightarrow> None | j # _ \<Rightarrow> Some j)"

text \<open>The attempts that the run has spent.\<close>

definition spent_attempts :: "txn \<Rightarrow> string \<Rightarrow> job list \<Rightarrow> int" where
  "spent_attempts t runID rows = (case newest_run_job t runID rows of None \<Rightarrow> 0 | Some j \<Rightarrow> attempt_count j)"

definition EnqueueWokenRunJob :: "txn \<Rightarrow> string \<Rightarrow> string \<Rightarrow> int \<Rightarrow> ('a placement_db_scheme, unit) tx" where
  "EnqueueWokenRunJob t jobID runID now = (\<lambda>db.
     if \<not> tenant_policy (tx_conn t) (tx_tenant t) then Inl RowSecurity
     else if jobID \<in> set (map job_id (durable_jobs db)) then Inl UniqueViolation
     else Inr ((), db\<lparr>durable_jobs := durable_jobs db @ [\<lparr>job_id = jobID, job_project = tx_tenant t, job_kind = ''response.run'',
        job_status = JobQueued, lease_owner = None, lease_expires_at = None, job_fence = 0,
        attempt_count = spent_attempts t runID (durable_jobs db), ready_at = now, job_payload = JObj [(''run_id'', JStr runID)],
        result_hash = None, job_created_at = now, job_updated_at = now\<rparr>]\<rparr>))"

definition wakeRunAwaitingCapacityTx :: "(string \<Rightarrow> bool) \<Rightarrow> txn \<Rightarrow> string \<Rightarrow> int \<Rightarrow> ('a placement_db_scheme, string) tx" where
  "wakeRunAwaitingCapacityTx locked t poolID now =
     tx_bind (tx_read (OldestRunAwaitingCapacity locked t poolID)) (\<lambda>row.
       case row of None \<Rightarrow> tx_return ''''
       | Some r \<Rightarrow>
           (let owner = t\<lparr>tx_tenant := rn_project r\<rparr>
            in tx_then (applyRunTransitionTx owner (rn_id r) RunCmdResume)
               (tx_bind newJobID (\<lambda>jobID.
                  tx_then (tx_wrap ''enqueue capacity wake job'' (EnqueueWokenRunJob owner jobID (rn_id r) now))
                  (tx_return (rn_id r))))))"

definition WakeRunAwaitingCapacity :: "(string \<Rightarrow> bool) \<Rightarrow> ctx \<Rightarrow> string \<Rightarrow> string \<Rightarrow> int \<Rightarrow> 'a placement_db_scheme
    \<Rightarrow> string result \<times> 'a placement_db_scheme" where
  "WakeRunAwaitingCapacity locked ctx tenant poolID now db =
     (if poolID = '''' then (Inr '''', db)
      else begin_tx (if tenant = '''' then WithSystemScope ctx else ctx) tenant ''begin capacity wake''
             (\<lambda>t. wakeRunAwaitingCapacityTx locked t poolID now) db)"

section \<open>Expiring a park\<close>

text \<open>\<^verbatim>\<open>time.Duration.Seconds\<close>, then \<^verbatim>\<open>make_interval\<close>, which rounds to microseconds, halves to even.\<close>

definition duration_seconds :: "(rat \<Rightarrow> rat) \<Rightarrow> int \<Rightarrow> rat" where
  "duration_seconds fl d = (let sec = sgn d * (\<bar>d\<bar> div 1000000000); nsec = d - sec * 1000000000
     in fl (fl (of_int sec) + fl (fl (of_int nsec) / 1000000000)))"

definition rint :: "rat \<Rightarrow> int" where
  "rint x = (let f = \<lfloor>x\<rfloor>; d = x - of_int f
     in if d < 1 / 2 then f else if d > 1 / 2 then f + 1 else if even f then f else f + 1)"

definition make_interval :: "(rat \<Rightarrow> rat) \<Rightarrow> rat \<Rightarrow> int" where
  "make_interval fl secs = rint (fl (secs * 1000000))"

definition capacityParkBatch :: nat where
  "capacityParkBatch = 50"

definition parked_since :: "'a placement_db_scheme \<Rightarrow> attempt_row \<Rightarrow> int" where
  "parked_since db a = (case map_of (attempts_updated_at db) (at_id a) of None \<Rightarrow> 0 | Some u \<Rightarrow> u)"

definition ExpiredCapacityParks :: "conn \<Rightarrow> int \<Rightarrow> nat \<Rightarrow> 'a placement_db_scheme \<Rightarrow> (run_row \<times> attempt_row) list" where
  "ExpiredCapacityParks c cutoff limit db = take limit (sort_key (\<lambda>(r, a). parked_since db a) (sort_key (\<lambda>(r, a). rn_id r)
     (filter (\<lambda>(r, a). rn_state r = RunWaiting \<and> tenant_policy c (rn_project r) \<and> awaits_capacity c r a \<and>
        parked_since db a < cutoff \<and> rn_response r \<noteq> None) (List.product (runs db) (attempts db)))))"

definition timeOutOneCapacityPark :: "ctx \<Rightarrow> string \<Rightarrow> string \<Rightarrow> string \<Rightarrow> json \<Rightarrow> 'a journal_db_scheme
    \<Rightarrow> bool result \<times> 'a journal_db_scheme" where
  "timeOutOneCapacityPark ctx tenant runID responseID projection db =
     (case PrepareConn (ScopeToTenant ctx tenant) of
        Inl e \<Rightarrow> (Inl (Errorf [e] ''begin capacity-park timeout''), db)
      | Inr c \<Rightarrow>
          (let t = \<lparr>tx_conn = c, tx_tenant = tenant\<rparr>
           in case applyRunTransitionTx t runID RunCmdTimeout db of
                Inl e \<Rightarrow> if errors_Is e ErrRunTerminal \<or> errors_Is e ErrInvalidState then (Inr False, db) else (Inl e, db)
              | Inr (_, db1) \<Rightarrow>
                  commit (tx_then (tx_wrap ''finalize timed-out capacity park''
                            (UpdateResponse t responseID (RunState_text RunTimedOut) projection)) (tx_return True)) db1))"

fun time_out_loop :: "ctx \<Rightarrow> json \<Rightarrow> (run_row \<times> attempt_row) list \<Rightarrow> int \<Rightarrow> 'a journal_db_scheme
    \<Rightarrow> (int \<times> error option) \<times> 'a journal_db_scheme" where
  "time_out_loop ctx projection [] swept db = ((swept, None), db)"
| "time_out_loop ctx projection ((r, a) # rest) swept db =
     (case timeOutOneCapacityPark ctx (rn_project r) (rn_id r) (or_empty (rn_response r)) projection db of
        (Inl e, db1) \<Rightarrow> ((swept, Some e), db1)
      | (Inr ended, db1) \<Rightarrow> time_out_loop ctx projection rest (if ended then swept + 1 else swept) db1)"

text \<open>\<open>ttl\<close> is in nanoseconds.\<close>

definition SweepExpiredCapacityParks :: "(rat \<Rightarrow> rat) \<Rightarrow> ctx \<Rightarrow> int \<Rightarrow> json \<Rightarrow> int \<Rightarrow> 'a placement_db_scheme
    \<Rightarrow> (int \<times> error option) \<times> 'a placement_db_scheme" where
  "SweepExpiredCapacityParks fl ctx ttl projection now db =
     (if ttl \<le> 0 then ((0, None), db)
      else case PrepareConn (WithSystemScope ctx) of
             Inl e \<Rightarrow> ((0, Some (Errorf [e] ''select expired capacity parks'')), db)
           | Inr c \<Rightarrow> time_out_loop ctx projection
               (ExpiredCapacityParks c (now - make_interval fl (duration_seconds fl ttl)) capacityParkBatch db) 0 db)"

section \<open>Settling an occupancy\<close>

definition meterMachineMinutes :: string where "meterMachineMinutes = ''machine.minutes''"
definition unitMinute :: string where "unitMinute = ''minute''"

text \<open>\<^verbatim>\<open>time.Duration.Minutes\<close>.\<close>

definition duration_minutes :: "(rat \<Rightarrow> rat) \<Rightarrow> int \<Rightarrow> rat" where
  "duration_minutes fl d = (let mins = sgn d * (\<bar>d\<bar> div 60000000000); nsec = d - mins * 60000000000
     in fl (fl (of_int mins) + fl (fl (of_int nsec) / 60000000000)))"

definition lease_dedupe :: "string \<Rightarrow> string" where
  "lease_dedupe leaseID = ''lease:'' @ leaseID @ '':'' @ meterMachineMinutes"

definition machine_entry :: "(rat \<Rightarrow> rat) \<Rightarrow> string \<Rightarrow> Occupancy \<Rightarrow> usageEntry" where
  "machine_entry fl leaseID hold = zero_usageEntry\<lparr>ue_sessionID := oc_SessionID hold, ue_runnerID := oc_RunnerID hold,
     ue_meter := meterMachineMinutes, ue_unit := unitMinute, ue_dedupeKey := lease_dedupe leaseID,
     ue_quantity := duration_minutes fl (oc_Billed hold)\<rparr>"

text \<open>The machine of the hold that the transaction closed, \<open>None\<close> when somebody else had closed it.\<close>

definition settle_tx :: "(string \<Rightarrow> string) \<Rightarrow> (rat \<Rightarrow> rat) \<Rightarrow> txn \<Rightarrow> string \<Rightarrow> string \<Rightarrow> int
    \<Rightarrow> ('a placement_db_scheme, string option) tx" where
  "settle_tx sha fl t leaseID reason now =
     tx_bind (tx_wrap ''close occupancy'' (release_lease t leaseID reason now)) (\<lambda>releasedAt.
       tx_bind (tx_read (\<lambda>db. sql_row (the_lease t leaseID) (runner_leases db))) (\<lambda>row.
         case (releasedAt, row) of
           (None, None) \<Rightarrow> tx_fail (Errorf [ErrOccupancyNotFound] '''')
         | (None, Some _) \<Rightarrow> tx_return None
         | (Some _, None) \<Rightarrow> tx_fail (Errorf [NoRows] ''read the closed occupancy'')
         | (Some _, Some l) \<Rightarrow>
             tx_then (settleUsage sha t now [machine_entry fl leaseID (scanOccupancy fl now l)]) (tx_return (Some (ls_runner l)))))"

definition announceFreedSlot :: "(string \<Rightarrow> bool) \<Rightarrow> ctx \<Rightarrow> string \<Rightarrow> string \<Rightarrow> int \<Rightarrow> 'a placement_db_scheme \<Rightarrow> 'a placement_db_scheme" where
  "announceFreedSlot locked ctx tenant runnerID now db =
     (if runnerID = '''' then db
      else case read_conn ctx tenant ''read the pool of the machine'' (\<lambda>t db.
             Inr (sql_row (\<lambda>r. ru_id r = runnerID \<and> serves t (ru_project r)) (runners db))) db of
             Inl _ \<Rightarrow> db
           | Inr None \<Rightarrow> db
           | Inr (Some r) \<Rightarrow> snd (WakeRunAwaitingCapacity locked ctx tenant (ru_pool r) now db))"

definition SettleOccupancy :: "(string \<Rightarrow> string) \<Rightarrow> (rat \<Rightarrow> rat) \<Rightarrow> (string \<Rightarrow> bool) \<Rightarrow> ctx \<Rightarrow> string \<Rightarrow> string \<Rightarrow> string \<Rightarrow> int
    \<Rightarrow> 'a placement_db_scheme \<Rightarrow> bool result \<times> 'a placement_db_scheme" where
  "SettleOccupancy sha fl locked ctx tenant leaseID reason now db =
     (if leaseID = '''' \<or> reason = '''' then (Inl (Errorf [] ''an occupancy id and a release reason are required''), db)
      else case begin_tx ctx tenant ''begin settle occupancy'' (\<lambda>t. settle_tx sha fl t leaseID reason now) db of
             (Inl e, db1) \<Rightarrow> (Inl e, db1)
           | (Inr None, db1) \<Rightarrow> (Inr False, db1)
           | (Inr (Some runnerID), db1) \<Rightarrow> (Inr True, announceFreedSlot locked (ScopeToTenant ctx tenant) tenant runnerID now db1))"

definition HoldMachine :: "(string \<Rightarrow> string) \<Rightarrow> (rat \<Rightarrow> rat) \<Rightarrow> (string \<Rightarrow> bool) \<Rightarrow> bool \<Rightarrow> ctx \<Rightarrow> string \<Rightarrow> string \<Rightarrow> string \<Rightarrow> int
    \<Rightarrow> 'a placement_db_scheme \<Rightarrow> string result \<times> 'a placement_db_scheme" where
  "HoldMachine sha fl locked bypass ctx tenant sessionID runnerID now db =
     (if sessionID = '''' \<or> runnerID = '''' then (Inl (Errorf [] ''a session and a machine are required to hold a machine''), db)
      else case OpenOccupancy fl ctx tenant sessionID now db of
             Inl e \<Rightarrow> (Inl e, db)
           | Inr None \<Rightarrow> AcquireLease bypass ctx tenant sessionID runnerID now db
           | Inr (Some held) \<Rightarrow>
               if oc_RunnerID held = runnerID
               then (case TouchLease fl ctx tenant (oc_ID held) now db of
                       (Inl e, db1) \<Rightarrow> (Inl e, db1) | (Inr _, db1) \<Rightarrow> (Inr (oc_ID held), db1))
               else (case SettleOccupancy sha fl locked ctx tenant (oc_ID held) ReleaseReasonLost now db of
                       (Inl e, db1) \<Rightarrow> (Inl (Errorf [e] ''close the hold the session left''), db1)
                     | (Inr _, db1) \<Rightarrow> AcquireLease bypass ctx tenant sessionID runnerID now db1))"

end
