(* ===== verification/Placement_Safety.thy ===== *)
theory Placement_Safety
  imports Recovery_Safety Placement
begin

text \<open>
  Correctness of placement: a machine serves one tenant at a time and never more sessions than it declared, over every
  interleaving of the statements of concurrent acquisitions; a refusal names its cause; a hold is billed once.  The first
  property rests on the owner of the counting functions being exempt from row security; without that exemption, two tenants
  take one machine.

  The locale \<open>fleet_statements\<close> says what a preorder must admit, statement by statement, to contain every operation that
  takes no machine.  It is interpreted for the open holds of a machine (\<open>fewer_holds\<close>) and for the bills (\<open>bill_le\<close>).
\<close>

section \<open>Operations that take no machine\<close>

locale fleet_statements = tx_preorder R
  for R :: "'a placement_db_scheme \<Rightarrow> 'a placement_db_scheme \<Rightarrow> bool" +
  fixes sha :: "string \<Rightarrow> string"
  assumes fs_run: "tx_in R (applyRunTransitionTx t runID cmd)"
    and fs_job_id: "tx_in R newJobID"
    and fs_woken: "tx_in R (EnqueueWokenRunJob t jobID runID now)"
    and fs_mark: "tx_in R (MarkAttemptAwaitingCapacity t attemptID now)"
    and fs_refund: "tx_in R (RefundCapacityParkAttempt t jobID now)"
    and fs_response: "tx_in R (UpdateResponse t resp st proj)"
    and fs_pool: "tx_in R (record_run_pool t runID poolID)"
    and fs_touch: "tx_in R (touch_lease t leaseID now)"
    and fs_release: "tx_in R (release_lease t leaseID reason now)"
    and fs_settle: "tx_in R (settle_tx sha fl t leaseID reason now)"
begin

lemma fs_begin:
  assumes "begin_tx ctx tenant msg body s = (r, s')" and "\<And>t. tx_in R (body t)" shows "R s s'"
  using begin_tx_cases [OF assms(1)] assms(2) R_refl by (auto dest: tx_inD)

lemma fs_wake_tx: "tx_in R (wakeRunAwaitingCapacityTx locked t poolID now)"
  unfolding wakeRunAwaitingCapacityTx_def Let_def by (intro in_intros fs_run fs_job_id fs_woken)

lemma fs_wake: "WakeRunAwaitingCapacity locked ctx tenant poolID now s = (r, s') \<Longrightarrow> R s s'"
  by (auto simp: WakeRunAwaitingCapacity_def R_refl split: if_splits elim!: fs_begin intro: fs_wake_tx)

lemma fs_announce: "R s (announceFreedSlot locked ctx tenant runnerID now s)"
  by (auto simp: announceFreedSlot_def R_refl intro!: fs_wake prod.collapse [symmetric] split: sum.split option.split)

lemma fs_occupancy_ops:
  "TouchLease fl ctx tenant leaseID now s = (r, s') \<Longrightarrow> R s s'"
  "ReleaseLease fl ctx tenant leaseID reason now s = (r, s') \<Longrightarrow> R s s'"
  "SettleOccupancy sha fl locked ctx tenant leaseID reason now s = (q, s') \<Longrightarrow> R s s'"
  by (auto simp: TouchLease_def ReleaseLease_def SettleOccupancy_def R_refl split: if_splits prod.splits sum.splits option.splits
      dest!: fs_begin [OF _ fs_touch] fs_begin [OF _ in_wrap [OF fs_release]] fs_begin [OF _ fs_settle] intro: R_trans [OF _ fs_announce])

lemma fs_time_out: "timeOutOneCapacityPark ctx tenant runID resp proj s = (r, s') \<Longrightarrow> R s s'"
proof -
  assume op: "timeOutOneCapacityPark ctx tenant runID resp proj s = (r, s')"
  have final: "tx_in R (tx_then (tx_wrap m (UpdateResponse t resp st proj)) (tx_return True))" for m t st
    by (intro in_intros fs_response)
  from op show ?thesis
    by (auto simp: timeOutOneCapacityPark_def Let_def R_refl split: sum.splits if_splits prod.splits
        dest!: tx_inD [OF fs_run] in_commit [OF final] intro: R_trans)
qed

lemma fs_time_outs: "time_out_loop ctx proj xs n s = (r, s') \<Longrightarrow> R s s'"
  by (induction ctx proj xs n s rule: time_out_loop.induct)
    (auto simp: R_refl split: prod.splits sum.splits dest!: fs_time_out intro: R_trans)

lemma fs_run_ops:
  "ParkRunForCapacity ctx tenant runID attemptID jobID now s = (u, s') \<Longrightarrow> R s s'"
  "RecordRunPool ctx tenant runID poolID s = (p, s') \<Longrightarrow> R s s'"
  "SweepExpiredCapacityParks fl ctx ttl proj now s = (n, s') \<Longrightarrow> R s s'"
  by (auto simp: ParkRunForCapacity_def RecordRunPool_def SweepExpiredCapacityParks_def R_refl
      split: if_splits prod.splits sum.splits bool.splits
      elim!: fs_begin fs_time_outs intro!: in_intros fs_run fs_mark fs_refund fs_pool)

lemmas fleet_op_in = fs_wake fs_occupancy_ops fs_run_ops

end

text \<open>
  The operations, and the steps of the rest of the program, which neither write machines and holds nor bill a hold.
\<close>

definition is_hold_bill :: "ledger_row \<Rightarrow> bool" where
  "is_hold_bill g \<longleftrightarrow> prefix ''lease:'' (lg_dedupe g)"

inductive placement_step :: "(string \<Rightarrow> string) \<Rightarrow> (rat \<Rightarrow> rat) \<Rightarrow> 'a placement_db_scheme \<Rightarrow> 'a placement_db_scheme \<Rightarrow> bool"
  for sha fl where
  touch: "TouchLease fl ctx tenant leaseID now s = (r, s') \<Longrightarrow> placement_step sha fl s s'"
| settle: "SettleOccupancy sha fl locked ctx tenant leaseID reason now s = (q, s') \<Longrightarrow> placement_step sha fl s s'"
| wake: "WakeRunAwaitingCapacity locked ctx tenant poolID now s = (w, s') \<Longrightarrow> placement_step sha fl s s'"
| park: "ParkRunForCapacity ctx tenant runID attemptID jobID now s = (r, s') \<Longrightarrow> placement_step sha fl s s'"
| place: "RecordRunPool ctx tenant runID poolID s = (w, s') \<Longrightarrow> placement_step sha fl s s'"
| sweep: "SweepExpiredCapacityParks fl ctx ttl proj now s = (n, s') \<Longrightarrow> placement_step sha fl s s'"
| elsewhere: "runner_leases s' = runner_leases s \<Longrightarrow> runners s' = runners s \<Longrightarrow>
    filter is_hold_bill (usage_ledger s') = filter is_hold_bill (usage_ledger s) \<Longrightarrow> placement_step sha fl s s'"

context fleet_statements
begin

theorem placement_in:
  assumes "placement_step sha fl s s'"
    and "\<And>u u'. runner_leases u' = runner_leases u \<Longrightarrow> runners u' = runners u \<Longrightarrow>
      filter is_hold_bill (usage_ledger u') = filter is_hold_bill (usage_ledger u) \<Longrightarrow> R u u'"
  shows "R s s'"
  using assms by (induction rule: placement_step.induct) (auto intro: fleet_op_in)

end

text \<open>Of the run transition, a statement list shorter than the whole: it writes none of these tables.\<close>

definition same_fleet :: "'a placement_db_scheme \<Rightarrow> 'a placement_db_scheme \<Rightarrow> bool" where
  "same_fleet s s' \<longleftrightarrow> runner_leases s' = runner_leases s \<and> runners s' = runners s \<and> runner_pools s' = runner_pools s \<and>
     run_pools s' = run_pools s \<and> attempts s' = attempts s \<and> usage_ledger s' = usage_ledger s \<and>
     durable_jobs s' = durable_jobs s \<and> sessions s' = sessions s \<and> attempts_updated_at s' = attempts_updated_at s"

interpretation fleet_frame: effect_statements same_fleet
  by unfold_locales (auto intro!: tx_inI simp: same_fleet_def sql_defs enqueue_outbox_def Let_def journal_event_def newEventID_def
      tx_iffs split: if_splits list.splits)

lemma transition_fleet: "applyRunTransitionTx t runID cmd s = Inr (a, s') \<Longrightarrow> same_fleet s s'"
  by (erule tx_inD [OF fleet_frame.st_run, rotated]) (auto intro!: tx_inI simp: same_fleet_def UpdateRunState_def)

section \<open>The holds of a machine\<close>

definition occupied :: "string \<Rightarrow> runner_lease list \<Rightarrow> runner_lease list" where
  "occupied machine ls = filter (open_on machine) ls"

definition fleet_ok :: "runner_row list \<Rightarrow> runner_lease list \<Rightarrow> bool" where
  "fleet_ok rs ls \<longleftrightarrow> (\<forall>machine.
     (\<forall>x \<in> set (occupied machine ls). \<forall>y \<in> set (occupied machine ls). ls_project x = ls_project y) \<and>
     (\<forall>r \<in> set rs. ru_id r = machine \<longrightarrow> ru_capacity r = 0 \<or> int (length (occupied machine ls)) \<le> ru_capacity r))"

text \<open>A hold that may be added.\<close>

definition admits :: "runner_row list \<Rightarrow> runner_lease list \<Rightarrow> runner_lease \<Rightarrow> bool" where
  "admits rs ls l \<longleftrightarrow> (\<forall>x \<in> set (occupied (ls_runner l) ls). ls_project x = ls_project l) \<and>
     (\<forall>r \<in> set rs. ru_id r = ls_runner l \<longrightarrow> ru_capacity r = 0 \<or> int (length (occupied (ls_runner l) ls)) < ru_capacity r)"

definition fewer_holds :: "'a placement_db_scheme \<Rightarrow> 'a placement_db_scheme \<Rightarrow> bool" where
  "fewer_holds s s' \<longleftrightarrow> runners s' = runners s \<and> (\<forall>machine.
     length (occupied machine (runner_leases s')) \<le> length (occupied machine (runner_leases s)) \<and>
     ls_project ` set (occupied machine (runner_leases s')) \<subseteq> ls_project ` set (occupied machine (runner_leases s)))"

lemma fleet_ok_add:
  assumes "fleet_ok rs ls" and "admits rs ls l" shows "fleet_ok rs (ls @ [l])"
  unfolding fleet_ok_def
proof (intro allI)
  fix machine
  note ok = assms(1) [unfolded fleet_ok_def, rule_format, of machine]
  show "(\<forall>x \<in> set (occupied machine (ls @ [l])). \<forall>y \<in> set (occupied machine (ls @ [l])). ls_project x = ls_project y) \<and>
     (\<forall>r \<in> set rs. ru_id r = machine \<longrightarrow> ru_capacity r = 0 \<or> int (length (occupied machine (ls @ [l]))) \<le> ru_capacity r)"
  proof (cases "open_on machine l")
    case True
    then have m: "machine = ls_runner l" by (simp add: open_on_def)
    have new: "occupied (ls_runner l) (ls @ [l]) = occupied (ls_runner l) ls @ [l]" using True m by (simp add: occupied_def)
    have proj: "ls_project x = ls_project l" if "x \<in> set (occupied machine (ls @ [l]))" for x
      using that assms(2) unfolding m new admits_def by auto
    have "ls_project x = ls_project y" if "x \<in> set (occupied machine (ls @ [l]))" "y \<in> set (occupied machine (ls @ [l]))" for x y
      by (rule trans [OF proj [OF that(1)] proj [OF that(2), symmetric]])
    moreover have "ru_capacity r = 0 \<or> int (length (occupied machine (ls @ [l]))) \<le> ru_capacity r"
      if "r \<in> set rs" "ru_id r = machine" for r
      using assms(2) that unfolding m new admits_def by fastforce
    ultimately show ?thesis by blast
  next
    case False
    then have "occupied machine (ls @ [l]) = occupied machine ls" by (simp add: occupied_def)
    then show ?thesis using ok by (simp only:)
  qed
qed

lemma fewer_ok: "fewer_holds s s' \<Longrightarrow> fleet_ok (runners s) (runner_leases s) \<Longrightarrow> fleet_ok (runners s') (runner_leases s')"
  unfolding fewer_holds_def fleet_ok_def by (smt (verit, best) image_iff of_nat_le_iff order_trans subset_iff)

lemma fewer_admits: "fewer_holds s s' \<Longrightarrow> admits (runners s) (runner_leases s) l \<Longrightarrow> admits (runners s') (runner_leases s') l"
  unfolding fewer_holds_def admits_def by (smt (verit, best) image_iff of_nat_le_iff subset_iff)

lemma fewer_same: "runner_leases s' = runner_leases s \<Longrightarrow> runners s' = runners s \<Longrightarrow> fewer_holds s s'"
  by (simp add: fewer_holds_def)

lemma fewer_update:
  assumes "runners s' = runners s" and "runner_leases s' = sql_update p f (runner_leases s)"
    and "\<And>l. ls_runner (f l) = ls_runner l \<and> ls_project (f l) = ls_project l"
    and "\<And>l. ls_released (f l) = None \<Longrightarrow> ls_released l = None"
  shows "fewer_holds s s'"
proof -
  have kept: "open_on m (f l) \<Longrightarrow> open_on m l" "ls_project (f l) = ls_project l" for m l
    using assms(3,4) [of l] by (simp_all add: open_on_def)
  have "length (occupied m (sql_update p f ls)) \<le> length (occupied m ls) \<and>
      ls_project ` set (occupied m (sql_update p f ls)) \<subseteq> ls_project ` set (occupied m ls)" for m ls
  proof (induction ls)
    case (Cons l ls)
    then show ?case using kept(1) [of m l] kept(2) [of l]
      by (cases "open_on m l"; cases "open_on m (f l)") (auto simp: occupied_def sql_update_def)
  qed (simp add: occupied_def sql_update_def)
  then show ?thesis using assms(1,2) by (simp add: fewer_holds_def)
qed

lemma ledger_self: "\<exists>g. s = s\<lparr>usage_ledger := g\<rparr>"
  by (rule exI [of _ "usage_ledger s"]) simp

lemma settle_entries: "settleUsage sha t now entries s = Inr (u, s') \<Longrightarrow> \<exists>g. s' = s\<lparr>usage_ledger := g\<rparr>"
proof (induction entries arbitrary: s)
  case (Cons e entries)
  then obtain s1 v where one: "tx_when (ue_quantity e > 0) (tx_wrap (''settle usage '' @ ue_meter e) (SettleUsage sha t now e)) s = Inr (v, s1)"
    and rest: "settleUsage sha t now entries s1 = Inr (u, s')" by (auto simp: settleUsage_def tx_iffs)
  from one have "\<exists>g. s1 = s\<lparr>usage_ledger := g\<rparr>"
    by (auto simp: tx_when_eq SettleUsage_def split: if_splits intro: ledger_self)
  with Cons.IH [OF rest] show ?case by auto
qed (auto simp: settleUsage_def intro: ledger_self)

text \<open>The two results of a settlement's transaction: the hold that it closed and billed, or nothing written.\<close>

lemma settle_tx_cases:
  assumes "settle_tx sha fl t leaseID reason now s = Inr (out, s')"
  obtains (closed) l s1 where "out = Some (ls_runner l)" "sql_row (open_lease t leaseID) (runner_leases s) \<noteq> None"
      "reason \<in> set release_reasons"
      "s1 = s\<lparr>runner_leases := sql_update (open_lease t leaseID) (\<lambda>l. l\<lparr>ls_released := Some now, ls_reason := Some reason\<rparr>) (runner_leases s)\<rparr>"
      "sql_row (the_lease t leaseID) (runner_leases s1) = Some l"
      "settleUsage sha t now [machine_entry fl leaseID (scanOccupancy fl now l)] s1 = Inr ((), s')"
  | (void) "out = None" "s' = s" "sql_row (open_lease t leaseID) (runner_leases s) = None"
      "sql_row (the_lease t leaseID) (runner_leases s) \<noteq> None"
  using assms by (auto simp: settle_tx_def tx_iffs release_lease_def split: option.splits if_splits)

lemma settle_fewer: "tx_in (fewer_holds :: 'a placement_db_scheme \<Rightarrow> 'a placement_db_scheme \<Rightarrow> bool) (settle_tx sha fl t leaseID reason now)"
proof (rule tx_inI)
  fix s s' :: "'a placement_db_scheme" and out assume "settle_tx sha fl t leaseID reason now s = Inr (out, s')"
  then show "fewer_holds s s'"
  proof (cases rule: settle_tx_cases)
    case (closed l s1)
    then have "fewer_holds s s1" by (intro fewer_update [of s1 s "open_lease t leaseID" "\<lambda>l. l\<lparr>ls_released := Some now, ls_reason := Some reason\<rparr>"]) auto
    moreover have "runner_leases s' = runner_leases s1" "runners s' = runners s1"
      using settle_entries [OF closed(6)] by auto
    ultimately show ?thesis by (simp add: fewer_holds_def)
  qed (simp add: fewer_same)
qed

lemmas placement_statement_defs = EnqueueWokenRunJob_def MarkAttemptAwaitingCapacity_def RefundCapacityParkAttempt_def
  UpdateResponse_def record_run_pool_def newJobID_def Let_def

interpretation holds: fleet_statements fewer_holds sha for sha
proof unfold_locales
  show "fewer_holds s u" if "fewer_holds s s'" "fewer_holds s' u" for s s' u :: "'a placement_db_scheme"
    using that unfolding fewer_holds_def by (metis order_trans)
  show "tx_in fewer_holds (applyRunTransitionTx t runID cmd)" for t runID cmd
    by (auto intro!: tx_inI fewer_same dest!: transition_fleet simp: same_fleet_def)
  show "tx_in fewer_holds (touch_lease t leaseID now)" for t leaseID now
    by (rule tx_inI) (rule fewer_update [of _ _ "open_lease t leaseID" "\<lambda>l. l\<lparr>ls_active := now\<rparr>"], auto simp: touch_lease_def)
  show "tx_in fewer_holds (release_lease t leaseID reason now)" for t leaseID reason now
    by (rule tx_inI) (auto simp: release_lease_def fewer_same split: option.splits if_splits 
        intro!: fewer_update [of _ _ "open_lease t leaseID" "\<lambda>l. l\<lparr>ls_released := Some now, ls_reason := Some reason\<rparr>"])
  show "tx_in fewer_holds (settle_tx sha fl t leaseID reason now)" for fl t leaseID reason now
    by (rule settle_fewer)
qed (auto intro!: tx_inI fewer_same simp: placement_statement_defs split: if_splits list.splits)

section \<open>Concurrent acquisitions\<close>

text \<open>
  The statements of acquisitions interleave with each other and with the rest of the program.  A transaction reads
  committed rows.  It holds the row lock of its machine from \<^verbatim>\<open>LockMachineForPlacement\<close> until it commits or rolls back,
  and its insert is visible to the others when it commits.  The owner of the counting functions is exempt from row security.
\<close>

record acquisition =
  aq_txn :: txn
  aq_lease :: string
  aq_session :: string
  aq_runner :: string

datatype acquire_phase =
    Begun acquisition
  | Locked acquisition int
  | Inserted acquisition runner_lease
  | Finished "string result"

fun lock_of :: "acquire_phase \<Rightarrow> string option" where
  "lock_of (Locked q cap) = Some (aq_runner q)"
| "lock_of (Inserted q l) = Some (aq_runner q)"
| "lock_of _ = None"

record race =
  rc_db :: placement_db
  rc_calls :: "nat \<rightharpoonup> acquire_phase"

definition lock_free :: "string \<Rightarrow> race \<Rightarrow> bool" where
  "lock_free machine rc \<longleftrightarrow> (\<forall>i ph. rc_calls rc i = Some ph \<longrightarrow> lock_of ph \<noteq> Some machine)"

definition enter :: "nat \<Rightarrow> acquire_phase \<Rightarrow> race \<Rightarrow> race" where
  "enter i ph rc = rc\<lparr>rc_calls := (rc_calls rc)(i \<mapsto> ph)\<rparr>"

definition candidate :: "acquisition \<Rightarrow> int \<Rightarrow> placement_db \<Rightarrow> runner_lease option" where
  "candidate q now db = lease_candidate True (aq_txn q) (aq_lease q) (aq_runner q) (aq_session q) now db"

inductive race_step :: "(string \<Rightarrow> string) \<Rightarrow> (rat \<Rightarrow> rat) \<Rightarrow> race \<Rightarrow> race \<Rightarrow> bool" for sha fl where
  start: "rc_calls rc i = None \<Longrightarrow> race_step sha fl rc (enter i (Begun q) rc)"
| lock: "rc_calls rc i = Some (Begun q) \<Longrightarrow> lock_free (aq_runner q) rc \<Longrightarrow>
    LockMachineForPlacement (aq_txn q) (aq_runner q) (rc_db rc) = Inr (Some cap, rc_db rc) \<Longrightarrow> race_step sha fl rc (enter i (Locked q cap) rc)"
| unseen: "rc_calls rc i = Some (Begun q) \<Longrightarrow>
    LockMachineForPlacement (aq_txn q) (aq_runner q) (rc_db rc) = Inr (None, rc_db rc) \<Longrightarrow>
    race_step sha fl rc (enter i (Finished (Inl (Errorf [ErrMachineUnavailable] ''machine''))) rc)"
| insert: "rc_calls rc i = Some (Locked q cap) \<Longrightarrow> candidate q now (rc_db rc) = Some l \<Longrightarrow>
    insert_lease (aq_txn q) l (rc_db rc) = Inr (out, db) \<Longrightarrow> race_step sha fl rc (enter i (Inserted q l) rc)"
| fail: "rc_calls rc i = Some (Locked q cap) \<Longrightarrow> candidate q now (rc_db rc) = Some l \<Longrightarrow>
    insert_lease (aq_txn q) l (rc_db rc) = Inl e \<Longrightarrow> race_step sha fl rc (enter i (Finished (Inl (Errorf [e] ''acquire lease''))) rc)"
| refuse: "rc_calls rc i = Some (Locked q cap) \<Longrightarrow> candidate q now (rc_db rc) = None \<Longrightarrow>
    race_step sha fl rc (enter i (Finished (Inl (refusal True (aq_txn q) (aq_runner q) cap (rc_db rc)))) rc)"
| finish: "rc_calls rc i = Some (Inserted q l) \<Longrightarrow> insert_lease (aq_txn q) l (rc_db rc) = Inr (Some leaseID, db) \<Longrightarrow>
    race_step sha fl rc (enter i (Finished (Inr leaseID)) (rc\<lparr>rc_db := db\<rparr>))"
| collide: "rc_calls rc i = Some (Inserted q l) \<Longrightarrow> insert_lease (aq_txn q) l (rc_db rc) = Inl e \<Longrightarrow>
    race_step sha fl rc (enter i (Finished (Inl (Errorf [e] ''acquire lease''))) rc)"
| store: "placement_step sha fl (rc_db rc) db \<Longrightarrow> race_step sha fl rc (rc\<lparr>rc_db := db\<rparr>)"

lemma lease_candidate_admits:
  assumes "lease_candidate True t leaseID runnerID sessionID now db = Some l" and "distinct (map ru_id (runners db))"
  shows "admits (runners db) (runner_leases db) l \<and> ls_runner l = runnerID \<and> ls_released l = None"
proof -
  from assms(1) obtain r where r: "r \<in> set (runners db)" "ru_id r = runnerID"
    and room: "ru_capacity r = 0 \<or> palai_machine_open_occupancies True t runnerID db < ru_capacity r"
    and mine: "\<not> palai_machine_held_by_another_tenant True t runnerID db"
    and l: "ls_runner l = runnerID" "ls_project l = tx_tenant t" "ls_released l = None"
    by (auto simp: lease_candidate_def split: option.splits dest!: sql_row_Some)
  have "r' = r" if "r' \<in> set (runners db)" "ru_id r' = runnerID" for r'
    using key_unique [OF assms(2) that(1) r(1)] that(2) r(2) by simp
  then have "\<forall>r' \<in> set (runners db). ru_id r' = runnerID \<longrightarrow>
      ru_capacity r' = 0 \<or> int (length (occupied runnerID (runner_leases db))) < ru_capacity r'"
    using room by (auto simp: palai_machine_open_occupancies_def occupied_def)
  moreover have "\<forall>x \<in> set (occupied runnerID (runner_leases db)). ls_project x = tx_tenant t"
    using mine by (auto simp: palai_machine_held_by_another_tenant_def occupied_def list_ex_iff)
  ultimately show ?thesis using l by (simp add: admits_def)
qed

definition race_ok :: "race \<Rightarrow> bool" where
  "race_ok rc \<longleftrightarrow> distinct (map ru_id (runners (rc_db rc))) \<and> fleet_ok (runners (rc_db rc)) (runner_leases (rc_db rc)) \<and>
     (\<forall>i j p q m. rc_calls rc i = Some p \<longrightarrow> rc_calls rc j = Some q \<longrightarrow> lock_of p = Some m \<longrightarrow> lock_of q = Some m \<longrightarrow> i = j) \<and>
     (\<forall>i q l. rc_calls rc i = Some (Inserted q l) \<longrightarrow>
        ls_runner l = aq_runner q \<and> ls_released l = None \<and> admits (runners (rc_db rc)) (runner_leases (rc_db rc)) l)"

lemma race_okD:
  assumes "race_ok rc"
  shows "distinct (map ru_id (runners (rc_db rc)))" "fleet_ok (runners (rc_db rc)) (runner_leases (rc_db rc))"
    and "rc_calls rc i = Some p \<Longrightarrow> rc_calls rc j = Some q \<Longrightarrow> lock_of p = Some m \<Longrightarrow> lock_of q = Some m \<Longrightarrow> i = j"
    and "rc_calls rc i = Some (Inserted a l) \<Longrightarrow>
      ls_runner l = aq_runner a \<and> ls_released l = None \<and> admits (runners (rc_db rc)) (runner_leases (rc_db rc)) l"
  using assms unfolding race_ok_def by blast+

text \<open>A phase that takes no lock of another call, and no insert that the machine cannot admit, keeps the invariant.\<close>

lemma race_ok_enter:
  assumes ok: "race_ok rc"
    and lock: "\<And>m j p. lock_of ph = Some m \<Longrightarrow> j \<noteq> i \<Longrightarrow> rc_calls rc j = Some p \<Longrightarrow> lock_of p \<noteq> Some m"
    and row: "\<And>q l. ph = Inserted q l \<Longrightarrow> ls_runner l = aq_runner q \<and> ls_released l = None \<and>
      admits (runners (rc_db rc)) (runner_leases (rc_db rc)) l"
  shows "race_ok (enter i ph rc)"
  using race_okD [OF ok] lock row unfolding race_ok_def enter_def
  by (auto split: if_splits)

lemma race_ok_db:
  assumes ok: "race_ok rc" and less: "fewer_holds (rc_db rc) db" shows "race_ok (rc\<lparr>rc_db := db\<rparr>)"
proof -
  have "runners db = runners (rc_db rc)" using less by (simp add: fewer_holds_def)
  then show ?thesis
    using race_okD [OF ok] fewer_ok [OF less] fewer_admits [OF less] unfolding race_ok_def by simp
qed

text \<open>The lock makes the committed row the only one that the machine gained since the insert was decided.\<close>

lemma race_ok_commit:
  assumes ok: "race_ok rc" and call: "rc_calls rc i = Some (Inserted q l)"
    and row: "insert_lease (aq_txn q) l (rc_db rc) = Inr (out, db)"
  shows "race_ok (enter i (Finished r) (rc\<lparr>rc_db := db\<rparr>))"
proof -
  have db: "db = (rc_db rc)\<lparr>runner_leases := runner_leases (rc_db rc) @ [l]\<rparr>"
    using row by (auto simp: insert_lease_def split: if_splits)
  note mine = race_okD(4) [OF ok call]
  have other: "admits (runners (rc_db rc)) (runner_leases (rc_db rc) @ [l]) k"
    if j: "j \<noteq> i" "rc_calls rc j = Some (Inserted p k)" for j p k
  proof -
    note theirs = race_okD(4) [OF ok j(2)]
    have "aq_runner p \<noteq> aq_runner q"
      using race_okD(3) [OF ok j(2) call, of "aq_runner q"] j(1) by auto
    then have "occupied (ls_runner k) (runner_leases (rc_db rc) @ [l]) = occupied (ls_runner k) (runner_leases (rc_db rc))"
      using mine theirs by (simp add: occupied_def open_on_def)
    then show ?thesis using theirs [THEN conjunct2, THEN conjunct2] unfolding admits_def by (simp only:)
  qed
  have fleet: "fleet_ok (runners (rc_db rc)) (runner_leases (rc_db rc) @ [l])"
    using fleet_ok_add [OF race_okD(2) [OF ok]] mine by blast
  have locks: "j = k" if "j \<noteq> i" "k \<noteq> i" "rc_calls rc j = Some p" "rc_calls rc k = Some p'" "lock_of p = Some m" "lock_of p' = Some m" for j k p p' m
    using race_okD(3) [OF ok] that(3-6) by blast
  have rows: "ls_runner k = aq_runner p \<and> ls_released k = None" if "rc_calls rc j = Some (Inserted p k)" for j p k
    using race_okD(4) [OF ok that] by blast
  show ?thesis
    using race_okD(1) [OF ok] fleet other locks rows unfolding race_ok_def enter_def db by (auto split: if_splits)
qed

lemma race_step_ok:
  assumes "race_step sha fl rc rc'" and ok: "race_ok rc" shows "race_ok rc'"
  using assms(1)
proof cases
  case (lock i q cap)
  then show ?thesis by (auto intro!: race_ok_enter [OF ok] simp: lock_free_def)
next
  case (insert i q cap now l out db)
  have "admits (runners (rc_db rc)) (runner_leases (rc_db rc)) l \<and> ls_runner l = aq_runner q \<and> ls_released l = None"
    by (rule lease_candidate_admits [OF insert(3) [unfolded candidate_def] race_okD(1) [OF ok]])
  moreover have "lock_of p \<noteq> Some (aq_runner q)" if "j \<noteq> i" "rc_calls rc j = Some p" for j p
    using race_okD(3) [OF ok that(2) insert(2), of "aq_runner q"] that(1) by auto
  ultimately show ?thesis unfolding insert(1) by (intro race_ok_enter [OF ok]) auto
next
  case (finish i q l leaseID db)
  then show ?thesis using race_ok_commit [OF ok] by blast
next
  case (store db)
  have "fewer_holds (rc_db rc) db" by (rule holds.placement_in [OF store(2) fewer_same])
  then show ?thesis using race_ok_db [OF ok] store(1) by simp
qed (auto intro!: race_ok_enter [OF ok])

interpretation races: invariant_system "race_step sha fl" race_ok for sha fl
  by unfold_locales (rule race_step_ok)

definition race_start :: "placement_db \<Rightarrow> race" where
  "race_start db = \<lparr>rc_db = db, rc_calls = (\<lambda>_. None)\<rparr>"


section \<open>One acquisition\<close>

text \<open>An acquisition that runs alone is a sequence of these steps.\<close>

lemma commit_acquire:
  "commit (acquire_tx bypass t leaseID sessionID runnerID now) db =
     (case sql_row (\<lambda>r. ru_id r = runnerID \<and> serves t (ru_project r)) (runners db) of
        None \<Rightarrow> (Inl (Errorf [ErrMachineUnavailable] ''machine''), db)
      | Some m \<Rightarrow>
          (case lease_candidate bypass t leaseID runnerID sessionID now db of
             None \<Rightarrow> (Inl (refusal bypass t runnerID (ru_capacity m) db), db)
           | Some l \<Rightarrow>
               if \<not> tenant_policy (tx_conn t) (ls_project l) then (Inl (Errorf [RowSecurity] ''acquire lease''), db)
               else if ls_id l \<in> set (map ls_id (runner_leases db)) then (Inl (Errorf [UniqueViolation] ''acquire lease''), db)
               else (Inr (ls_id l), db\<lparr>runner_leases := runner_leases db @ [l]\<rparr>)))"
  by (simp add: commit_def acquire_tx_def LockMachineForPlacement_def InsertOccupancy_def insert_lease_def tx_bind_def tx_read_def tx_wrap_def
      tx_fail_def tx_return_def split: option.split)

lemma enter_enter [simp]: "enter i b (enter i a rc) = enter i b rc"
  by (simp add: enter_def)

lemma enter_db [simp]: "rc_db (enter i a rc) = rc_db rc" "rc_calls (enter i a rc) i = Some a"
  "(enter i a rc)\<lparr>rc_db := db\<rparr> = enter i a (rc\<lparr>rc_db := db\<rparr>)"
  by (simp_all add: enter_def)

lemma acquire_alone:
  assumes call: "rc_calls rc i = Some (Begun q)" and free: "lock_free (aq_runner q) rc"
    and alone: "commit (acquire_tx True (aq_txn q) (aq_lease q) (aq_session q) (aq_runner q) now) (rc_db rc) = (r, db')"
  shows "(race_step sha fl)\<^sup>*\<^sup>* rc (enter i (Finished r) (rc\<lparr>rc_db := db'\<rparr>))"
proof (cases "sql_row (\<lambda>r. ru_id r = aq_runner q \<and> serves (aq_txn q) (ru_project r)) (runners (rc_db rc))")
  case None
  then have "race_step sha fl rc (enter i (Finished (Inl (Errorf [ErrMachineUnavailable] ''machine''))) rc)"
    by (intro race_step.unseen [OF call]) (simp add: LockMachineForPlacement_def tx_read_def)
  then show ?thesis using alone None by (auto simp: commit_acquire)
next
  case (Some m)
  let ?locked = "enter i (Locked q (ru_capacity m)) rc"
  have first: "race_step sha fl rc ?locked"
    using Some by (intro race_step.lock [OF call free]) (simp add: LockMachineForPlacement_def tx_read_def)
  have at: "rc_calls ?locked i = Some (Locked q (ru_capacity m))" "rc_db ?locked = rc_db rc" by simp_all
  show ?thesis
  proof (cases "candidate q now (rc_db rc)")
    case none: None
    have "race_step sha fl ?locked (enter i (Finished (Inl (refusal True (aq_txn q) (aq_runner q) (ru_capacity m) (rc_db rc)))) ?locked)"
      using race_step.refuse [OF at(1), of now] none by simp
    then have "race_step sha fl ?locked (enter i (Finished r) (rc\<lparr>rc_db := db'\<rparr>))"
      using alone Some none by (auto simp: commit_acquire candidate_def)
    with first show ?thesis by auto
  next
    case (Some l)
    show ?thesis
    proof (cases "insert_lease (aq_txn q) l (rc_db rc)")
      case (Inl e)
      have "race_step sha fl ?locked (enter i (Finished (Inl (Errorf [e] ''acquire lease''))) ?locked)"
        using race_step.fail [OF at(1), of now l e] Some Inl by simp
      then have "race_step sha fl ?locked (enter i (Finished r) (rc\<lparr>rc_db := db'\<rparr>))"
        using alone Some Inl \<open>sql_row _ _ = Some m\<close> by (auto simp: commit_acquire candidate_def insert_lease_def split: if_splits)
      with first show ?thesis by auto
    next
      case (Inr x)
      then obtain out db where ins: "insert_lease (aq_txn q) l (rc_db rc) = Inr (out, db)" by (cases x) simp
      let ?ins = "enter i (Inserted q l) ?locked"
      have second: "race_step sha fl ?locked ?ins"
        using race_step.insert [OF at(1), of now l out db] Some ins by simp
      have out: "out = Some (ls_id l)" using ins by (auto simp: insert_lease_def split: if_splits)
      have "race_step sha fl ?ins (enter i (Finished (Inr (ls_id l))) (?ins\<lparr>rc_db := db\<rparr>))"
        by (rule race_step.finish [of _ _ q l]) (use ins out in simp_all)
      then have "race_step sha fl ?ins (enter i (Finished r) (rc\<lparr>rc_db := db'\<rparr>))"
        using alone Some ins out \<open>sql_row _ _ = Some m\<close> by (auto simp: commit_acquire candidate_def insert_lease_def split: if_splits)
      with first second show ?thesis by auto
    qed
  qed
qed

text \<open>A transaction whose connection is the tenant's own, or the system's.\<close>

definition owns :: "txn \<Rightarrow> bool" where
  "owns t \<longleftrightarrow> palai_project_id (tx_conn t) = tx_tenant t \<or> palai_system (tx_conn t) = ''on''"

lemma owns_sees:
  assumes "owns t"
  shows "serves t p \<longleftrightarrow> p = Some (tx_tenant t) \<or> p = None" "sees t q \<longleftrightarrow> q = tx_tenant t" "tenant_policy (tx_conn t) (tx_tenant t)"
  using assms by (auto simp: owns_def serves_def sees_def fleet_read_policy_def tenant_policy_def)

definition held_by_other :: "string \<Rightarrow> string \<Rightarrow> runner_lease list \<Rightarrow> bool" where
  "held_by_other tenant machine ls \<longleftrightarrow> (\<exists>l \<in> set ls. open_on machine l \<and> ls_project l \<noteq> tenant)"

lemma counting_functions:
  "palai_machine_held_by_another_tenant True t machine db \<longleftrightarrow> held_by_other (tx_tenant t) machine (runner_leases db)"
  "palai_machine_open_occupancies True t machine db = int (length (occupied machine (runner_leases db)))"
  by (auto simp: palai_machine_held_by_another_tenant_def palai_machine_open_occupancies_def held_by_other_def occupied_def list_ex_iff)

lemma sql_row_unique:
  assumes "distinct (map key rows)" and "m \<in> set rows" and "\<And>r. p r \<Longrightarrow> key r = key m"
  shows "sql_row p rows = (if p m then Some m else None)"
proof (cases "sql_row p rows")
  case None
  then show ?thesis using assms(2) by (auto simp: sql_row_None)
next
  case (Some k)
  then have "k = m" using key_unique [OF assms(1) _ assms(2)] assms(3) sql_row_Some [OF Some] by blast
  then show ?thesis using Some sql_row_Some [OF Some] by auto
qed

text \<open>The guards of the insert for a machine that serves the tenant.\<close>

lemma lease_candidate_eq:
  assumes "owns t" and "distinct (map ru_id (runners db))" and "m \<in> set (runners db)"
    and "ru_project m = Some (tx_tenant t) \<or> ru_project m = None"
  shows "lease_candidate True t leaseID (ru_id m) sessionID now db =
     (if (ru_capacity m = 0 \<or> int (length (occupied (ru_id m) (runner_leases db))) < ru_capacity m) \<and>
         \<not> held_by_other (tx_tenant t) (ru_id m) (runner_leases db) \<and> (\<exists>s \<in> set (sessions db). se_id s = sessionID \<and> se_project s = tx_tenant t)
      then Some \<lparr>ls_id = leaseID, ls_project = tx_tenant t, ls_runner = ru_id m, ls_session = sessionID, ls_started = now, ls_active = now,
             ls_released = None, ls_reason = None\<rparr> else None)"
proof -
  let ?p = "\<lambda>r. ru_id r = ru_id m \<and> serves t (ru_project r) \<and>
      (ru_capacity r = 0 \<or> palai_machine_open_occupancies True t (ru_id r) db < ru_capacity r) \<and>
      \<not> palai_machine_held_by_another_tenant True t (ru_id r) db"
  have machine: "sql_row ?p (runners db) = (if ?p m then Some m else None)"
    by (rule sql_row_unique [of ru_id]) (use assms in auto)
  show ?thesis
  proof (cases "sql_row (\<lambda>s. se_id s = sessionID \<and> sees t (se_project s)) (sessions db)")
    case None
    then have "\<not> (\<exists>s \<in> set (sessions db). se_id s = sessionID \<and> se_project s = tx_tenant t)"
      using owns_sees(2) [OF assms(1)] by (auto simp: sql_row_None)
    then show ?thesis unfolding lease_candidate_def machine None by (simp split: option.split)
  next
    case (Some s)
    then have s: "s \<in> set (sessions db)" "se_id s = sessionID" "se_project s = tx_tenant t"
      using sql_row_Some [OF Some] owns_sees(2) [OF assms(1)] by auto
    show ?thesis
      unfolding lease_candidate_def machine Some unfolding counting_functions owns_sees(1) [OF assms(1)] using s assms(4) by auto
  qed
qed

lemma refusal_eq:
  "0 \<le> capacity \<Longrightarrow> refusal True t machine capacity db =
     (if held_by_other (tx_tenant t) machine (runner_leases db) then Errorf [ErrMachineHeldByAnotherTenant] ''machine''
      else if 0 < capacity \<and> capacity \<le> int (length (occupied machine (runner_leases db))) then Errorf [ErrMachineAtCapacity] ''machine''
      else Errorf [ErrMachineUnavailable] ''session'')"
  unfolding refusal_def counting_functions by (auto simp: HasRoom_def)

text \<open>
  C22. A refusal names its cause.  An acquisition finds no machine that may serve the tenant, or another tenant on it, or
  the declared capacity reached, or no such session of the tenant, in this order, and answers with the error of the first that
  holds; otherwise, and only then, it opens the hold.  A declared capacity of zero is no ceiling.
\<close>

theorem acquire_exact:
  assumes conn: "PrepareConn (ScopeToTenant ctx tenant) = Inr c" "palai_project_id c = tenant \<or> palai_system c = ''on''"
    and ids: "distinct (map ru_id (runners db))" "\<forall>m \<in> set (runners db). 0 \<le> ru_capacity m"
    and fresh: "entropy db = e # es" "''lse_'' @ e \<notin> set (map ls_id (runner_leases db))"
    and named: "sessionID \<noteq> ''''" "runnerID \<noteq> ''''"
  shows "AcquireLease True ctx tenant sessionID runnerID now db =
    (case sql_row (\<lambda>m. ru_id m = runnerID \<and> (ru_project m = Some tenant \<or> ru_project m = None)) (runners db) of
       None \<Rightarrow> (Inl (Errorf [ErrMachineUnavailable] ''machine''), db\<lparr>entropy := es\<rparr>)
     | Some m \<Rightarrow>
         if held_by_other tenant runnerID (runner_leases db)
         then (Inl (Errorf [ErrMachineHeldByAnotherTenant] ''machine''), db\<lparr>entropy := es\<rparr>)
         else if 0 < ru_capacity m \<and> ru_capacity m \<le> int (length (occupied runnerID (runner_leases db)))
         then (Inl (Errorf [ErrMachineAtCapacity] ''machine''), db\<lparr>entropy := es\<rparr>)
         else if \<not> (\<exists>s \<in> set (sessions db). se_id s = sessionID \<and> se_project s = tenant)
         then (Inl (Errorf [ErrMachineUnavailable] ''session''), db\<lparr>entropy := es\<rparr>)
         else (Inr (''lse_'' @ e), db\<lparr>entropy := es, runner_leases := runner_leases db @
           [\<lparr>ls_id = ''lse_'' @ e, ls_project = tenant, ls_runner = runnerID, ls_session = sessionID, ls_started = now, ls_active = now,
             ls_released = None, ls_reason = None\<rparr>]\<rparr>))"
proof -
  define t where "t = \<lparr>tx_conn = c, tx_tenant = tenant\<rparr>"
  define db1 where "db1 = db\<lparr>entropy := es\<rparr>"
  have t: "tx_tenant t = tenant" "tx_conn t = c" and owns: "owns t" using conn(2) by (auto simp: t_def owns_def)
  have same: "runner_leases db1 = runner_leases db" "runners db1 = runners db" "sessions db1 = sessions db" by (simp_all add: db1_def)
  have run: "AcquireLease True ctx tenant sessionID runnerID now db =
      commit (acquire_tx True t (''lse_'' @ e) sessionID runnerID now) db1"
    using named fresh(1) conn(1) by (simp add: AcquireLease_def newLeaseID_def begin_tx_def t_def db1_def)
  show ?thesis
  proof (cases "sql_row (\<lambda>m. ru_id m = runnerID \<and> (ru_project m = Some tenant \<or> ru_project m = None)) (runners db)")
    case None
    then show ?thesis by (simp add: run commit_acquire owns_sees(1) [OF owns] t same) (simp add: db1_def)
  next
    case (Some m)
    then have m: "m \<in> set (runners db)" "ru_id m = runnerID" "ru_project m = Some (tx_tenant t) \<or> ru_project m = None"
      using sql_row_Some [OF Some] t by auto
    have cap: "0 \<le> ru_capacity m" using ids(2) m(1) by blast
    note cand = lease_candidate_eq [OF owns, of db1 m "''lse_'' @ e" sessionID now, unfolded same m(2), OF ids(1) m(1,3)]
    have policy: "tenant_policy c tenant" using owns_sees(3) [OF owns] t by simp
    show ?thesis
      unfolding run commit_acquire owns_sees(1) [OF owns] same t Some option.case cand refusal_eq [OF cap]
      using fresh(2) policy cap
      by (cases "held_by_other tenant runnerID (runner_leases db)";
          cases "\<exists>s \<in> set (sessions db). se_id s = sessionID \<and> se_project s = tenant";
          cases "0 < ru_capacity m \<and> ru_capacity m \<le> int (length (occupied runnerID (runner_leases db)))")
        (auto simp: db1_def)
  qed
qed

section \<open>The bill of a hold\<close>

definition bills :: "runner_lease \<Rightarrow> 'a placement_db_scheme \<Rightarrow> ledger_row list" where
  "bills l db = filter (\<lambda>g. lg_project g = ls_project l \<and> lg_dedupe g = lease_dedupe (ls_id l)) (usage_ledger db)"

text \<open>Nothing open is billed.\<close>

definition bill_ok :: "'a placement_db_scheme \<Rightarrow> bool" where
  "bill_ok db \<longleftrightarrow> distinct (map ls_id (runner_leases db)) \<and>
     (\<forall>l \<in> set (runner_leases db). ls_released l = None \<longrightarrow> bills l db = []) \<and>
     (\<forall>g \<in> set (usage_ledger db). \<forall>i. lg_dedupe g = lease_dedupe i \<longrightarrow> i \<in> set (map ls_id (runner_leases db)))"

definition bill_le :: "'a placement_db_scheme \<Rightarrow> 'a placement_db_scheme \<Rightarrow> bool" where
  "bill_le s s' \<longleftrightarrow> (bill_ok s \<longrightarrow> bill_ok s' \<and> (\<forall>l \<in> set (runner_leases s). ls_released l \<noteq> None \<longrightarrow>
     l \<in> set (runner_leases s') \<and> bills l s' = bills l s))"

lemma lease_dedupe_eq [simp]: "lease_dedupe i = lease_dedupe j \<longleftrightarrow> i = j"
  by (simp add: lease_dedupe_def)

lemma hold_bill_dedupe: "lg_dedupe g = lease_dedupe i \<Longrightarrow> is_hold_bill g"
  by (simp add: is_hold_bill_def lease_dedupe_def)

lemma bills_filter: "bills l db = filter (\<lambda>g. lg_project g = ls_project l \<and> lg_dedupe g = lease_dedupe (ls_id l)) (filter is_hold_bill (usage_ledger db))"
  using hold_bill_dedupe by (auto simp: bills_def intro!: filter_cong)

lemma bill_le_same:
  assumes "runner_leases s' = runner_leases s" and "filter is_hold_bill (usage_ledger s') = filter is_hold_bill (usage_ledger s)"
  shows "bill_le s s'"
proof -
  have bills: "bills l s' = bills l s" for l by (simp add: bills_filter assms(2))
  have "g \<in> set (usage_ledger s)" if "g \<in> set (usage_ledger s')" "lg_dedupe g = lease_dedupe i" for g i
    using arg_cong [OF assms(2), of set] that hold_bill_dedupe by fastforce
  then show ?thesis by (auto simp: bill_le_def bill_ok_def assms(1) bills)
qed

lemma bill_le_trans: "bill_le s t \<Longrightarrow> bill_le t u \<Longrightarrow> bill_le s u"
  by (simp add: bill_le_def)

text \<open>An update of open holds that keeps their identity, with no bill.\<close>

lemma bill_le_update:
  assumes "usage_ledger s' = usage_ledger s" and "runner_leases s' = sql_update (open_lease t leaseID) f (runner_leases s)"
    and f: "\<And>l. ls_id (f l) = ls_id l \<and> ls_project (f l) = ls_project l"
  shows "bill_le s s'"
proof -
  have ids: "map ls_id (runner_leases s') = map ls_id (runner_leases s)"
    using f by (simp add: assms(2) sql_update_def)
  have bills: "bills (f l) s' = bills l s" "bills l s' = bills l s" for l
    using f [of l] by (simp_all add: bills_def assms(1))
  have unbilled: "bills l s' = []" if "bill_ok s" "l \<in> set (runner_leases s')" "ls_released l = None" for l
    using that bills by (auto simp: assms(2) set_sql_update bill_ok_def open_lease_def split: if_splits)
  have kept: "l \<in> set (runner_leases s')" if "l \<in> set (runner_leases s)" "ls_released l \<noteq> None" for l
    using that by (auto simp: assms(2) set_sql_update open_lease_def intro!: bexI [of _ l])
  have "bill_ok s'" if "bill_ok s"
    using that unbilled [OF that] ids assms(1) unfolding bill_ok_def by simp
  then show ?thesis using kept bills(2) unfolding bill_le_def by blast
qed

definition closed_hold :: "string \<Rightarrow> int \<Rightarrow> runner_lease \<Rightarrow> runner_lease" where
  "closed_hold reason now l = l\<lparr>ls_released := Some now, ls_reason := Some reason\<rparr>"

lemma closed_hold_fields [simp]:
  "ls_id (closed_hold reason now l) = ls_id l" "ls_project (closed_hold reason now l) = ls_project l"
  "ls_runner (closed_hold reason now l) = ls_runner l" "ls_session (closed_hold reason now l) = ls_session l"
  "ls_released (closed_hold reason now l) = Some now"
  by (simp_all add: closed_hold_def)

lemma open_not_closed: "ls_released k = None \<Longrightarrow> k \<noteq> closed_hold reason now l"
  by auto

lemma closed_ids: "map ls_id (sql_update p (closed_hold reason now) ls) = map ls_id ls"
  by (simp add: sql_update_def)

definition hold_minutes :: "(rat \<Rightarrow> rat) \<Rightarrow> runner_lease \<Rightarrow> rat" where
  "hold_minutes fl l = duration_minutes fl (interval_duration fl (billed_interval 0 l))"

definition hold_bill :: "(string \<Rightarrow> string) \<Rightarrow> (rat \<Rightarrow> rat) \<Rightarrow> int \<Rightarrow> runner_lease \<Rightarrow> ledger_row" where
  "hold_bill sha fl now l = \<lparr>lg_id = ledgerID sha (ls_project l) (lease_dedupe (ls_id l)), lg_project = ls_project l,
     lg_session = nullableText (ls_session l), lg_run = None, lg_meter = ''machine.minutes'', lg_quantity = hold_minutes fl l,
     lg_unit = ''minute'', lg_dedupe = lease_dedupe (ls_id l), lg_occurred_at = now, lg_model_request = None,
     lg_runner = nullableText (ls_runner l)\<rparr>"

text \<open>What a settlement that closes a hold writes.\<close>

lemma settle_closes:
  assumes tx: "settle_tx sha fl t leaseID reason now s = Inr (Some runner, s')" and ok: "bill_ok s"
  obtains l where "l \<in> set (runner_leases s)" "open_lease t leaseID l" "runner = ls_runner l"
    "runner_leases s' = sql_update (open_lease t leaseID) (closed_hold reason now) (runner_leases s)"
    "usage_ledger s' = usage_ledger s @ (if hold_minutes fl (closed_hold reason now l) > 0
       then [hold_bill sha fl now (closed_hold reason now l)] else [])"
    "\<exists>g. s' = s\<lparr>runner_leases := runner_leases s', usage_ledger := g\<rparr>"
  using tx
proof (cases rule: settle_tx_cases)
  case (closed c s1)
  obtain l where l: "l \<in> set (runner_leases s)" "open_lease t leaseID l" using closed(2) by (auto simp: sql_row_None)
  have d: "distinct (map ls_id (runner_leases s))" using ok by (simp add: bill_ok_def)
  have s1: "runner_leases s1 = sql_update (open_lease t leaseID) (closed_hold reason now) (runner_leases s)"
    "usage_ledger s1 = usage_ledger s"
    by (simp_all add: closed(4) closed_hold_def [abs_def])
  have "closed_hold reason now l \<in> set (runner_leases s1)" "the_lease t leaseID (closed_hold reason now l)"
    using l by (auto simp: s1(1) set_sql_update open_lease_def the_lease_def closed_hold_def intro!: bexI [of _ l])
  moreover have "distinct (map ls_id (runner_leases s1))" using d by (simp only: s1(1) closed_ids)
  moreover have "c \<in> set (runner_leases s1)" "the_lease t leaseID c" using sql_row_Some [OF closed(5)] by auto
  ultimately have c: "c = closed_hold reason now l" using key_unique [of ls_id "runner_leases s1" c "closed_hold reason now l"] by (simp add: the_lease_def)
  have own: "ls_project l = tx_tenant t" "ls_id l = leaseID" using l(2) by (simp_all add: open_lease_def the_lease_def sees_def)
  have "bills l s = []" using ok l by (simp add: bill_ok_def open_lease_def)
  then have fresh: "(tx_tenant t, lease_dedupe leaseID) \<notin> set (map (\<lambda>g. (lg_project g, lg_dedupe g)) (usage_ledger s))"
    using own by (auto simp: bills_def filter_empty_conv)
  have entry: "machine_entry fl leaseID (scanOccupancy fl now c) = zero_usageEntry\<lparr>ue_sessionID := ls_session l, ue_runnerID := ls_runner l,
     ue_meter := ''machine.minutes'', ue_unit := ''minute'', ue_dedupeKey := lease_dedupe leaseID, ue_quantity := hold_minutes fl c\<rparr>"
    by (simp add: machine_entry_def scanOccupancy_def c closed_hold_def hold_minutes_def billed_interval_def meterMachineMinutes_def unitMinute_def)
  have ledger: "usage_ledger s' = usage_ledger s @ (if hold_minutes fl c > 0 then [hold_bill sha fl now c] else [])"
    using closed(6) fresh unfolding entry settleUsage_def
    by (auto simp: tx_iffs SettleUsage_def s1 hold_bill_def zero_usageEntry_def own c nullableText_def split: if_splits)
  obtain g where s': "s' = s1\<lparr>usage_ledger := g\<rparr>" using settle_entries [OF closed(6)] by blast
  have rows: "runner_leases s' = sql_update (open_lease t leaseID) (closed_hold reason now) (runner_leases s)"
    by (simp add: s' s1)
  have "s' = s\<lparr>runner_leases := runner_leases s', usage_ledger := g\<rparr>" by (simp add: s' closed(4))
  then show thesis by (intro that [OF l _ rows ledger [unfolded c]]) (use closed(1) c in auto)
qed simp

lemma settle_bills: "tx_in (bill_le :: 'a placement_db_scheme \<Rightarrow> 'a placement_db_scheme \<Rightarrow> bool) (settle_tx sha fl t leaseID reason now)"
proof (rule tx_inI)
  fix s s' :: "'a placement_db_scheme" and out assume tx: "settle_tx sha fl t leaseID reason now s = Inr (out, s')"
  show "bill_le s s'"
  proof (cases "bill_ok s")
    case ok: True
    show ?thesis
    proof (cases out)
      case None
      with tx have "s' = s" by (cases rule: settle_tx_cases) simp_all
      then show ?thesis by (simp add: bill_le_same)
    next
      case (Some runner)
      from settle_closes [OF tx [unfolded Some] ok] obtain l where l: "l \<in> set (runner_leases s)" "open_lease t leaseID l"
        and rows: "runner_leases s' = sql_update (open_lease t leaseID) (closed_hold reason now) (runner_leases s)"
        and ledger: "usage_ledger s' = usage_ledger s @ (if hold_minutes fl (closed_hold reason now l) > 0
           then [hold_bill sha fl now (closed_hold reason now l)] else [])" by metis
      let ?mid = "s\<lparr>runner_leases := runner_leases s'\<rparr>"
      have mid: "bill_le s ?mid" by (rule bill_le_update [of _ _ t leaseID "closed_hold reason now"]) (simp_all add: rows closed_hold_def)
      have lid: "ls_id l = leaseID" "ls_released l = None" using l(2) by (simp_all add: open_lease_def the_lease_def)
      have d: "distinct (map ls_id (runner_leases s))" using ok by (simp add: bill_ok_def)
      have only: "k = l" if "k \<in> set (runner_leases s)" "ls_id k = leaseID" for k
        using key_unique [OF d that(1) l(1)] that(2) lid(1) by simp
      have other: "bills k s' = bills k s" if "ls_id k \<noteq> leaseID" for k
        using that lid(1) by (auto simp: bills_def ledger hold_bill_def)
      have ids: "map ls_id (runner_leases s') = map ls_id (runner_leases s)"
        by (simp only: rows closed_ids)
      have "bills k s' = []" if "k \<in> set (runner_leases s')" "ls_released k = None" for k
      proof -
        from that have k: "k \<in> set (runner_leases s)" "\<not> open_lease t leaseID k"
          by (auto simp: rows set_sql_update open_not_closed split: if_splits)
        then have "ls_id k \<noteq> leaseID" using only l(2) by blast
        then show ?thesis using other ok k(1) that(2) by (simp add: bill_ok_def)
      qed
      moreover have "i \<in> set (map ls_id (runner_leases s))" if "g \<in> set (usage_ledger s')" "lg_dedupe g = lease_dedupe i" for g i
        using that ok l(1) lid(1) by (auto simp: ledger hold_bill_def bill_ok_def split: if_splits)
      ultimately have "bill_ok s'" using d unfolding bill_ok_def ids by blast
      moreover have "k \<in> set (runner_leases s') \<and> bills k s' = bills k s" if k: "k \<in> set (runner_leases s)" "ls_released k \<noteq> None" for k
      proof -
        have "ls_id k \<noteq> leaseID" using only [OF k(1)] k(2) lid(2) by auto
        moreover have "k \<in> set (runner_leases s')" using mid ok k by (simp add: bill_le_def)
        ultimately show ?thesis using other by blast
      qed
      ultimately show ?thesis by (simp add: bill_le_def)
    qed
  qed (simp add: bill_le_def)
qed

interpretation billing: fleet_statements bill_le sha for sha
proof unfold_locales
  show "bill_le s u" if "bill_le s s'" "bill_le s' u" for s s' u :: "'a placement_db_scheme"
    using that by (rule bill_le_trans)
  show "tx_in bill_le (applyRunTransitionTx t runID cmd)" for t runID cmd
    by (auto intro!: tx_inI bill_le_same dest!: transition_fleet simp: same_fleet_def)
  show "tx_in bill_le (touch_lease t leaseID now)" for t leaseID now
    by (rule tx_inI) (rule bill_le_update [of _ _ t leaseID "\<lambda>l. l\<lparr>ls_active := now\<rparr>"], auto simp: touch_lease_def)
  show "tx_in bill_le (release_lease t leaseID reason now)" for t leaseID reason now
    by (rule tx_inI) (auto simp: release_lease_def bill_le_same split: option.splits if_splits
        intro!: bill_le_update [of _ _ t leaseID "\<lambda>l. l\<lparr>ls_released := Some now, ls_reason := Some reason\<rparr>"])
  show "tx_in bill_le (settle_tx sha fl t leaseID reason now)" for fl t leaseID reason now
    by (rule settle_bills)
qed (auto intro!: tx_inI bill_le_same simp: placement_statement_defs split: if_splits list.splits)

lemma commit_acquire_cases:
  assumes "commit (acquire_tx bypass t leaseID sid rid now) db = (x, db')"
  shows "db' = db \<or> (\<exists>l. ls_id l \<notin> set (map ls_id (runner_leases db)) \<and> db' = db\<lparr>runner_leases := runner_leases db @ [l]\<rparr>)"
  using assms unfolding commit_acquire by (simp split: option.splits if_splits) blast+

lemma acquire_bills: "AcquireLease bypass ctx tenant sid rid now s = (r, s') \<Longrightarrow> bill_le s s'"
proof -
  assume op: "AcquireLease bypass ctx tenant sid rid now s = (r, s')"
  have mid: "bill_le s (s\<lparr>entropy := es\<rparr>)" for es by (simp add: bill_le_same)
  have add: "bill_le u (u\<lparr>runner_leases := runner_leases u @ [l]\<rparr>)"
    if "ls_id l \<notin> set (map ls_id (runner_leases u))" for u :: "'a placement_db_scheme" and l
  proof -
    let ?u = "u\<lparr>runner_leases := runner_leases u @ [l]\<rparr>"
    have same: "bills k ?u = bills k u" for k by (simp add: bills_def)
    have "bills l u = []" if "bill_ok u"
      using that \<open>ls_id l \<notin> _\<close> by (auto simp: bills_def bill_ok_def filter_empty_conv)
    then show ?thesis using that same by (auto simp: bill_le_def bill_ok_def)
  qed
  consider "s' = s" | es t leaseID x where "commit (acquire_tx bypass t leaseID sid rid now) (s\<lparr>entropy := es\<rparr>) = (x, s')"
    | es where "s' = s\<lparr>entropy := es\<rparr>"
  proof (cases "entropy s = [] \<or> sid = '''' \<or> rid = ''''")
    case True
    then have "s' = s" using op by (auto simp: AcquireLease_def newLeaseID_def split: if_splits)
    then show thesis by (rule that(1))
  next
    case False
    then obtain e es where "begin_tx ctx tenant ''begin acquire lease'' (\<lambda>t. acquire_tx bypass t (''lse_'' @ e) sid rid now) (s\<lparr>entropy := es\<rparr>) = (r, s')"
      using op by (auto simp: AcquireLease_def newLeaseID_def neq_Nil_conv)
    note began = this
    show thesis
    proof (cases "PrepareConn (ScopeToTenant ctx tenant)")
      case (Inl a)
      then have "s' = s\<lparr>entropy := es\<rparr>" using began by (simp add: begin_tx_def)
      then show thesis by (rule that(3))
    next
      case (Inr c)
      then show thesis using began by (intro that(2)) (simp add: begin_tx_def)
    qed
  qed
  then show ?thesis
  proof cases
    case (2 es t leaseID x)
    from commit_acquire_cases [OF 2] show ?thesis using bill_le_trans [OF mid add] mid by auto
  qed (simp_all add: bill_le_same)
qed

inductive serial_step :: "(string \<Rightarrow> string) \<Rightarrow> (rat \<Rightarrow> rat) \<Rightarrow> 'a placement_db_scheme \<Rightarrow> 'a placement_db_scheme \<Rightarrow> bool" for sha fl where
  acquire: "AcquireLease bypass ctx tenant sid rid now s = (r, s') \<Longrightarrow> serial_step sha fl s s'"
| other: "placement_step sha fl s s' \<Longrightarrow> serial_step sha fl s s'"

lemma serial_bills: "(serial_step sha fl)\<^sup>*\<^sup>* s s' \<Longrightarrow> bill_le s s'"
proof (induction rule: rtranclp_induct)
  case (step t u)
  from step(2) have "bill_le t u"
    by cases (auto intro: acquire_bills billing.placement_in [of sha fl] bill_le_same)
  with step(3) show ?case by (rule bill_le_trans)
qed (simp add: bill_le_same)

lemma new_job_eq: "newJobID s = Inr (j, s') \<longleftrightarrow> (\<exists>e es. entropy s = e # es \<and> j = ''job_'' @ e \<and> s' = s\<lparr>entropy := es\<rparr>)"
  by (auto simp: newJobID_def split: list.splits)

lemma wake_tx_cases:
  assumes "wakeRunAwaitingCapacityTx locked t poolID now s = Inr (w, s')"
  obtains (none) "OldestRunAwaitingCapacity locked t poolID s = None" "w = ''''" "s' = s"
  | (woken) r a s1 j es where "OldestRunAwaitingCapacity locked t poolID s = Some r" "w = rn_id r"
      "applyRunTransitionTx (t\<lparr>tx_tenant := rn_project r\<rparr>) (rn_id r) RunCmdResume s = Inr (a, s1)" "entropy s1 = j # es"
      "EnqueueWokenRunJob (t\<lparr>tx_tenant := rn_project r\<rparr>) (''job_'' @ j) (rn_id r) now (s1\<lparr>entropy := es\<rparr>) = Inr ((), s')"
proof (cases "OldestRunAwaitingCapacity locked t poolID s")
  case None
  then show thesis using none assms by (simp add: wakeRunAwaitingCapacityTx_def tx_bind_eq)
next
  case (Some r)
  then show thesis using assms woken [OF Some]
    by (auto simp: wakeRunAwaitingCapacityTx_def Let_def tx_iffs new_job_eq)
qed

lemma announce_frame:
  "runner_leases (announceFreedSlot locked ctx tenant machine now s) = runner_leases s"
  "usage_ledger (announceFreedSlot locked ctx tenant machine now s) = usage_ledger s"
proof -
  have "runner_leases s' = runner_leases s \<and> usage_ledger s' = usage_ledger s"
    if "wakeRunAwaitingCapacityTx locked t poolID now s = Inr (w, s')" for t poolID w s'
    using that by (cases rule: wake_tx_cases) (auto simp: EnqueueWokenRunJob_def same_fleet_def split: if_splits dest!: transition_fleet)
  then have "runner_leases s' = runner_leases s \<and> usage_ledger s' = usage_ledger s"
    if "WakeRunAwaitingCapacity locked ctx tenant poolID now s = (w, s')" for poolID w s'
    using that by (auto simp: WakeRunAwaitingCapacity_def split: if_splits dest!: begin_tx_cases)
  then have "runner_leases (snd (WakeRunAwaitingCapacity locked ctx tenant poolID now s)) = runner_leases s"
    "usage_ledger (snd (WakeRunAwaitingCapacity locked ctx tenant poolID now s)) = usage_ledger s" for poolID
    using prod.collapse by metis+
  then show "runner_leases (announceFreedSlot locked ctx tenant machine now s) = runner_leases s"
    "usage_ledger (announceFreedSlot locked ctx tenant machine now s) = usage_ledger s"
    by (simp_all add: announceFreedSlot_def split: sum.split option.split)
qed

text \<open>
  C8. A hold is billed once, for what it was.  A settlement that reports having closed a hold closed an open hold of the tenant;
  it writes one ledger row for it, with the minutes from its start to its release, or to the last activity when it was closed for
  idleness, and none when these are not positive.  Whatever happens afterwards, the closed hold and its bill stay as they are, and another
  settlement of it reports that it closed nothing and changes nothing.
\<close>

theorem hold_billed_once:
  assumes ok: "bill_ok s"
    and settle: "SettleOccupancy sha fl locked ctx tenant leaseID reason now s = (Inr True, s1)"
    and later: "(serial_step sha fl)\<^sup>*\<^sup>* s1 s2"
  shows "\<exists>l \<in> set (runner_leases s). ls_id l = leaseID \<and> ls_project l = tenant \<and> ls_released l = None \<and>
    closed_hold reason now l \<in> set (runner_leases s2) \<and>
    bills (closed_hold reason now l) s2 = (if hold_minutes fl (closed_hold reason now l) > 0 then [hold_bill sha fl now (closed_hold reason now l)] else []) \<and>
    billed_interval 0 (closed_hold reason now l) = (if reason = ReleaseReasonIdle then ls_active l else now) - ls_started l \<and>
    (\<forall>reason' now'. reason' \<noteq> '''' \<longrightarrow>
       SettleOccupancy sha fl locked ctx tenant leaseID reason' now' s2 = (Inr False, s2))"
proof -
  obtain runner u t where t: "tx_tenant t = tenant" "PrepareConn (ScopeToTenant ctx tenant) = Inr (tx_conn t)"
    and tx: "settle_tx sha fl t leaseID reason now s = Inr (Some runner, u)" "leaseID \<noteq> ''''"
    and s1: "s1 = announceFreedSlot locked (ScopeToTenant ctx tenant) tenant runner now u"
    using settle by (auto simp: SettleOccupancy_def split: if_splits prod.splits sum.splits option.splits dest!: begin_tx_cases)
  from settle_closes [OF tx(1) ok] obtain l where l: "l \<in> set (runner_leases s)" "open_lease t leaseID l"
    and rows: "runner_leases u = sql_update (open_lease t leaseID) (closed_hold reason now) (runner_leases s)"
    and ledger: "usage_ledger u = usage_ledger s @ (if hold_minutes fl (closed_hold reason now l) > 0
       then [hold_bill sha fl now (closed_hold reason now l)] else [])" by metis
  let ?l = "closed_hold reason now l"
  have own: "ls_id l = leaseID" "ls_project l = tenant" "ls_released l = None" "sees t tenant"
    using l(2) t(1) by (auto simp: open_lease_def the_lease_def sees_def)
  have ok1: "bill_ok s1" using ok billing.fs_occupancy_ops(3) [OF settle] by (simp add: bill_le_def)
  have mid: "?l \<in> set (runner_leases s1)" "bills ?l s1 = bills ?l u"
    using l by (auto simp: s1 announce_frame bills_def rows set_sql_update intro!: bexI [of _ l])
  have "bills l s = []" using ok l(1) own(3) by (simp add: bill_ok_def)
  then have bill: "bills ?l u = (if hold_minutes fl ?l > 0 then [hold_bill sha fl now ?l] else [])"
    by (auto simp: bills_def ledger hold_bill_def)
  have end': "bill_ok s2" "?l \<in> set (runner_leases s2)" "bills ?l s2 = bills ?l s1"
    using serial_bills [OF later] ok1 mid(1) by (auto simp: bill_le_def)
  have "sql_row (the_lease t leaseID) (runner_leases s2) = Some ?l"
  proof -
    have "distinct (map ls_id (runner_leases s2))" using end'(1) by (simp add: bill_ok_def)
    from sql_row_unique [OF this end'(2), of "the_lease t leaseID"] show ?thesis using own by (simp add: the_lease_def)
  qed
  moreover have "sql_row (open_lease t leaseID) (runner_leases s2) = None"
  proof -
    have "distinct (map ls_id (runner_leases s2))" using end'(1) by (simp add: bill_ok_def)
    from sql_row_unique [OF this end'(2), of "open_lease t leaseID"] show ?thesis using own by (simp add: open_lease_def the_lease_def)
  qed
  ultimately have "settle_tx sha fl t leaseID reason' now' s2 = Inr (None, s2)" for reason' now'
    by (simp add: settle_tx_def release_lease_def tx_bind_def tx_wrap_def tx_read_def tx_return_def)
  then have again: "SettleOccupancy sha fl locked ctx tenant leaseID reason' now' s2 = (Inr False, s2)" if "reason' \<noteq> ''''" for reason' now'
    using that tx(2) t by (cases t) (simp add: SettleOccupancy_def begin_tx_def commit_def)
  show ?thesis
    using l(1) own end' mid bill again
    by (intro bexI [of _ l]) (auto simp: billed_interval_def closed_hold_def ReleaseReasonIdle_def)
qed

section \<open>Row security on the counting functions\<close>

text \<open>
  C38. The boundary between tenants rests on who owns the database.  The migrations force row security on the owner of a table, for
  installations whose owner is an ordinary service account.  There the guard of an acquisition sees only the rows of the tenant that
  asks: a machine of the plane that declares no capacity is given to every tenant, whoever holds it.
\<close>

theorem forced_security_shares_machine:
  assumes "PrepareConn (ScopeToTenant ctx tenant) = Inr \<lparr>palai_project_id = tenant, palai_system = ''''\<rparr>"
    and "distinct (map ru_id (runners db))" and "m \<in> set (runners db)" and "ru_id m = runnerID" and "ru_project m = None" and "ru_capacity m = 0"
    and "entropy db = e # es" and "''lse_'' @ e \<notin> set (map ls_id (runner_leases db))" and "sessionID \<noteq> ''''" and "runnerID \<noteq> ''''"
    and "s \<in> set (sessions db)" and "se_id s = sessionID" and "se_project s = tenant"
    and "\<forall>l \<in> set (runner_leases db). ls_project l \<noteq> ''''"
  shows "\<exists>l. AcquireLease False ctx tenant sessionID runnerID now db =
      (Inr (''lse_'' @ e), db\<lparr>entropy := es, runner_leases := runner_leases db @ [l]\<rparr>) \<and>
    ls_project l = tenant \<and> ls_runner l = runnerID \<and> ls_released l = None"
proof -
  define t where "t = \<lparr>tx_conn = \<lparr>palai_project_id = tenant, palai_system = ''''\<rparr>, tx_tenant = tenant\<rparr>"
  define db1 where "db1 = db\<lparr>entropy := es\<rparr>"
  have own: "owns t" by (simp add: owns_def t_def)
  have blind: "\<not> palai_machine_held_by_another_tenant False t x db1" for x
    using assms(14) by (auto simp: palai_machine_held_by_another_tenant_def list_ex_iff t_def tenant_policy_def db1_def)
  let ?p = "\<lambda>r. ru_id r = runnerID \<and> serves t (ru_project r)"
  let ?q = "\<lambda>r. ru_id r = runnerID \<and> serves t (ru_project r) \<and>
      (ru_capacity r = 0 \<or> palai_machine_open_occupancies False t (ru_id r) db1 < ru_capacity r) \<and>
      \<not> palai_machine_held_by_another_tenant False t (ru_id r) db1"
  have "sql_row ?p (runners db1) = (if ?p m then Some m else None)" "sql_row ?q (runners db1) = (if ?q m then Some m else None)"
    by (rule sql_row_unique [of ru_id]; use assms(2-4) in \<open>auto simp: db1_def\<close>)+
  then have machine: "sql_row ?p (runners db1) = Some m" "sql_row ?q (runners db1) = Some m"
    using assms(4-6) blind by (simp_all add: owns_sees(1) [OF own])
  have "s \<in> set (sessions db1)" "se_id s = sessionID \<and> sees t (se_project s)"
    using assms(11-13) owns_sees(2) [OF own] by (simp_all add: db1_def t_def)
  then have "sql_row (\<lambda>s. se_id s = sessionID \<and> sees t (se_project s)) (sessions db1) \<noteq> None" by (auto simp: sql_row_None)
  then obtain k where k: "sql_row (\<lambda>s. se_id s = sessionID \<and> sees t (se_project s)) (sessions db1) = Some k" by blast
  have run: "AcquireLease False ctx tenant sessionID runnerID now db = commit (acquire_tx False t (''lse_'' @ e) sessionID runnerID now) db1"
    using assms(1,7,9,10) by (simp add: AcquireLease_def newLeaseID_def begin_tx_def t_def db1_def)
  have policy: "tenant_policy (tx_conn t) tenant" using owns_sees(3) [OF own] by (simp add: t_def)
  define l where "l = \<lparr>ls_id = ''lse_'' @ e, ls_project = tenant, ls_runner = ru_id m, ls_session = se_id k, ls_started = now, ls_active = now,
     ls_released = None, ls_reason = None\<rparr>"
  have cand: "lease_candidate False t (''lse_'' @ e) runnerID sessionID now db1 = Some l"
    unfolding lease_candidate_def machine(2) k by (simp add: l_def t_def)
  have l: "ls_project l = tenant" "ls_id l = ''lse_'' @ e" "ls_runner l = runnerID" "ls_released l = None" using assms(4) by (simp_all add: l_def)
  have "ls_id l \<notin> set (map ls_id (runner_leases db1))" using assms(8) by (simp only: l(2)) (simp add: db1_def)
  then have "AcquireLease False ctx tenant sessionID runnerID now db = (Inr (''lse_'' @ e), db1\<lparr>runner_leases := runner_leases db1 @ [l]\<rparr>)"
    unfolding run commit_acquire machine(1) option.case cand using policy l(1,2) by (simp only: if_False if_True not_True_eq_False simp_thms)
  then show ?thesis using l by (intro exI [of _ l]) (simp add: db1_def)
qed

section \<open>Instances\<close>

text \<open>
  The machine \<^verbatim>\<open>m\<close> of the plane has room for one session.  The session \<^verbatim>\<open>s\<close> of project \<^verbatim>\<open>p\<close> holds it from time 0 and was active one
  minute later; the run \<^verbatim>\<open>w\<close> of project \<^verbatim>\<open>q\<close>, session \<^verbatim>\<open>z\<close>, waits for a machine of the same pool.
\<close>

definition sample_hold :: runner_lease where
  "sample_hold = \<lparr>ls_id = ''lse_0'', ls_project = ''p'', ls_runner = ''m'', ls_session = ''s'', ls_started = 0, ls_active = 60000000,
     ls_released = None, ls_reason = None\<rparr>"

definition sample_machine :: runner_row where
  "sample_machine = \<lparr>ru_id = ''m'', ru_project = None, ru_pool = ''pool'', ru_capacity = 1\<rparr>"

definition sample_waiting :: run_row where
  "sample_waiting = (sample_run ''w'' ''y'' None)\<lparr>rn_project := ''q'', rn_session := ''z'', rn_state := RunWaiting\<rparr>"

definition sample_parked_attempt :: attempt_row where
  "sample_parked_attempt = \<lparr>at_id = ''aw'', at_project = ''q'', at_run = ''w'', at_fence = 1, at_state = ''awaiting_capacity''\<rparr>"

definition sample_fleet :: "runner_lease list \<Rightarrow> placement_db" where
  "sample_fleet leases = recovery_db.extend (sample_recovery\<lparr>
      sessions := [\<lparr>se_id = ''s'', se_project = ''p'', se_state = SessionActive, se_name = ''''\<rparr>,
        \<lparr>se_id = ''z'', se_project = ''q'', se_state = SessionActive, se_name = ''''\<rparr>],
      runs := [sample_run ''r'' ''q'' None, sample_waiting], attempts := [sample_parked_attempt]\<rparr>)
    (placement_db.fields [sample_machine] [\<lparr>po_id = ''pool'', po_project = None, po_name = ''default''\<rparr>] leases [(''w'', ''pool'')] [(''aw'', 5)])"

lemma sample_fleet_tables:
  "runners (sample_fleet ls) = [sample_machine]" "runner_leases (sample_fleet ls) = ls" "entropy (sample_fleet ls) = [''1'', ''2'', ''3'', ''4'', ''5'', ''6'', ''7'', ''8'']"
  "sessions (sample_fleet ls) = [\<lparr>se_id = ''s'', se_project = ''p'', se_state = SessionActive, se_name = ''''\<rparr>,
        \<lparr>se_id = ''z'', se_project = ''q'', se_state = SessionActive, se_name = ''''\<rparr>]"
  "runs (sample_fleet ls) = [sample_run ''r'' ''q'' None, sample_waiting]" "usage_ledger (sample_fleet ls) = []"
  by (simp_all add: sample_fleet_def recovery_db.extend_def placement_db.fields_def sample_recovery_def background_db.extend_def
      recovery_db.fields_def sample_execution_def)

lemma tenant_conn: "p \<noteq> '''' \<Longrightarrow> PrepareConn (ScopeToTenant (WithTenant None p) p) = Inr \<lparr>palai_project_id = p, palai_system = ''''\<rparr>"
  by (simp add: PrepareConn_def ScopeToTenant_def WithTenant_def scopeFrom_def)

theorem acquire_exact_witness:
  "AcquireLease True (WithTenant None ''q'') ''q'' ''z'' ''m'' 7 (sample_fleet [sample_hold]) =
     (Inl (Errorf [ErrMachineHeldByAnotherTenant] ''machine''), (sample_fleet [sample_hold])\<lparr>entropy := [''2'', ''3'', ''4'', ''5'', ''6'', ''7'', ''8'']\<rparr>)"
  by (subst acquire_exact [where c = "\<lparr>palai_project_id = ''q'', palai_system = ''''\<rparr>" and e = "''1''" and es = "[''2'', ''3'', ''4'', ''5'', ''6'', ''7'', ''8'']"])
    (simp_all add: tenant_conn sample_fleet_tables sample_machine_def sample_hold_def sql_row_def held_by_other_def open_on_def)

definition sample_settled :: "bool result \<times> placement_db" where
  "sample_settled = SettleOccupancy (\<lambda>x. ''digest'') id (\<lambda>_. False) (WithTenant None ''p'') ''p'' ''lse_0'' ''idle'' 120000000 (sample_fleet [sample_hold])"

lemma sample_settled_ok: "fst sample_settled = Inr True"
  by code_simp

lemma sample_minutes: "hold_minutes id (closed_hold ''idle'' 120000000 sample_hold) = 1"
  by code_simp

theorem hold_billed_once_witness:
  "bills (closed_hold ''idle'' 120000000 sample_hold) (snd sample_settled) =
     [hold_bill (\<lambda>x. ''digest'') id 120000000 (closed_hold ''idle'' 120000000 sample_hold)]
   \<and> lg_quantity (hold_bill (\<lambda>x. ''digest'') id 120000000 (closed_hold ''idle'' 120000000 sample_hold)) = 1"
proof -
  have ok: "bill_ok (sample_fleet [sample_hold])" by (simp add: bill_ok_def bills_def sample_fleet_tables)
  have run: "SettleOccupancy (\<lambda>x. ''digest'') id (\<lambda>_. False) (WithTenant None ''p'') ''p'' ''lse_0'' ''idle'' 120000000 (sample_fleet [sample_hold]) =
      (Inr True, snd sample_settled)"
    using sample_pair [OF sample_settled_ok] by (simp only: sample_settled_def)
  have "bills (closed_hold ''idle'' 120000000 sample_hold) (snd sample_settled) =
      (if hold_minutes id (closed_hold ''idle'' 120000000 sample_hold) > 0
       then [hold_bill (\<lambda>x. ''digest'') id 120000000 (closed_hold ''idle'' 120000000 sample_hold)] else [])"
  proof -
    from hold_billed_once [OF ok run rtranclp.rtrancl_refl, unfolded sample_fleet_tables] obtain l where l: "l \<in> set [sample_hold]"
      and b: "bills (closed_hold ''idle'' 120000000 l) (snd sample_settled) = (if hold_minutes id (closed_hold ''idle'' 120000000 l) > 0
        then [hold_bill (\<lambda>x. ''digest'') id 120000000 (closed_hold ''idle'' 120000000 l)] else [])" by (elim bexE conjE)
    from l have "l = sample_hold" by simp
    with b show ?thesis by (simp only:)
  qed
  then show ?thesis by (simp add: sample_minutes hold_bill_def)
qed

definition sample_acquisition :: acquisition where
  "sample_acquisition = \<lparr>aq_txn = \<lparr>tx_conn = \<lparr>palai_project_id = ''p'', palai_system = ''''\<rparr>, tx_tenant = ''p''\<rparr>, aq_lease = ''lse_1'',
     aq_session = ''s'', aq_runner = ''m''\<rparr>"

definition sample_taken :: "string result \<times> placement_db" where
  "sample_taken = commit (acquire_tx True (aq_txn sample_acquisition) ''lse_1'' ''s'' ''m'' 7) (sample_fleet [])"

lemma sample_taken_leases:
  "runner_leases (snd sample_taken) = [\<lparr>ls_id = ''lse_1'', ls_project = ''p'', ls_runner = ''m'', ls_session = ''s'', ls_started = 7, ls_active = 7,
     ls_released = None, ls_reason = None\<rparr>]" "runners (snd sample_taken) = [sample_machine]"
  by code_simp+


theorem forced_security_shares_machine_witness:
  "\<exists>l. AcquireLease False (WithTenant None ''q'') ''q'' ''z'' ''m'' 7 ((sample_fleet [sample_hold])\<lparr>runners := [sample_machine\<lparr>ru_capacity := 0\<rparr>]\<rparr>) =
     (Inr ''lse_1'', (sample_fleet [sample_hold])\<lparr>runners := [sample_machine\<lparr>ru_capacity := 0\<rparr>],
        entropy := [''2'', ''3'', ''4'', ''5'', ''6'', ''7'', ''8''], runner_leases := [sample_hold, l]\<rparr>) \<and>
     ls_project l = ''q'' \<and> ls_runner l = ls_runner sample_hold \<and> ls_released l = None \<and> ls_released sample_hold = None \<and> ls_project sample_hold = ''p''"
  using forced_security_shares_machine [of "WithTenant None ''q''" "''q''" "(sample_fleet [sample_hold])\<lparr>runners := [sample_machine\<lparr>ru_capacity := 0\<rparr>]\<rparr>"
      "sample_machine\<lparr>ru_capacity := 0\<rparr>" "''m''" "''1''" "[''2'', ''3'', ''4'', ''5'', ''6'', ''7'', ''8'']" "''z''"
      "\<lparr>se_id = ''z'', se_project = ''q'', se_state = SessionActive, se_name = ''''\<rparr>" 7]
  by (simp add: tenant_conn sample_fleet_tables sample_machine_def sample_hold_def)

end
