(* ===== verification/Parking_Safety.thy ===== *)
theory Parking_Safety
  imports Placement_Safety Cancellation_Safety
begin

text \<open>
  Correctness of the capacity park: a wake takes the oldest parked run of the pool and no other, and a park with its wake
  costs a run none of its attempts.  Two defects: a slot that a tenant frees on a shared machine wakes that tenant's runs
  only, and the sweep of overdue parks ends a run that was woken after its scan.
\<close>

section \<open>Parking and waking\<close>

lemma sort_two_keys_head:
  assumes "sort_key f (sort_key g xs) = r # rest" and "q \<in> set xs"
  shows "f r < f q \<or> (f r = f q \<and> g r \<le> g q)"
proof -
  have "sorted (map f (r # rest))" unfolding assms(1) [symmetric] by (rule sorted_sort_key)
  moreover have mem: "q \<in> set (r # rest)" unfolding assms(1) [symmetric] using assms(2) by simp
  ultimately have le: "f r \<le> f q" by auto
  show ?thesis
  proof (cases "f q = f r")
    case True
    have "filter (\<lambda>y. f y = f r) (sort_key g xs) = filter (\<lambda>y. f y = f r) (r # rest)"
      unfolding assms(1) [symmetric] by (rule sort_key_stable [symmetric])
    then have "sorted (map g (filter (\<lambda>y. f y = f r) (r # rest)))"
      using sorted_filter [of g "sort_key g xs" "\<lambda>y. f y = f r"] sorted_sort_key [of g xs] by metis
    then show ?thesis using True mem by auto
  qed (use le in simp)
qed

lemma transition_rows:
  fixes s s' :: "'a commands_db_scheme"
  assumes tr: "applyRunTransitionTx t (rn_id r) cmd s = Inr (a, s')" and d: "distinct (map rn_id (runs s))" and r: "r \<in> set (runs s)"
  obtains nx ev where "Apply (rn_state r) cmd RunTable = Inr (nx, ev)" "sees t (rn_project r)"
    "runs s' = map (\<lambda>x. if rn_id x = rn_id r then x\<lparr>rn_state := nx\<rparr> else x) (runs s)"
proof -
  from tr obtain q nx ev s1 where q: "q \<in> set (runs s)" "rn_id q = rn_id r" "sees t (rn_project q)"
    and step: "Apply (rn_state q) cmd RunTable = Inr (nx, ev)" and eff: "runTransitionEffects t q (rn_id r) nx ev s1 = Inr (a, s')"
    and s1: "s1 = s\<lparr>runs := sql_update (\<lambda>x. rn_id x = rn_id r \<and> sees t (rn_project x)) (\<lambda>x. x\<lparr>rn_state := nx\<rparr>) (runs s)\<rparr>"
    by (rule run_transition_row)
  have [simp]: "q = r" using key_unique [OF d q(1) r] q(2) by simp
  have only: "x = r" if "x \<in> set (runs s)" "rn_id x = rn_id r" for x using key_unique [OF d that(1) r] that(2) by simp
  have "runs s' = runs s1" using tx_inD [OF effects_same.st_effects eff] by (simp add: same_runs_def)
  also have "\<dots> = map (\<lambda>x. if rn_id x = rn_id r then x\<lparr>rn_state := nx\<rparr> else x) (runs s)"
    using only q(3) by (auto simp: s1 sql_update_def)
  finally show thesis using that step q(3) by simp
qed

lemma wake_result:
  assumes "PrepareConn (ScopeToTenant (if tenant = '''' then WithSystemScope ctx else ctx) tenant) = Inr c"
    and "distinct (map rn_id (runs db))"
    and "WakeRunAwaitingCapacity locked ctx tenant poolID now db = (Inr w, db')" and "w \<noteq> ''''"
  shows "\<exists>r \<in> set (runs db). rn_id r = w \<and> parked_in locked \<lparr>tx_conn = c, tx_tenant = tenant\<rparr> poolID db r \<and>
    (\<forall>q \<in> set (runs db). parked_in locked \<lparr>tx_conn = c, tx_tenant = tenant\<rparr> poolID db q \<longrightarrow>
       rn_created_at r < rn_created_at q \<or> (rn_created_at r = rn_created_at q \<and> rn_id r \<le> rn_id q)) \<and>
    runs db' = map (\<lambda>x. if rn_id x = w then x\<lparr>rn_state := RunRunning\<rparr> else x) (runs db) \<and>
    (\<exists>j. durable_jobs db' = durable_jobs db @ [j] \<and> job_project j = rn_project r \<and> job_status j = JobQueued \<and>
       job_payload j = JObj [(''run_id'', JStr w)] \<and>
       attempt_count j = spent_attempts \<lparr>tx_conn = c, tx_tenant = rn_project r\<rparr> w (durable_jobs db))"
proof -
  let ?t = "\<lparr>tx_conn = c, tx_tenant = tenant\<rparr>"
  have "wakeRunAwaitingCapacityTx locked ?t poolID now db = Inr (w, db')"
    using assms(1,3,4) by (auto simp: WakeRunAwaitingCapacity_def begin_tx_def commit_eq_Inr split: if_splits)
  then show ?thesis
  proof (cases rule: wake_tx_cases)
    case none
    then show ?thesis using assms(4) by simp
  next
    case (woken r a s1 j es)
    from woken(1) obtain rest where head: "sort_key rn_created_at (sort_key rn_id (filter (parked_in locked ?t poolID db) (runs db))) = r # rest"
      by (auto simp: OldestRunAwaitingCapacity_def split: list.splits)
    then have "r \<in> set (sort_key rn_created_at (sort_key rn_id (filter (parked_in locked ?t poolID db) (runs db))))" by simp
    then have r: "r \<in> set (runs db)" "parked_in locked ?t poolID db r" by auto
    then have wait: "rn_state r = RunWaiting" by (simp add: parked_in_def)
    obtain nx ev where nx: "Apply (rn_state r) RunCmdResume RunTable = Inr (nx, ev)"
      and rows: "runs s1 = map (\<lambda>x. if rn_id x = rn_id r then x\<lparr>rn_state := nx\<rparr> else x) (runs db)"
      using transition_rows [OF woken(3) assms(2) r(1)] by blast
    have "nx = RunRunning" using nx wait by (simp add: RunTable_def)
    moreover have "durable_jobs s1 = durable_jobs db" using transition_fleet [OF woken(3)] by (simp add: same_fleet_def)
    ultimately show ?thesis
      using r woken(2,5) rows sort_two_keys_head [OF head]
      by (intro bexI [of _ r]) (auto simp: EnqueueWokenRunJob_def split: if_splits)
  qed
qed

text \<open>
  C23. A wake takes the oldest run that was parked for want of a machine on that pool, and no other.  The run that it names was
  waiting with the marker of a capacity park on one of its attempts, no run parked on the pool is older, it is the only run that changes,
  and one job is opened for it, under its own project, with the attempts that it has spent.
\<close>

theorem capacity_wake_exact:
  assumes "PrepareConn (ScopeToTenant (if tenant = '''' then WithSystemScope ctx else ctx) tenant) = Inr c"
    and "distinct (map rn_id (runs db))"
    and "WakeRunAwaitingCapacity locked ctx tenant poolID now db = (Inr w, db')" and "w \<noteq> ''''"
  shows "\<exists>r \<in> set (runs db). rn_id r = w \<and> parked_in locked \<lparr>tx_conn = c, tx_tenant = tenant\<rparr> poolID db r \<and>
    (\<forall>q \<in> set (runs db). parked_in locked \<lparr>tx_conn = c, tx_tenant = tenant\<rparr> poolID db q \<longrightarrow>
       rn_created_at r < rn_created_at q \<or> (rn_created_at r = rn_created_at q \<and> rn_id r \<le> rn_id q)) \<and>
    runs db' = map (\<lambda>x. if rn_id x = w then x\<lparr>rn_state := RunRunning\<rparr> else x) (runs db) \<and>
    (\<exists>j. durable_jobs db' = durable_jobs db @ [j] \<and> job_project j = rn_project r \<and> job_status j = JobQueued \<and>
       job_payload j = JObj [(''run_id'', JStr w)] \<and>
       attempt_count j = spent_attempts \<lparr>tx_conn = c, tx_tenant = rn_project r\<rparr> w (durable_jobs db))"
  by (rule wake_result [OF assms])

text \<open>An update that keeps what the query reads keeps the newest job.\<close>

lemma sort_key_map: "(\<And>x. f (h x) = f x) \<Longrightarrow> sort_key f (map h xs) = map h (sort_key f xs)"
proof -
  assume keep: "\<And>x. f (h x) = f x"
  have "insort_key f (h x) (map h ys) = map h (insort_key f x ys)" for x ys by (induction ys) (simp_all add: keep)
  then show ?thesis by (induction xs) simp_all
qed

lemma newest_update:
  assumes "\<And>j. job_id (h j) = job_id j \<and> job_project (h j) = job_project j \<and> job_kind (h j) = job_kind j \<and>
    job_payload (h j) = job_payload j \<and> job_created_at (h j) = job_created_at j"
  shows "newest_run_job t runID (map h rows) = map_option h (newest_run_job t runID rows)"
proof -
  have "filter (\<lambda>j. sees t (job_project j) \<and> job_kind j = ''response.run'' \<and> json_text (job_payload j) ''run_id'' = Some runID) (map h rows) =
      map h (filter (\<lambda>j. sees t (job_project j) \<and> job_kind j = ''response.run'' \<and> json_text (job_payload j) ''run_id'' = Some runID) rows)"
    using assms by (simp add: filter_map comp_def)
  then show ?thesis
    using assms by (simp add: newest_run_job_def sort_key_map rev_map split: list.split)
qed

lemma head_in_filter:
  assumes "sort_key f (sort_key g (filter p xs)) = r # rest" shows "r \<in> set xs" "p r"
proof -
  have "r \<in> set (sort_key f (sort_key g (filter p xs)))" unfolding assms by simp
  then show "r \<in> set xs" "p r" by simp_all
qed

lemma rev_head: "rev xs = k # rest \<Longrightarrow> k \<in> set xs"
proof -
  assume "rev xs = k # rest"
  then have "k \<in> set (rev xs)" by simp
  then show ?thesis by simp
qed

lemma newest_row:
  assumes "newest_run_job t runID rows = Some k" shows "k \<in> set rows" "sees t (job_project k)" "job_kind k = ''response.run''"
proof -
  let ?xs = "sort_key job_created_at (sort_key job_id (filter (\<lambda>j. sees t (job_project j) \<and> job_kind j = ''response.run'' \<and>
          json_text (job_payload j) ''run_id'' = Some runID) rows))"
  from assms obtain rest where "rev ?xs = k # rest" by (auto simp: newest_run_job_def split: list.splits)
  then have "k \<in> set ?xs" by (rule rev_head)
  then show "k \<in> set rows" "sees t (job_project k)" "job_kind k = ''response.run''" by simp_all
qed

text \<open>The two connections under which a run's jobs are read select the same rows.\<close>

lemma newest_conn:
  "tenant_policy c p \<Longrightarrow> tenant_policy c' p \<Longrightarrow>
   newest_run_job \<lparr>tx_conn = c, tx_tenant = p\<rparr> runID rows = newest_run_job \<lparr>tx_conn = c', tx_tenant = p\<rparr> runID rows"
proof -
  assume "tenant_policy c p" "tenant_policy c' p"
  then have "sees \<lparr>tx_conn = c, tx_tenant = p\<rparr> = sees \<lparr>tx_conn = c', tx_tenant = p\<rparr>" by (auto simp: sees_def fun_eq_iff)
  then show ?thesis by (simp add: newest_run_job_def)
qed

lemma park_result:
  assumes "ParkRunForCapacity ctx tenant runID attemptID jobID now db = (Inr (), db1)"
    and "PrepareConn (ScopeToTenant ctx tenant) = Inr c" and "jobID \<noteq> ''''" and "distinct (map rn_id (runs db))"
  shows "durable_jobs db1 = map (\<lambda>j. if job_id j = jobID \<and> sees \<lparr>tx_conn = c, tx_tenant = tenant\<rparr> (job_project j) \<and> job_kind j = ''response.run''
      then j\<lparr>attempt_count := max (attempt_count j - 1) 0, job_updated_at := now\<rparr> else j) (durable_jobs db)"
    "map rn_id (runs db1) = map rn_id (runs db)"
    "\<exists>r \<in> set (runs db1). rn_id r = runID \<and> rn_project r = tenant \<and> tenant_policy c tenant"
proof -
  let ?t = "\<lparr>tx_conn = c, tx_tenant = tenant\<rparr>"
  from assms(1-3) obtain a s1 where tr: "applyRunTransitionTx ?t runID RunCmdWait db = Inr (a, s1)"
    and jobs: "durable_jobs db1 = map (\<lambda>j. if job_id j = jobID \<and> sees ?t (job_project j) \<and> job_kind j = ''response.run''
      then j\<lparr>attempt_count := max (attempt_count j - 1) 0, job_updated_at := now\<rparr> else j) (durable_jobs s1)" and runs: "runs db1 = runs s1"
    by (auto simp: ParkRunForCapacity_def begin_tx_def commit_eq_Inr tx_iffs MarkAttemptAwaitingCapacity_def RefundCapacityParkAttempt_def
        Let_def sql_update_def)
  from tr obtain r where r: "r \<in> set (runs db)" "rn_id r = runID" by (rule run_transition_row)
  obtain nx ev where "Apply (rn_state r) RunCmdWait RunTable = Inr (nx, ev)" and sees: "sees ?t (rn_project r)"
    and rows: "runs s1 = map (\<lambda>x. if rn_id x = rn_id r then x\<lparr>rn_state := nx\<rparr> else x) (runs db)"
    by (rule transition_rows [OF tr [folded r(2)] assms(4) r(1)])
  have same: "durable_jobs s1 = durable_jobs db" using transition_fleet [OF tr] by (simp add: same_fleet_def)
  show "durable_jobs db1 = map (\<lambda>j. if job_id j = jobID \<and> sees ?t (job_project j) \<and> job_kind j = ''response.run''
      then j\<lparr>attempt_count := max (attempt_count j - 1) 0, job_updated_at := now\<rparr> else j) (durable_jobs db)" unfolding jobs same ..
  show "map rn_id (runs db1) = map rn_id (runs db)" by (simp add: runs rows)
  show "\<exists>r \<in> set (runs db1). rn_id r = runID \<and> rn_project r = tenant \<and> tenant_policy c tenant"
    unfolding runs rows using r sees by (auto simp: sees_def intro!: bexI [of _ "r\<lparr>rn_state := nx\<rparr>"] image_eqI [of _ _ r])
qed

text \<open>
  C24. Waiting for a machine is free.  A run whose claimed job has spent some attempts parks, the park gives back the attempt that the
  claim had taken, and the job that a later wake opens starts with what the run had spent before that claim, whoever announced the machine.
\<close>

theorem capacity_park_free:
  assumes "distinct (map rn_id (runs db))" and "PrepareConn (ScopeToTenant ctx tenant) = Inr c"
    and "newest_run_job \<lparr>tx_conn = c, tx_tenant = tenant\<rparr> runID (durable_jobs db) = Some k" and "job_id k = jobID" and "attempt_count k \<ge> 1"
    and "jobID \<noteq> ''''" and "runID \<noteq> ''''"
    and "ParkRunForCapacity ctx tenant runID attemptID jobID now db = (Inr (), db1)"
    and "WakeRunAwaitingCapacity locked ctx' waker poolID now' db1 = (Inr runID, db2)"
  shows "\<exists>j. durable_jobs db2 = durable_jobs db1 @ [j] \<and> job_payload j = JObj [(''run_id'', JStr runID)] \<and> job_project j = tenant \<and>
    attempt_count j = attempt_count k - 1"
proof -
  let ?h = "\<lambda>j. if job_id j = jobID \<and> sees \<lparr>tx_conn = c, tx_tenant = tenant\<rparr> (job_project j) \<and> job_kind j = ''response.run''
      then j\<lparr>attempt_count := max (attempt_count j - 1) 0, job_updated_at := now\<rparr> else j"
  note parked = park_result [OF assms(8,2,6,1)]
  note jobs = parked(1) and ids = parked(2) and own = parked(3)
  from own obtain r1 where r1: "r1 \<in> set (runs db1)" "rn_id r1 = runID" "rn_project r1 = tenant" "tenant_policy c tenant" by blast
  have d: "distinct (map rn_id (runs db1))" using assms(1) ids by simp
  obtain c' where conn: "PrepareConn (ScopeToTenant (if waker = '''' then WithSystemScope ctx' else ctx') waker) = Inr c'"
    using assms(7,9) by (cases "PrepareConn (ScopeToTenant (if waker = '''' then WithSystemScope ctx' else ctx') waker)")
      (auto simp: WakeRunAwaitingCapacity_def begin_tx_def split: if_splits)
  from wake_result [OF conn d assms(9,7)] obtain r j where r: "r \<in> set (runs db1)" "rn_id r = runID"
    "parked_in locked \<lparr>tx_conn = c', tx_tenant = waker\<rparr> poolID db1 r"
    and j: "durable_jobs db2 = durable_jobs db1 @ [j]" "job_project j = rn_project r" "job_payload j = JObj [(''run_id'', JStr runID)]"
      "attempt_count j = spent_attempts \<lparr>tx_conn = c', tx_tenant = rn_project r\<rparr> runID (durable_jobs db1)" by blast
  have [simp]: "r = r1" using key_unique [OF d r(1) r1(1)] r(2) r1(2) by simp
  have "tenant_policy c' tenant" using r(3) r1(3) by (simp add: parked_in_def)
  then have "newest_run_job \<lparr>tx_conn = c', tx_tenant = tenant\<rparr> runID (durable_jobs db1) = map_option ?h (Some k)"
    unfolding jobs using newest_update [of ?h] newest_conn [OF r1(4)] assms(3) by simp
  moreover have "attempt_count (?h k) = attempt_count k - 1"
    using newest_row [OF assms(3)] assms(4,5) by simp
  ultimately show ?thesis using j r1(3) by (simp add: spent_attempts_def)
qed

section \<open>Defects\<close>

lemma wake_spares:
  assumes "WakeRunAwaitingCapacity locked ctx tenant poolID now s = (w, s')" and "tenant \<noteq> ''''"
  shows "filter (\<lambda>r. rn_project r \<noteq> tenant) (runs s') = filter (\<lambda>r. rn_project r \<noteq> tenant) (runs s)"
proof -
  have "filter (\<lambda>r. rn_project r \<noteq> tenant) (runs s') = filter (\<lambda>r. rn_project r \<noteq> tenant) (runs s)"
    if tx: "wakeRunAwaitingCapacityTx locked t poolID now s = Inr (u, s')" and t: "tx_tenant t = tenant" for t u
    using tx
  proof (cases rule: wake_tx_cases)
    case (woken r a s1 j es)
    from woken(1) obtain rest where "sort_key rn_created_at (sort_key rn_id (filter (parked_in locked t poolID s) (runs s))) = r # rest"
      by (auto simp: OldestRunAwaitingCapacity_def split: list.splits)
    then have "parked_in locked t poolID s r" by (rule head_in_filter)
    then have own: "rn_project r = tenant" using t assms(2) by (simp add: parked_in_def)
    obtain q nx ev s0 where eff: "runTransitionEffects (t\<lparr>tx_tenant := rn_project r\<rparr>) q (rn_id r) nx ev s0 = Inr (a, s1)"
      and s0: "s0 = s\<lparr>runs := sql_update (\<lambda>x. rn_id x = rn_id r \<and> sees (t\<lparr>tx_tenant := rn_project r\<rparr>) (rn_project x)) (\<lambda>x. x\<lparr>rn_state := nx\<rparr>) (runs s)\<rparr>"
      using woken(3) by (rule run_transition_row)
    have "runs s1 = runs s0" using tx_inD [OF effects_same.st_effects eff] by (simp add: same_runs_def)
    moreover have "runs s' = runs s1" using woken(5) by (auto simp: EnqueueWokenRunJob_def split: if_splits)
    moreover have "filter (\<lambda>x. rn_project x \<noteq> tenant) (sql_update (\<lambda>x. rn_id x = i \<and> sees (t\<lparr>tx_tenant := tenant\<rparr>) (rn_project x)) (\<lambda>x. x\<lparr>rn_state := nx\<rparr>) xs) =
        filter (\<lambda>x. rn_project x \<noteq> tenant) xs" for i xs
      by (induction xs) (auto simp: sql_update_def sees_def)
    ultimately show ?thesis using own s0 by simp
  qed simp
  then show ?thesis using assms(1) by (auto simp: WakeRunAwaitingCapacity_def split: if_splits dest!: begin_tx_cases)
qed

text \<open>
  C39. A freed slot of a shared machine wakes only the runs of the tenant that freed it.  A machine serves one tenant at a time, so a run of
  another tenant parks while it is held; but the settlement that frees the machine announces the slot under the holder's tenant, and
  leaves every parked run of any other project as it was.
\<close>

theorem freed_slot_wakes_own_tenant:
  assumes "SettleOccupancy sha fl locked ctx tenant leaseID reason now s = (x, s')" and "tenant \<noteq> ''''"
  shows "filter (\<lambda>r. rn_project r \<noteq> tenant) (runs s') = filter (\<lambda>r. rn_project r \<noteq> tenant) (runs s)"
proof -
  have settle: "runs u = runs s" if "settle_tx sha fl t leaseID reason now s = Inr (out, u)" for t out u
    using that by (cases rule: settle_tx_cases) (auto dest!: settle_entries)
  have announce: "filter (\<lambda>r. rn_project r \<noteq> tenant) (runs (announceFreedSlot locked c tenant runner now u)) =
      filter (\<lambda>r. rn_project r \<noteq> tenant) (runs u)" for c runner and u :: "'a placement_db_scheme"
    by (auto simp: announceFreedSlot_def split: sum.split option.split intro!: wake_spares [OF prod.collapse [symmetric] assms(2)])
  consider "runs s' = runs s" | c runner u where "s' = announceFreedSlot locked c tenant runner now u" "runs u = runs s"
    using assms(1) by (auto simp: SettleOccupancy_def split: if_splits prod.splits sum.splits option.splits dest!: begin_tx_cases settle)
  then show ?thesis by cases (simp_all add: announce)
qed

text \<open>A timeout of a running run cannot fail for the reasons that the sweep takes for a run that is no longer waiting.\<close>

lemma timeout_of_running:
  fixes s :: "'a commands_db_scheme"
  assumes d: "distinct (map rn_id (runs s))" and x: "x \<in> set (runs s)" "rn_state x = RunRunning"
    and err: "applyRunTransitionTx t (rn_id x) RunCmdTimeout s = Inl e"
  shows "harmless e"
proof (cases "sql_row (\<lambda>r. rn_id r = rn_id x \<and> sees t (rn_project r)) (runs s)")
  case None
  then show ?thesis
    using err by (auto simp: applyRunTransitionTx_def tx_bind_def LockRun_def tx_read_def tx_fail_def harmless_def ErrRunTerminal_def ErrInvalidState_def)
next
  case (Some q)
  then have "q = x" using key_unique [OF d _ x(1), of q] sql_row_Some [OF Some] by blast
  then have "Apply (rn_state q) RunCmdTimeout RunTable = Inr (RunTimedOut, ''run.timed_out.v1'')" using x(2) by (simp add: RunTable_def)
  then obtain s1 :: "'a commands_db_scheme" where "runTransitionEffects t q (rn_id x) RunTimedOut ''run.timed_out.v1'' s1 = Inl e"
    using err Some by (auto simp: applyRunTransitionTx_def tx_bind_def tx_then_def LockRun_def tx_read_def UpdateRunState_def tx_write_def)
  then show ?thesis by (rule tx_errsD [OF effects_harmless])
qed

lemma time_out_running:
  fixes db db' :: "'a commands_db_scheme"
  assumes out: "timeOutOneCapacityPark ctx tenant (rn_id x) resp projection db = (Inr moved, db')"
    and d: "distinct (map rn_id (runs db))" and x: "x \<in> set (runs db)" "rn_state x = RunRunning"
  shows "moved \<and> (\<exists>y \<in> set (runs db'). rn_id y = rn_id x \<and> rn_state y = RunTimedOut)"
proof -
  obtain c where c: "PrepareConn (ScopeToTenant ctx tenant) = Inr c"
    using out by (cases "PrepareConn (ScopeToTenant ctx tenant)") (simp_all add: timeOutOneCapacityPark_def)
  let ?t = "\<lparr>tx_conn = c, tx_tenant = tenant\<rparr>"
  show ?thesis
  proof (cases "applyRunTransitionTx ?t (rn_id x) RunCmdTimeout db")
    case (Inl e)
    then show ?thesis using out c timeout_of_running [OF d x Inl] by (simp add: timeOutOneCapacityPark_def harmless_def)
  next
    case (Inr p)
    obtain a s1 where tr: "applyRunTransitionTx ?t (rn_id x) RunCmdTimeout db = Inr (a, s1)" using Inr by (cases p) simp
    obtain nx ev where nx: "Apply (rn_state x) RunCmdTimeout RunTable = Inr (nx, ev)" and "sees ?t (rn_project x)"
      and rows: "runs s1 = map (\<lambda>r. if rn_id r = rn_id x then r\<lparr>rn_state := nx\<rparr> else r) (runs db)"
      by (rule transition_rows [OF tr d x(1)])
    have "nx = RunTimedOut" using nx x(2) by (simp add: RunTable_def)
    then have "x\<lparr>rn_state := RunTimedOut\<rparr> \<in> set (runs s1)" using x(1) by (auto simp: rows intro!: image_eqI [of _ _ x])
    moreover have "moved \<and> runs db' = runs s1"
      using out c tr by (auto simp: timeOutOneCapacityPark_def commit_def tx_then_def tx_bind_def tx_wrap_def UpdateResponse_def tx_write_def tx_return_def)
    ultimately show ?thesis by (auto intro!: bexI [of _ "x\<lparr>rn_state := RunTimedOut\<rparr>"])
  qed
qed

text \<open>
  C40. The sweep of overdue parks ends a run that found its machine.  A run that was selected as overdue and woken before the sweep
  reaches it is running; the sweep takes the refusal of the transition as the sign that the run is no longer parked, but the timeout of a
  running run is a transition, and the run ends as timed out.
\<close>

theorem sweep_ends_woken_run:
  fixes db db1 db2 :: "'a placement_db_scheme"
  assumes "distinct (map rn_id (runs db))" and "rn_id r \<noteq> ''''"
    and "(r, a) \<in> set (ExpiredCapacityParks c cutoff capacityParkBatch db)"
    and "WakeRunAwaitingCapacity locked ctx waker poolID now db = (Inr (rn_id r), db1)"
    and "timeOutOneCapacityPark ctx' (rn_project r) (rn_id r) (or_empty (rn_response r)) projection db1 = (Inr moved, db2)"
  shows "moved \<and> (\<exists>x \<in> set (runs db1). rn_id x = rn_id r \<and> rn_state x = RunRunning) \<and>
    (\<exists>x \<in> set (runs db2). rn_id x = rn_id r \<and> rn_state x = RunTimedOut)"
proof -
  obtain c' where conn: "PrepareConn (ScopeToTenant (if waker = '''' then WithSystemScope ctx else ctx) waker) = Inr c'"
    using assms(2,4) by (cases "PrepareConn (ScopeToTenant (if waker = '''' then WithSystemScope ctx else ctx) waker)")
      (auto simp: WakeRunAwaitingCapacity_def begin_tx_def split: if_splits)
  from wake_result [OF conn assms(1,4,2)] obtain q where q: "q \<in> set (runs db)" "rn_id q = rn_id r"
    and rows: "runs db1 = map (\<lambda>x. if rn_id x = rn_id r then x\<lparr>rn_state := RunRunning\<rparr> else x) (runs db)" by blast
  have "map rn_id (runs db1) = map rn_id (runs db)" by (simp add: rows)
  then have d: "distinct (map rn_id (runs db1))" using assms(1) by simp
  have x: "q\<lparr>rn_state := RunRunning\<rparr> \<in> set (runs db1)" using q by (auto simp: rows intro!: image_eqI [of _ _ q])
  have "moved \<and> (\<exists>y \<in> set (runs db2). rn_id y = rn_id (q\<lparr>rn_state := RunRunning\<rparr>) \<and> rn_state y = RunTimedOut)"
    by (rule time_out_running [OF _ d x]) (use assms(5) q(2) in simp_all)
  then show ?thesis using x q(2) by (auto intro!: bexI [of _ "q\<lparr>rn_state := RunRunning\<rparr>"])
qed

section \<open>Instances\<close>

definition sample_plane_wake :: "placement_db \<Rightarrow> string result \<times> placement_db" where
  "sample_plane_wake = WakeRunAwaitingCapacity (\<lambda>_. False) None '''' ''pool'' 20"

lemma sample_plane_wake_ok: "fst (sample_plane_wake (sample_fleet [])) = Inr ''w''"
  by code_simp

lemma sample_ids: "distinct (map rn_id (runs (sample_fleet ls)))"
  by (simp add: sample_fleet_tables sample_run_def sample_waiting_def)

lemma plane_conn: "PrepareConn (ScopeToTenant (WithSystemScope None) '''') = Inr \<lparr>palai_project_id = '''', palai_system = ''on''\<rparr>"
  by (simp add: PrepareConn_def ScopeToTenant_def WithSystemScope_def scopeFrom_def)

theorem capacity_wake_exact_witness:
  "runs (snd (sample_plane_wake (sample_fleet []))) = [sample_run ''r'' ''q'' None, sample_waiting\<lparr>rn_state := RunRunning\<rparr>]"
proof -
  have conn: "PrepareConn (ScopeToTenant (if [] = '''' then WithSystemScope None else None) []) = Inr \<lparr>palai_project_id = '''', palai_system = ''on''\<rparr>"
    using plane_conn by simp
  have "\<exists>r \<in> set (runs (sample_fleet [])). runs (snd (sample_plane_wake (sample_fleet []))) =
      map (\<lambda>x. if rn_id x = ''w'' then x\<lparr>rn_state := RunRunning\<rparr> else x) (runs (sample_fleet []))"
    using capacity_wake_exact [OF conn sample_ids sample_pair [OF sample_plane_wake_ok, unfolded sample_plane_wake_def]]
    unfolding sample_plane_wake_def by blast
  then show ?thesis by (simp add: sample_fleet_tables sample_run_def sample_waiting_def)
qed

text \<open>The run \<^verbatim>\<open>w\<close> is running with a claimed job that has spent two attempts.\<close>

definition sample_job :: job where
  "sample_job = \<lparr>job_id = ''jw'', job_project = ''q'', job_kind = ''response.run'', job_status = JobRunning, lease_owner = Some ''o'',
     lease_expires_at = Some 9, job_fence = 2, attempt_count = 2, ready_at = 0, job_payload = JObj [(''run_id'', JStr ''w'')], result_hash = None,
     job_created_at = 0, job_updated_at = 0\<rparr>"

definition sample_claimed :: placement_db where
  "sample_claimed = (sample_fleet [])\<lparr>durable_jobs := [sample_job], runs := [sample_waiting\<lparr>rn_state := RunRunning\<rparr>],
     attempts := [sample_parked_attempt\<lparr>at_state := ''active''\<rparr>]\<rparr>"

definition sample_park :: "unit result \<times> placement_db" where
  "sample_park = ParkRunForCapacity (WithTenant None ''q'') ''q'' ''w'' ''aw'' ''jw'' 10 sample_claimed"

lemma sample_park_ok: "fst sample_park = Inr ()" "fst (sample_plane_wake (snd sample_park)) = Inr ''w''"
  by code_simp+

lemma sample_newest: "newest_run_job \<lparr>tx_conn = \<lparr>palai_project_id = ''q'', palai_system = ''''\<rparr>, tx_tenant = ''q''\<rparr> ''w'' (durable_jobs sample_claimed) = Some sample_job"
  by code_simp

theorem capacity_park_free_witness:
  "\<exists>j. durable_jobs (snd (sample_plane_wake (snd sample_park))) = durable_jobs (snd sample_park) @ [j] \<and>
     job_payload j = JObj [(''run_id'', JStr ''w'')] \<and> attempt_count j = 1"
proof -
  have d: "distinct (map rn_id (runs sample_claimed))" by (simp add: sample_claimed_def)
  have conn: "PrepareConn (ScopeToTenant (WithTenant None ''q'') ''q'') = Inr \<lparr>palai_project_id = ''q'', palai_system = ''''\<rparr>"
    by (rule tenant_conn) simp
  have k: "job_id sample_job = ''jw''" "attempt_count sample_job \<ge> 1" "''jw'' \<noteq> ''''" "''w'' \<noteq> ''''" by (simp_all add: sample_job_def)
  show ?thesis
    using capacity_park_free [OF d conn sample_newest k sample_pair [OF sample_park_ok(1), unfolded sample_park_def]
      sample_pair [OF sample_park_ok(2), unfolded sample_plane_wake_def sample_park_def]]
    unfolding sample_plane_wake_def sample_park_def by (auto simp: sample_job_def)
qed

text \<open>After the settlement of project \<^verbatim>\<open>p\<close> the machine is free, and the run of project \<^verbatim>\<open>q\<close> still waits.\<close>

lemma sample_free_again:
  "fst (AcquireLease True (WithTenant None ''q'') ''q'' ''z'' ''m'' 120000001 (snd sample_settled)) = Inr ''lse_1''"
  by code_simp

theorem freed_slot_wakes_own_tenant_witness:
  "filter (\<lambda>r. rn_project r \<noteq> ''p'') (runs (snd sample_settled)) = [sample_waiting] \<and> rn_state sample_waiting = RunWaiting \<and>
   fst (AcquireLease True (WithTenant None ''q'') ''q'' ''z'' ''m'' 120000001 (snd sample_settled)) = Inr ''lse_1''"
  using freed_slot_wakes_own_tenant [OF sample_pair [OF sample_settled_ok, unfolded sample_settled_def]] sample_free_again
  by (simp add: sample_settled_def sample_fleet_tables sample_run_def sample_waiting_def)

definition sample_swept :: "bool result \<times> placement_db" where
  "sample_swept = timeOutOneCapacityPark None ''q'' ''w'' ''y'' JNull (snd (sample_plane_wake (sample_fleet [])))"

lemma sample_swept_ok: "fst sample_swept = Inr True"
  "(sample_waiting, sample_parked_attempt) \<in> set (ExpiredCapacityParks \<lparr>palai_project_id = '''', palai_system = ''on''\<rparr> 15 capacityParkBatch (sample_fleet []))"
  by code_simp+

theorem sweep_ends_woken_run_witness:
  "(\<exists>x \<in> set (runs (snd (sample_plane_wake (sample_fleet [])))). rn_id x = ''w'' \<and> rn_state x = RunRunning) \<and>
   (\<exists>x \<in> set (runs (snd sample_swept)). rn_id x = ''w'' \<and> rn_state x = RunTimedOut)"
proof -
  have w: "rn_id sample_waiting = ''w''" "rn_project sample_waiting = ''q''" "or_empty (rn_response sample_waiting) = ''y''"
    by (simp_all add: sample_waiting_def sample_run_def or_empty_def)
  show ?thesis
    using sweep_ends_woken_run [OF sample_ids _ sample_swept_ok(2), unfolded w, OF _ sample_pair [OF sample_plane_wake_ok, unfolded sample_plane_wake_def]
        sample_pair [OF sample_swept_ok(1), unfolded sample_swept_def sample_plane_wake_def]]
    unfolding sample_swept_def sample_plane_wake_def by simp
qed

end
