(* ===== verification/Model_Broker.thy ===== *)
theory Model_Broker
  imports Palai_Base
begin

text \<open>
  The model broker (\<^verbatim>\<open>src/packages/model-broker\<close>): requests and results, the resolution of credentials, the
  reservation of a call and the running budget, the routing of one request to an adapter, the fallback
  chain over several targets and its circuit breaker.

  Adapters are code outside the package: an adapter is a function of the request, the credential and the
  state \<open>'w\<close> of the outside world, in which the deltas it reports are effects.  The clock is a function of
  that state too; the chain reads it before every question to the breaker and before every recorded failure,
  and a reading that the source leaves out, for a circuit that is not open, is one that nobody uses.  Times and durations are nanoseconds; \<^verbatim>\<open>Time.Sub\<close> saturates at the ends of a 64-bit
  duration, which no comparison with a duration can tell from the difference itself.  The breadcrumbs that a
  broker writes to its diagnostics are not part of the model.

  The breaker is proved equivalent to a reading of its history, the chain to report every attempt that it
  caused, and the budget to stay within its reservation.
\<close>

section \<open>Requests and results\<close>

record PrivacyFlags =
  pf_NoRetain :: bool
  pf_NoTrain :: bool

record Image =
  im_MediaType :: string
  im_Data :: string

record ToolCall =
  tk_ID :: string
  tk_Name :: string
  tk_Arguments :: string

record Message =
  ms_Role :: string
  ms_Content :: string
  ms_Images :: "Image list"
  ms_ToolCalls :: "ToolCall list"
  ms_ToolCallID :: string

record ToolSchema =
  ts_Name :: string
  ts_Type :: string
  ts_Description :: string
  ts_Parameters :: json
  ts_Strict :: bool

record OutputSchema =
  os_Name :: string
  os_Schema :: json
  os_Strict :: bool

text \<open>Token counts are 64-bit integers.\<close>

record Usage =
  us_CacheReadTokens :: int
  us_CacheWriteTokens :: int
  us_Cost :: "(string \<times> json) list"
  us_InputTokens :: int
  us_OutputTokens :: int
  us_ToolCalls :: int
  us_TotalTokens :: int

record Reservation =
  rv_MaxTotalTokens :: int

record Request =
  rq_ModelRequestID :: string
  rq_IdempotencyKey :: string
  rq_BaseURL :: string
  rq_RouteRevision :: int
  rq_ModelStepID :: string
  rq_Model :: string
  rq_Messages :: "Message list"
  rq_Tools :: "ToolSchema list"
  rq_ForceToolCall :: bool
  rq_Thinking :: string
  rq_OutputSchema :: "OutputSchema option"
  rq_Deadline :: int
  rq_Privacy :: PrivacyFlags
  rq_Reservation :: Reservation
  rq_Secret :: string

record ToolCallDelta =
  td_Index :: int
  td_ID :: string
  td_Name :: string
  td_ArgumentsFragment :: string

record Delta =
  dl_Text :: string
  dl_Thinking :: string
  dl_ToolCall :: "ToolCallDelta option"

record SanitizedError =
  er_Code :: string
  er_Message :: string
  er_Status :: int

record Result =
  re_ModelRequestID :: string
  re_ProviderRequestID :: string
  re_Model :: string
  re_Output :: string
  re_Thinking :: string
  re_ToolCalls :: "ToolCall list"
  re_Deltas :: "Delta list"
  re_Usage :: Usage
  re_FinishReason :: string
  re_Attempts :: int
  re_Error :: "SanitizedError option"

definition zero_Usage :: Usage where
  "zero_Usage = \<lparr>us_CacheReadTokens = 0, us_CacheWriteTokens = 0, us_Cost = [], us_InputTokens = 0, us_OutputTokens = 0,
     us_ToolCalls = 0, us_TotalTokens = 0\<rparr>"

definition zero_Result :: Result where
  "zero_Result = \<lparr>re_ModelRequestID = '''', re_ProviderRequestID = '''', re_Model = '''', re_Output = '''', re_Thinking = '''',
     re_ToolCalls = [], re_Deltas = [], re_Usage = zero_Usage, re_FinishReason = '''', re_Attempts = 0, re_Error = None\<rparr>"

definition Result_Validate :: "Result \<Rightarrow> error option" where
  "Result_Validate r =
     (let u = re_Usage r
      in if re_ModelRequestID r = '''' then Some (Errorf [] ''result: model_request_id is required for correlation'')
         else if us_InputTokens u < 0 \<or> us_OutputTokens u < 0 \<or> us_TotalTokens u < 0 \<or>
           us_CacheReadTokens u < 0 \<or> us_CacheWriteTokens u < 0
         then Some (Errorf [] ''result: usage token counts must be non-negative'')
         else if us_TotalTokens u > 0 \<and> us_TotalTokens u < wrap64 (us_InputTokens u + us_OutputTokens u)
         then Some (Errorf [] ''result: total_tokens is below input+output'')
         else if list_ex (\<lambda>d. dl_Text d = '''' \<and> dl_Thinking d = '''' \<and> dl_ToolCall d = None) (re_Deltas r)
         then Some (Errorf [] ''result: delta carries neither text, reasoning, nor a tool-call fragment'')
         else case re_Error r of
                Some e \<Rightarrow> if er_Code e = '''' then Some (Errorf [] ''result: sanitized error has no code'') else None
              | None \<Rightarrow>
                  if re_ProviderRequestID r = '''' then Some (Errorf [] ''result: a successful result must carry the provider request id'')
                  else if re_Output r = '''' \<and> re_ToolCalls r = []
                  then Some (Errorf [] ''result: a successful result must carry output or tool requests'')
                  else None)"

section \<open>Reservations and budgets\<close>

definition ErrBudgetExceeded :: error where
  "ErrBudgetExceeded = Sentinel ''modelbroker'' ''budget_exceeded''"

definition Admit :: "Reservation \<Rightarrow> Usage \<Rightarrow> error option" where
  "Admit r u = (if rv_MaxTotalTokens r > 0 \<and> us_TotalTokens u > rv_MaxTotalTokens r
     then Some (Errorf [ErrBudgetExceeded] ''tokens over the reserved'') else None)"

record Budget =
  bu_reservation :: Reservation
  bu_consumed :: Usage

definition NewBudget :: "Reservation \<Rightarrow> Budget" where
  "NewBudget r = \<lparr>bu_reservation = r, bu_consumed = zero_Usage\<rparr>"

definition Settle :: "Budget \<Rightarrow> Usage \<Rightarrow> error option \<times> Budget" where
  "Settle b u =
     (let c = bu_consumed b;
          nx = zero_Usage\<lparr>us_InputTokens := wrap64 (us_InputTokens c + us_InputTokens u),
            us_OutputTokens := wrap64 (us_OutputTokens c + us_OutputTokens u),
            us_TotalTokens := wrap64 (us_TotalTokens c + us_TotalTokens u),
            us_ToolCalls := wrap64 (us_ToolCalls c + us_ToolCalls u),
            us_CacheReadTokens := wrap64 (us_CacheReadTokens c + us_CacheReadTokens u),
            us_CacheWriteTokens := wrap64 (us_CacheWriteTokens c + us_CacheWriteTokens u)\<rparr>
      in case Admit (bu_reservation b) nx of
           Some e \<Rightarrow> (Some e, b)
         | None \<Rightarrow> (None, b\<lparr>bu_consumed := nx\<rparr>))"

section \<open>Credentials\<close>

definition ErrUnknownProvider :: error where
  "ErrUnknownProvider = Sentinel ''modelbroker'' ''unknown_provider''"

definition ErrUnknownSecret :: error where
  "ErrUnknownSecret = Sentinel ''modelbroker'' ''unknown_secret''"

type_synonym SecretResolver = "string \<Rightarrow> string result"

definition StaticResolver :: "(string \<rightharpoonup> string) \<Rightarrow> SecretResolver" where
  "StaticResolver r ref = (case r ref of None \<Rightarrow> Inl (Errorf [ErrUnknownSecret] ref) | Some v \<Rightarrow> Inr v)"

definition EnvResolver :: "(string \<Rightarrow> string) \<Rightarrow> (string \<rightharpoonup> string) \<Rightarrow> SecretResolver" where
  "EnvResolver getenv r ref = (case r ref of
     None \<Rightarrow> Inl (Errorf [ErrUnknownSecret] ref)
   | Some name \<Rightarrow> if getenv name = '''' then Inl (Errorf [ErrUnknownSecret] ''environment variable is unset'') else Inr (getenv name))"

fun redeem_chain :: "SecretResolver option list \<Rightarrow> string \<Rightarrow> error \<Rightarrow> string result" where
  "redeem_chain [] ref lastErr = Inl lastErr"
| "redeem_chain (None # rest) ref lastErr = redeem_chain rest ref lastErr"
| "redeem_chain (Some r # rest) ref lastErr =
     (case r ref of
        Inr v \<Rightarrow> Inr v
      | Inl err \<Rightarrow> if \<not> errors_Is err ErrUnknownSecret then Inl err else redeem_chain rest ref err)"

definition ChainResolver :: "SecretResolver option list \<Rightarrow> SecretResolver" where
  "ChainResolver c ref = redeem_chain c ref (Errorf [ErrUnknownSecret] ref)"

section \<open>Routing one request\<close>

type_synonym 'w ModelAdapter = "Request \<Rightarrow> string \<Rightarrow> 'w \<Rightarrow> (Result \<times> error option) \<times> 'w"

record 'w Broker =
  br_adapters :: "string \<rightharpoonup> 'w ModelAdapter"
  br_secrets :: SecretResolver

definition New :: "(string \<rightharpoonup> 'w ModelAdapter) \<Rightarrow> SecretResolver option \<Rightarrow> 'w Broker" where
  "New adapters secrets = \<lparr>br_adapters = adapters,
     br_secrets = (case secrets of None \<Rightarrow> StaticResolver Map.empty | Some r \<Rightarrow> r)\<rparr>"

definition Broker_Route :: "'w Broker \<Rightarrow> string \<Rightarrow> Request \<Rightarrow> 'w \<Rightarrow> (Result \<times> error option) \<times> 'w" where
  "Broker_Route b provider req w = (case br_adapters b provider of
     None \<Rightarrow> ((zero_Result, Some (Errorf [ErrUnknownProvider] provider)), w)
   | Some adapter \<Rightarrow>
       (case br_secrets b (rq_Secret req) of
          Inl err \<Rightarrow> ((zero_Result, Some (Errorf [err] ''redeem credential'')), w)
        | Inr secret \<Rightarrow>
            (case adapter req secret w of
               ((res, Some err), w') \<Rightarrow> ((zero_Result, Some err), w')
             | ((res, None), w') \<Rightarrow>
                 (let res' = res\<lparr>re_ModelRequestID := rq_ModelRequestID req,
                    re_Attempts := (if re_Attempts res = 0 then 1 else re_Attempts res)\<rparr>
                  in ((res', Admit (rq_Reservation req) (re_Usage res')), w')))))"

section \<open>The circuit breaker\<close>

record breakerState =
  bs_failures :: int
  bs_openedAt :: int
  bs_open :: bool
  bs_halfOpen :: bool

definition zero_breakerState :: breakerState where
  "zero_breakerState = \<lparr>bs_failures = 0, bs_openedAt = 0, bs_open = False, bs_halfOpen = False\<rparr>"

record breaker =
  bk_states :: "string \<rightharpoonup> breakerState"
  bk_threshold :: int
  bk_cooldown :: int

definition newBreaker :: "int \<Rightarrow> int \<Rightarrow> breaker" where
  "newBreaker threshold cooldown = \<lparr>bk_states = Map.empty,
     bk_threshold = (if threshold \<le> 0 then 5 else threshold),
     bk_cooldown = (if cooldown \<le> 0 then 30000000000 else cooldown)\<rparr>"

text \<open>The clock is read only for an open circuit and for a failure that opens one; \<open>now\<close> is that reading.\<close>

definition Allow :: "breaker \<Rightarrow> string \<Rightarrow> int \<Rightarrow> bool \<times> breaker" where
  "Allow b key now = (case bk_states b key of
     None \<Rightarrow> (True, b)
   | Some s \<Rightarrow>
       if \<not> bs_open s then (True, b)
       else if now - bs_openedAt s \<ge> bk_cooldown b
       then (True, b\<lparr>bk_states := (bk_states b)(key \<mapsto> s\<lparr>bs_halfOpen := True\<rparr>)\<rparr>)
       else (False, b))"

definition RecordSuccess :: "breaker \<Rightarrow> string \<Rightarrow> breaker" where
  "RecordSuccess b key = b\<lparr>bk_states := (bk_states b)(key \<mapsto> zero_breakerState)\<rparr>"

definition RecordFailure :: "breaker \<Rightarrow> string \<Rightarrow> int \<Rightarrow> breaker" where
  "RecordFailure b key now =
     (let s = (case bk_states b key of None \<Rightarrow> zero_breakerState | Some s \<Rightarrow> s);
          s' = (if bs_halfOpen s then s\<lparr>bs_open := True, bs_halfOpen := False, bs_openedAt := now\<rparr>
                else let f = wrap64 (bs_failures s + 1)
                     in if f \<ge> bk_threshold b then s\<lparr>bs_failures := f, bs_open := True, bs_openedAt := now\<rparr>
                        else s\<lparr>bs_failures := f\<rparr>)
      in b\<lparr>bk_states := (bk_states b)(key \<mapsto> s')\<rparr>)"

section \<open>The fallback chain\<close>

definition ErrCircuitOpen :: error where
  "ErrCircuitOpen = Sentinel ''modelbroker'' ''circuit_open''"

definition ErrAllTargetsFailed :: error where
  "ErrAllTargetsFailed = Sentinel ''modelbroker'' ''all_targets_failed''"

definition context_Canceled :: error where
  "context_Canceled = Sentinel ''context'' ''context canceled''"

definition context_DeadlineExceeded :: error where
  "context_DeadlineExceeded = Sentinel ''context'' ''context deadline exceeded''"

record Target =
  tg_Provider :: string
  tg_Secret :: string
  tg_Model :: string

datatype outcome = outcomeSuccess | outcomeStop | outcomeCallerInvalid | outcomeMisconfigured | outcomeUpstream

definition callerInvalidStatus :: "int \<Rightarrow> bool" where
  "callerInvalidStatus status \<longleftrightarrow> status = 400 \<or> status = 422"

definition err_is :: "error option \<Rightarrow> error \<Rightarrow> bool" where
  "err_is err target = (case err of None \<Rightarrow> False | Some e \<Rightarrow> errors_Is e target)"

definition classifyOutcome :: "error option \<Rightarrow> Result \<Rightarrow> outcome" where
  "classifyOutcome err res =
     (if err = None \<and> re_Error res = None then outcomeSuccess
      else if err_is err context_Canceled \<or> err_is err context_DeadlineExceeded \<or> err_is err ErrBudgetExceeded then outcomeStop
      else if err_is err ErrUnknownProvider \<or> err_is err ErrUnknownSecret then outcomeMisconfigured
      else if err \<noteq> None then outcomeUpstream
      else case re_Error res of
             Some e \<Rightarrow> if callerInvalidStatus (er_Status e) then outcomeCallerInvalid else outcomeUpstream
           | None \<Rightarrow> outcomeUpstream)"

definition attemptsOf :: "Result \<Rightarrow> int" where
  "attemptsOf res = (if re_Attempts res = 0 then 1 else re_Attempts res)"

definition upstreamErr :: "error option \<Rightarrow> Result \<Rightarrow> error" where
  "upstreamErr err res = (case err of Some e \<Rightarrow> e
     | None \<Rightarrow> (case re_Error res of Some e \<Rightarrow> Errorf [ErrAllTargetsFailed] ''provider'' | None \<Rightarrow> ErrAllTargetsFailed))"

definition target_key :: "Target \<Rightarrow> string" where
  "target_key tgt = tg_Provider tgt @ ''|'' @ tg_Secret tgt"

definition target_call :: "Target \<Rightarrow> Request \<Rightarrow> Request" where
  "target_call tgt req = (let call = req\<lparr>rq_Secret := tg_Secret tgt\<rparr>
     in if tg_Model tgt \<noteq> '''' then call\<lparr>rq_Model := tg_Model tgt\<rparr> else call)"

text \<open>\<open>clock\<close> reads the time, which may move the world.\<close>

fun route_targets :: "'w Broker \<Rightarrow> ('w \<Rightarrow> int \<times> 'w) \<Rightarrow> Request \<Rightarrow> Target list \<Rightarrow> int \<Rightarrow> Result \<Rightarrow> error \<Rightarrow> breaker \<Rightarrow> 'w
    \<Rightarrow> (Result \<times> error option) \<times> breaker \<times> 'w" where
  "route_targets b clock req [] totalAttempts lastResult lastErr br w = ((lastResult, Some lastErr), br, w)"
| "route_targets b clock req (tgt # rest) totalAttempts lastResult lastErr br w =
     (case clock w of (now, w1) \<Rightarrow>
      case Allow br (target_key tgt) now of (allowed, br1) \<Rightarrow>
        if \<not> allowed then route_targets b clock req rest totalAttempts lastResult (Errorf [ErrCircuitOpen] (tg_Provider tgt)) br1 w1
        else case Broker_Route b (tg_Provider tgt) (target_call tgt req) w1 of ((res, err), w2) \<Rightarrow>
          let attempts = (if classifyOutcome err res \<noteq> outcomeMisconfigured then wrap64 (totalAttempts + attemptsOf res) else totalAttempts)
          in case classifyOutcome err res of
               outcomeSuccess \<Rightarrow> ((res\<lparr>re_Attempts := attempts\<rparr>, None), RecordSuccess br1 (target_key tgt), w2)
             | outcomeStop \<Rightarrow> ((res\<lparr>re_Attempts := attempts\<rparr>, err), br1, w2)
             | outcomeCallerInvalid \<Rightarrow> ((res\<lparr>re_Attempts := attempts\<rparr>, err), br1, w2)
             | outcomeMisconfigured \<Rightarrow> route_targets b clock req rest attempts res (case err of Some e \<Rightarrow> e | None \<Rightarrow> lastErr) br1 w2
             | outcomeUpstream \<Rightarrow>
                 (case clock w2 of (now', w3) \<Rightarrow>
                    route_targets b clock req rest attempts res (upstreamErr err res) (RecordFailure br1 (target_key tgt) now') w3))"

definition Chain_Route :: "'w Broker \<Rightarrow> ('w \<Rightarrow> int \<times> 'w) \<Rightarrow> Target list \<Rightarrow> Request \<Rightarrow> breaker \<Rightarrow> 'w
    \<Rightarrow> (Result \<times> error option) \<times> breaker \<times> 'w" where
  "Chain_Route b clock targets req br w =
     (if targets = [] then ((zero_Result, Some (Errorf [] ''route chain: no targets'')), br, w)
      else route_targets b clock req targets 0 zero_Result ErrAllTargetsFailed br w)"

section \<open>The breaker and its history\<close>

datatype breaker_op = OpAllow string int | OpSuccess string | OpFailure string int

fun do_op :: "breaker \<Rightarrow> breaker_op \<Rightarrow> breaker" where
  "do_op b (OpAllow key now) = snd (Allow b key now)"
| "do_op b (OpSuccess key) = RecordSuccess b key"
| "do_op b (OpFailure key now) = RecordFailure b key now"

text \<open>Histories have the newest operation first.\<close>

fun breaker_after :: "breaker \<Rightarrow> breaker_op list \<Rightarrow> breaker" where
  "breaker_after b [] = b"
| "breaker_after b (op # ops) = do_op (breaker_after b ops) op"

text \<open>The times of a key's failures since its last success, newest first.\<close>

fun recent_failures :: "string \<Rightarrow> breaker_op list \<Rightarrow> int list" where
  "recent_failures key [] = []"
| "recent_failures key (OpFailure k now # ops) = (if k = key then now # recent_failures key ops else recent_failures key ops)"
| "recent_failures key (OpSuccess k # ops) = (if k = key then [] else recent_failures key ops)"
| "recent_failures key (OpAllow k now # ops) = recent_failures key ops"

definition tripped :: "int \<Rightarrow> int list \<Rightarrow> bool" where
  "tripped threshold fs \<longleftrightarrow> threshold \<le> int (length fs)"

definition key_state :: "breaker \<Rightarrow> string \<Rightarrow> breakerState" where
  "key_state b key = (case bk_states b key of None \<Rightarrow> zero_breakerState | Some s \<Rightarrow> s)"

definition state_shows :: "int \<Rightarrow> int list \<Rightarrow> breakerState \<Rightarrow> bool" where
  "state_shows threshold fs s \<longleftrightarrow> (bs_open s \<longleftrightarrow> tripped threshold fs) \<and> (bs_open s \<longrightarrow> bs_openedAt s = hd fs \<and> threshold \<le> bs_failures s) \<and>
     bs_failures s \<le> int (length fs) \<and> (\<not> bs_open s \<longrightarrow> bs_failures s = int (length fs) \<and> \<not> bs_halfOpen s)"

lemma breaker_settings:
  "bk_threshold (breaker_after b ops) = bk_threshold b \<and> bk_cooldown (breaker_after b ops) = bk_cooldown b"
proof (induction ops)
  case (Cons op ops)
  then show ?case
    by (cases op) (auto simp: Allow_def RecordSuccess_def RecordFailure_def Let_def split: option.splits)
qed simp

lemma allow_iff: "fst (Allow b key now) \<longleftrightarrow> \<not> (bs_open (key_state b key) \<and> now - bs_openedAt (key_state b key) < bk_cooldown b)"
  by (auto simp: Allow_def key_state_def zero_breakerState_def split: option.splits)

lemma key_state_allow:
  "key_state (snd (Allow b k now)) key =
     (if k = key \<and> bs_open (key_state b key) \<and> now - bs_openedAt (key_state b key) \<ge> bk_cooldown b
      then (key_state b key)\<lparr>bs_halfOpen := True\<rparr> else key_state b key)"
  by (auto simp: Allow_def key_state_def zero_breakerState_def split: option.splits)

lemma key_state_success: "key_state (RecordSuccess b k) key = (if k = key then zero_breakerState else key_state b key)"
  by (simp add: RecordSuccess_def key_state_def)

lemma key_state_failure:
  "key_state (RecordFailure b k now) key =
     (if k \<noteq> key then key_state b key
      else let s = key_state b key; f = wrap64 (bs_failures s + 1)
           in if bs_halfOpen s then s\<lparr>bs_open := True, bs_halfOpen := False, bs_openedAt := now\<rparr>
              else if f \<ge> bk_threshold b then s\<lparr>bs_failures := f, bs_open := True, bs_openedAt := now\<rparr>
              else s\<lparr>bs_failures := f\<rparr>)"
  by (simp add: RecordFailure_def key_state_def Let_def)

lemma recent_shorter: "length (recent_failures key ops) \<le> length ops"
  by (induction key ops rule: recent_failures.induct) auto

lemma state_shown:
  assumes "length ops < 2 ^ 63"
  shows "state_shows (bk_threshold (newBreaker th cd)) (recent_failures key ops) (key_state (breaker_after (newBreaker th cd) ops) key)"
  using assms
proof (induction ops)
  case Nil
  show ?case by (auto simp: state_shows_def tripped_def key_state_def newBreaker_def zero_breakerState_def)
next
  case (Cons op ops)
  let ?b = "breaker_after (newBreaker th cd) ops" and ?fs = "recent_failures key ops" and ?th = "bk_threshold (newBreaker th cd)"
  let ?s = "key_state ?b key"
  from Cons have IH: "state_shows ?th ?fs ?s" by simp
  have th: "0 < ?th" "bk_threshold ?b = ?th" by (simp_all add: newBreaker_def breaker_settings)
  show ?case
  proof (cases op)
    case (OpFailure k now)
    have small: "wrap64 (bs_failures ?s + 1) = bs_failures ?s + 1" if "\<not> bs_halfOpen ?s"
      using IH th(1) Cons.prems recent_shorter [of key ops] by (intro wrap64_small) (auto simp: state_shows_def)
    show ?thesis
      using IH th small by (auto simp: OpFailure key_state_failure state_shows_def tripped_def Let_def)
  next
    case (OpSuccess k)
    with IH th show ?thesis by (auto simp: key_state_success state_shows_def tripped_def zero_breakerState_def)
  next
    case (OpAllow k now)
    with IH show ?thesis by (auto simp: key_state_allow state_shows_def)
  qed
qed

text \<open>
  C14. The breaker is exactly a reading of its history.  Whatever calls and outcomes of whatever targets came
  before, a target is refused if and only if its failures since its last success have reached the
  threshold and less than the cooldown has passed since the newest of them.
\<close>

theorem breaker_exact:
  assumes "length ops < 2 ^ 63"
  shows "fst (Allow (breaker_after (newBreaker th cd) ops) key now) \<longleftrightarrow>
    \<not> (int (length (recent_failures key ops)) \<ge> (if th \<le> 0 then 5 else th) \<and>
        now - hd (recent_failures key ops) < (if cd \<le> 0 then 30000000000 else cd))"
  using state_shown [OF assms, of th cd key]
  by (auto simp: allow_iff breaker_settings state_shows_def tripped_def newBreaker_def)

section \<open>The budget\<close>

text \<open>The usages that a sequence of settlements accepts, and the budget after it.\<close>

fun settle_all :: "Budget \<Rightarrow> Usage list \<Rightarrow> Usage list \<times> Budget" where
  "settle_all b [] = ([], b)"
| "settle_all b (u # us) = (case Settle b u of
     (Some e, b') \<Rightarrow> settle_all b' us
   | (None, b') \<Rightarrow> (case settle_all b' us of (acc, b'') \<Rightarrow> (u # acc, b'')))"

lemma settle_all_total:
  assumes "\<forall>u \<in> set us. 0 \<le> us_TotalTokens u \<and> us_TotalTokens u < 2 ^ 63 - rv_MaxTotalTokens (bu_reservation b)"
    and "0 < rv_MaxTotalTokens (bu_reservation b)" and "0 \<le> us_TotalTokens (bu_consumed b)"
    and "us_TotalTokens (bu_consumed b) \<le> rv_MaxTotalTokens (bu_reservation b)" and "settle_all b us = (acc, b')"
  shows "us_TotalTokens (bu_consumed b') = us_TotalTokens (bu_consumed b) + sum_list (map us_TotalTokens acc) \<and>
    us_TotalTokens (bu_consumed b') \<le> rv_MaxTotalTokens (bu_reservation b)"
  using assms
proof (induction us arbitrary: b acc)
  case (Cons u us)
  let ?n = "us_TotalTokens (bu_consumed b) + us_TotalTokens u"
  have w: "wrap64 ?n = ?n" using Cons.prems(1-4) by (intro wrap64_small) auto
  show ?case
  proof (cases "?n > rv_MaxTotalTokens (bu_reservation b)")
    case True
    with Cons w show ?thesis by (auto simp: Settle_def Admit_def Let_def)
  next
    case False
    obtain b1 where st: "Settle b u = (None, b1)" and b1: "us_TotalTokens (bu_consumed b1) = ?n" "bu_reservation b1 = bu_reservation b"
      using False w Cons.prems(2) by (simp add: Settle_def Admit_def Let_def)
    obtain acc1 where rest: "settle_all b1 us = (acc1, b')" "acc = u # acc1"
      using Cons.prems(5) st by (auto split: prod.splits)
    have "us_TotalTokens (bu_consumed b') = us_TotalTokens (bu_consumed b1) + sum_list (map us_TotalTokens acc1) \<and>
        us_TotalTokens (bu_consumed b') \<le> rv_MaxTotalTokens (bu_reservation b1)"
      by (rule Cons.IH) (use Cons.prems(1-4) rest False b1 in auto)
    with rest b1 show ?thesis by simp
  qed
qed simp

text \<open>
  A budget is never overspent.  After any sequence of settlements the running total is the sum of the
  accepted usages and at most the reservation, as long as no single usage is so large that the 64-bit sum
  could wrap around.
\<close>

theorem budget_never_overspent:
  assumes "0 < rv_MaxTotalTokens r"
    and "\<forall>u \<in> set us. 0 \<le> us_TotalTokens u \<and> us_TotalTokens u < 2 ^ 63 - rv_MaxTotalTokens r"
    and "settle_all (NewBudget r) us = (accepted, b)"
  shows "us_TotalTokens (bu_consumed b) = sum_list (map us_TotalTokens accepted) \<and>
    us_TotalTokens (bu_consumed b) \<le> rv_MaxTotalTokens r"
  using settle_all_total [OF _ _ _ _ assms(3)] assms(1,2) by (simp add: NewBudget_def zero_Usage_def)

section \<open>The attempts of a chain\<close>

text \<open>
  \<open>calls\<close> counts the provider attempts that the world has seen.  The clock makes none, an adapter makes as many
  as it reports and at least one; the two errors of an unknown provider and an unknown secret are the broker's
  own, and every failure to redeem a credential is of the second kind.
\<close>

definition stopping :: "error option \<Rightarrow> bool" where
  "stopping err \<longleftrightarrow> err_is err context_Canceled \<or> err_is err context_DeadlineExceeded \<or> err_is err ErrBudgetExceeded"

definition metered_adapters :: "('w \<Rightarrow> int) \<Rightarrow> 'w Broker \<Rightarrow> bool" where
  "metered_adapters calls b \<longleftrightarrow> (\<forall>p adapter req secret w res err w'. br_adapters b p = Some adapter \<longrightarrow>
     adapter req secret w = ((res, err), w') \<longrightarrow>
       calls w' = calls w + (if err = None then attemptsOf res else 1) \<and>
       \<not> err_is err ErrUnknownProvider \<and> \<not> err_is err ErrUnknownSecret)"

definition plain_redemption :: "'w Broker \<Rightarrow> bool" where
  "plain_redemption b \<longleftrightarrow> (\<forall>ref e. br_secrets b ref = Inl e \<longrightarrow> errors_Is e ErrUnknownSecret \<and> \<not> stopping (Some e))"

definition idle_clock :: "('w \<Rightarrow> int) \<Rightarrow> ('w \<Rightarrow> int \<times> 'w) \<Rightarrow> bool" where
  "idle_clock calls clock \<longleftrightarrow> (\<forall>w. calls (snd (clock w)) = calls w)"

lemmas broker_errors = ErrBudgetExceeded_def ErrUnknownProvider_def ErrUnknownSecret_def ErrCircuitOpen_def ErrAllTargetsFailed_def
  context_Canceled_def context_DeadlineExceeded_def

lemma wrap64_add: "wrap64 (wrap64 i + j) = wrap64 (i + j)"
  by (simp add: wrap64_def) (metis (no_types, opaque_lifting) add.assoc add.commute diff_add_cancel mod_add_left_eq)

lemma route_call:
  assumes "metered_adapters calls b" and "plain_redemption b" and "Broker_Route b p req w = ((res, err), w')"
  shows "calls w' = calls w + (if classifyOutcome err res = outcomeMisconfigured then 0 else attemptsOf res)"
proof (cases "br_adapters b p")
  case None
  with assms(3) show ?thesis
    by (auto simp: Broker_Route_def classifyOutcome_def err_is_def broker_errors)
next
  case (Some adapter)
  show ?thesis
  proof (cases "br_secrets b (rq_Secret req)")
    case (Inl e)
    with assms(2,3) Some show ?thesis
      by (auto simp: Broker_Route_def plain_redemption_def classifyOutcome_def stopping_def err_is_def broker_errors)
  next
    case (Inr secret)
    obtain res0 err0 w0 where ad: "adapter req secret w = ((res0, err0), w0)" by (metis surj_pair)
    with assms(1) Some have calls: "calls w0 = calls w + (if err0 = None then attemptsOf res0 else 1)"
      "\<not> err_is err0 ErrUnknownProvider" "\<not> err_is err0 ErrUnknownSecret" by (auto simp: metered_adapters_def)
    show ?thesis
    proof (cases err0)
      case None
      with assms(3) Some Inr ad calls show ?thesis
        by (auto simp: Broker_Route_def Let_def attemptsOf_def classifyOutcome_def Admit_def err_is_def broker_errors
            split: if_splits option.splits)
    next
      case (Some e)
      with assms(3) \<open>br_adapters b p = Some adapter\<close> Inr ad calls show ?thesis
        by (auto simp: Broker_Route_def attemptsOf_def zero_Result_def classifyOutcome_def)
    qed
  qed
qed

lemma failover_error:
  "classifyOutcome err res = outcomeMisconfigured \<Longrightarrow> \<exists>e. err = Some e \<and> \<not> stopping (Some e)"
  "classifyOutcome err res = outcomeUpstream \<Longrightarrow> \<not> stopping (Some (upstreamErr err res))"
  by (auto simp: classifyOutcome_def stopping_def upstreamErr_def err_is_def broker_errors split: if_splits option.splits)

lemma shed_error: "\<not> stopping (Some (Errorf [ErrCircuitOpen] p))"
  by (simp add: stopping_def err_is_def broker_errors)

lemma route_counts:
  assumes "metered_adapters calls b" and "plain_redemption b" and "idle_clock calls clock"
    and "route_targets b clock req targets n lastResult lastErr br w = ((res, err), br', w')"
    and "\<not> stopping (Some lastErr)" and "err = None \<or> stopping err"
  shows "re_Attempts res = wrap64 (n + (calls w' - calls w))"
  using assms(4-6)
proof (induction targets arbitrary: n lastResult lastErr br w)
  case Nil
  then show ?case by simp
next
  case (Cons tgt rest)
  obtain now w1 where c1: "clock w = (now, w1)" by fastforce
  obtain allowed br1 where al: "Allow br (target_key tgt) now = (allowed, br1)" by fastforce
  have k1: "calls w1 = calls w" using assms(3) c1 by (metis idle_clock_def snd_conv)
  show ?case
  proof (cases allowed)
    case False
    with Cons.prems c1 al have "route_targets b clock req rest n lastResult (Errorf [ErrCircuitOpen] (tg_Provider tgt)) br1 w1 = ((res, err), br', w')"
      by simp
    from Cons.IH [OF this shed_error Cons.prems(3)] k1 show ?thesis by simp
  next
    case True
    obtain r0 e0 w2 where call: "Broker_Route b (tg_Provider tgt) (target_call tgt req) w1 = ((r0, e0), w2)" by (metis surj_pair)
    note k2 = route_call [OF assms(1,2) call]
    note step = Cons.prems(1) [unfolded route_targets.simps c1 al call prod.case Let_def]
    show ?thesis
    proof (cases "classifyOutcome e0 r0")
      case outcomeMisconfigured
      from failover_error(1) [OF this] obtain e where e: "e0 = Some e" "\<not> stopping (Some e)" by blast
      with step True outcomeMisconfigured have "route_targets b clock req rest n r0 e br1 w2 = ((res, err), br', w')" by simp
      from Cons.IH [OF this e(2) Cons.prems(3)] k1 k2 outcomeMisconfigured show ?thesis by simp
    next
      case outcomeUpstream
      obtain now' w3 where c3: "clock w2 = (now', w3)" by fastforce
      have k3: "calls w3 = calls w2" using assms(3) c3 by (metis idle_clock_def snd_conv)
      from step True outcomeUpstream c3 have "route_targets b clock req rest (wrap64 (n + attemptsOf r0)) r0 (upstreamErr e0 r0)
          (RecordFailure br1 (target_key tgt) now') w3 = ((res, err), br', w')" by simp
      from Cons.IH [OF this failover_error(2) [OF outcomeUpstream] Cons.prems(3)] k1 k2 k3 outcomeUpstream
      show ?thesis using wrap64_add [of "n + attemptsOf r0" "calls w' - calls w3"] by (simp add: algebra_simps)
    qed (use step True k1 k2 in \<open>auto simp: wrap64_add algebra_simps\<close>)
  qed
qed

text \<open>
  A chain reports every attempt that it caused.  When a request is served, refused as the caller's fault,
  or stopped by a cancellation, a deadline or the budget, the attempts of the result are the
  provider attempts that the whole chain made, fallovers included.
\<close>

theorem chain_counts_attempts:
  assumes "metered_adapters calls b" and "plain_redemption b" and "idle_clock calls clock"
    and "targets \<noteq> []" and "Chain_Route b clock targets req br w = ((res, err), br', w')"
    and "err = None \<or> stopping err"
  shows "re_Attempts res = wrap64 (calls w' - calls w)"
proof -
  have "\<not> stopping (Some ErrAllTargetsFailed)" by (simp add: stopping_def err_is_def broker_errors)
  with route_counts [OF assms(1-3)] assms(4-6) show ?thesis by (fastforce simp: Chain_Route_def)
qed

text \<open>
  A credential store that fails is charged to the provider.  When the credential of the first target
  cannot be redeemed for another reason than being unknown, no provider is called for it, but an attempt is
  counted and the circuit of the target records a failure.
\<close>

theorem redeem_failure_charged:
  assumes "br_adapters b (tg_Provider t1) = Some adapter" and "br_secrets b (tg_Secret t1) = Inl e"
    and "\<not> errors_Is e ErrUnknownSecret" and "\<not> errors_Is e ErrUnknownProvider" and "\<not> stopping (Some e)"
    and "clock = (\<lambda>w. (now, w))" and "br = newBreaker th cd"
    and "Broker_Route b (tg_Provider t2) (target_call t2 req) w = ((res, None), w')" and "re_Error res = None"
    and "re_Attempts res = 1" and "target_key t1 \<noteq> target_key t2"
  shows "\<exists>br'. Chain_Route b clock [t1, t2] req br w = ((res\<lparr>re_Attempts := 2\<rparr>, None), br', w') \<and>
    bs_failures (key_state br' (target_key t1)) = 1"
proof -
  let ?e = "Errorf [e] ''redeem credential''"
  have call: "Broker_Route b (tg_Provider t1) (target_call t1 req) w = ((zero_Result, Some ?e), w)"
    using assms(1,2) by (simp add: Broker_Route_def target_call_def Let_def)
  have oc: "classifyOutcome (Some ?e) zero_Result = outcomeUpstream"
    using assms(3-5) by (simp add: classifyOutcome_def stopping_def err_is_def broker_errors)
  have fresh: "Allow (newBreaker th cd) key now = (True, newBreaker th cd)" for key
    by (simp add: Allow_def newBreaker_def)
  let ?br = "RecordFailure (newBreaker th cd) (target_key t1) now"
  have second: "Allow ?br (target_key t2) now = (True, ?br)"
    using assms(11) by (simp add: Allow_def RecordFailure_def newBreaker_def Let_def)
  let ?done = "RecordSuccess ?br (target_key t2)"
  have "wrap64 1 = 1" "wrap64 2 = 2" "attemptsOf zero_Result = 1"
    by (simp_all add: wrap64_def attemptsOf_def zero_Result_def)
  then have "Chain_Route b clock [t1, t2] req br w = ((res\<lparr>re_Attempts := 2\<rparr>, None), ?done, w')"
    using assms(6-10) call oc fresh second
    by (simp add: Chain_Route_def classifyOutcome_def [of None] attemptsOf_def Let_def)
  moreover have "bs_failures (key_state ?done (target_key t1)) = 1"
    using assms(11) \<open>wrap64 1 = 1\<close> key_state_failure [of "newBreaker th cd"]
    by (simp add: key_state_success key_state_def [of "newBreaker th cd"] newBreaker_def [THEN arg_cong [of _ _ bk_states]]
        zero_breakerState_def Let_def)
  ultimately show ?thesis by blast
qed

section \<open>Instances\<close>

text \<open>Two providers; the first fails, the second serves.  The world counts the calls.\<close>

definition sample_adapter :: "error option \<Rightarrow> int ModelAdapter" where
  "sample_adapter err req secret w = ((zero_Result\<lparr>re_Output := ''hello''\<rparr>, err), w + 1)"

definition sample_secrets :: SecretResolver where
  "sample_secrets = StaticResolver [''ka'' \<mapsto> ''x'', ''kb'' \<mapsto> ''y'']"

definition sample_broker :: "int Broker" where
  "sample_broker = New [''a'' \<mapsto> sample_adapter (Some (Errorf [] ''refused'')), ''b'' \<mapsto> sample_adapter None] (Some sample_secrets)"

definition sample_targets :: "Target list" where
  "sample_targets = [\<lparr>tg_Provider = ''a'', tg_Secret = ''ka'', tg_Model = ''''\<rparr>, \<lparr>tg_Provider = ''b'', tg_Secret = ''kb'', tg_Model = ''''\<rparr>]"

definition sample_req :: Request where
  "sample_req = \<lparr>rq_ModelRequestID = ''m'', rq_IdempotencyKey = '''', rq_BaseURL = '''', rq_RouteRevision = 0, rq_ModelStepID = '''',
     rq_Model = '''', rq_Messages = [], rq_Tools = [], rq_ForceToolCall = False, rq_Thinking = '''', rq_OutputSchema = None,
     rq_Deadline = 0, rq_Privacy = \<lparr>pf_NoRetain = False, pf_NoTrain = False\<rparr>, rq_Reservation = \<lparr>rv_MaxTotalTokens = 0\<rparr>, rq_Secret = ''''\<rparr>"

definition sample_chain :: "(Result \<times> error option) \<times> breaker \<times> int" where
  "sample_chain = Chain_Route sample_broker (\<lambda>w. (7, w)) sample_targets sample_req (newBreaker 3 9) 0"

theorem breaker_exact_witness:
  "fst (Allow (breaker_after (newBreaker 2 9) [OpFailure ''a'' 5, OpFailure ''a'' 4, OpSuccess ''a'']) ''a'' 13) = False"
  using breaker_exact [of "[OpFailure ''a'' 5, OpFailure ''a'' 4, OpSuccess ''a'']" 2 9 "''a''" 13] by simp

theorem budget_never_overspent_witness:
  "let u = zero_Usage\<lparr>us_TotalTokens := 6\<rparr> in us_TotalTokens (bu_consumed (snd (settle_all (NewBudget \<lparr>rv_MaxTotalTokens = 10\<rparr>) [u, u]))) \<le> 10"
  using budget_never_overspent [of "\<lparr>rv_MaxTotalTokens = 10\<rparr>"
      "[zero_Usage\<lparr>us_TotalTokens := 6\<rparr>, zero_Usage\<lparr>us_TotalTokens := 6\<rparr>]", OF _ _ prod.collapse [symmetric]]
  by (simp add: Let_def del: settle_all.simps)

lemma sample_broker_metered: "metered_adapters (\<lambda>w. w) sample_broker" "plain_redemption sample_broker"
  by (auto simp: metered_adapters_def plain_redemption_def sample_broker_def New_def sample_adapter_def sample_secrets_def
      StaticResolver_def attemptsOf_def zero_Result_def stopping_def err_is_def broker_errors split: if_splits option.splits)

lemma sample_chain_parts: "snd (fst sample_chain) = None" "snd (snd sample_chain) = 2"
  by code_simp+

theorem chain_counts_attempts_witness: "re_Attempts (fst (fst sample_chain)) = 2"
proof -
  have eq: "Chain_Route sample_broker (\<lambda>w. (7, w)) sample_targets sample_req (newBreaker 3 9) 0 =
      ((fst (fst sample_chain), None), fst (snd sample_chain), 2)"
    using sample_chain_parts unfolding sample_chain_def [symmetric] by (metis prod.collapse)
  have "re_Attempts (fst (fst sample_chain)) = wrap64 (2 - 0)"
    by (rule chain_counts_attempts [OF sample_broker_metered _ _ eq]) (auto simp: idle_clock_def sample_targets_def)
  then show ?thesis by (simp add: wrap64_def)
qed

theorem redeem_failure_charged_witness:
  "\<exists>res br' w'. Chain_Route (sample_broker\<lparr>br_secrets := (\<lambda>ref. if ref = ''ka'' then Inl (Errorf [] ''store outage'') else Inr ''y'')\<rparr>)
      (\<lambda>w. (7, w)) sample_targets sample_req (newBreaker 3 9) 0 = ((res, None), br', w') \<and> w' = 1 \<and> re_Attempts res = 2"
proof -
  let ?b = "sample_broker\<lparr>br_secrets := (\<lambda>ref. if ref = ''ka'' then Inl (Errorf [] ''store outage'') else Inr ''y'')\<rparr>"
  let ?t1 = "sample_targets ! 0" and ?t2 = "sample_targets ! 1"
  let ?res = "zero_Result\<lparr>re_Output := ''hello'', re_ModelRequestID := ''m'', re_Attempts := 1\<rparr>"
  have "\<exists>br'. Chain_Route ?b (\<lambda>w. (7, w)) [?t1, ?t2] sample_req (newBreaker 3 9) 0 = ((?res\<lparr>re_Attempts := 2\<rparr>, None), br', 1) \<and>
      bs_failures (key_state br' (target_key ?t1)) = 1"
    by (rule redeem_failure_charged)
      (auto simp: sample_broker_def New_def sample_targets_def target_key_def Broker_Route_def target_call_def sample_req_def
        sample_adapter_def zero_Result_def Admit_def stopping_def err_is_def broker_errors Let_def)
  moreover have "sample_targets = [?t1, ?t2]" by (simp add: sample_targets_def)
  ultimately show ?thesis by auto
qed

end
