(* ===== verification/Egress.thy ===== *)
theory Egress
  imports Palai_Base
begin

unbundle bit_operations_syntax

text \<open>
  The egress policy (\<^verbatim>\<open>src/packages/egress/egress.go\<close>): which addresses and URLs an outbound request may reach, and the
  dialer that connects only to an address it has vetted.

  An address is a \<^verbatim>\<open>net.IP\<close>: nil, or a byte slice of length 4 or 16.  The predicates on addresses and
  \<open>Contains\<close> are those of package \<^verbatim>\<open>net\<close>.  \<^verbatim>\<open>url.Parse\<close>, \<^verbatim>\<open>net.ParseIP\<close>, \<^verbatim>\<open>net.SplitHostPort\<close>, the resolver and the
  dial are arguments: \<open>parse\<close> gives the parts of a URL that the policy looks at, and the dial acts on the
  state \<open>'w\<close> of the outside world, which a resolver only reads.

  The policy on addresses is proved equivalent to a table of address ranges, and the dialer to
  connect to a vetted address or to none.
\<close>

type_synonym byte = "8 word"
type_synonym IP = "byte list option"

definition ErrDenied :: error where
  "ErrDenied = Sentinel ''egress'' ''egress: destination denied by policy''"

section \<open>Package net\<close>

definition v4InV6Prefix :: "byte list" where
  "v4InV6Prefix = [0, 0, 0, 0, 0, 0, 0, 0, 0, 0, 0xff, 0xff]"

definition To4 :: "byte list \<Rightarrow> byte list option" where
  "To4 ip = (if length ip = 4 then Some ip
     else if length ip = 16 \<and> take 12 ip = v4InV6Prefix then Some (drop 12 ip) else None)"

definition IP_Equal :: "byte list \<Rightarrow> byte list \<Rightarrow> bool" where
  "IP_Equal ip x =
     (if length ip = length x then ip = x
      else if length ip = 4 \<and> length x = 16 then take 12 x = v4InV6Prefix \<and> ip = drop 12 x
      else if length ip = 16 \<and> length x = 4 then take 12 ip = v4InV6Prefix \<and> drop 12 ip = x
      else False)"

definition IPv4zero :: "byte list" where
  "IPv4zero = v4InV6Prefix @ [0, 0, 0, 0]"

definition IPv6unspecified :: "byte list" where
  "IPv6unspecified = replicate 16 0"

definition IPv6loopback :: "byte list" where
  "IPv6loopback = replicate 15 0 @ [1]"

definition IsUnspecified :: "byte list \<Rightarrow> bool" where
  "IsUnspecified ip \<longleftrightarrow> IP_Equal ip IPv4zero \<or> IP_Equal ip IPv6unspecified"

definition IsLoopback :: "byte list \<Rightarrow> bool" where
  "IsLoopback ip = (case To4 ip of Some ip4 \<Rightarrow> ip4 ! 0 = 127 | None \<Rightarrow> IP_Equal ip IPv6loopback)"

definition IsPrivate :: "byte list \<Rightarrow> bool" where
  "IsPrivate ip = (case To4 ip of
     Some ip4 \<Rightarrow> ip4 ! 0 = 10 \<or> (ip4 ! 0 = 172 \<and> ip4 ! 1 AND 0xf0 = 16) \<or> (ip4 ! 0 = 192 \<and> ip4 ! 1 = 168)
   | None \<Rightarrow> length ip = 16 \<and> ip ! 0 AND 0xfe = 0xfc)"

definition IsMulticast :: "byte list \<Rightarrow> bool" where
  "IsMulticast ip = (case To4 ip of
     Some ip4 \<Rightarrow> ip4 ! 0 AND 0xf0 = 0xe0 | None \<Rightarrow> length ip = 16 \<and> ip ! 0 = 0xff)"

definition IsInterfaceLocalMulticast :: "byte list \<Rightarrow> bool" where
  "IsInterfaceLocalMulticast ip \<longleftrightarrow> length ip = 16 \<and> ip ! 0 = 0xff \<and> ip ! 1 AND 0x0f = 0x01"

definition IsLinkLocalUnicast :: "byte list \<Rightarrow> bool" where
  "IsLinkLocalUnicast ip = (case To4 ip of
     Some ip4 \<Rightarrow> ip4 ! 0 = 169 \<and> ip4 ! 1 = 254 | None \<Rightarrow> length ip = 16 \<and> ip ! 0 = 0xfe \<and> ip ! 1 AND 0xc0 = 0x80)"

text \<open>A network is its number and its mask.\<close>

type_synonym IPNet = "byte list \<times> byte list"

definition IPNet_Contains :: "IPNet \<Rightarrow> byte list \<Rightarrow> bool" where
  "IPNet_Contains n ip = (case n of (nn, m) \<Rightarrow>
     let x = (case To4 ip of Some ip4 \<Rightarrow> ip4 | None \<Rightarrow> ip)
     in length x = length nn \<and> list_all (\<lambda>i. nn ! i AND m ! i = x ! i AND m ! i) [0..<length x])"

section \<open>The policy\<close>

definition specialUseCIDRs :: "IPNet list" where
  "specialUseCIDRs =
     [([100, 64, 0, 0], [0xff, 0xc0, 0, 0]),
      ([192, 0, 0, 0], [0xff, 0xff, 0xff, 0]),
      ([198, 18, 0, 0], [0xff, 0xfe, 0, 0]),
      ([240, 0, 0, 0], [0xf0, 0, 0, 0])]"

definition VetIP :: "IP \<Rightarrow> bool \<Rightarrow> error option" where
  "VetIP ipopt allowPrivate = (case ipopt of
     None \<Rightarrow> Some (Errorf [ErrDenied] ''unparseable IP'')
   | Some ip \<Rightarrow>
       if IsUnspecified ip \<or> IsMulticast ip \<or> IsLinkLocalUnicast ip \<or> IsInterfaceLocalMulticast ip
       then Some (Errorf [ErrDenied] ''is a reserved/metadata address'')
       else if list_ex (\<lambda>n. IPNet_Contains n ip) specialUseCIDRs then Some (Errorf [ErrDenied] ''is a special-use address'')
       else if allowPrivate then None
       else if IsLoopback ip \<or> IsPrivate ip then Some (Errorf [ErrDenied] ''is a private/loopback address'')
       else None)"

record URL =
  ur_Scheme :: string
  ur_HasUser :: bool
  ur_Hostname :: string

definition VetURL :: "(string \<Rightarrow> URL result) \<Rightarrow> (string \<Rightarrow> IP) \<Rightarrow> string \<Rightarrow> bool \<Rightarrow> error option" where
  "VetURL parse parseIP rawURL allowPrivate = (case parse rawURL of
     Inl e \<Rightarrow> Some (Errorf [e] ''parse destination'')
   | Inr u \<Rightarrow>
       if ur_HasUser u then Some (Errorf [ErrDenied] ''url must not embed credentials'')
       else if ur_Scheme u \<noteq> ''https'' \<and> ur_Scheme u \<noteq> ''http'' then Some (Errorf [ErrDenied] ''scheme not allowed'')
       else if ur_Scheme u = ''http'' \<and> \<not> allowPrivate
       then Some (Errorf [ErrDenied] ''http is not allowed for a public destination (use https)'')
       else if ur_Hostname u = '''' then Some (Errorf [ErrDenied] ''empty host'')
       else case parseIP (ur_Hostname u) of Some ip \<Rightarrow> VetIP (Some ip) allowPrivate | None \<Rightarrow> None)"

type_synonym 'w Resolver = "string \<Rightarrow> 'w \<Rightarrow> IP list result"

text \<open>A resolver that is nil is the default one, which the caller passes.\<close>

definition VetResolved :: "(string \<Rightarrow> URL result) \<Rightarrow> (string \<Rightarrow> IP) \<Rightarrow> 'w Resolver \<Rightarrow> string \<Rightarrow> bool \<Rightarrow> 'w \<Rightarrow> error option" where
  "VetResolved parse parseIP lookup rawURL allowPrivate w = (case VetURL parse parseIP rawURL allowPrivate of
     Some e \<Rightarrow> Some e
   | None \<Rightarrow>
       (case parse rawURL of
          Inl _ \<Rightarrow> None
        | Inr u \<Rightarrow>
            if parseIP (ur_Hostname u) \<noteq> None then None
            else case lookup (ur_Hostname u) w of
                   Inl _ \<Rightarrow> None
                 | Inr addrs \<Rightarrow> if list_ex (\<lambda>a. VetIP a allowPrivate \<noteq> None) addrs
                                then Some (Errorf [ErrDenied] ''host resolves to a blocked address'') else None))"

fun dial_first :: "(string \<Rightarrow> 'w \<Rightarrow> 'c result \<times> 'w) \<Rightarrow> (byte list \<Rightarrow> string) \<Rightarrow> bool \<Rightarrow> IP list \<Rightarrow> 'w \<Rightarrow> 'c result \<times> 'w" where
  "dial_first dial address allowPrivate [] w = (Inl ErrDenied, w)"
| "dial_first dial address allowPrivate (ip # rest) w =
     (case ip of
        Some bs \<Rightarrow> if VetIP ip allowPrivate = None then dial (address bs) w else dial_first dial address allowPrivate rest w
      | None \<Rightarrow> dial_first dial address allowPrivate rest w)"

text \<open>\<open>joinHostPort ip port\<close> is \<^verbatim>\<open>net.JoinHostPort(ip.String(), port)\<close>.\<close>

definition PinnedDialer :: "'w Resolver \<Rightarrow> (string \<Rightarrow> (string \<times> string) result) \<Rightarrow> (string \<Rightarrow> IP) \<Rightarrow> (byte list \<Rightarrow> string \<Rightarrow> string)
    \<Rightarrow> bool \<Rightarrow> (string \<Rightarrow> string \<Rightarrow> 'w \<Rightarrow> 'c result \<times> 'w) \<Rightarrow> string \<Rightarrow> string \<Rightarrow> 'w \<Rightarrow> 'c result \<times> 'w" where
  "PinnedDialer lookup splitHostPort parseIP joinHostPort allowPrivate dial network addr w =
     (case splitHostPort addr of
        Inl e \<Rightarrow> (Inl e, w)
      | Inr (host, port) \<Rightarrow>
          (case (case parseIP host of Some ip \<Rightarrow> Inr [Some ip] | None \<Rightarrow> lookup host w) of
             Inl e \<Rightarrow> (Inl e, w)
           | Inr candidates \<Rightarrow> dial_first (dial network) (\<lambda>ip. joinHostPort ip port) allowPrivate candidates w))"

section \<open>The policy as a table of ranges\<close>

text \<open>The number of an address, most significant byte first.\<close>

definition number :: "byte list \<Rightarrow> nat" where
  "number bs = foldl (\<lambda>n b. 256 * n + unat b) 0 bs"

definition in_block :: "nat \<times> nat \<Rightarrow> nat \<Rightarrow> bool" where
  "in_block r n \<longleftrightarrow> fst r \<le> n \<and> n \<le> snd r"

definition in_ranges :: "(nat \<times> nat) list \<Rightarrow> nat \<Rightarrow> bool" where
  "in_ranges rs n = list_ex (\<lambda>r. in_block r n) rs"

definition block4 :: "nat \<Rightarrow> nat \<Rightarrow> nat \<Rightarrow> nat \<times> nat" where
  "block4 a b len = (let base = a * 2 ^ 24 + b * 2 ^ 16 in (base, base + 2 ^ (32 - len) - 1))"

definition never4 :: "(nat \<times> nat) list" where
  "never4 = [(0, 0), block4 224 0 4, block4 169 254 16, block4 100 64 10, block4 192 0 24, block4 198 18 15, block4 240 0 4]"

definition private4 :: "(nat \<times> nat) list" where
  "private4 = [block4 127 0 8, block4 10 0 8, block4 172 16 12, block4 192 168 16]"

definition block6 :: "nat \<Rightarrow> nat \<Rightarrow> nat \<times> nat" where
  "block6 high len = (high * 2 ^ 112, high * 2 ^ 112 + 2 ^ (128 - len) - 1)"

definition never6 :: "(nat \<times> nat) list" where
  "never6 = [(0, 0), block6 0xff00 8, block6 0xfe80 10]"

definition private6 :: "(nat \<times> nat) list" where
  "private6 = [(1, 1), block6 0xfc00 7]"

definition allowed :: "byte list \<Rightarrow> bool \<Rightarrow> bool" where
  "allowed ip allowPrivate = (case To4 ip of
     Some ip4 \<Rightarrow> \<not> in_ranges never4 (number ip4) \<and> (allowPrivate \<or> \<not> in_ranges private4 (number ip4))
   | None \<Rightarrow> \<not> in_ranges never6 (number ip) \<and> (allowPrivate \<or> \<not> in_ranges private6 (number ip)))"

section \<open>Bytes and numbers\<close>

lemma byte_cases:
  fixes b :: byte
  assumes "\<And>n. n < 256 \<Longrightarrow> P (word_of_nat n :: byte)"
  shows "P b"
  using assms [of "unat b"] unsigned_less [of b] by simp

lemma byte_check:
  fixes b :: byte
  assumes "list_all (\<lambda>n. P (word_of_nat n :: byte)) [0..<256]"
  shows "P b"
  proof (rule byte_cases)
  fix n :: nat
  assume "n < 256"
  then have "n \<in> {0..<256}" by simp
  then show "P (word_of_nat n)" using assms unfolding list_all_iff set_upt by blast
qed

lemma mask_e0: "(b :: byte) AND 0xf0 = 0xe0 \<longleftrightarrow> 224 \<le> unat b \<and> unat b < 240"
  by (rule byte_check) code_simp

lemma mask_10: "(b :: byte) AND 0xf0 = 16 \<longleftrightarrow> 16 \<le> unat b \<and> unat b < 32"
  by (rule byte_check) code_simp

lemma mask_f0: "0xf0 = (b :: byte) AND 0xf0 \<longleftrightarrow> 240 \<le> unat b"
  by (rule byte_check) code_simp

lemma mask_fc: "(b :: byte) AND 0xfe = 0xfc \<longleftrightarrow> 252 \<le> unat b \<and> unat b < 254"
  by (rule byte_check) code_simp

lemma mask_80: "(b :: byte) AND 0xc0 = 0x80 \<longleftrightarrow> 128 \<le> unat b \<and> unat b < 192"
  by (rule byte_check) code_simp

lemma mask_64: "0x40 = (b :: byte) AND 0xc0 \<longleftrightarrow> 64 \<le> unat b \<and> unat b < 128"
  by (rule byte_check) code_simp

lemma mask_18: "0x12 = (b :: byte) AND 0xfe \<longleftrightarrow> 18 \<le> unat b \<and> unat b < 20"
  by (rule byte_check) code_simp

lemma mask_full: "(b :: byte) AND 0xff = b"
  by (rule byte_check) code_simp

lemma number_append: "number (xs @ ys) = number xs * 256 ^ length ys + number ys"
proof (induction ys rule: rev_induct)
  case Nil
  then show ?case by (simp add: number_def)
next
  case (snoc y ys)
  have "number (xs @ ys @ [y]) = 256 * number (xs @ ys) + unat y" by (simp add: number_def)
  also have "\<dots> = number xs * 256 ^ length (ys @ [y]) + (256 * number ys + unat y)"
    by (simp add: snoc.IH algebra_simps)
  finally show ?case by (simp add: number_def)
qed

lemma number_snoc: "number (xs @ [x]) = 256 * number xs + unat x"
  by (simp add: number_def)

lemma byte_less: "unat (b :: byte) < 256"
  using unsigned_less [of b] by simp

lemma number_less: "number xs < 256 ^ length xs"
proof (induction xs rule: rev_induct)
  case Nil
  then show ?case by (simp add: number_def)
next
  case (snoc x xs)
  have "256 * number xs + 256 \<le> 256 * 256 ^ length xs" using snoc.IH by simp
  then show ?case using byte_less [of x] by (simp add: number_snoc)
qed

lemma number_inject: "length xs = length ys \<Longrightarrow> number xs = number ys \<longleftrightarrow> xs = ys"
proof (induction xs arbitrary: ys rule: rev_induct)
  case Nil
  then show ?case by simp
next
  case (snoc x xs)
  then obtain zs z where ys: "ys = zs @ [z]" by (cases ys rule: rev_cases) auto
  have split: "256 * m + unat x = 256 * n + unat z \<longleftrightarrow> m = n \<and> x = z" for m n
  proof
    assume eq: "256 * m + unat x = 256 * n + unat z"
    have "(256 * m + unat x) div 256 = m" "(256 * n + unat z) div 256 = n"
      using byte_less [of x] byte_less [of z] by simp_all
    then have "m = n" using eq by simp
    then show "m = n \<and> x = z" using eq by (simp add: unsigned_word_eqI)
  qed simp
  show ?case using snoc.prems snoc.IH [of zs] by (simp add: ys number_snoc split)
qed

lemma number4: "number [a, b, c, d] = unat a * 2 ^ 24 + unat b * 2 ^ 16 + unat c * 2 ^ 8 + unat d"
  by (simp add: number_def)

lemma byte_eq: "(b :: byte) = numeral n \<longleftrightarrow> unat b = unat (numeral n :: byte)"
  by (simp add: word_unat_eq_iff)

lemma four_bytes:
  assumes "length ip = 4"
  obtains a b c d where "ip = [a, b, c, d]"
  using assms by (auto simp: numeral_eq_Suc length_Suc_conv)

text \<open>A block of whole multiples is decided by the leading digits.\<close>

lemma wide_block:
  fixes h k q m r :: nat
  assumes r: "r < m" and k: "0 < k"
  shows "(h * m \<le> q * m + r \<and> q * m + r \<le> h * m + k * m - 1) \<longleftrightarrow> h \<le> q \<and> q < h + k"
proof -
  have m: "0 < m" using r by simp
  have pos: "0 < h * m + k * m" using m k by simp
  have "h * m \<le> q * m + r \<longleftrightarrow> h \<le> q"
    using less_eq_div_iff_mult_less_eq [OF m, of h "q * m + r"] r by simp
  moreover have "q * m + r \<le> h * m + k * m - 1 \<longleftrightarrow> q * m + r < (h + k) * m"
    unfolding add_mult_distrib using pos by linarith
  moreover have "q * m + r < (h + k) * m \<longleftrightarrow> q < h + k"
    using div_less_iff_less_mult [OF m, of "q * m + r" "h + k"] r by simp
  ultimately show ?thesis by simp
qed

lemma number4_pair: "number [a, b, c, d] = (unat a * 256 + unat b) * 65536 + (unat c * 256 + unat d)"
  by (simp add: number4)

lemma pair_low: "unat (c :: byte) * 256 + unat (d :: byte) < 65536"
  using byte_less [of c] byte_less [of d] by simp

lemma block4_wide:
  assumes "len \<le> 16"
  shows "in_block (block4 x y len) (number [a, b, c, d])
    \<longleftrightarrow> x * 256 + y \<le> unat a * 256 + unat b \<and> unat a * 256 + unat b < x * 256 + y + 2 ^ (16 - len)"
proof -
  have pow: "(2 :: nat) ^ (32 - len) = 2 ^ (16 - len) * 65536"
    using assms power_add [of "2 :: nat" "16 - len" 16] by simp
  have base: "x * 2 ^ 24 + y * 2 ^ 16 = (x * 256 + y) * 65536" by simp
  show ?thesis
    unfolding in_block_def block4_def Let_def fst_conv snd_conv pow base number4_pair
    by (rule wide_block [OF pair_low]) simp
qed

text \<open>A range of pairs of bytes inside one first byte, and one of whole first bytes.\<close>

lemma pair_inside:
  fixes a b x y k :: nat
  assumes "b < 256" and "y + k \<le> 256"
  shows "(x * 256 + y \<le> a * 256 + b \<and> a * 256 + b < x * 256 + y + k) \<longleftrightarrow> a = x \<and> y \<le> b \<and> b < y + k"
proof
  assume inside: "x * 256 + y \<le> a * 256 + b \<and> a * 256 + b < x * 256 + y + k"
  then have "a \<le> x" "x \<le> a" using assms by linarith+
  with inside show "a = x \<and> y \<le> b \<and> b < y + k" by simp
qed simp

lemma pair_bytes:
  fixes a b x k :: nat
  assumes "b < 256"
  shows "(x * 256 \<le> a * 256 + b \<and> a * 256 + b < x * 256 + k * 256) \<longleftrightarrow> x \<le> a \<and> a < x + k"
  using assms by (intro iffI conjI; elim conjE) linarith+

lemma block4_inside:
  assumes "len \<le> 16" and "y + 2 ^ (16 - len) \<le> 256"
  shows "in_block (block4 x y len) (number [a, b, c, d])
    \<longleftrightarrow> unat a = x \<and> y \<le> unat b \<and> unat b < y + 2 ^ (16 - len)"
  unfolding block4_wide [OF assms(1)] by (rule pair_inside [OF byte_less assms(2)])

lemma block4_bytes:
  assumes "len \<le> 8"
  shows "in_block (block4 x 0 len) (number [a, b, c, d]) \<longleftrightarrow> x \<le> unat a \<and> unat a < x + 2 ^ (8 - len)"
  using block4_wide [of len x 0 a b c d] assms power_add [of "2 :: nat" "8 - len" 8]
    pair_bytes [OF byte_less, of x "unat a" b "2 ^ (8 - len)"] by simp

lemma never4_exact:
  "in_ranges never4 (number [a, b, c, d]) \<longleftrightarrow>
     [a, b, c, d] = [0, 0, 0, 0] \<or> a AND 0xf0 = 0xe0 \<or> (a = 169 \<and> b = 254)
     \<or> (a = 100 \<and> 0x40 = b AND 0xc0) \<or> (a = 192 \<and> b = 0 \<and> c = 0) \<or> (a = 198 \<and> 0x12 = b AND 0xfe) \<or> 0xf0 = a AND 0xf0"
proof -
  note bytes = byte_less [of a] byte_less [of b] byte_less [of c] byte_less [of d]
  have zero: "in_block (0, 0) (number [a, b, c, d]) \<longleftrightarrow> [a, b, c, d] = [0, 0, 0, 0]"
    by (auto simp: in_block_def number4 unat_eq_0)
  have protocol: "in_block (block4 192 0 24) (number [a, b, c, d]) \<longleftrightarrow> a = 192 \<and> b = 0 \<and> c = 0"
  proof
    assume "in_block (block4 192 0 24) (number [a, b, c, d])"
    then have bounds: "3221225472 \<le> unat a * 16777216 + unat b * 65536 + unat c * 256 + unat d"
      "unat a * 16777216 + unat b * 65536 + unat c * 256 + unat d \<le> 3221225727"
      by (simp_all add: in_block_def block4_def number4)
    have a: "unat a = 192" using bounds bytes by linarith
    have b: "unat b = 0" using bounds a by linarith
    have "unat c = 0" using bounds a b by linarith
    with a b show "a = 192 \<and> b = 0 \<and> c = 0" by (simp add: byte_eq unat_eq_0)
  next
    assume "a = 192 \<and> b = 0 \<and> c = 0"
    then show "in_block (block4 192 0 24) (number [a, b, c, d])"
      using bytes by (simp add: in_block_def block4_def number4)
  qed
  have multicast: "in_block (block4 224 0 4) (number [a, b, c, d]) \<longleftrightarrow> a AND 0xf0 = 0xe0"
    using bytes unfolding mask_e0 by (auto simp: block4_inside block4_bytes)
  have link: "in_block (block4 169 254 16) (number [a, b, c, d]) \<longleftrightarrow> a = 169 \<and> b = 254"
    using bytes unfolding byte_eq by (auto simp: block4_inside block4_bytes)
  have shared: "in_block (block4 100 64 10) (number [a, b, c, d]) \<longleftrightarrow> a = 100 \<and> 0x40 = b AND 0xc0"
    using bytes unfolding mask_64 unfolding byte_eq by (auto simp: block4_inside block4_bytes)
  have bench: "in_block (block4 198 18 15) (number [a, b, c, d]) \<longleftrightarrow> a = 198 \<and> 0x12 = b AND 0xfe"
    using bytes unfolding mask_18 unfolding byte_eq by (auto simp: block4_inside block4_bytes)
  have future: "in_block (block4 240 0 4) (number [a, b, c, d]) \<longleftrightarrow> 0xf0 = a AND 0xf0"
    using bytes unfolding mask_f0 by (auto simp: block4_inside block4_bytes)
  show ?thesis
    by (simp only: in_ranges_def never4_def list_ex_Nil_iff list_ex_Cons_iff zero multicast link shared protocol bench future) blast
qed

lemma private4_exact:
  "in_ranges private4 (number [a, b, c, d]) \<longleftrightarrow>
     a = 127 \<or> a = 10 \<or> (a = 172 \<and> b AND 0xf0 = 16) \<or> (a = 192 \<and> b = 168)"
proof -
  note bytes = byte_less [of a] byte_less [of b]
  have loopback: "in_block (block4 127 0 8) (number [a, b, c, d]) \<longleftrightarrow> a = 127"
    using bytes unfolding byte_eq by (auto simp: block4_inside block4_bytes)
  have ten: "in_block (block4 10 0 8) (number [a, b, c, d]) \<longleftrightarrow> a = 10"
    using bytes unfolding byte_eq by (auto simp: block4_inside block4_bytes)
  have twelve: "in_block (block4 172 16 12) (number [a, b, c, d]) \<longleftrightarrow> a = 172 \<and> b AND 0xf0 = 16"
    using bytes unfolding mask_10 unfolding byte_eq by (auto simp: block4_inside block4_bytes)
  have sixteen: "in_block (block4 192 168 16) (number [a, b, c, d]) \<longleftrightarrow> a = 192 \<and> b = 168"
    using bytes unfolding byte_eq by (auto simp: block4_inside block4_bytes)
  show ?thesis
    by (simp only: in_ranges_def private4_def list_ex_Nil_iff list_ex_Cons_iff loopback ten twelve sixteen) blast
qed

lemma block6_top:
  assumes ip: "length ip = 16" and len: "len \<le> 16"
  shows "in_block (block6 h len) (number ip)
    \<longleftrightarrow> h \<le> unat (ip ! 0) * 256 + unat (ip ! 1) \<and> unat (ip ! 0) * 256 + unat (ip ! 1) < h + 2 ^ (16 - len)"
proof -
  obtain a b rest where bs: "ip = [a, b] @ rest" and rest: "length rest = 14"
    using ip by (auto simp: numeral_eq_Suc length_Suc_conv)
  let ?p = "unat a * 256 + unat b"
  have num: "number ip = ?p * 2 ^ 112 + number rest"
    unfolding bs number_append rest by (simp add: number_def)
  have low: "number rest < 2 ^ 112" using number_less [of rest] rest by simp
  have pow: "(2 :: nat) ^ (128 - len) = 2 ^ (16 - len) * 2 ^ 112"
    using len power_add [of "2 :: nat" "16 - len" 112] by simp
  have "in_block (block6 h len) (number ip) \<longleftrightarrow> h \<le> ?p \<and> ?p < h + 2 ^ (16 - len)"
    unfolding in_block_def block6_def fst_conv snd_conv pow num by (rule wide_block [OF low]) simp
  then show ?thesis by (simp add: bs)
qed

lemma number_zeros: "number (replicate n 0) = 0"
  by (induction n) (simp_all add: number_def)

lemma never6_exact:
  assumes ip: "length ip = 16"
  shows "in_ranges never6 (number ip) \<longleftrightarrow> ip = IPv6unspecified \<or> ip ! 0 = 0xff \<or> (ip ! 0 = 0xfe \<and> ip ! 1 AND 0xc0 = 0x80)"
proof -
  note bytes = byte_less [of "ip ! 0"] byte_less [of "ip ! 1"]
  have zero: "in_block (0, 0) (number ip) \<longleftrightarrow> ip = IPv6unspecified"
    using number_inject [of ip IPv6unspecified] ip number_zeros [of 16] by (simp add: in_block_def IPv6unspecified_def)
  have multicast: "in_block (block6 0xff00 8) (number ip) \<longleftrightarrow> ip ! 0 = 0xff"
    using pair_bytes [OF byte_less, of 255 "unat (ip ! 0)" "ip ! 1" 1] bytes
    by (simp add: block6_top [OF ip] byte_eq) linarith
  have link: "in_block (block6 0xfe80 10) (number ip) \<longleftrightarrow> ip ! 0 = 0xfe \<and> ip ! 1 AND 0xc0 = 0x80"
    using pair_inside [OF byte_less, of 128 64 254 "unat (ip ! 0)" "ip ! 1"]
    unfolding mask_80 by (simp add: block6_top [OF ip] byte_eq)
  show ?thesis
    by (simp only: in_ranges_def never6_def list_ex_Nil_iff list_ex_Cons_iff zero multicast link) blast
qed

lemma private6_exact:
  assumes ip: "length ip = 16"
  shows "in_ranges private6 (number ip) \<longleftrightarrow> ip = IPv6loopback \<or> ip ! 0 AND 0xfe = 0xfc"
proof -
  have num: "number IPv6loopback = 1"
    unfolding IPv6loopback_def number_append by (simp add: number_zeros) (simp add: number_def)
  have one: "in_block (1, 1) (number ip) \<longleftrightarrow> ip = IPv6loopback"
    using number_inject [of ip IPv6loopback] ip num by (auto simp: in_block_def IPv6loopback_def)
  have unique: "in_block (block6 0xfc00 7) (number ip) \<longleftrightarrow> ip ! 0 AND 0xfe = 0xfc"
    using pair_bytes [OF byte_less, of 252 "unat (ip ! 0)" "ip ! 1" 2]
    unfolding mask_fc by (simp add: block6_top [OF ip])
  show ?thesis
    by (simp only: in_ranges_def private6_def list_ex_Nil_iff list_ex_Cons_iff one unique simp_thms)
qed

section \<open>The policy on addresses\<close>

lemma special4:
  "To4 ip = Some [a, b, c, d] \<Longrightarrow> list_ex (\<lambda>n. IPNet_Contains n ip) specialUseCIDRs \<longleftrightarrow>
     (a = 100 \<and> 0x40 = b AND 0xc0) \<or> (a = 192 \<and> b = 0 \<and> c = 0) \<or> (a = 198 \<and> 0x12 = b AND 0xfe) \<or> 0xf0 = a AND 0xf0"
  by (simp add: specialUseCIDRs_def IPNet_Contains_def mask_full upt_rec eq_commute [of "_ :: byte" a] eq_commute [of "_ :: byte" b]
      eq_commute [of "_ :: byte" c])

lemma vet4:
  assumes v4: "To4 ip = Some [a, b, c, d]" and unspecified: "IsUnspecified ip \<longleftrightarrow> [a, b, c, d] = [0, 0, 0, 0]"
    and scoped: "\<not> IsInterfaceLocalMulticast ip"
  shows "VetIP (Some ip) p = None \<longleftrightarrow> allowed ip p"
proof -
  have multicast: "IsMulticast ip \<longleftrightarrow> a AND 0xf0 = 0xe0" and link: "IsLinkLocalUnicast ip \<longleftrightarrow> a = 169 \<and> b = 254"
    and inner: "IsLoopback ip \<or> IsPrivate ip \<longleftrightarrow> in_ranges private4 (number [a, b, c, d])"
    by (simp_all add: IsMulticast_def IsLinkLocalUnicast_def IsLoopback_def IsPrivate_def v4 private4_exact)
  have never: "(IsUnspecified ip \<or> IsMulticast ip \<or> IsLinkLocalUnicast ip \<or> IsInterfaceLocalMulticast ip)
      \<or> list_ex (\<lambda>n. IPNet_Contains n ip) specialUseCIDRs \<longleftrightarrow> in_ranges never4 (number [a, b, c, d])"
    unfolding never4_exact special4 [OF v4] unspecified multicast link using scoped by blast
  show ?thesis
    unfolding VetIP_def allowed_def v4 option.case never [symmetric] inner [symmetric] by (simp split: if_split)
qed

lemma unspecified_bytes: "IPv6unspecified = [0, 0, 0, 0, 0, 0, 0, 0, 0, 0, 0, 0, 0, 0, 0, 0]"
  by (simp add: IPv6unspecified_def numeral_eq_Suc)

lemma mapped_bytes:
  assumes "length ip = 16" and "take 12 ip = v4InV6Prefix"
  shows "ip = v4InV6Prefix @ drop 12 ip" and "length (drop 12 ip) = 4"
  using assms append_take_drop_id [of 12 ip] by simp_all

lemma vet6:
  assumes ip: "length ip = 16" and v4: "To4 ip = None"
  shows "VetIP (Some ip) p = None \<longleftrightarrow> allowed ip p"
proof -
  have mapped: "take 12 ip \<noteq> v4InV6Prefix" using ip v4 by (auto simp: To4_def)
  have "ip \<noteq> IPv4zero" using mapped by (auto simp: IPv4zero_def v4InV6Prefix_def)
  then have unspecified: "IsUnspecified ip \<longleftrightarrow> ip = IPv6unspecified"
    using ip by (simp add: IsUnspecified_def IP_Equal_def IPv4zero_def IPv6unspecified_def v4InV6Prefix_def)
  have special: "\<not> list_ex (\<lambda>n. IPNet_Contains n ip) specialUseCIDRs"
    using ip by (simp add: specialUseCIDRs_def IPNet_Contains_def v4)
  have never: "IsUnspecified ip \<or> IsMulticast ip \<or> IsLinkLocalUnicast ip \<or> IsInterfaceLocalMulticast ip
      \<longleftrightarrow> in_ranges never6 (number ip)"
    unfolding never6_exact [OF ip] unspecified
    using ip by (auto simp: IsMulticast_def IsLinkLocalUnicast_def IsInterfaceLocalMulticast_def v4)
  have inner: "IsLoopback ip \<or> IsPrivate ip \<longleftrightarrow> in_ranges private6 (number ip)"
    using ip by (simp add: private6_exact [OF ip] IsLoopback_def IsPrivate_def v4 IP_Equal_def IPv6loopback_def)
  show ?thesis
    unfolding VetIP_def allowed_def v4 option.case never inner using special by (simp split: if_split)
qed

lemma vet_sized:
  assumes "length ip = 4 \<or> length ip = 16"
  shows "VetIP (Some ip) p = None \<longleftrightarrow> allowed ip p"
proof (cases "To4 ip")
  case None
  then show ?thesis using assms vet6 by (auto simp: To4_def)
next
  case (Some v4)
  then have "length v4 = 4" by (auto simp: To4_def mapped_bytes split: if_splits)
  then obtain a b c d where v4: "v4 = [a, b, c, d]" by (rule four_bytes)
  from Some consider "ip = v4" | "ip = v4InV6Prefix @ v4"
    using mapped_bytes by (fastforce simp: To4_def split: if_splits)
  then have "(IsUnspecified ip \<longleftrightarrow> v4 = [0, 0, 0, 0]) \<and> \<not> IsInterfaceLocalMulticast ip"
    by cases (simp_all add: v4 IsUnspecified_def IP_Equal_def IPv4zero_def unspecified_bytes v4InV6Prefix_def
        IsInterfaceLocalMulticast_def)
  then show ?thesis using vet4 [OF Some [unfolded v4]] v4 by simp
qed

lemmas allowed_bytes = allowed_def To4_def never4_exact private4_exact

text \<open>
  C12. For an address of four or sixteen bytes the policy on addresses is the table of ranges: it refuses the unspecified,
  multicast, link-local and special-use addresses always and the loopback and private ones unless they are allowed, an IPv4
  address mapped into IPv6 counts as the IPv4 address, and it accepts every other address.
\<close>

theorem vet_ip_exact:
  assumes "length ip = 4 \<or> length ip = 16"
  shows "VetIP (Some ip) allowPrivate = None \<longleftrightarrow> allowed ip allowPrivate"
  using assms by (rule vet_sized)

theorem vet_ip_exact_witness:
  "VetIP (Some [169, 254, 169, 254]) True \<noteq> None \<and> VetIP (Some [192, 168, 0, 1]) True = None
   \<and> VetIP (Some (v4InV6Prefix @ [127, 0, 0, 1])) False \<noteq> None \<and> VetIP (Some [8, 8, 8, 8]) False = None"
proof (intro conjI)
  show "VetIP (Some [169, 254, 169, 254]) True \<noteq> None" by (subst vet_ip_exact) (simp_all add: allowed_bytes)
  show "VetIP (Some [192, 168, 0, 1]) True = None" by (subst vet_ip_exact) (simp_all add: allowed_bytes)
  show "VetIP (Some (v4InV6Prefix @ [127, 0, 0, 1])) False \<noteq> None"
    by (subst vet_ip_exact) (simp_all add: allowed_bytes v4InV6Prefix_def)
  show "VetIP (Some [8, 8, 8, 8]) False = None" by (subst vet_ip_exact) (simp_all add: allowed_bytes)
qed

section \<open>The dialer\<close>

text \<open>A candidate that the table accepts.\<close>

definition reachable :: "bool \<Rightarrow> IP \<Rightarrow> bool" where
  "reachable allowPrivate candidate = (case candidate of Some ip \<Rightarrow> allowed ip allowPrivate | None \<Rightarrow> False)"

definition well_sized :: "IP \<Rightarrow> bool" where
  "well_sized candidate = (case candidate of Some ip \<Rightarrow> length ip = 4 \<or> length ip = 16 | None \<Rightarrow> True)"

lemma well_sized_exact: "well_sized (Some ip) \<Longrightarrow> VetIP (Some ip) p = None \<longleftrightarrow> reachable p (Some ip)"
  using vet_sized [of ip p] by (simp add: reachable_def well_sized_def)

lemma dial_first_none:
  "list_all well_sized cs \<Longrightarrow> \<not> list_ex (reachable p) cs \<Longrightarrow> dial_first dial address p cs w = (Inl ErrDenied, w)"
  by (induction cs) (auto simp: well_sized_exact split: option.split)

lemma dial_first_reachable:
  "list_all well_sized pre \<Longrightarrow> \<not> list_ex (reachable p) pre \<Longrightarrow> well_sized (Some ip) \<Longrightarrow> reachable p (Some ip)
    \<Longrightarrow> dial_first dial address p (pre @ Some ip # post) w = dial (address ip) w"
  by (induction pre) (auto simp: well_sized_exact split: option.split)

text \<open>
  Once the host is resolved, the dialer connects to the first candidate that the table of ranges accepts, by its
  address and never by its name; when the table accepts no candidate it reports a denial and makes no connection.
\<close>

theorem dialer_connects_first_allowed:
  assumes split: "splitHostPort addr = Inr (host, port)"
    and candidates: "(case parseIP host of Some ip \<Rightarrow> Inr [Some ip] | None \<Rightarrow> lookup host w) = Inr cs"
    and sized: "list_all well_sized cs"
  shows "(\<exists>pre ip post. cs = pre @ Some ip # post \<and> \<not> list_ex (reachable allowPrivate) pre \<and> allowed ip allowPrivate
        \<and> PinnedDialer lookup splitHostPort parseIP joinHostPort allowPrivate dial network addr w
            = dial network (joinHostPort ip port) w)
    \<or> (\<not> list_ex (reachable allowPrivate) cs
        \<and> PinnedDialer lookup splitHostPort parseIP joinHostPort allowPrivate dial network addr w = (Inl ErrDenied, w))"
proof (cases "list_ex (reachable allowPrivate) cs")
  case True
  then have "\<exists>c\<in>set cs. reachable allowPrivate c" by (simp add: list_ex_iff)
  then obtain pre c post where cs: "cs = pre @ c # post" "reachable allowPrivate c" "\<forall>x\<in>set pre. \<not> reachable allowPrivate x"
    by (rule split_list_first_propE) auto
  then obtain ip where ip: "c = Some ip" "allowed ip allowPrivate"
    by (auto simp: reachable_def split: option.splits)
  have none: "\<not> list_ex (reachable allowPrivate) pre" using cs(3) by (simp add: list_ex_iff)
  have "PinnedDialer lookup splitHostPort parseIP joinHostPort allowPrivate dial network addr w
      = dial network (joinHostPort ip port) w"
    unfolding PinnedDialer_def split sum.case prod.case candidates
    using dial_first_reachable [OF _ none, of ip] sized cs(1, 2) ip(1) by (simp del: dial_first.simps)
  then show ?thesis using cs(1) ip none by blast
next
  case False
  then show ?thesis
    unfolding PinnedDialer_def split sum.case prod.case candidates by (intro disjI2 conjI dial_first_none [OF sized])
qed

text \<open>A dial that records the address, and a name with a metadata answer before a public one.\<close>

theorem dialer_connects_first_allowed_witness:
  "PinnedDialer (\<lambda>_ _. Inr [Some [169, 254, 169, 254], Some [8, 8, 8, 8]]) (\<lambda>_. Inr (''host'', ''443'')) (\<lambda>_. None)
     (\<lambda>ip port. if ip = [8, 8, 8, 8] then ''8.8.8.8:443'' else port) False (\<lambda>_ a w. (Inr a, a # w)) ''tcp'' ''host:443'' []
   = (Inr ''8.8.8.8:443'', [''8.8.8.8:443''])"
proof -
  let ?cs = "[Some [169, 254, 169, 254], Some [8, 8, 8, 8]] :: IP list"
  have metadata: "\<not> reachable False (Some [169, 254, 169, 254])" and public: "reachable False (Some [8, 8, 8, 8])"
    by (simp_all add: reachable_def allowed_bytes)
  note dialled = dialer_connects_first_allowed
    [where splitHostPort = "\<lambda>_. Inr (''host'', ''443'')" and parseIP = "\<lambda>_. None" and lookup = "\<lambda>_ _. Inr ?cs" and cs = ?cs
       and addr = "''host:443''" and host = "''host''" and port = "''443''" and w = "[]" and network = "''tcp''"
       and allowPrivate = False and dial = "\<lambda>_ a w. (Inr a, a # w)"
       and joinHostPort = "\<lambda>ip port. if ip = [8, 8, 8, 8] then ''8.8.8.8:443'' else port"]
  have two: "pre @ Some ip # post = ?cs \<longleftrightarrow> pre = [] \<and> ip = [169, 254, 169, 254] \<and> post = [Some [8, 8, 8, 8]]
      \<or> pre = [Some [169, 254, 169, 254]] \<and> ip = [8, 8, 8, 8] \<and> post = []" for pre post and ip :: "byte list"
    by (auto simp: Cons_eq_append_conv append_eq_Cons_conv)
  show ?thesis
    using dialled metadata public by (auto simp: two eq_commute [of ?cs] well_sized_def reachable_def)
qed

end
