(* ===== verification/Redaction.thy ===== *)
theory Redaction
  imports Palai_Base "HOL-Library.Char_ord" "HOL-Library.List_Lexorder" "HOL-Library.Multiset"
begin

text \<open>
  What a tool call is given as its environment and what of it may be shown, from
  \<^verbatim>\<open>src/packages/tool-broker\<close>: the rule for environment keys (\<^verbatim>\<open>env.go\<close>: \<open>ValidEnvKey\<close>, \<open>LayerEnv\<close>,
  \<open>EnvValueList\<close>), the masking of secrets by shape and by value (\<^verbatim>\<open>redact.go\<close>: \<open>RedactSecrets\<close>,
  \<open>RedactValues\<close>, \<open>HostSecretValues\<close>, \<open>HostSecretFileValues\<close> and the walks over a decoded result) and
  the one-line summary of a call's arguments (\<^verbatim>\<open>summary.go\<close>: \<open>ArgumentSummary\<close>, \<open>truncateSummary\<close>).

  A Go map is the association list of its entries in the order in which a \<^verbatim>\<open>range\<close> loop meets them, so a
  theorem about every such list covers every order.  A regular expression of the source is a matcher
  that returns the length of the match at the head of a text and what replaces it: in each pattern the
  repeated class and what follows it are disjoint, so the leftmost match that RE2 reports is the one
  with the longest runs.  Under \<^verbatim>\<open>(?i)\<close> the classes also contain the two letters outside ASCII that
  fold to \<^verbatim>\<open>s\<close> and \<^verbatim>\<open>k\<close>.  The process environment, \<^verbatim>\<open>os.Stat\<close>, \<^verbatim>\<open>os.ReadFile\<close> and the JSON decoder are
  arguments.
\<close>

type_synonym entries = "(string \<times> string) list"

section \<open>Environment keys\<close>

definition upper :: "char \<Rightarrow> bool" where
  "upper c \<longleftrightarrow> (of_char c :: nat) \<in> {65 .. 90}"

definition lower :: "char \<Rightarrow> bool" where
  "lower c \<longleftrightarrow> (of_char c :: nat) \<in> {97 .. 122}"

definition envKeyPattern :: "string \<Rightarrow> bool" where
  "envKeyPattern key \<longleftrightarrow> (case key of [] \<Rightarrow> False
     | c # cs \<Rightarrow> upper c \<and> list_all (\<lambda>d. upper d \<or> is_digit d \<or> d = CHR ''_'') cs)"

definition ValidEnvKey :: "string \<Rightarrow> unit result" where
  "ValidEnvKey key =
     (if \<not> envKeyPattern key then Inl (Errorf [] ''environment key must match the pattern'')
      else if prefix ''PALAI_'' key then Inl (Errorf [] ''environment key is reserved: the PALAI_ prefix'')
      else Inr ())"

text \<open>\<^verbatim>\<open>strings.Cut(entry, "=")\<close>, with \<open>None\<close> where the separator is missing.\<close>

definition Cut :: "string \<Rightarrow> (string \<times> string) option" where
  "Cut entry = (case dropWhile (\<lambda>c. c \<noteq> CHR ''='') entry of [] \<Rightarrow> None
     | _ # value \<Rightarrow> Some (takeWhile (\<lambda>c. c \<noteq> CHR ''='') entry, value))"

definition taken :: "string list \<Rightarrow> string list \<Rightarrow> string \<Rightarrow> bool" where
  "taken base reserved name \<longleftrightarrow>
     name \<in> set reserved \<or> list_ex (\<lambda>entry. map_option fst (Cut entry) = Some name) base"

fun layer_keys :: "(string \<Rightarrow> bool) \<Rightarrow> entries \<Rightarrow> string list \<Rightarrow> string list \<Rightarrow> string list result" where
  "layer_keys used extra [] out = Inr out"
| "layer_keys used extra (key # keys) out =
     bind_result (ValidEnvKey key) (\<lambda>_.
       if used key then Inl (Errorf [] ''environment key is reserved by the sandbox's own environment'')
       else layer_keys used extra keys (out @ [key @ ''='' @ the (map_of extra key)]))"

definition LayerEnv :: "string list \<Rightarrow> string list \<Rightarrow> entries \<Rightarrow> string list result" where
  "LayerEnv base reserved extra =
     (if extra = [] then Inr base
      else layer_keys (taken base reserved) extra (sort (map fst extra)) base)"

definition EnvValueList :: "entries \<Rightarrow> string list" where
  "EnvValueList env = map snd env"

section \<open>Replacing matches\<close>

text \<open>
  Every match from left to right, without overlap.  A matcher returns \<open>Some (n, t)\<close> when the first \<open>n\<close>
  characters match, \<open>n > 0\<close>, and \<open>t\<close> replaces them.
\<close>

function substitute :: "(string \<Rightarrow> (nat \<times> string) option) \<Rightarrow> string \<Rightarrow> string" where
  "substitute m [] = []"
| "substitute m (c # s) = (case m (c # s) of
     None \<Rightarrow> c # substitute m s
   | Some (n, t) \<Rightarrow> t @ substitute m (drop (n - 1) s))"
  by pat_completeness auto
termination by (relation "measure (\<lambda>(m, s). length s)") auto

definition mask :: string where
  "mask = ''***''"

definition literal_match :: "string \<Rightarrow> string \<Rightarrow> (nat \<times> string) option" where
  "literal_match v s = (if prefix v s then Some (length v, mask) else None)"

definition ReplaceAll :: "string \<Rightarrow> string \<Rightarrow> string" where
  "ReplaceAll s v = substitute (literal_match v) s"

section \<open>Secrets by shape\<close>

definition run :: "(char \<Rightarrow> bool) \<Rightarrow> string \<Rightarrow> nat" where
  "run P s = length (takeWhile P s)"

definition alnum :: "char \<Rightarrow> bool" where
  "alnum c \<longleftrightarrow> upper c \<or> lower c \<or> is_digit c"

definition token_char :: "char \<Rightarrow> bool" where
  "token_char c \<longleftrightarrow> alnum c \<or> c \<in> {CHR ''.'', CHR ''_'', CHR ''-''}"

definition re_space :: "char \<Rightarrow> bool" where
  "re_space c \<longleftrightarrow> (of_char c :: nat) \<in> {9, 10, 12, 13, 32}"

definition keyed_match :: "string \<Rightarrow> (char \<Rightarrow> bool) \<Rightarrow> nat \<Rightarrow> string \<Rightarrow> (nat \<times> string) option" where
  "keyed_match lit P least s =
     (let k = run P (drop (length lit) s)
      in if prefix lit s \<and> least \<le> k then Some (length lit + k, mask) else None)"

text \<open>The letters that fold to \<^verbatim>\<open>s\<close> (U+017F) and \<^verbatim>\<open>k\<close> (U+212A).\<close>

definition long_s :: string where
  "long_s = bytes [197, 191]"

definition kelvin :: string where
  "kelvin = bytes [226, 132, 170]"

definition folded_token :: "string \<Rightarrow> nat" where
  "folded_token s = (case s of [] \<Rightarrow> 0 | c # _ \<Rightarrow>
     if token_char c then 1 else if prefix long_s s then 2 else if prefix kelvin s then 3 else 0)"

function folded_run :: "string \<Rightarrow> nat \<times> nat" where
  "folded_run s = (let k = folded_token s in
     if k = 0 then (0, 0) else let (runes, width) = folded_run (drop k s) in (Suc runes, k + width))"
  by pat_completeness auto
termination
  by (relation "measure length") (auto simp: folded_token_def split: list.splits if_splits)

declare folded_run.simps [simp del]

definition bearer_match :: "string \<Rightarrow> (nat \<times> string) option" where
  "bearer_match s =
     (let gap = run re_space (drop 6 s); (runes, width) = folded_run (drop (6 + gap) s)
      in if map ascii_lower (take 6 s) = ''bearer'' \<and> 1 \<le> gap \<and> 8 \<le> runes
         then Some (6 + gap + width, mask) else None)"

definition scheme_char :: "char \<Rightarrow> bool" where
  "scheme_char c \<longleftrightarrow> alnum c \<or> c \<in> {CHR ''+'', CHR ''.'', CHR ''-''}"

definition password_char :: "char \<Rightarrow> bool" where
  "password_char c \<longleftrightarrow> \<not> re_space c \<and> c \<notin> {CHR ''/'', CHR ''@''}"

definition user_char :: "char \<Rightarrow> bool" where
  "user_char c \<longleftrightarrow> password_char c \<and> c \<noteq> CHR '':''"

definition url_match :: "string \<Rightarrow> (nat \<times> string) option" where
  "url_match s = (case s of [] \<Rightarrow> None | c # cs \<Rightarrow>
     let scheme = 1 + run scheme_char cs;
         user = run user_char (drop (scheme + 3) s);
         password = run password_char (drop (scheme + 3 + user + 1) s)
     in if (upper c \<or> lower c) \<and> prefix ''://'' (drop scheme s)
           \<and> 1 \<le> user \<and> prefix '':'' (drop (scheme + 3 + user) s)
           \<and> 1 \<le> password \<and> prefix ''@'' (drop (scheme + 3 + user + 1 + password) s)
        then Some (scheme + 3 + user + 1 + password + 1, take (scheme + 3) s @ mask @ ''@'')
        else None)"

definition github_match :: "string \<Rightarrow> (nat \<times> string) option" where
  "github_match s = (if 3 \<le> length s \<and> s ! 2 \<in> {CHR ''p'', CHR ''o'', CHR ''s'', CHR ''u''}
     then keyed_match [CHR ''g'', CHR ''h'', s ! 2, CHR ''_''] alnum 20 s else None)"

definition secretPatterns :: "(string \<Rightarrow> (nat \<times> string) option) list" where
  "secretPatterns =
     [keyed_match ''sk-'' token_char 6,
      bearer_match,
      github_match,
      keyed_match ''github_pat_'' (\<lambda>c. alnum c \<or> c = CHR ''_'') 20,
      url_match]"

definition RedactSecrets :: "string \<Rightarrow> string" where
  "RedactSecrets s = foldl (\<lambda>s m. substitute m s) s secretPatterns"

section \<open>Secrets by value\<close>

definition RedactValues :: "string \<Rightarrow> string list \<Rightarrow> string" where
  "RedactValues s values = foldl (\<lambda>s v. if length v < 4 then s else ReplaceAll s v) s values"

function fold_case :: "string \<Rightarrow> string" where
  "fold_case [] = []"
| "fold_case (c # s) =
     (if prefix long_s (c # s) then CHR ''s'' # fold_case (drop 1 s)
      else if prefix kelvin (c # s) then CHR ''k'' # fold_case (drop 2 s)
      else ascii_lower c # fold_case s)"
  by pat_completeness auto
termination by (relation "measure length") auto

definition sensitiveHostEnvNames :: "string \<Rightarrow> bool" where
  "sensitiveHostEnvNames name \<longleftrightarrow> (let n = fold_case name in
     list_ex (\<lambda>w. sublist w n) [''secret'', ''token'', ''password'', ''passwd'', ''credential'',
       ''apikey'', ''api_key'', ''dsn'', ''connection_string'']
     \<or> suffix ''_key'' n)"

definition host_secret :: "string \<Rightarrow> string option" where
  "host_secret entry = (case Cut entry of
     None \<Rightarrow> None
   | Some (name, value) \<Rightarrow>
       if value = [] \<or> \<not> sensitiveHostEnvNames name then None
       else if prefix ''/'' value then None else Some value)"

definition HostSecretValues :: "string list \<Rightarrow> string list" where
  "HostSecretValues environ = List.map_filter host_secret environ"

record FileInfo =
  IsRegular :: bool
  Size :: int

definition host_secret_file ::
  "(string \<Rightarrow> FileInfo option) \<Rightarrow> (string \<Rightarrow> string option) \<Rightarrow> string \<Rightarrow> string option" where
  "host_secret_file stat readFile entry = (case Cut entry of
     None \<Rightarrow> None
   | Some (name, path) \<Rightarrow>
       if \<not> prefix ''/'' path \<or> \<not> sensitiveHostEnvNames name then None
       else (case stat path of
          None \<Rightarrow> None
        | Some info \<Rightarrow>
            if \<not> IsRegular info \<or> Size info = 0 \<or> 64 * 1024 < Size info then None
            else (case readFile path of
               None \<Rightarrow> None
             | Some raw \<Rightarrow> let value = TrimSpace raw in if 4 \<le> length value then Some value else None)))"

definition HostSecretFileValues ::
  "(string \<Rightarrow> FileInfo option) \<Rightarrow> (string \<Rightarrow> string option) \<Rightarrow> string list \<Rightarrow> string list" where
  "HostSecretFileValues stat readFile environ = List.map_filter (host_secret_file stat readFile) environ"

section \<open>Decoded results\<close>

definition assign :: "(string \<times> json) list \<Rightarrow> string \<times> json \<Rightarrow> (string \<times> json) list" where
  "assign out kv = AList.update (fst kv) (snd kv) out"

fun walk :: "(string \<Rightarrow> string) \<Rightarrow> json \<Rightarrow> json" where
  "walk f (JStr s) = JStr (f s)"
| "walk f (JObj kvs) = JObj (foldl assign [] (map (\<lambda>kv. (f (fst kv), walk f (snd kv))) kvs))"
| "walk f (JArr xs) = JArr (map (walk f) xs)"
| "walk f v = v"

definition RedactAnyValues :: "json \<Rightarrow> string list \<Rightarrow> json" where
  "RedactAnyValues v values = (if values = [] then v else walk (\<lambda>s. RedactValues s values) v)"

definition RedactAnySecrets :: "json \<Rightarrow> json" where
  "RedactAnySecrets v = walk RedactSecrets v"

section \<open>The summary of a call\<close>

definition ArgumentSummaryLimit :: nat where
  "ArgumentSummaryLimit = 256"

definition argumentSummaryEllipsis :: string where
  "argumentSummaryEllipsis = bytes [226, 128, 166]"

definition stringField :: "(string \<times> json) list \<Rightarrow> string \<Rightarrow> string" where
  "stringField args key = (case map_of args key of Some (JStr s) \<Rightarrow> s | _ \<Rightarrow> [])"

definition joinFields :: "string list \<Rightarrow> string" where
  "joinFields parts = Join (filter (\<lambda>p. p \<noteq> []) parts) '' ''"

definition argv_text :: "(string \<times> json) list \<Rightarrow> string" where
  "argv_text a = Join (case map_of a ''argv'' of
       Some (JArr items) \<Rightarrow> concat (map (\<lambda>it. case it of JStr s \<Rightarrow> [s] | _ \<Rightarrow> []) items)
     | _ \<Rightarrow> []) '' ''"

definition argumentSummarisers :: "(string \<times> ((string \<times> json) list \<Rightarrow> string)) list" where
  "argumentSummarisers =
     [(''palai.workspace.shell'', argv_text),
      (''palai.workspace.file'', \<lambda>a. joinFields [stringField a ''op'', stringField a ''path'']),
      (''str_replace_based_edit_tool'', \<lambda>a. joinFields [stringField a ''command'', stringField a ''path'']),
      (''palai.workspace.commit'', \<lambda>a. takeWhile (\<lambda>c. c \<noteq> char_of (10 :: nat)) (stringField a ''message'')),
      (''palai.publish.pull_request'', \<lambda>a. stringField a ''title'')]"

text \<open>The loop that moves the cut back to the start of a character; \<open>continuation\<close> negates \<^verbatim>\<open>utf8.RuneStart\<close>.\<close>

fun rune_cut :: "string \<Rightarrow> nat \<Rightarrow> nat" where
  "rune_cut s 0 = 0"
| "rune_cut s (Suc n) = (if continuation (s ! Suc n) then rune_cut s n else Suc n)"

definition truncateSummary :: "string \<Rightarrow> string" where
  "truncateSummary s =
     (if length s \<le> ArgumentSummaryLimit then s
      else take (rune_cut s (ArgumentSummaryLimit - length argumentSummaryEllipsis)) s
           @ argumentSummaryEllipsis)"

definition ArgumentSummary :: "(string \<Rightarrow> json option) \<Rightarrow> string \<Rightarrow> string \<Rightarrow> string" where
  "ArgumentSummary unmarshal name arguments =
     (case map_of argumentSummarisers name of
        None \<Rightarrow> []
      | Some render \<Rightarrow>
          if arguments = [] then []
          else (case (case unmarshal arguments of
                        Some (JObj kvs) \<Rightarrow> Some kvs | Some JNull \<Rightarrow> Some [] | _ \<Rightarrow> None) of
             None \<Rightarrow> []
           | Some args \<Rightarrow>
               let summary = TrimSpace (render args)
               in if summary = [] then [] else truncateSummary (RedactSecrets summary)))"

section \<open>What masking by value leaves\<close>

lemma mask_unfold: "mask = [CHR ''*'', CHR ''*'', CHR ''*'']"
  by (simp add: mask_def)

lemma starfree_prefix_mask:
  "prefix w (mask @ s) \<Longrightarrow> CHR ''*'' \<notin> set w \<Longrightarrow> w = []"
  by (cases w) (auto simp: mask_unfold)

lemma starfree_sublist_mask:
  "sublist w (mask @ s) \<Longrightarrow> CHR ''*'' \<notin> set w \<Longrightarrow> sublist w s"
  by (cases w) (auto simp: mask_unfold sublist_Cons_right)

lemma replaced_prefix:
  "prefix w (ReplaceAll s v) \<Longrightarrow> CHR ''*'' \<notin> set w \<Longrightarrow> prefix w s"
  unfolding ReplaceAll_def
proof (induction "literal_match v" s arbitrary: w rule: substitute.induct)
  case (2 c s)
  show ?case
  proof (cases "prefix v (c # s)")
    case True
    with 2 show ?thesis by (auto simp: literal_match_def dest: starfree_prefix_mask)
  next
    case False
    with 2 show ?thesis by (cases w) (auto simp: literal_match_def)
  qed
qed simp

text \<open>A text without the mask's character that appears after a replacement appeared before it.\<close>

lemma replaced_sublist:
  "sublist w (ReplaceAll s v) \<Longrightarrow> CHR ''*'' \<notin> set w \<Longrightarrow> sublist w s"
  unfolding ReplaceAll_def
proof (induction "literal_match v" s rule: substitute.induct)
  case (2 c s)
  show ?case
  proof (cases "prefix v (c # s)")
    case True
    with 2 have "sublist w (drop (length v - 1) s)"
      by (auto simp: literal_match_def dest: starfree_sublist_mask)
    then have "sublist w s" by (meson sublist_drop sublist_order.order_trans)
    then show ?thesis by (simp add: sublist_Cons_right)
  next
    case False
    have "prefix w (ReplaceAll (c # s) v) \<or> sublist w (substitute (literal_match v) s)"
      using 2 False by (auto simp: literal_match_def ReplaceAll_def sublist_Cons_right)
    then show ?thesis
      using 2 False by (auto simp: literal_match_def sublist_Cons_right dest: replaced_prefix)
  qed
qed simp

lemma replaced_absent:
  assumes "v \<noteq> []" and "CHR ''*'' \<notin> set v"
  shows "\<not> sublist v (ReplaceAll s v)"
  unfolding ReplaceAll_def
proof (induction "literal_match v" s rule: substitute.induct)
  case (2 c s)
  show ?case
  proof (cases "prefix v (c # s)")
    case True
    with 2 assms show ?thesis by (auto simp: literal_match_def dest: starfree_sublist_mask)
  next
    case False
    have "\<not> prefix v (ReplaceAll (c # s) v)" using False assms(2) replaced_prefix by blast
    with 2 False show ?thesis by (auto simp: literal_match_def ReplaceAll_def sublist_Cons_right)
  qed
qed (use assms in simp)

lemma RedactValues_snoc:
  "RedactValues s (values @ [v]) =
     (if length v < 4 then RedactValues s values else ReplaceAll (RedactValues s values) v)"
  by (simp add: RedactValues_def)

lemma RedactValues_absent:
  assumes "v \<in> set values" and "4 \<le> length v" and "CHR ''*'' \<notin> set v"
  shows "\<not> sublist v (RedactValues s values)"
  using assms(1)
proof (induction "values" rule: rev_induct)
  case (snoc u us)
  show ?case
  proof (cases "u = v")
    case True
    moreover have "v \<noteq> []" using assms(2) by auto
    ultimately show ?thesis using replaced_absent [of v] assms by (simp add: RedactValues_snoc)
  next
    case False
    with snoc assms(3) show ?thesis by (auto simp: RedactValues_snoc dest: replaced_sublist)
  qed
qed simp

fun texts :: "json \<Rightarrow> string list" where
  "texts (JStr s) = [s]"
| "texts (JObj kvs) = concat (map (\<lambda>kv. fst kv # texts (snd kv)) kvs)"
| "texts (JArr xs) = concat (map texts xs)"
| "texts _ = []"

lemma set_update_subset: "set (AList.update k x kvs) \<subseteq> insert (k, x) (set kvs)"
  by (induction kvs) auto

lemma assigned_subset: "set (foldl assign out kvs) \<subseteq> set out \<union> set kvs"
proof (induction kvs arbitrary: out)
  case (Cons kv kvs)
  have "set (assign out kv) \<subseteq> insert kv (set out)"
    using set_update_subset [of "fst kv" "snd kv" out] by (simp add: assign_def)
  with Cons [of "assign out kv"] show ?case by auto
qed simp

text \<open>Every string of a walked structure, the keys of its objects included, is an output of the redactor.\<close>

lemma walk_texts: "t \<in> set (texts (walk f d)) \<Longrightarrow> \<exists>s. t = f s"
proof (induction d)
  case (JObj kvs)
  let ?new = "map (\<lambda>kv. (f (fst kv), walk f (snd kv))) kvs"
  from JObj.prems obtain kv where "kv \<in> set (foldl assign [] ?new)"
    and t: "t = fst kv \<or> t \<in> set (texts (snd kv))" by auto
  with assigned_subset [of "[]" ?new] obtain old where "old \<in> set kvs"
    and "kv = (f (fst old), walk f (snd old))" by auto
  with t JObj.IH [of old "snd old"] show ?case by (cases old) auto
qed auto

text \<open>C13.
  After the values of an attempt's environment are masked in a decoded tool result, none of them of
  four bytes or more occurs in any string of the result, in the keys of its objects no more than in its
  values, whatever the other values are and in whatever order they are masked; the value may not
  contain the character of the mask itself.
\<close>

theorem redacted_values_absent:
  assumes "v \<in> set values" and "4 \<le> length v" and "CHR ''*'' \<notin> set v"
    and "t \<in> set (texts (RedactAnyValues d values))"
  shows "\<not> sublist v t"
proof -
  from assms(1,4) obtain s where "t = RedactValues s values"
    by (auto simp: RedactAnyValues_def dest!: walk_texts split: if_splits)
  with RedactValues_absent [OF assms(1-3)] show ?thesis by simp
qed

theorem redacted_values_absent_witness:
  "\<not> sublist ''hunter2'' ''login with ***''
   \<and> ''login with ***'' \<in> set (texts (RedactAnyValues (JObj [(''log'', JStr ''login with hunter2'')]) [''ok'', ''hunter2'']))"
proof -
  have "''login with ***'' \<in> set (texts (RedactAnyValues (JObj [(''log'', JStr ''login with hunter2'')]) [''ok'', ''hunter2'']))"
    by code_simp
  moreover from this have "\<not> sublist ''hunter2'' ''login with ***''"
    using redacted_values_absent [of "''hunter2''" "[''ok'', ''hunter2'']" "''login with ***''"
      "JObj [(''log'', JStr ''login with hunter2'')]"] by auto
  ultimately show ?thesis by simp
qed

lemma ReplaceAll_absent: "v \<noteq> [] \<Longrightarrow> \<not> sublist v s \<Longrightarrow> ReplaceAll s v = s"
  unfolding ReplaceAll_def
  by (induction "literal_match v" s rule: substitute.induct)
    (auto simp: literal_match_def sublist_Cons_right)

lemma ReplaceAll_head: "v \<noteq> [] \<Longrightarrow> ReplaceAll (v @ s) v = mask @ ReplaceAll s v"
  by (cases v) (simp_all add: ReplaceAll_def literal_match_def)

text \<open>C37.
  The order of the values decides what stays readable: if one value is the beginning of another, masking
  the shorter one first leaves the rest of the longer one in the text, masking the longer one first
  leaves nothing.  \<^verbatim>\<open>EnvValueList\<close> returns the values in the iteration order of a Go map.
\<close>

theorem redaction_order_leaks:
  assumes "4 \<le> length v" and "CHR ''*'' \<notin> set v" and "\<not> sublist v w"
  shows "RedactValues (v @ w) (EnvValueList [(k, v), (k', v @ w)]) = mask @ w
    \<and> RedactValues (v @ w) (EnvValueList [(k', v @ w), (k, v)]) = mask"
proof -
  have v: "v \<noteq> []" using assms(1) by auto
  have "\<not> sublist (v @ w) w" using v by (auto dest: sublist_length_le)
  then have gone: "\<not> sublist (v @ w) (mask @ w)"
    using v assms(2) by (cases v) (auto simp: mask_unfold sublist_Cons_right)
  have first: "ReplaceAll (v @ w) v = mask @ w" using v assms(3) by (simp add: ReplaceAll_head ReplaceAll_absent)
  from gone first v assms(1)
  have "RedactValues (v @ w) (EnvValueList [(k, v), (k', v @ w)]) = mask @ w"
    by (simp add: RedactValues_def EnvValueList_def ReplaceAll_absent)
  moreover have "\<not> sublist v mask" using v assms(2) starfree_sublist_mask [of v "[]"] by auto
  moreover have "ReplaceAll (v @ w) (v @ w) = mask" using v ReplaceAll_head [of "v @ w" "[]"] by (simp add: ReplaceAll_def)
  ultimately show ?thesis
    using v assms(1) by (simp add: RedactValues_def EnvValueList_def ReplaceAll_absent)
qed

theorem redaction_order_leaks_witness:
  "RedactValues ''palai_prod'' (EnvValueList [(''DB_USER'', ''palai''), (''DB_PASSWORD'', ''palai_prod'')]) = ''***_prod''
   \<and> RedactValues ''palai_prod'' (EnvValueList [(''DB_PASSWORD'', ''palai_prod''), (''DB_USER'', ''palai'')]) = ''***''"
  using redaction_order_leaks [of "''palai''" "''_prod''" "''DB_USER''" "''DB_PASSWORD''"]
  by (simp add: mask_def sublist_code)

section \<open>What an attempt's environment adds\<close>

lemma ValidEnvKey_Inr: "ValidEnvKey key = Inr u \<longleftrightarrow> envKeyPattern key \<and> \<not> prefix ''PALAI_'' key"
  by (cases u) (simp add: ValidEnvKey_def)

lemma layer_keys_Inr:
  "layer_keys used extra keys out = Inr env \<longleftrightarrow>
     (\<forall>key \<in> set keys. envKeyPattern key \<and> \<not> prefix ''PALAI_'' key \<and> \<not> used key)
     \<and> env = out @ map (\<lambda>key. key @ ''='' @ the (map_of extra key)) keys"
  by (induction keys arbitrary: out) (auto simp: bind_result_eq_Inr ValidEnvKey_Inr)

lemma sort_entries:
  assumes "distinct (map fst (extra :: entries))"
  shows "map (\<lambda>key. key @ ''='' @ the (map_of extra key)) (sort (map fst extra))
       = map (\<lambda>(key, v). key @ ''='' @ v) (sort_key fst extra)"
proof -
  have "sort (map fst extra) = map fst (sort_key fst extra)"
    by (rule properties_for_sort) simp_all
  moreover have "the (map_of extra key) = v" if "(key, v) \<in> set extra" for key v
    using that assms by simp
  ultimately show ?thesis by (auto simp: comp_def)
qed

lemma layer_order_irrelevant:
  assumes "distinct (map fst extra)" and "mset extra' = mset extra"
  shows "LayerEnv base reserved extra' = LayerEnv base reserved extra"
proof -
  have keys: "mset (map fst extra') = mset (map fst extra)" using assms(2) by (metis mset_map)
  then have "distinct (map fst extra')" using assms(1) by (metis mset_eq_imp_distinct_iff)
  then have "map_of extra' = map_of extra"
    using assms by (metis map_of_inject_set mset_eq_setD)
  moreover have "sort (map fst extra') = sort (map fst extra)" using keys by (metis sorted_list_of_multiset_mset)
  moreover have "extra' = [] \<longleftrightarrow> extra = []" using assms(2) by (cases extra; cases extra') auto
  moreover have "layer_keys used extra' keys out = layer_keys used extra keys out"
    if "map_of extra' = map_of extra" for used keys out
    using that by (induction keys arbitrary: out) simp_all
  ultimately show ?thesis by (simp add: LayerEnv_def)
qed

text \<open>C22.
  The environment of a command is refused exactly if one of the attempt's keys has the wrong shape, has
  the platform's prefix, or is a name that the sandbox sets or claims; otherwise it is the sandbox's own
  environment followed by the attempt's entries sorted by key, so that it is the same for every order in
  which the map yields them.
\<close>

theorem layer_env_exact:
  assumes "distinct (map fst extra)" and "mset extra' = mset extra"
  shows "LayerEnv base reserved extra' = Inr env \<longleftrightarrow>
     (\<forall>(key, v) \<in> set extra. envKeyPattern key \<and> \<not> prefix ''PALAI_'' key \<and> \<not> taken base reserved key)
     \<and> env = base @ map (\<lambda>(key, v). key @ ''='' @ v) (sort_key fst extra)"
proof -
  have "LayerEnv base reserved extra = Inr env \<longleftrightarrow>
     (\<forall>key \<in> fst ` set extra. envKeyPattern key \<and> \<not> prefix ''PALAI_'' key \<and> \<not> taken base reserved key)
     \<and> env = base @ map (\<lambda>(key, v). key @ ''='' @ v) (sort_key fst extra)"
    using sort_entries [OF assms(1)] by (auto simp: LayerEnv_def layer_keys_Inr)
  with layer_order_irrelevant [OF assms] show ?thesis by (auto split: prod.splits)
qed

theorem layer_env_exact_witness:
  "LayerEnv [''PATH=/bin''] [''HOME''] [(''JIRA_TOKEN'', ''t''), (''GH_TOKEN'', ''a=b'')]
     = Inr [''PATH=/bin'', ''GH_TOKEN=a=b'', ''JIRA_TOKEN=t'']"
proof -
  have "\<forall>(key, v) \<in> set [(''GH_TOKEN'', ''a=b''), (''JIRA_TOKEN'', ''t'')].
      envKeyPattern key \<and> \<not> prefix ''PALAI_'' key \<and> \<not> taken [''PATH=/bin''] [''HOME''] key"
    by code_simp
  moreover have "[''PATH=/bin''] @ map (\<lambda>(key, v). key @ ''='' @ v) (sort_key fst [(''GH_TOKEN'', ''a=b''), (''JIRA_TOKEN'', ''t'')])
      = [''PATH=/bin'', ''GH_TOKEN=a=b'', ''JIRA_TOKEN=t'']"
    by code_simp
  ultimately show ?thesis
    using layer_env_exact [of "[(''GH_TOKEN'', ''a=b''), (''JIRA_TOKEN'', ''t'')]"
      "[(''JIRA_TOKEN'', ''t''), (''GH_TOKEN'', ''a=b'')]" "[''PATH=/bin'']" "[''HOME'']"
      "[''PATH=/bin'', ''GH_TOKEN=a=b'', ''JIRA_TOKEN=t'']"]
    by (simp add: add_mset_commute)
qed

section \<open>What a summary shows\<close>

lemma rune_cut_le: "rune_cut s n \<le> n"
  by (induction n) auto

lemma rune_cut_boundary: "rune_cut s n = 0 \<or> \<not> continuation (s ! rune_cut s n)"
  by (induction n) auto

definition utf8_width :: "char \<Rightarrow> nat" where
  "utf8_width c = (let b = (of_char c :: nat) in if b < 128 then 1 else if 194 \<le> b \<and> b < 224 then 2
     else if 224 \<le> b \<and> b < 240 then 3 else if 240 \<le> b \<and> b < 245 then 4 else 0)"

definition utf8_misfit :: "char \<Rightarrow> nat \<Rightarrow> bool" where
  "utf8_misfit c b1 \<longleftrightarrow> (let b = (of_char c :: nat) in b = 224 \<and> b1 < 160 \<or> b = 237 \<and> b1 \<ge> 160
     \<or> b = 240 \<and> b1 < 144 \<or> b = 244 \<and> b1 \<ge> 144)"

lemma utf8_rune_len_Cons:
  "utf8_rune_len (c # cs) =
     (if utf8_width c = 0 \<or> length cs < utf8_width c - 1 \<or> \<not> list_all continuation (take (utf8_width c - 1) cs)
         \<or> utf8_misfit c (case cs of [] \<Rightarrow> 0 | d # _ \<Rightarrow> of_char d) then 0 else utf8_width c)"
  unfolding utf8_rune_len.simps Let_def utf8_width_def [unfolded Let_def, symmetric]
    utf8_misfit_def [unfolded Let_def, symmetric]
  by simp

lemma utf8_rune_len_Suc:
  "utf8_rune_len (c # cs) = Suc k \<longleftrightarrow> utf8_width c = Suc k \<and> k \<le> length cs
     \<and> list_all continuation (take k cs) \<and> \<not> utf8_misfit c (case cs of [] \<Rightarrow> 0 | d # _ \<Rightarrow> of_char d)"
  unfolding utf8_rune_len_Cons by auto

lemma utf8_narrow_fits: "utf8_width c = 1 \<Longrightarrow> \<not> utf8_misfit c b1"
  by (auto simp: utf8_width_def utf8_misfit_def Let_def split: if_splits)

lemma utf8_rune_len_le: "utf8_rune_len s \<le> length s"
  by (cases s) (auto simp: utf8_rune_len_Cons simp del: utf8_rune_len.simps(2))

lemma utf8_rune_continues:
  assumes "0 < i" and "i < utf8_rune_len s" shows "continuation (s ! i)"
proof -
  from assms obtain c cs k where s: "s = c # cs" and k: "utf8_rune_len s = Suc k"
    by (cases s; cases "utf8_rune_len s") auto
  with assms have "k \<le> length cs" and "list_all continuation (take k cs)" and "i \<le> k"
    using utf8_rune_len_Suc [of c cs k] by simp_all
  with assms(1) have "continuation (cs ! (i - 1))" by (auto simp: list_all_length)
  with assms(1) s show ?thesis by simp
qed

lemma utf8_rune_len_local:
  assumes "utf8_rune_len (c # cs) = Suc k" and "k \<le> length ds" and "take k ds = take k cs"
  shows "utf8_rune_len (c # ds) = Suc k"
proof (cases k)
  case 0
  with assms show ?thesis by (simp add: utf8_rune_len_Suc utf8_narrow_fits del: utf8_rune_len.simps)
next
  case (Suc j)
  with assms obtain b cs' ds' where "cs = b # cs'" and "ds = b # ds'"
    by (cases cs; cases ds) (auto simp: utf8_rune_len_Suc simp del: utf8_rune_len.simps)
  with assms show ?thesis by (simp add: utf8_rune_len_Suc del: utf8_rune_len.simps)
qed

lemma utf8_rune_len_append:
  assumes "utf8_rune_len s = Suc k" shows "utf8_rune_len (take (Suc k) s @ t) = Suc k"
proof (cases s)
  case (Cons c cs)
  with assms utf8_rune_len_le [of s] show ?thesis
    by (auto simp: utf8_rune_len_local [of c cs k] simp del: utf8_rune_len.simps)
qed (use assms in simp)

lemma utf8_valid_append: "utf8_valid s \<Longrightarrow> utf8_valid t \<Longrightarrow> utf8_valid (s @ t)"
proof (induction s rule: utf8_valid.induct)
  case (1 s)
  show ?case
  proof (cases "utf8_rune_len s")
    case 0
    with 1 show ?thesis by (cases "s = []") (auto simp: utf8_valid_stuck)
  next
    case (Suc k)
    have le: "Suc k \<le> length s" using utf8_rune_len_le [of s] Suc by simp
    then have "s \<noteq> []" by auto
    have split: "s @ t = take (Suc k) s @ (drop (Suc k) s @ t)" by simp
    have rune: "utf8_rune_len (s @ t) = Suc k" unfolding split by (rule utf8_rune_len_append [OF Suc])
    have "utf8_valid (drop (Suc k) s @ t)"
      using 1(1) [of "Suc k"] 1(2,3) Suc le \<open>s \<noteq> []\<close> by (simp add: utf8_valid_step)
    then show ?thesis using utf8_valid_step [OF rune] le by simp
  qed
qed

lemma utf8_valid_take:
  "utf8_valid s \<Longrightarrow> n < length s \<Longrightarrow> \<not> continuation (s ! n) \<Longrightarrow> utf8_valid (take n s)"
proof (induction s arbitrary: n rule: utf8_valid.induct)
  case (1 s)
  show ?case
  proof (cases "utf8_rune_len s")
    case 0
    with 1 show ?thesis by (cases "s = []") (auto simp: utf8_valid_stuck)
  next
    case (Suc k)
    have le: "Suc k \<le> length s" using utf8_rune_len_le [of s] Suc by simp
    then have "s \<noteq> []" by auto
    show ?thesis
    proof (cases "n = 0")
      case False
      with 1(4) Suc utf8_rune_continues [of n s] have n: "Suc k \<le> n" by (cases "n < Suc k") auto
      have "utf8_valid (take (n - Suc k) (drop (Suc k) s))"
        using 1(1) [of "Suc k" "n - Suc k"] 1(2-4) Suc le n \<open>s \<noteq> []\<close> by (simp add: utf8_valid_step)
      moreover have "take n s = take (Suc k) s @ take (n - Suc k) (drop (Suc k) s)"
        using n by (metis le_add_diff_inverse take_add)
      moreover have "utf8_rune_len (take (Suc k) s @ take (n - Suc k) (drop (Suc k) s)) = Suc k"
        by (rule utf8_rune_len_append [OF Suc])
      ultimately show ?thesis using utf8_valid_step le by auto
    qed simp
  qed
qed

lemma truncated_length: "length (truncateSummary s) \<le> 256"
  using rune_cut_le [of s 253]
  by (auto simp: truncateSummary_def ArgumentSummaryLimit_def argumentSummaryEllipsis_def bytes_def)

lemma truncated_valid: "utf8_valid s \<Longrightarrow> utf8_valid (truncateSummary s)"
proof (cases "length s \<le> ArgumentSummaryLimit")
  case False
  let ?n = "rune_cut s (ArgumentSummaryLimit - length argumentSummaryEllipsis)"
  assume "utf8_valid s"
  moreover have "?n < length s"
    using False rune_cut_le [of s "ArgumentSummaryLimit - length argumentSummaryEllipsis"]
    by (simp add: argumentSummaryEllipsis_def bytes_def ArgumentSummaryLimit_def)
  ultimately have "utf8_valid (take ?n s)"
    using rune_cut_boundary [of s] utf8_valid_take by (metis take_0 utf8_valid_Nil)
  moreover have "utf8_valid argumentSummaryEllipsis" by code_simp
  ultimately show ?thesis using False by (simp add: truncateSummary_def utf8_valid_append)
qed (simp add: truncateSummary_def)

text \<open>The arguments that name what a call acts on; none of them is the content that it writes.\<close>

definition identifying :: "string \<Rightarrow> string list" where
  "identifying name = (\<lambda>m. case m of Some ks \<Rightarrow> ks | None \<Rightarrow> []) (map_of
     [(''palai.workspace.shell'', [''argv'']), (''palai.workspace.file'', [''op'', ''path'']),
      (''str_replace_based_edit_tool'', [''command'', ''path'']), (''palai.workspace.commit'', [''message'']),
      (''palai.publish.pull_request'', [''title''])] name)"

lemma summarisers_select:
  "\<forall>(name, render) \<in> set argumentSummarisers. \<forall>a b.
     (\<forall>key \<in> set (identifying name). map_of a key = map_of b key) \<longrightarrow> render a = render b"
  by (simp add: argumentSummarisers_def identifying_def argv_text_def stringField_def)

lemma summariser_selects:
  assumes "map_of argumentSummarisers name = Some render"
    and "\<forall>key \<in> set (identifying name). map_of a key = map_of b key"
  shows "render a = render b"
  using assms summarisers_select map_of_SomeD [OF assms(1)] by blast

text \<open>C26.
  The summary of a call takes at most 256 bytes, its mark of truncation included; a text that is valid
  UTF-8 stays so when it is cut; and two calls of a tool that agree on the arguments which name their
  target have the same summary, whatever content they carry.
\<close>

theorem summary_bounded:
  assumes "unmarshal x = Some (JObj a)" and "unmarshal y = Some (JObj b)" and "x \<noteq> []" and "y \<noteq> []"
    and "\<forall>key \<in> set (identifying name). map_of a key = map_of b key"
    and "utf8_valid s"
  shows "length (ArgumentSummary unmarshal name x) \<le> 256
    \<and> ArgumentSummary unmarshal name x = ArgumentSummary unmarshal name y
    \<and> utf8_valid (truncateSummary s)"
proof (cases "map_of argumentSummarisers name")
  case (Some render)
  with summariser_selects [OF Some assms(5)] assms truncated_valid show ?thesis
    by (auto simp: ArgumentSummary_def Let_def truncated_length)
qed (use assms truncated_valid in \<open>simp add: ArgumentSummary_def\<close>)

definition file_members :: "string \<Rightarrow> (string \<times> json) list" where
  "file_members content = [(''op'', JStr ''write''), (''path'', JStr ''a.txt''), (''content'', JStr content)]"

theorem summary_bounded_witness:
  "ArgumentSummary (\<lambda>x. Some (JObj (file_members x))) ''palai.workspace.file'' ''one'' = ''write a.txt''
   \<and> ArgumentSummary (\<lambda>x. Some (JObj (file_members x))) ''palai.workspace.file'' ''two'' = ''write a.txt''
   \<and> length (ArgumentSummary (\<lambda>x. Some (JObj (file_members x))) ''palai.workspace.file'' ''one'') \<le> 256"
  (is "?one = _ \<and> ?two = _ \<and> _")
proof -
  have agree: "\<forall>key \<in> set (identifying ''palai.workspace.file'').
      map_of (file_members ''one'') key = map_of (file_members ''two'') key"
    by (simp add: identifying_def file_members_def)
  have "?one = ''write a.txt''" by code_simp
  then show ?thesis
    using summary_bounded [OF refl refl _ _ agree utf8_valid_Nil] by simp
qed

end
