(* ===== verification/Output_Contract.thy ===== *)
theory Output_Contract
  imports Palai_Base "HOL-Library.Char_ord" "HOL-Library.List_Lexorder" "HOL-Library.Multiset"
begin

text \<open>
  The output contract of a run, \<^verbatim>\<open>src/packages/outputcontract/contract.go\<close>: the \<^verbatim>\<open>output\<close> object of a
  request (\<open>Parse\<close>), the admission check of its schema (\<open>check\<close>, \<open>Check\<close>) and the validation of an
  answer (\<open>validate\<close>, \<open>Validate\<close>).

  A decoded object is the association list of its members.  Every message of the source is a
  constructor that carries the message's arguments: \<open>refusal\<close> for the errors that wrap
  \<^verbatim>\<open>ErrInvalid\<close>, \<open>violation\<close> for those of validation.  Two values print to the same JSON text exactly if they agree up
  to the order of members (\<open>canonical\<close>); negative zero is identified with zero.  The JSON parser that
  \<open>ValidateText\<close> calls is an argument.

  The section on the contract of the package relates the two functions to declarative readings: \<open>local_ok\<close> and \<open>child\<close> for
  the schemas that are admitted, \<open>conforms\<close>, keyword by keyword after JSON Schema, for the answers.
\<close>

type_synonym obj = "(string \<times> json) list"

definition FormatText :: string where
  "FormatText = ''text''"

definition FormatJSONSchema :: string where
  "FormatJSONSchema = ''json_schema''"

definition maxSchemaDepth :: nat where
  "maxSchemaDepth = 12"

definition maxSchemaProperties :: nat where
  "maxSchemaProperties = 512"

record Contract =
  oc_Format :: string
  oc_Name :: string
  oc_Schema :: obj
  oc_Strict :: bool

definition Demanded :: "Contract \<Rightarrow> bool" where
  "Demanded c \<longleftrightarrow> oc_Format c = FormatJSONSchema \<and> length (oc_Schema c) > 0"

datatype refusal =
    UnknownField string
  | FormatNotString json
  | FormatUnsupported string
  | StrictNotBool json
  | NameNotString json
  | NameTooLong nat
  | SchemaNotObject json
  | SchemaAbsent
  | SchemaUnenforced string
  | NestsTooDeep string
  | UsesReference string string
  | UsesDollar string string
  | UsesUnsupported string string
  | DeclaresNoType string
  | NonStringType string
  | UnknownType string string
  | NonObjectProperties string
  | TooManyProperties
  | NonObjectSubschema string
  | RequiresUndefined string string
  | ArrayWithoutItems string

datatype violation =
    NotPermitted string json json
  | ShouldBe string string string
  | MissingRequired string string
  | ForbiddenProperty string string
  | BelowMinimum string rat rat
  | AboveMaximum string rat rat
  | NoOutput
  | NotJSON string

section \<open>Helpers\<close>

definition sortedKeys :: "(string \<times> 'v) list \<Rightarrow> string list" where
  "sortedKeys m = sort (map fst m)"

definition at_path :: "string \<Rightarrow> string" where
  "at_path path = (if path = [] then ''the output''
     else ''output.'' @ (if prefix ''.'' path then drop 1 path else path))"

definition join :: "string \<Rightarrow> string \<Rightarrow> string" where
  "join path name = (if path = [] then name else path @ ''.'' @ name)"

definition toStrings :: "json option \<Rightarrow> string list" where
  "toStrings v = (case v of Some (JArr xs) \<Rightarrow>
      concat (map (\<lambda>x. case x of JStr s \<Rightarrow> [s] | _ \<Rightarrow> []) xs)
    | _ \<Rightarrow> [])"

definition asNumber :: "json \<Rightarrow> rat option" where
  "asNumber v = (case v of JNum n \<Rightarrow> Some n | _ \<Rightarrow> None)"

definition is_integer :: "rat \<Rightarrow> bool" where
  "is_integer q \<longleftrightarrow> snd (quotient_of q) = 1"

definition kind :: "json \<Rightarrow> string" where
  "kind v = (case v of JNull \<Rightarrow> ''null'' | JBool _ \<Rightarrow> ''a boolean'' | JStr _ \<Rightarrow> ''a string''
     | JArr _ \<Rightarrow> ''an array'' | JObj _ \<Rightarrow> ''an object''
     | JNum n \<Rightarrow> if is_integer n then ''an integer'' else ''a number'')"

fun canonical :: "json \<Rightarrow> json" where
  "canonical (JArr xs) = JArr (map canonical xs)"
| "canonical (JObj kvs) = JObj (sort_key fst (map (\<lambda>kv. (fst kv, canonical (snd kv))) kvs))"
| "canonical v = v"

definition enumContains :: "json \<Rightarrow> json \<Rightarrow> bool" where
  "enumContains raw v = (case raw of JArr xs \<Rightarrow> list_ex (\<lambda>x. canonical x = canonical v) xs | _ \<Rightarrow> True)"

text \<open>The length of \<^verbatim>\<open>[]rune(s)\<close>: a byte that starts no character counts as one.\<close>

function rune_count :: "string \<Rightarrow> nat" where
  "rune_count s = (if s = [] then 0 else Suc (rune_count (drop (max 1 (utf8_rune_len s)) s)))"
  by pat_completeness auto
termination by (relation "measure length") (auto simp: max_def)

declare rune_count.simps [simp del]

section \<open>The admission check\<close>

definition supportedKeywords :: "string list" where
  "supportedKeywords = [''type'', ''properties'', ''required'', ''additionalProperties'', ''items'', ''enum'',
     ''description'', ''title'', ''minimum'', ''maximum'', ''minLength'', ''maxLength'', ''minItems'', ''maxItems'']"

definition supportedTypes :: "string list" where
  "supportedTypes = [''object'', ''array'', ''string'', ''integer'', ''number'', ''boolean'', ''null'']"

fun check_keywords :: "string list \<Rightarrow> string \<Rightarrow> refusal option" where
  "check_keywords [] path = None"
| "check_keywords (key # keys) path =
     (if key = ''$ref'' \<or> key = ''$dynamicRef'' then Some (UsesReference key (at_path path))
      else if prefix ''$'' key then Some (UsesDollar key (at_path path))
      else if key \<notin> set supportedKeywords then Some (UsesUnsupported key (at_path path))
      else check_keywords keys path)"

definition check_type :: "obj \<Rightarrow> string \<Rightarrow> refusal + string" where
  "check_type schema path = (case map_of schema ''type'' of
     None \<Rightarrow> Inl (DeclaresNoType (at_path path))
   | Some (JStr typ) \<Rightarrow>
       if typ = [] then Inl (NonStringType (at_path path))
       else if typ \<notin> set supportedTypes then Inl (UnknownType (at_path path) typ)
       else Inr typ
   | Some _ \<Rightarrow> Inl (NonStringType (at_path path)))"

text \<open>The member \<^verbatim>\<open>properties\<close>: the empty map when it is absent, nothing when it is not an object.\<close>

definition properties_of :: "obj \<Rightarrow> obj option" where
  "properties_of schema = (case map_of schema ''properties'' of
     None \<Rightarrow> Some [] | Some (JObj props) \<Rightarrow> Some props | Some _ \<Rightarrow> None)"

definition check_required :: "obj \<Rightarrow> obj \<Rightarrow> string \<Rightarrow> nat \<Rightarrow> refusal + nat" where
  "check_required schema props path n =
     (case List.find (\<lambda>name. map_of props name = None) (toStrings (map_of schema ''required'')) of
        Some name \<Rightarrow> Inl (RequiresUndefined (at_path path) name)
      | None \<Rightarrow> Inr n)"

function (sequential) check :: "obj \<Rightarrow> string \<Rightarrow> nat \<Rightarrow> nat \<Rightarrow> refusal + nat"
  and check_props :: "obj \<Rightarrow> string list \<Rightarrow> string \<Rightarrow> nat \<Rightarrow> nat \<Rightarrow> refusal + nat"
where
  "check schema path depth n =
     (if depth > maxSchemaDepth then Inl (NestsTooDeep (at_path path))
      else case check_keywords (sortedKeys schema) path of Some e \<Rightarrow> Inl e | None \<Rightarrow>
        (case check_type schema path of Inl e \<Rightarrow> Inl e | Inr typ \<Rightarrow>
           if typ = ''object'' then
             (case properties_of schema of
                None \<Rightarrow> Inl (NonObjectProperties (at_path path))
              | Some props \<Rightarrow>
                  if n + length props > maxSchemaProperties then Inl TooManyProperties
                  else (case check_props props (sortedKeys props) path depth (n + length props) of
                          Inl e \<Rightarrow> Inl e
                        | Inr n' \<Rightarrow> check_required schema props path n'))
           else if typ = ''array'' then
             (case map_of schema ''items'' of
                Some (JObj items) \<Rightarrow> check items (join path ''[]'') (depth + 1) n
              | _ \<Rightarrow> Inl (ArrayWithoutItems (at_path path)))
           else Inr n))"
| "check_props props [] path depth n = Inr n"
| "check_props props (name # names) path depth n =
     (case map_of props name of
        Some (JObj sub) \<Rightarrow>
          (case check sub (join path name) (depth + 1) n of
             Inl e \<Rightarrow> Inl e
           | Inr n' \<Rightarrow> check_props props names path depth n')
      | _ \<Rightarrow> Inl (NonObjectSubschema (at_path (join path name))))"
  by pat_completeness auto

lemma member_smaller:
  assumes "map_of kvs k = Some v" shows "size v < size (JObj kvs)"
proof -
  have "(k, v) \<in> set kvs" using assms by (rule map_of_SomeD)
  then have "size v < Suc (size_list (size_prod (\<lambda>_. 0) size) kvs)"
    by (auto intro!: size_list_estimation' simp: less_Suc_eq_le)
  then show ?thesis by simp
qed

lemma properties_of_smaller:
  assumes "properties_of schema = Some props" and "map_of schema ''type'' \<noteq> None"
  shows "size (JObj props) < size (JObj schema)"
proof (cases "map_of schema ''properties''")
  case None
  with assms obtain v where "props = []" and "map_of schema ''type'' = Some v"
    by (auto simp: properties_of_def)
  then show ?thesis using member_smaller [of schema "''type''" v] by (cases schema) auto
next
  case (Some v)
  with assms have "v = JObj props" by (cases v) (simp_all add: properties_of_def)
  with Some member_smaller show ?thesis by blast
qed

lemma check_type_InrD: "check_type schema path = Inr typ \<Longrightarrow> map_of schema ''type'' = Some (JStr typ)"
  by (auto simp: check_type_def split: option.splits json.splits if_splits)

lemma typed_properties_smaller:
  assumes "check_type schema path = Inr typ" and "properties_of schema = Some props"
  shows "size (JObj props) < size (JObj schema)"
  using properties_of_smaller [OF assms(2)] check_type_InrD [OF assms(1)] by simp

termination check
proof (relation "measures [\<lambda>x. case x of Inl (s, _) \<Rightarrow> size (JObj s) | Inr (ps, _) \<Rightarrow> size (JObj ps),
    \<lambda>x. case x of Inl _ \<Rightarrow> 0 | Inr (_, names, _) \<Rightarrow> length names]", goal_cases)
qed (auto dest!: member_smaller dest: typed_properties_smaller [simplified])


declare check.simps [simp del]

definition Check :: "obj \<Rightarrow> refusal + unit" where
  "Check schema = (case check schema [] 0 0 of Inl e \<Rightarrow> Inl e | Inr _ \<Rightarrow> Inr ())"

section \<open>Validation\<close>

text \<open>A bound is read only when it is a number.\<close>

definition bound_of :: "obj \<Rightarrow> string \<Rightarrow> rat option" where
  "bound_of schema key = Option.bind (map_of schema key) asNumber"

definition bound_keys :: "obj \<Rightarrow> string \<Rightarrow> string \<Rightarrow> rat \<Rightarrow> string \<Rightarrow> violation + unit" where
  "bound_keys schema minKey maxKey f loc =
     (let lo = bound_of schema minKey; hi = bound_of schema maxKey
      in if lo \<noteq> None \<and> f < the lo then Inl (BelowMinimum loc f (the lo))
         else if hi \<noteq> None \<and> f > the hi then Inl (AboveMaximum loc f (the hi))
         else Inr ())"

definition boundNumber :: "obj \<Rightarrow> rat \<Rightarrow> string \<Rightarrow> violation + unit" where
  "boundNumber schema f loc = bound_keys schema ''minimum'' ''maximum'' f loc"

definition boundInt :: "obj \<Rightarrow> string \<Rightarrow> string \<Rightarrow> nat \<Rightarrow> string \<Rightarrow> violation + unit" where
  "boundInt schema minKey maxKey n loc = bound_keys schema minKey maxKey (of_nat n) loc"

definition schema_type :: "obj \<Rightarrow> string" where
  "schema_type schema = (case map_of schema ''type'' of Some (JStr t) \<Rightarrow> t | _ \<Rightarrow> [])"

text \<open>The members of \<^verbatim>\<open>properties\<close>, none when there are none or when it is not an object.\<close>

definition props_of :: "obj \<Rightarrow> obj" where
  "props_of schema = (case map_of schema ''properties'' of Some (JObj props) \<Rightarrow> props | _ \<Rightarrow> [])"

definition validate_enum :: "obj \<Rightarrow> json \<Rightarrow> string \<Rightarrow> violation option" where
  "validate_enum schema v path = (case map_of schema ''enum'' of
     Some raw \<Rightarrow> if enumContains raw v then None else Some (NotPermitted (at_path path) v raw)
   | None \<Rightarrow> None)"

definition validate_members :: "obj \<Rightarrow> obj \<Rightarrow> string \<Rightarrow> violation option" where
  "validate_members schema vs path =
     (case List.find (\<lambda>name. map_of vs name = None) (toStrings (map_of schema ''required'')) of
        Some name \<Rightarrow> Some (MissingRequired (at_path path) name)
      | None \<Rightarrow>
          if map_of schema ''additionalProperties'' = Some (JBool False)
          then map_option (ForbiddenProperty (at_path path))
                 (List.find (\<lambda>key. map_of (props_of schema) key = None) (sortedKeys vs))
          else None)"

definition validate_scalar :: "obj \<Rightarrow> string \<Rightarrow> json \<Rightarrow> string \<Rightarrow> violation + unit" where
  "validate_scalar schema typ v path =
     (if typ = ''string'' then
        (case v of JStr s \<Rightarrow> boundInt schema ''minLength'' ''maxLength'' (rune_count s) (at_path path @ '' length'')
         | _ \<Rightarrow> Inl (ShouldBe (at_path path) ''a string'' (kind v)))
      else if typ = ''integer'' then
        (case asNumber v of
           Some f \<Rightarrow> if is_integer f then boundNumber schema f (at_path path)
                    else Inl (ShouldBe (at_path path) ''an integer'' (kind v))
         | None \<Rightarrow> Inl (ShouldBe (at_path path) ''an integer'' (kind v)))
      else if typ = ''number'' then
        (case asNumber v of
           Some f \<Rightarrow> boundNumber schema f (at_path path)
         | None \<Rightarrow> Inl (ShouldBe (at_path path) ''a number'' (kind v)))
      else if typ = ''boolean'' then
        (case v of JBool _ \<Rightarrow> Inr () | _ \<Rightarrow> Inl (ShouldBe (at_path path) ''a boolean'' (kind v)))
      else if typ = ''null'' then
        (if v \<noteq> JNull then Inl (ShouldBe (at_path path) ''null'' (kind v)) else Inr ())
      else Inr ())"

function (sequential) validate :: "obj \<Rightarrow> json \<Rightarrow> string \<Rightarrow> violation + unit"
  and validate_props :: "obj \<Rightarrow> string list \<Rightarrow> obj \<Rightarrow> string \<Rightarrow> violation + unit"
  and validate_elems :: "obj \<Rightarrow> json list \<Rightarrow> nat \<Rightarrow> string \<Rightarrow> violation + unit"
where
  "validate schema v path =
     (case validate_enum schema v path of Some e \<Rightarrow> Inl e | None \<Rightarrow>
        if schema_type schema = ''object'' then
          (case v of
             JObj vs \<Rightarrow>
               (case validate_members schema vs path of Some e \<Rightarrow> Inl e
                | None \<Rightarrow> validate_props (props_of schema) (sortedKeys (props_of schema)) vs path)
           | _ \<Rightarrow> Inl (ShouldBe (at_path path) ''an object'' (kind v)))
        else if schema_type schema = ''array'' then
          (case v of
             JArr xs \<Rightarrow>
               (case boundInt schema ''minItems'' ''maxItems'' (length xs) (at_path path @ '' length'') of
                  Inl e \<Rightarrow> Inl e
                | Inr _ \<Rightarrow>
                    (case map_of schema ''items'' of
                       Some (JObj items) \<Rightarrow> validate_elems items xs 0 path
                     | _ \<Rightarrow> Inr ()))
           | _ \<Rightarrow> Inl (ShouldBe (at_path path) ''an array'' (kind v)))
        else validate_scalar schema (schema_type schema) v path)"
| "validate_props props [] vs path = Inr ()"
| "validate_props props (name # names) vs path =
     (case (map_of vs name, map_of props name) of
        (Some raw, Some (JObj sub)) \<Rightarrow>
          (case validate sub raw (join path name) of
             Inl e \<Rightarrow> Inl e
           | Inr _ \<Rightarrow> validate_props props names vs path)
      | _ \<Rightarrow> validate_props props names vs path)"
| "validate_elems items [] i path = Inr ()"
| "validate_elems items (x # xs) i path =
     (case validate items x (path @ ''['' @ FormatInt (int i) @ '']'') of
        Inl e \<Rightarrow> Inl e
      | Inr _ \<Rightarrow> validate_elems items xs (Suc i) path)"
  by pat_completeness auto

lemma props_of_smaller:
  assumes "schema_type schema = ''object''"
  shows "size (JObj (props_of schema)) < size (JObj schema)"
proof -
  have ty: "map_of schema ''type'' \<noteq> None"
    using assms by (cases "map_of schema ''type''") (simp_all add: schema_type_def)
  show ?thesis
  proof (cases "properties_of schema")
    case (Some props)
    then have "props_of schema = props"
      by (auto simp: properties_of_def props_of_def split: option.splits json.splits)
    with properties_of_smaller [OF Some ty] show ?thesis by simp
  next
    case None
    then have "props_of schema = []"
      by (auto simp: properties_of_def props_of_def split: option.splits json.splits)
    with ty show ?thesis by (cases schema) auto
  qed
qed

termination validate
proof (relation "measures [\<lambda>x. case x of Inl (s, _) \<Rightarrow> size (JObj s) | Inr (Inl (ps, _)) \<Rightarrow> size (JObj ps)
      | Inr (Inr (s, _)) \<Rightarrow> size (JObj s),
    \<lambda>x. case x of Inl _ \<Rightarrow> 0 | Inr (Inl (_, names, _)) \<Rightarrow> length names
      | Inr (Inr (_, xs, _)) \<Rightarrow> Suc (length xs)]", goal_cases)
qed (auto dest!: member_smaller member_smaller [OF sym] dest: props_of_smaller [simplified])

declare validate.simps [simp del]

definition Validate :: "obj \<Rightarrow> json \<Rightarrow> violation + unit" where
  "Validate schema v = validate schema v []"

definition ValidateText :: "(string \<Rightarrow> string + json) \<Rightarrow> obj \<Rightarrow> string \<Rightarrow> violation + unit" where
  "ValidateText unmarshal schema txt =
     (let trimmed = TrimSpace txt
      in if trimmed = [] then Inl NoOutput
         else case unmarshal trimmed of Inl e \<Rightarrow> Inl (NotJSON e) | Inr decoded \<Rightarrow> Validate schema decoded)"

section \<open>The output object of a request\<close>

definition parse_format :: "obj \<Rightarrow> refusal + string" where
  "parse_format raw = (case map_of raw ''format'' of
     None \<Rightarrow> Inr FormatText
   | Some (JStr s) \<Rightarrow> if s = FormatText \<or> s = FormatJSONSchema then Inr s else Inl (FormatUnsupported s)
   | Some v \<Rightarrow> Inl (FormatNotString v))"

definition parse_strict :: "obj \<Rightarrow> refusal + bool" where
  "parse_strict raw = (case map_of raw ''strict'' of
     None \<Rightarrow> Inr True | Some (JBool b) \<Rightarrow> Inr b | Some v \<Rightarrow> Inl (StrictNotBool v))"

definition parse_name :: "obj \<Rightarrow> refusal + string" where
  "parse_name raw = (case map_of raw ''name'' of
     None \<Rightarrow> Inr []
   | Some (JStr s) \<Rightarrow> if length s > 64 then Inl (NameTooLong (length s)) else Inr s
   | Some v \<Rightarrow> Inl (NameNotString v))"

definition parse_schema :: "obj \<Rightarrow> refusal + obj" where
  "parse_schema raw = (case map_of raw ''schema'' of
     None \<Rightarrow> Inr [] | Some (JObj m) \<Rightarrow> Inr m | Some v \<Rightarrow> Inl (SchemaNotObject v))"

definition parse_demand :: "Contract \<Rightarrow> refusal + Contract" where
  "parse_demand c =
     (if oc_Format c = FormatJSONSchema then
        if oc_Schema c = [] then Inl SchemaAbsent
        else (case Check (oc_Schema c) of
                Inl e \<Rightarrow> Inl e
              | Inr _ \<Rightarrow> Inr (if oc_Name c = [] then c\<lparr>oc_Name := ''output''\<rparr> else c))
      else if oc_Schema c \<noteq> [] then Inl (SchemaUnenforced (oc_Format c))
      else Inr c)"

definition Parse :: "obj \<Rightarrow> refusal + Contract" where
  "Parse raw =
     (if raw = [] then Inr \<lparr>oc_Format = FormatText, oc_Name = [], oc_Schema = [], oc_Strict = False\<rparr>
      else case List.find (\<lambda>key. key \<notin> {''format'', ''name'', ''schema'', ''strict''}) (sortedKeys raw) of
        Some key \<Rightarrow> Inl (UnknownField key)
      | None \<Rightarrow>
         (case parse_format raw of Inl e \<Rightarrow> Inl e | Inr f \<Rightarrow>
         (case parse_strict raw of Inl e \<Rightarrow> Inl e | Inr b \<Rightarrow>
         (case parse_name raw of Inl e \<Rightarrow> Inl e | Inr nm \<Rightarrow>
         (case parse_schema raw of Inl e \<Rightarrow> Inl e | Inr m \<Rightarrow>
            parse_demand \<lparr>oc_Format = f, oc_Name = nm, oc_Schema = m, oc_Strict = b\<rparr>)))))"


section \<open>The contract of the package\<close>

subsection \<open>What the check admits\<close>

text \<open>\<open>child\<close> relates a schema to the subschemas that its type gives a meaning to, \<open>local_ok\<close> is what one level must satisfy.\<close>

definition child :: "obj \<Rightarrow> obj \<Rightarrow> bool" where
  "child s u \<longleftrightarrow> schema_type s = ''object'' \<and> (\<exists>name. map_of (props_of s) name = Some (JObj u)) \<or>
     schema_type s = ''array'' \<and> map_of s ''items'' = Some (JObj u)"

definition object_ok :: "obj \<Rightarrow> bool" where
  "object_ok s \<longleftrightarrow> (\<exists>props. properties_of s = Some props \<and>
     (\<forall>name \<in> fst ` set props. \<exists>u. map_of props name = Some (JObj u)) \<and>
     (\<forall>name \<in> set (toStrings (map_of s ''required'')). name \<in> fst ` set props))"

definition local_ok :: "obj \<Rightarrow> bool" where
  "local_ok s \<longleftrightarrow> fst ` set s \<subseteq> set supportedKeywords \<and>
     map_of s ''type'' = Some (JStr (schema_type s)) \<and> schema_type s \<in> set supportedTypes \<and>
     (schema_type s = ''object'' \<longrightarrow> object_ok s) \<and>
     (schema_type s = ''array'' \<longrightarrow> (\<exists>u. map_of s ''items'' = Some (JObj u)))"

function property_count :: "obj \<Rightarrow> nat" where
  "property_count s =
     (if schema_type s = ''object'' then length (props_of s) +
        sum_list (map (\<lambda>name. case map_of (props_of s) name of Some (JObj u) \<Rightarrow> property_count u | _ \<Rightarrow> 0)
          (map fst (props_of s)))
      else if schema_type s = ''array'' then
        (case map_of s ''items'' of Some (JObj u) \<Rightarrow> property_count u | _ \<Rightarrow> 0)
      else 0)"
  by pat_completeness auto

lemma props_member_smaller:
  assumes "schema_type s = ''object''" and "map_of (props_of s) name = Some (JObj u)"
  shows "size (JObj u) < size (JObj s)"
  using props_of_smaller [OF assms(1)] member_smaller [OF assms(2)] by (rule less_trans [rotated])

termination property_count
  by (relation "measure (\<lambda>s. size (JObj s))")
     (auto dest: props_member_smaller [simplified] member_smaller)

declare property_count.simps [simp del]

definition admitted :: "nat \<Rightarrow> obj \<Rightarrow> bool" where
  "admitted d s \<longleftrightarrow> (\<forall>k t. (child ^^ k) s t \<longrightarrow> d + k \<le> maxSchemaDepth \<and> local_ok t)"

lemma admitted_unfold:
  "admitted d s \<longleftrightarrow> d \<le> maxSchemaDepth \<and> local_ok s \<and> (\<forall>u. child s u \<longrightarrow> admitted (Suc d) u)"
proof
  assume a: "admitted d s"
  have "admitted (Suc d) u" if "child s u" for u
    unfolding admitted_def
  proof (intro allI impI)
    fix k t assume "(child ^^ k) u t"
    with that have "(child ^^ Suc k) s t" by (rule relpowp_Suc_I2)
    with a show "Suc d + k \<le> maxSchemaDepth \<and> local_ok t" unfolding admitted_def by fastforce
  qed
  with a show "d \<le> maxSchemaDepth \<and> local_ok s \<and> (\<forall>u. child s u \<longrightarrow> admitted (Suc d) u)"
    by (auto simp: admitted_def dest: spec [where x = 0])
next
  assume a: "d \<le> maxSchemaDepth \<and> local_ok s \<and> (\<forall>u. child s u \<longrightarrow> admitted (Suc d) u)"
  have "d + k \<le> maxSchemaDepth \<and> local_ok t" if "(child ^^ k) s t" for k t
  proof (cases k)
    case (Suc j)
    with that obtain u where "child s u" "(child ^^ j) u t" by (blast dest: relpowp_Suc_D2)
    with a Suc show ?thesis by (fastforce simp: admitted_def)
  qed (use a that in auto)
  then show "admitted d s" by (simp add: admitted_def)
qed

lemma check_keywords_None: "check_keywords keys path = None \<longleftrightarrow> set keys \<subseteq> set supportedKeywords"
proof (induction keys)
  case (Cons key keys)
  have "key \<notin> set supportedKeywords" if "prefix ''$'' key"
    using that by (auto simp: supportedKeywords_def prefix_def)
  moreover have "key \<notin> set supportedKeywords" if "key = ''$ref'' \<or> key = ''$dynamicRef''"
    using that by (auto simp: supportedKeywords_def)
  ultimately show ?case using Cons.IH by auto
qed simp

lemma check_type_Inr:
  "check_type s path = Inr typ \<longleftrightarrow>
     map_of s ''type'' = Some (JStr (schema_type s)) \<and> schema_type s \<in> set supportedTypes \<and> typ = schema_type s"
  by (auto simp: check_type_def schema_type_def supportedTypes_def split: option.splits json.splits)

lemma check_required_Inr:
  "check_required s props path n = Inr m \<longleftrightarrow>
     m = n \<and> (\<forall>name \<in> set (toStrings (map_of s ''required'')). name \<in> fst ` set props)"
  by (auto simp: check_required_def find_Some_iff find_None_iff map_of_eq_None_iff split: option.splits)

lemma properties_of_props_of: "properties_of s = Some props \<Longrightarrow> props_of s = props"
  by (auto simp: properties_of_def props_of_def split: option.splits json.splits)


definition member_count :: "obj \<Rightarrow> string \<Rightarrow> nat" where
  "member_count props name = (case map_of props name of Some (JObj u) \<Rightarrow> property_count u | _ \<Rightarrow> 0)"

lemma property_count_object:
  assumes "schema_type s = ''object''" and "properties_of s = Some props"
  shows "property_count s = length props + sum_list (map (member_count props) (sortedKeys props))"
proof -
  have "sum_list (map (member_count props) (sortedKeys props)) = sum_list (map (member_count props) (map fst props))"
    by (metis mset_map mset_sort sortedKeys_def sum_mset_sum_list)
  with assms show ?thesis
    by (subst property_count.simps) (simp add: properties_of_props_of member_count_def [abs_def] comp_def)
qed

lemma set_sortedKeys [simp]: "set (sortedKeys m) = fst ` set m"
  by (simp add: sortedKeys_def)

lemma props_wf: "json_wf (JObj s) \<Longrightarrow> map_of s k = Some (JObj u) \<Longrightarrow> json_wf (JObj u)"
  by (auto simp: list_all_iff dest!: map_of_SomeD bspec)

definition exact_check :: "obj \<Rightarrow> string \<Rightarrow> nat \<Rightarrow> nat \<Rightarrow> bool" where
  "exact_check s path d n \<longleftrightarrow> (n \<le> maxSchemaProperties \<longrightarrow> (\<forall>m. check s path d n = Inr m \<longleftrightarrow>
     admitted d s \<and> m = n + property_count s \<and> m \<le> maxSchemaProperties))"

lemma exact_checkD:
  "exact_check s path d n \<Longrightarrow> n \<le> maxSchemaProperties \<Longrightarrow> check s path d n = Inr m \<longleftrightarrow>
     admitted d s \<and> m = n + property_count s \<and> m \<le> maxSchemaProperties"
  by (simp add: exact_check_def)

lemma check_props_exact:
  assumes "\<And>name u n'. name \<in> set names \<Longrightarrow> map_of props name = Some (JObj u) \<Longrightarrow>
      exact_check u (join path name) (Suc d) n'"
    and "n \<le> maxSchemaProperties"
  shows "check_props props names path d n = Inr m \<longleftrightarrow>
     (\<forall>name \<in> set names. \<exists>u. map_of props name = Some (JObj u) \<and> admitted (Suc d) u) \<and>
     m = n + sum_list (map (member_count props) names) \<and> m \<le> maxSchemaProperties"
  using assms
proof (induction names arbitrary: n)
  case (Cons name names)
  show ?case
  proof (cases "\<exists>u. map_of props name = Some (JObj u)")
    case True
    then obtain u where u: "map_of props name = Some (JObj u)" ..
    then have c: "member_count props name = property_count u" by (simp add: member_count_def)
    have e: "check u (join path name) (Suc d) n = Inr k \<longleftrightarrow>
        admitted (Suc d) u \<and> k = n + property_count u \<and> k \<le> maxSchemaProperties" for k
      using exact_checkD [OF Cons.prems(1) [OF _ u] Cons.prems(2)] by simp
    show ?thesis
    proof (cases "admitted (Suc d) u \<and> n + property_count u \<le> maxSchemaProperties")
      case True
      then have "check u (join path name) (Suc d) n = Inr (n + property_count u)" using e by simp
      with True u c Cons.IH [of "n + property_count u"] Cons.prems show ?thesis
        by (auto simp: add.assoc)
    next
      case False
      then have "\<nexists>k. check u (join path name) (Suc d) n = Inr k" using e by auto
      then obtain x where "check u (join path name) (Suc d) n = Inl x" by (metis sum.exhaust)
      with False u c show ?thesis by auto
    qed
  next
    case False
    then show ?thesis by (auto split: option.splits json.splits)
  qed
qed auto

lemma admitted_object:
  assumes "schema_type s = ''object''" and "properties_of s = Some props"
  shows "(\<forall>u. child s u \<longrightarrow> admitted (Suc d) u) \<and>
      (\<forall>name \<in> fst ` set props. \<exists>u. map_of props name = Some (JObj u)) \<longleftrightarrow>
    (\<forall>name \<in> fst ` set props. \<exists>u. map_of props name = Some (JObj u) \<and> admitted (Suc d) u)"
proof -
  have ch: "child s u \<longleftrightarrow> (\<exists>name. map_of props name = Some (JObj u))" for u
    using assms by (simp add: child_def properties_of_props_of)
  have "map_of props name = Some (JObj u) \<Longrightarrow> name \<in> fst ` set props" for name u
    by (metis image_eqI fst_conv map_of_SomeD)
  then show ?thesis unfolding ch by (metis json.inject(5) option.inject)
qed

lemma check_exact_object:
  assumes ty: "map_of s ''type'' = Some (JStr ''object'')" and kw: "fst ` set s \<subseteq> set supportedKeywords"
    and d: "d \<le> maxSchemaDepth" and p: "properties_of s = Some props" and n: "n \<le> maxSchemaProperties"
    and sub: "\<And>name u n'. map_of props name = Some (JObj u) \<Longrightarrow> exact_check u (join path name) (Suc d) n'"
  shows "check s path d n = Inr m \<longleftrightarrow>
    admitted d s \<and> m = n + property_count s \<and> m \<le> maxSchemaProperties"
proof -
  have st: "schema_type s = ''object''" using ty by (simp add: schema_type_def)
  have ct: "check_type s path = Inr ''object''"
    using ty st by (simp add: check_type_Inr supportedTypes_def)
  have kn: "check_keywords (sortedKeys s) path = None" using kw by (simp add: check_keywords_None)
  let ?req = "\<forall>name \<in> set (toStrings (map_of s ''required'')). name \<in> fst ` set props"
  let ?sub = "\<forall>name \<in> fst ` set props. \<exists>u. map_of props name = Some (JObj u) \<and> admitted (Suc d) u"
  have lo: "local_ok s \<longleftrightarrow> (\<forall>name \<in> fst ` set props. \<exists>u. map_of props name = Some (JObj u)) \<and> ?req"
    using ty st kw p by (simp add: local_ok_def object_ok_def supportedTypes_def)
  have ad: "admitted d s \<longleftrightarrow> ?sub \<and> ?req"
    using admitted_unfold [of d s] admitted_object [OF st p, of d] lo d by blast
  have pc: "property_count s = length props + sum_list (map (member_count props) (sortedKeys props))"
    by (rule property_count_object [OF st p])
  show ?thesis
  proof (cases "n + length props \<le> maxSchemaProperties")
    case True
    have "check s path d n = Inr m \<longleftrightarrow>
      (\<exists>k. check_props props (sortedKeys props) path d (n + length props) = Inr k \<and>
           check_required s props path k = Inr m)"
      using True kn d ct p by (subst check.simps) (auto split: sum.splits)
    also have "\<dots> \<longleftrightarrow> ?sub \<and> ?req \<and> m = n + property_count s \<and> m \<le> maxSchemaProperties"
      using check_props_exact [OF sub True, of "sortedKeys props"]
      by (auto simp: check_required_Inr pc add.assoc)
    finally show ?thesis using ad by blast
  next
    case False
    then have "check s path d n = Inl TooManyProperties"
      using kn d ct p by (subst check.simps) simp
    with False pc show ?thesis by auto
  qed
qed


lemma check_exact_array:
  assumes ty: "map_of s ''type'' = Some (JStr ''array'')" and kw: "fst ` set s \<subseteq> set supportedKeywords"
    and d: "d \<le> maxSchemaDepth" and n: "n \<le> maxSchemaProperties"
    and sub: "\<And>u. map_of s ''items'' = Some (JObj u) \<Longrightarrow> exact_check u (join path ''[]'') (Suc d) n"
  shows "check s path d n = Inr m \<longleftrightarrow>
    admitted d s \<and> m = n + property_count s \<and> m \<le> maxSchemaProperties"
proof -
  have st: "schema_type s = ''array''" using ty by (simp add: schema_type_def)
  have ct: "check_type s path = Inr ''array''"
    using ty st by (simp add: check_type_Inr supportedTypes_def)
  have kn: "check_keywords (sortedKeys s) path = None" using kw by (simp add: check_keywords_None)
  show ?thesis
  proof (cases "\<exists>u. map_of s ''items'' = Some (JObj u)")
    case True
    then obtain u where u: "map_of s ''items'' = Some (JObj u)" ..
    then have "check s path d n = check u (join path ''[]'') (Suc d) n"
      using kn d ct by (subst check.simps) simp
    moreover have "admitted d s \<longleftrightarrow> admitted (Suc d) u"
      using admitted_unfold [of d s] u st ty kw d by (auto simp: local_ok_def supportedTypes_def child_def)
    moreover have "property_count s = property_count u"
      using st u by (subst property_count.simps) simp
    ultimately show ?thesis using exact_checkD [OF sub [OF u] n] by simp
  next
    case False
    then have "check s path d n = Inl (ArrayWithoutItems (at_path path))"
      using kn d ct by (subst check.simps) (auto split: option.splits json.splits)
    moreover have "\<not> admitted d s"
      using False admitted_unfold [of d s] st by (auto simp: local_ok_def)
    ultimately show ?thesis by simp
  qed
qed

lemma check_exact_scalar:
  assumes ty: "map_of s ''type'' = Some (JStr typ)" "typ \<in> set supportedTypes" "typ \<noteq> ''object''" "typ \<noteq> ''array''"
    and kw: "fst ` set s \<subseteq> set supportedKeywords" and d: "d \<le> maxSchemaDepth" and n: "n \<le> maxSchemaProperties"
  shows "check s path d n = Inr m \<longleftrightarrow>
    admitted d s \<and> m = n + property_count s \<and> m \<le> maxSchemaProperties"
proof -
  have st: "schema_type s = typ" using ty by (simp add: schema_type_def)
  have kn: "check_keywords (sortedKeys s) path = None" using kw by (simp add: check_keywords_None)
  have "check_type s path = Inr typ" using ty st by (simp add: check_type_Inr)
  then have "check s path d n = Inr n" using kn d ty by (subst check.simps) simp
  moreover have "admitted d s"
    using admitted_unfold [of d s] st ty kw d by (auto simp: local_ok_def child_def)
  moreover have "property_count s = 0" using st ty by (subst property_count.simps) simp
  ultimately show ?thesis using n by auto
qed

lemma check_refuses_level:
  assumes "\<not> (d \<le> maxSchemaDepth \<and> fst ` set s \<subseteq> set supportedKeywords \<and>
      map_of s ''type'' = Some (JStr (schema_type s)) \<and> schema_type s \<in> set supportedTypes \<and>
      (schema_type s = ''object'' \<longrightarrow> properties_of s \<noteq> None))"
  shows "check s path d n \<noteq> Inr m \<and> \<not> admitted d s"
proof
  show "check s path d n \<noteq> Inr m"
  proof
    assume a: "check s path d n = Inr m"
    then have "d \<le> maxSchemaDepth" by (subst (asm) check.simps) (auto split: if_splits)
    moreover from a this have k: "check_keywords (sortedKeys s) path = None"
      by (subst (asm) check.simps) (auto split: option.splits)
    moreover from a k obtain w where t: "check_type s path = Inr w"
      by (subst (asm) check.simps) (auto split: sum.splits if_splits)
    moreover from t have "w = schema_type s" by (simp add: check_type_Inr)
    then have "properties_of s \<noteq> None" if "schema_type s = ''object''"
      using a k t that by (subst (asm) check.simps) (auto split: if_splits option.splits)
    ultimately show False using assms by (auto simp: check_keywords_None check_type_Inr)
  qed
  show "\<not> admitted d s"
    using assms admitted_unfold [of d s] by (auto simp: local_ok_def object_ok_def)
qed

lemma check_exact_step:
  assumes IH: "\<And>u path d n. size (JObj u) < size (JObj s) \<Longrightarrow> exact_check u path d n"
  shows "exact_check s path d n"
  unfolding exact_check_def
proof (intro impI allI)
  fix m assume n: "n \<le> maxSchemaProperties"
  show "check s path d n = Inr m \<longleftrightarrow> admitted d s \<and> m = n + property_count s \<and> m \<le> maxSchemaProperties"
  proof (cases "d \<le> maxSchemaDepth \<and> fst ` set s \<subseteq> set supportedKeywords \<and>
      map_of s ''type'' = Some (JStr (schema_type s)) \<and> schema_type s \<in> set supportedTypes \<and>
      (schema_type s = ''object'' \<longrightarrow> properties_of s \<noteq> None)")
    case False
    from check_refuses_level [OF this] show ?thesis by blast
  next
    case lev: True
    consider "schema_type s = ''object''" | "schema_type s = ''array''"
      | "schema_type s \<noteq> ''object''" "schema_type s \<noteq> ''array''" by blast
    then show ?thesis
    proof cases
      case 1
      with lev obtain props where p: "properties_of s = Some props" by auto
      have "exact_check u path' d' n'" if "map_of props name = Some (JObj u)" for name u path' d' n'
        using IH props_member_smaller [OF 1] that properties_of_props_of [OF p] by blast
      then show ?thesis using check_exact_object [of s d props n path m] lev p n 1 by simp
    next
      case 2
      have "exact_check u path' d' n'" if "map_of s ''items'' = Some (JObj u)" for u path' d' n'
        using IH member_smaller [OF that] by blast
      then show ?thesis using check_exact_array [of s d n path m] lev n 2 by simp
    next
      case 3
      then show ?thesis using check_exact_scalar [of s "schema_type s" d n path m] lev n by simp
    qed
  qed
qed

lemma check_exact_all: "exact_check s path d n"
proof (induction s arbitrary: path d n rule: measure_induct_rule [of "\<lambda>s. size (JObj s)"])
  case (less s)
  then show ?case by (rule check_exact_step)
qed

lemma check_accepts:
  "Check schema = Inr () \<longleftrightarrow> (\<forall>k t. (child ^^ k) schema t \<longrightarrow> k \<le> maxSchemaDepth \<and> local_ok t) \<and>
     property_count schema \<le> maxSchemaProperties"
proof -
  have "check schema [] 0 0 = Inr m \<longleftrightarrow> admitted 0 schema \<and> m = property_count schema \<and> m \<le> maxSchemaProperties" for m
    using exact_checkD [OF check_exact_all [of schema "[]" 0 0], of m] by simp
  moreover have "Check schema = Inr () \<longleftrightarrow> (\<exists>m. check schema [] 0 0 = Inr m)"
    by (auto simp: Check_def split: sum.splits)
  ultimately show ?thesis by (auto simp: admitted_def)
qed

text \<open>
  C15.  The admission check is exact: \<open>Check\<close> accepts a schema if and only if every subschema reached
  through \<^verbatim>\<open>properties\<close> and \<^verbatim>\<open>items\<close> lies at most \<open>maxSchemaDepth\<close> levels down, uses only supported
  keywords, declares a supported type and well-formed \<^verbatim>\<open>properties\<close>, \<^verbatim>\<open>required\<close> or \<^verbatim>\<open>items\<close> for it, and
  the document declares at most \<open>maxSchemaProperties\<close> properties in total.
\<close>

theorem check_exact:
  "Check schema = Inr () \<longleftrightarrow>
     (\<forall>k t. (child ^^ k) schema t \<longrightarrow> k \<le> maxSchemaDepth \<and> local_ok t) \<and>
     property_count schema \<le> maxSchemaProperties"
  by (rule check_accepts)


subsection \<open>What validation enforces\<close>

text \<open>
  The reading of JSON Schema: an instance conforms to a schema if it satisfies every keyword of it.
  A keyword that speaks of one kind of value is satisfied by every value of another kind.
\<close>

definition has_type :: "string \<Rightarrow> json \<Rightarrow> bool" where
  "has_type ty v \<longleftrightarrow> (case v of
     JNull \<Rightarrow> ty = ''null''
   | JBool _ \<Rightarrow> ty = ''boolean''
   | JNum n \<Rightarrow> ty = ''number'' \<or> ty = ''integer'' \<and> n \<in> \<int>
   | JStr _ \<Rightarrow> ty = ''string''
   | JArr _ \<Rightarrow> ty = ''array''
   | JObj _ \<Rightarrow> ty = ''object'')"

definition at_least :: "json \<Rightarrow> rat \<Rightarrow> bool" where
  "at_least bound q \<longleftrightarrow> (case bound of JNum b \<Rightarrow> b \<le> q | _ \<Rightarrow> True)"

definition at_most :: "json \<Rightarrow> rat \<Rightarrow> bool" where
  "at_most bound q \<longleftrightarrow> (case bound of JNum b \<Rightarrow> q \<le> b | _ \<Rightarrow> True)"

definition asserts_value :: "string \<Rightarrow> json \<Rightarrow> json \<Rightarrow> bool" where
  "asserts_value key arg v \<longleftrightarrow>
     (key = ''type'' \<longrightarrow> (\<exists>ty. arg = JStr ty \<and> has_type ty v)) \<and>
     (key = ''enum'' \<longrightarrow> (\<exists>xs. arg = JArr xs \<and> (\<exists>x \<in> set xs. canonical x = canonical v))) \<and>
     (key = ''minimum'' \<longrightarrow> (\<forall>n. v = JNum n \<longrightarrow> at_least arg n)) \<and>
     (key = ''maximum'' \<longrightarrow> (\<forall>n. v = JNum n \<longrightarrow> at_most arg n)) \<and>
     (key = ''minLength'' \<longrightarrow> (\<forall>s. v = JStr s \<longrightarrow> at_least arg (of_nat (rune_count s)))) \<and>
     (key = ''maxLength'' \<longrightarrow> (\<forall>s. v = JStr s \<longrightarrow> at_most arg (of_nat (rune_count s)))) \<and>
     (key = ''minItems'' \<longrightarrow> (\<forall>xs. v = JArr xs \<longrightarrow> at_least arg (of_nat (length xs)))) \<and>
     (key = ''maxItems'' \<longrightarrow> (\<forall>xs. v = JArr xs \<longrightarrow> at_most arg (of_nat (length xs)))) \<and>
     (key = ''required'' \<longrightarrow> (\<forall>vs. v = JObj vs \<longrightarrow> (\<exists>xs. arg = JArr xs \<and>
        (\<forall>x \<in> set xs. \<exists>name. x = JStr name \<and> name \<in> fst ` set vs))))"

definition declared :: "obj \<Rightarrow> string set" where
  "declared s = fst ` set (props_of s)"

function (sequential) conforms :: "obj \<Rightarrow> json \<Rightarrow> bool" and asserts :: "obj \<Rightarrow> string \<Rightarrow> json \<Rightarrow> json \<Rightarrow> bool"
where
  "conforms s v \<longleftrightarrow> (\<forall>kv \<in> set s. asserts s (fst kv) (snd kv) v)"
| "asserts s key arg v \<longleftrightarrow> asserts_value key arg v \<and>
     (key = ''properties'' \<longrightarrow> (case (arg, v) of
        (JObj ps, JObj vs) \<Rightarrow> (\<forall>p \<in> set ps. case (snd p, map_of vs (fst p)) of
           (JObj u, Some x) \<Rightarrow> conforms u x | _ \<Rightarrow> True)
      | _ \<Rightarrow> True)) \<and>
     (key = ''additionalProperties'' \<longrightarrow> (case (arg, v) of
        (JBool b, JObj vs) \<Rightarrow> b \<or> fst ` set vs \<subseteq> declared s
      | (JObj u, JObj vs) \<Rightarrow> (\<forall>x \<in> set vs. fst x \<in> declared s \<or> conforms u (snd x))
      | _ \<Rightarrow> True)) \<and>
     (key = ''items'' \<longrightarrow> (case (arg, v) of
        (JObj u, JArr xs) \<Rightarrow> (\<forall>x \<in> set xs. conforms u x)
      | _ \<Rightarrow> True))"
  by pat_completeness auto

lemma pair_smaller: "kv \<in> set kvs \<Longrightarrow> size (snd kv) < size (JObj kvs)"
  using size_list_estimation' [of kv kvs "size (snd kv)" "size_prod (\<lambda>_. 0) size"]
  by (cases kv) (simp add: less_Suc_eq_le)

termination conforms
  by (relation "measures [\<lambda>x. case x of Inl (s, _) \<Rightarrow> size (JObj s) | Inr (_, _, arg, _) \<Rightarrow> size arg,
        \<lambda>x. case x of Inl _ \<Rightarrow> 0 | Inr _ \<Rightarrow> 1]")
     (auto dest: pair_smaller pair_smaller [of "(a, JObj u)" for a u, simplified])


declare conforms.simps [simp del] asserts.simps [simp del]

text \<open>The values that JSON Schema gives the keywords, and that \<open>validate\<close> reads.\<close>

definition keyword_typed :: "string \<Rightarrow> json \<Rightarrow> bool" where
  "keyword_typed key arg \<longleftrightarrow>
     (key = ''enum'' \<longrightarrow> (\<exists>xs. arg = JArr xs)) \<and>
     (key = ''additionalProperties'' \<longrightarrow> (\<exists>b. arg = JBool b)) \<and>
     (key \<in> {''minimum'', ''maximum'', ''minLength'', ''maxLength'', ''minItems'', ''maxItems''} \<longrightarrow> (\<exists>n. arg = JNum n)) \<and>
     (key = ''required'' \<longrightarrow> (\<exists>xs. arg = JArr (map JStr xs)))"

definition keywords_typed :: "obj \<Rightarrow> bool" where
  "keywords_typed s \<longleftrightarrow> (\<forall>kv \<in> set s. keyword_typed (fst kv) (snd kv))"

text \<open>A keyword holds for the schema if it is absent or its member holds.\<close>

definition member_holds :: "obj \<Rightarrow> string \<Rightarrow> json \<Rightarrow> bool" where
  "member_holds s key v \<longleftrightarrow> (case map_of s key of None \<Rightarrow> True | Some arg \<Rightarrow> asserts s key arg v)"

lemma conforms_members:
  assumes "distinct (map fst s)" and "fst ` set s \<subseteq> set supportedKeywords"
  shows "conforms s v \<longleftrightarrow> (\<forall>key \<in> set supportedKeywords. member_holds s key v)"
proof -
  have "conforms s v \<longleftrightarrow> (\<forall>key arg. map_of s key = Some arg \<longrightarrow> asserts s key arg v)"
    using map_of_eq_Some_iff [OF assms(1)] by (auto simp: conforms.simps)
  also have "\<dots> \<longleftrightarrow> (\<forall>key \<in> set supportedKeywords. member_holds s key v)"
    using assms(2) by (auto simp: member_holds_def split: option.splits)
       (metis (no_types, lifting) fst_conv imageI in_mono map_of_SomeD option.simps(1))
  finally show ?thesis .
qed

lemma is_integer_Ints: "is_integer q \<longleftrightarrow> q \<in> \<int>"
proof
  assume "is_integer q"
  then show "q \<in> \<int>"
    by (metis Fract_of_int_quotient Ints_of_int is_integer_def of_int_rat prod.collapse quotient_of_div div_by_1 of_int_1)
next
  assume "q \<in> \<int>"
  then obtain z where "q = of_int z" by (rule Ints_cases)
  then show "is_integer q" by (simp add: is_integer_def quotient_of_int)
qed

lemma bound_keys_Inr:
  "bound_keys s lo hi q loc = Inr () \<longleftrightarrow>
     (\<forall>b. map_of s lo = Some (JNum b) \<longrightarrow> b \<le> q) \<and> (\<forall>b. map_of s hi = Some (JNum b) \<longrightarrow> q \<le> b)"
  by (auto simp: bound_keys_def bound_of_def asNumber_def Let_def not_less split: json.splits option.splits
      bind_splits)


lemma asserts_plain:
  "key \<notin> {''properties'', ''additionalProperties'', ''items''} \<Longrightarrow> asserts s key arg v \<longleftrightarrow> asserts_value key arg v"
  by (simp add: asserts.simps)

lemmas member_holds_value = member_holds_def asserts_plain asserts_value_def

lemma keyword_typedD: "keywords_typed s \<Longrightarrow> map_of s key = Some arg \<Longrightarrow> keyword_typed key arg"
  by (auto simp: keywords_typed_def dest!: map_of_SomeD)

lemma holds_enum:
  assumes "keywords_typed s"
  shows "member_holds s ''enum'' v \<longleftrightarrow> validate_enum s v path = None"
  using keyword_typedD [OF assms, of "''enum''"]
  by (auto simp: member_holds_value validate_enum_def enumContains_def keyword_typed_def list_ex_iff
      split: option.splits)

lemma holds_type:
  assumes "map_of s ''type'' = Some (JStr ty)"
  shows "member_holds s ''type'' v \<longleftrightarrow> has_type ty v"
  using assms by (simp add: member_holds_value)

lemma toStrings_map [simp]: "toStrings (Some (JArr (map JStr xs))) = xs"
  by (induction xs) (simp_all add: toStrings_def)

lemma holds_required:
  assumes "keywords_typed s"
  shows "member_holds s ''required'' (JObj vs) \<longleftrightarrow>
    (\<forall>name \<in> set (toStrings (map_of s ''required'')). name \<in> fst ` set vs)"
proof (cases "map_of s ''required''")
  case None
  then show ?thesis by (simp add: member_holds_def toStrings_def)
next
  case (Some arg)
  with keyword_typedD [OF assms Some] obtain xs where "arg = JArr (map JStr xs)"
    by (auto simp: keyword_typed_def)
  with Some show ?thesis by (simp add: member_holds_value)
qed

lemma holds_additional:
  assumes "keywords_typed s"
  shows "member_holds s ''additionalProperties'' (JObj vs) \<longleftrightarrow>
    (map_of s ''additionalProperties'' = Some (JBool False) \<longrightarrow> fst ` set vs \<subseteq> fst ` set (props_of s))"
proof (cases "map_of s ''additionalProperties''")
  case (Some arg)
  with keyword_typedD [OF assms Some] obtain b where "arg = JBool b" by (auto simp: keyword_typed_def)
  with Some show ?thesis by (auto simp: member_holds_def asserts.simps asserts_value_def declared_def)
qed (simp add: member_holds_def)

lemma holds_members:
  assumes "keywords_typed s"
  shows "validate_members s vs path = None \<longleftrightarrow>
    member_holds s ''required'' (JObj vs) \<and> member_holds s ''additionalProperties'' (JObj vs)"
proof -
  have m: "map_of m name = None \<longleftrightarrow> name \<notin> fst ` set m" for m :: obj and name by (rule map_of_eq_None_iff)
  show ?thesis
    unfolding holds_required [OF assms] holds_additional [OF assms] validate_members_def m
    by (auto simp: find_None_iff find_Some_iff split: option.splits)
qed

lemma holds_properties:
  assumes "properties_of s = Some props" and "distinct (map fst props)"
  shows "member_holds s ''properties'' (JObj vs) \<longleftrightarrow>
    (\<forall>name u x. map_of props name = Some (JObj u) \<and> map_of vs name = Some x \<longrightarrow> conforms u x)"
proof (cases "map_of s ''properties''")
  case None
  with assms show ?thesis by (auto simp: member_holds_def properties_of_def)
next
  case (Some arg)
  with assms(1) have arg: "arg = JObj props" by (cases arg) (simp_all add: properties_of_def)
  have "member_holds s ''properties'' (JObj vs) \<longleftrightarrow> (\<forall>p \<in> set props. case (snd p, map_of vs (fst p)) of
           (JObj u, Some x) \<Rightarrow> conforms u x | _ \<Rightarrow> True)"
    using Some arg by (simp add: member_holds_def asserts.simps asserts_value_def)
  also have "\<dots> \<longleftrightarrow> (\<forall>name u x. map_of props name = Some (JObj u) \<and> map_of vs name = Some x \<longrightarrow> conforms u x)"
    unfolding map_of_eq_Some_iff [OF assms(2)]
    by (auto split: json.splits option.splits)
  finally show ?thesis .
qed

lemma holds_items:
  assumes "map_of s ''items'' = Some (JObj u)"
  shows "member_holds s ''items'' (JArr xs) \<longleftrightarrow> (\<forall>x \<in> set xs. conforms u x)"
  using assms by (simp add: member_holds_def asserts.simps asserts_value_def)

lemma holds_bounds:
  assumes "keywords_typed s" and "lo \<in> {''minimum'', ''minLength'', ''minItems''}"
    and "hi \<in> {''maximum'', ''maxLength'', ''maxItems''}"
  shows "bound_keys s lo hi q loc = Inr () \<longleftrightarrow>
    (\<forall>arg. map_of s lo = Some arg \<longrightarrow> at_least arg q) \<and> (\<forall>arg. map_of s hi = Some arg \<longrightarrow> at_most arg q)"
proof -
  have "\<exists>n. arg = JNum n" if "map_of s key = Some arg" "key \<in> {lo, hi}" for key arg
    using keyword_typedD [OF assms(1) that(1)] that(2) assms(2,3) by (auto simp: keyword_typed_def)
  then show ?thesis unfolding bound_keys_Inr by (fastforce simp: at_least_def at_most_def)
qed


definition level_ok :: "obj \<Rightarrow> bool" where
  "level_ok s \<longleftrightarrow> json_wf (JObj s) \<and> local_ok s \<and> keywords_typed s"

lemma level_okD:
  assumes "level_ok s"
  shows "distinct (map fst s)" "fst ` set s \<subseteq> set supportedKeywords" "keywords_typed s"
    "map_of s ''type'' = Some (JStr (schema_type s))" "schema_type s \<in> set supportedTypes"
  using assms by (auto simp: level_ok_def local_ok_def)

lemma conforms_keywords:
  assumes "level_ok s"
  shows "conforms s v \<longleftrightarrow> has_type (schema_type s) v \<and> validate_enum s v path = None \<and>
    (\<forall>key \<in> set [''properties'', ''required'', ''additionalProperties'', ''items'', ''minimum'', ''maximum'',
       ''minLength'', ''maxLength'', ''minItems'', ''maxItems'']. member_holds s key v)"
proof -
  have "member_holds s ''description'' v" "member_holds s ''title'' v"
    by (simp_all add: member_holds_value split: option.splits)
  then show ?thesis
    using conforms_members [OF level_okD(1,2) [OF assms], of v] holds_enum [OF level_okD(3) [OF assms]]
      holds_type [OF level_okD(4) [OF assms]]
    by (auto simp: supportedKeywords_def)
qed

lemma validate_props_Inr:
  "validate_props props names vs path = Inr () \<longleftrightarrow>
     (\<forall>name \<in> set names. \<forall>u x. map_of props name = Some (JObj u) \<and> map_of vs name = Some x \<longrightarrow>
        validate u x (join path name) = Inr ())"
  by (induction names) (auto split: option.splits json.splits sum.splits)

lemma validate_elems_Inr:
  assumes "\<And>x path. x \<in> set xs \<Longrightarrow> validate u x path = Inr () \<longleftrightarrow> conforms u x"
  shows "validate_elems u xs i path = Inr () \<longleftrightarrow> (\<forall>x \<in> set xs. conforms u x)"
  using assms
proof (induction xs arbitrary: i)
  case (Cons x xs)
  define r where "r = validate u x (path @ ''['' @ FormatInt (int i) @ '']'')"
  have "r = Inr () \<longleftrightarrow> conforms u x" unfolding r_def by (rule Cons.prems) simp
  moreover have "validate_elems u xs (Suc i) path = Inr () \<longleftrightarrow> (\<forall>x \<in> set xs. conforms u x)"
    by (rule Cons.IH) (simp add: Cons.prems)
  moreover have "validate_elems u (x # xs) i path = (case r of Inl e \<Rightarrow> Inl e | Inr _ \<Rightarrow> validate_elems u xs (Suc i) path)"
    by (simp add: r_def)
  ultimately show ?case by (cases r) simp_all
qed simp

text \<open>A keyword for another kind of value holds, and a bound holds if it admits the measure it speaks of.\<close>

lemma holds_vacuous [simp]:
  "\<forall>vs. v \<noteq> JObj vs \<Longrightarrow> member_holds s ''properties'' v"
  "\<forall>vs. v \<noteq> JObj vs \<Longrightarrow> member_holds s ''additionalProperties'' v"
  "\<forall>vs. v \<noteq> JObj vs \<Longrightarrow> member_holds s ''required'' v"
  "\<forall>xs. v \<noteq> JArr xs \<Longrightarrow> member_holds s ''items'' v"
  "\<forall>xs. v \<noteq> JArr xs \<Longrightarrow> member_holds s ''minItems'' v"
  "\<forall>xs. v \<noteq> JArr xs \<Longrightarrow> member_holds s ''maxItems'' v"
  "\<forall>n. v \<noteq> JNum n \<Longrightarrow> member_holds s ''minimum'' v"
  "\<forall>n. v \<noteq> JNum n \<Longrightarrow> member_holds s ''maximum'' v"
  "\<forall>t. v \<noteq> JStr t \<Longrightarrow> member_holds s ''minLength'' v"
  "\<forall>t. v \<noteq> JStr t \<Longrightarrow> member_holds s ''maxLength'' v"
  by (simp_all add: member_holds_def asserts.simps asserts_value_def split: option.split json.split)

lemma holds_bound_keys:
  "member_holds s ''minItems'' (JArr xs) \<longleftrightarrow> (\<forall>arg. map_of s ''minItems'' = Some arg \<longrightarrow> at_least arg (of_nat (length xs)))"
  "member_holds s ''maxItems'' (JArr xs) \<longleftrightarrow> (\<forall>arg. map_of s ''maxItems'' = Some arg \<longrightarrow> at_most arg (of_nat (length xs)))"
  "member_holds s ''minLength'' (JStr t) \<longleftrightarrow> (\<forall>arg. map_of s ''minLength'' = Some arg \<longrightarrow> at_least arg (of_nat (rune_count t)))"
  "member_holds s ''maxLength'' (JStr t) \<longleftrightarrow> (\<forall>arg. map_of s ''maxLength'' = Some arg \<longrightarrow> at_most arg (of_nat (rune_count t)))"
  "member_holds s ''minimum'' (JNum n) \<longleftrightarrow> (\<forall>arg. map_of s ''minimum'' = Some arg \<longrightarrow> at_least arg n)"
  "member_holds s ''maximum'' (JNum n) \<longleftrightarrow> (\<forall>arg. map_of s ''maximum'' = Some arg \<longrightarrow> at_most arg n)"
  by (simp_all add: member_holds_value split: option.split)

lemma validate_object:
  assumes lev: "level_ok s" and ty: "schema_type s = ''object''"
    and sub: "\<And>name u x path. map_of (props_of s) name = Some (JObj u) \<Longrightarrow> validate u x path = Inr () \<longleftrightarrow> conforms u x"
  shows "validate s v path = Inr () \<longleftrightarrow> conforms s v"
proof (cases v)
  case (JObj vs)
  from lev ty obtain props where p: "properties_of s = Some props" by (auto simp: level_ok_def local_ok_def object_ok_def)
  have d: "distinct (map fst props)"
  proof (cases "map_of s ''properties''")
    case (Some arg)
    with p have "arg = JObj props" by (cases arg) (simp_all add: properties_of_def)
    with Some props_wf [of s "''properties''" props] lev show ?thesis by (simp add: level_ok_def)
  qed (use p in \<open>simp add: properties_of_def\<close>)
  have pp: "validate_props props (sortedKeys props) vs path = Inr () \<longleftrightarrow> member_holds s ''properties'' v"
    unfolding validate_props_Inr JObj holds_properties [OF p d]
    using sub by (auto simp: properties_of_props_of [OF p]) (metis fst_conv image_eqI map_of_SomeD)+
  have "conforms s v \<longleftrightarrow> validate_enum s v path = None \<and> validate_members s vs path = None \<and>
      member_holds s ''properties'' v"
    unfolding conforms_keywords [OF lev, of v path] holds_members [OF level_okD(3) [OF lev]] ty
    by (simp add: JObj has_type_def) blast
  with pp ty JObj show ?thesis
    by (subst validate.simps) (auto simp: properties_of_props_of [OF p] split: option.splits)
qed (use conforms_keywords [OF lev, of v path] ty in \<open>simp_all add: validate.simps has_type_def split: option.splits\<close>)

lemma validate_array:
  assumes lev: "level_ok s" and ty: "schema_type s = ''array''" and u: "map_of s ''items'' = Some (JObj u)"
    and sub: "\<And>x path. validate u x path = Inr () \<longleftrightarrow> conforms u x"
  shows "validate s v path = Inr () \<longleftrightarrow> conforms s v"
proof (cases v)
  case (JArr xs)
  have "conforms s v \<longleftrightarrow> validate_enum s v path = None \<and> member_holds s ''items'' v \<and>
      boundInt s ''minItems'' ''maxItems'' (length xs) (at_path path @ '' length'') = Inr ()"
    using holds_bounds [OF level_okD(3) [OF lev], of "''minItems''" "''maxItems''"]
    unfolding conforms_keywords [OF lev, of v path] boundInt_def ty
    by (simp add: JArr has_type_def holds_bound_keys)
  moreover have "validate_elems u xs 0 path = Inr () \<longleftrightarrow> member_holds s ''items'' v"
    unfolding JArr holds_items [OF u] by (rule validate_elems_Inr [OF sub])
  ultimately show ?thesis
    using ty u JArr by (subst validate.simps) (auto split: option.splits sum.splits)
qed (use conforms_keywords [OF lev, of v path] ty in \<open>simp_all add: validate.simps has_type_def split: option.splits\<close>)


lemma validate_scalar_Inr:
  assumes lev: "level_ok s" and ty: "schema_type s \<noteq> ''object''" "schema_type s \<noteq> ''array''"
  shows "validate_scalar s (schema_type s) v path = Inr () \<longleftrightarrow> has_type (schema_type s) v \<and>
    (\<forall>key \<in> set [''properties'', ''required'', ''additionalProperties'', ''items'', ''minimum'', ''maximum'',
       ''minLength'', ''maxLength'', ''minItems'', ''maxItems'']. member_holds s key v)"
proof (cases v)
  case (JNum q)
  have "schema_type s = ''number'' \<or> schema_type s = ''integer'' \<or> schema_type s \<in> {''string'', ''boolean'', ''null''}"
    using level_okD(5) [OF lev] ty by (auto simp: supportedTypes_def)
  then show ?thesis
    using holds_bounds [OF level_okD(3) [OF lev], of "''minimum''" "''maximum''"] JNum
    by (elim disjE) (auto simp: validate_scalar_def has_type_def asNumber_def boundNumber_def is_integer_Ints holds_bound_keys)
next
  case (JStr t)
  have "schema_type s = ''string'' \<or> schema_type s \<in> {''number'', ''integer'', ''boolean'', ''null''}"
    using level_okD(5) [OF lev] ty by (auto simp: supportedTypes_def)
  then show ?thesis
    using holds_bounds [OF level_okD(3) [OF lev], of "''minLength''" "''maxLength''"] JStr
    by (elim disjE) (auto simp: validate_scalar_def has_type_def asNumber_def boundInt_def holds_bound_keys)
next
  case (JArr xs)
  with level_okD(5) [OF lev] ty show ?thesis
    by (auto simp: validate_scalar_def has_type_def asNumber_def supportedTypes_def)
next
  case (JObj vs)
  with level_okD(5) [OF lev] ty show ?thesis
    by (auto simp: validate_scalar_def has_type_def asNumber_def supportedTypes_def)
qed (use level_okD(5) [OF lev] ty in \<open>auto simp: validate_scalar_def has_type_def asNumber_def supportedTypes_def\<close>)

lemma validate_scalars:
  assumes lev: "level_ok s" and ty: "schema_type s \<noteq> ''object''" "schema_type s \<noteq> ''array''"
  shows "validate s v path = Inr () \<longleftrightarrow> conforms s v"
  using validate_scalar_Inr [OF assms, of v path] conforms_keywords [OF lev, of v path] ty
  by (subst validate.simps) (simp split: option.splits)

lemma validate_conforms:
  assumes "\<And>t. child\<^sup>*\<^sup>* s t \<Longrightarrow> level_ok t"
  shows "validate s v path = Inr () \<longleftrightarrow> conforms s v"
  using assms
proof (induction s arbitrary: v path rule: measure_induct_rule [of "\<lambda>s. size (JObj s)"])
  case (less s)
  have lev: "level_ok s" by (rule less.prems) simp
  have sub: "validate u x path = Inr () \<longleftrightarrow> conforms u x" if "child s u" "size (JObj u) < size (JObj s)" for u x path
  proof (rule less.IH [OF that(2)])
    fix t assume "child\<^sup>*\<^sup>* u t"
    with that(1) have "child\<^sup>*\<^sup>* s t" by (rule converse_rtranclp_into_rtranclp)
    then show "level_ok t" by (rule less.prems)
  qed
  consider "schema_type s = ''object''" | "schema_type s = ''array''"
    | "schema_type s \<noteq> ''object''" "schema_type s \<noteq> ''array''" by blast
  then show ?case
  proof cases
    case 1
    show ?thesis
    proof (rule validate_object [OF lev 1])
      fix name u x path assume u: "map_of (props_of s) name = Some (JObj u)"
      with 1 have "child s u" unfolding child_def by blast
      then show "validate u x path = Inr () \<longleftrightarrow> conforms u x"
        using sub props_member_smaller [OF 1 u] by blast
    qed
  next
    case 2
    with lev obtain u where u: "map_of s ''items'' = Some (JObj u)" by (auto simp: level_ok_def local_ok_def)
    with 2 have "child s u" by (simp add: child_def)
    then show ?thesis using validate_array [OF lev 2 u] sub member_smaller [OF u] by blast
  next
    case 3
    then show ?thesis by (rule validate_scalars [OF lev])
  qed
qed

lemma child_wf: "json_wf (JObj s) \<Longrightarrow> child s u \<Longrightarrow> json_wf (JObj u)"
proof -
  assume s: "json_wf (JObj s)" and "child s u"
  then consider "map_of s ''items'' = Some (JObj u)" | name where "map_of (props_of s) name = Some (JObj u)"
    by (auto simp: child_def)
  then show ?thesis
  proof cases
    case 2
    then have "map_of s ''properties'' = Some (JObj (props_of s))"
      by (auto simp: props_of_def split: option.splits json.splits)
    then show ?thesis using props_wf [OF props_wf [OF s] 2] by blast
  qed (rule props_wf [OF s])
qed

text \<open>
   Validation is exact on an admitted schema: if \<open>Check\<close> accepts the schema and in every subschema
  the keywords \<^verbatim>\<open>enum\<close>, \<^verbatim>\<open>additionalProperties\<close>, \<^verbatim>\<open>required\<close> and the bounds have values of the type that
  JSON Schema gives them, \<open>Validate\<close> accepts an answer if and only if the answer satisfies every keyword
  of the schema.
\<close>

theorem validate_exact:
  assumes "Check schema = Inr ()" and "json_wf (JObj schema)"
    and "\<And>t. child\<^sup>*\<^sup>* schema t \<Longrightarrow> keywords_typed t"
  shows "Validate schema v = Inr () \<longleftrightarrow> conforms schema v"
  unfolding Validate_def
proof (rule validate_conforms)
  fix t assume t: "child\<^sup>*\<^sup>* schema t"
  have "local_ok t"
    using assms(1) t unfolding check_accepts rtranclp_power by blast
  moreover have "json_wf (JObj t)" using t assms(2)
    by (induction rule: rtranclp_induct) (auto intro: child_wf simp del: json_wf.simps)
  ultimately show "level_ok t" using assms(3) [OF t] by (simp add: level_ok_def)
qed


subsection \<open>Keywords the check does not read\<close>

text \<open>
   The check reads the names of the keywords but not the values of \<^verbatim>\<open>enum\<close>, \<^verbatim>\<open>minimum\<close>,
  \<^verbatim>\<open>additionalProperties\<close> and \<^verbatim>\<open>required\<close>: it accepts an \<^verbatim>\<open>enum\<close> that is no array, a \<^verbatim>\<open>minimum\<close> that is no
  number, a schema-valued \<^verbatim>\<open>additionalProperties\<close> and a \<^verbatim>\<open>required\<close> that is no array, and \<open>Validate\<close> then
  enforces none of them; an answer that violates the \<^verbatim>\<open>additionalProperties\<close> schema is accepted.
\<close>

theorem keywords_unenforced:
  "Check [(''type'', JStr ''string''), (''enum'', JStr ''a'')] = Inr () \<and>
   (\<forall>s. Validate [(''type'', JStr ''string''), (''enum'', JStr ''a'')] (JStr s) = Inr ()) \<and>
   Check [(''type'', JStr ''number''), (''minimum'', JStr ''5'')] = Inr () \<and>
   (\<forall>q. Validate [(''type'', JStr ''number''), (''minimum'', JStr ''5'')] (JNum q) = Inr ()) \<and>
   Check [(''type'', JStr ''object''), (''required'', JStr ''a'')] = Inr () \<and>
   (\<forall>vs. Validate [(''type'', JStr ''object''), (''required'', JStr ''a'')] (JObj vs) = Inr ()) \<and>
   Check [(''type'', JStr ''object''), (''additionalProperties'', JObj [(''type'', JStr ''string'')])] = Inr () \<and>
   (\<forall>vs. Validate [(''type'', JStr ''object''), (''additionalProperties'', JObj [(''type'', JStr ''string'')])] (JObj vs) = Inr ()) \<and>
   \<not> conforms [(''type'', JStr ''object''), (''additionalProperties'', JObj [(''type'', JStr ''string'')])] (JObj [(''a'', JNum 1)])"
  (is "?a \<and> ?b \<and> ?c \<and> ?d \<and> ?e \<and> ?f \<and> ?g \<and> ?h \<and> ?i")
proof (intro conjI)
  show ?a ?c ?e ?g by code_simp+
  show ?b ?d ?f ?h
    by (simp_all add: Validate_def validate.simps validate_enum_def enumContains_def schema_type_def
        validate_members_def validate_scalar_def boundInt_def boundNumber_def bound_keys_def bound_of_def
        asNumber_def toStrings_def props_of_def sortedKeys_def)
  show ?i
    by (simp add: conforms.simps asserts.simps asserts_value_def has_type_def declared_def props_of_def)
qed

subsection \<open>The output object\<close>

text \<open>
  C34.  A contract that \<open>Parse\<close> returns is well typed: every member of the object was one of the four
  known ones, the format is one of the two known ones, and either the contract demands a schema that
  \<open>Check\<close> accepts, under a name of 1 to 64 bytes, or it is the text format and carries no schema.
\<close>

theorem parse_well_typed:
  assumes "Parse raw = Inr c"
  shows "fst ` set raw \<subseteq> {''format'', ''name'', ''schema'', ''strict''} \<and>
    (if oc_Format c = FormatJSONSchema
     then Demanded c \<and> Check (oc_Schema c) = Inr () \<and> 1 \<le> length (oc_Name c) \<and> length (oc_Name c) \<le> 64
     else oc_Format c = FormatText \<and> oc_Schema c = [] \<and> \<not> Demanded c)"
proof (cases "raw = []")
  case True
  with assms show ?thesis by (auto simp: Parse_def Demanded_def FormatText_def FormatJSONSchema_def)
next
  case False
  with assms have k: "List.find (\<lambda>key. key \<notin> {''format'', ''name'', ''schema'', ''strict''}) (sortedKeys raw) = None"
    by (auto simp: Parse_def split: option.splits)
  with False assms obtain f b nm m where p: "parse_format raw = Inr f" "parse_name raw = Inr nm"
      "parse_demand \<lparr>oc_Format = f, oc_Name = nm, oc_Schema = m, oc_Strict = b\<rparr> = Inr c"
    by (auto simp: Parse_def split: sum.splits)
  have "f = FormatText \<or> f = FormatJSONSchema"
    using p(1) by (auto simp: parse_format_def split: option.splits json.splits if_splits)
  moreover have "length nm \<le> 64"
    using p(2) by (auto simp: parse_name_def split: option.splits json.splits if_splits)
  ultimately have "if oc_Format c = FormatJSONSchema
     then Demanded c \<and> Check (oc_Schema c) = Inr () \<and> 1 \<le> length (oc_Name c) \<and> length (oc_Name c) \<le> 64
     else oc_Format c = FormatText \<and> oc_Schema c = [] \<and> \<not> Demanded c"
    using p(3) by (auto simp: parse_demand_def Demanded_def Suc_le_eq split: if_splits sum.splits)
  moreover have "fst ` set raw \<subseteq> {''format'', ''name'', ''schema'', ''strict''}"
    using k by (auto simp: find_None_iff)
  ultimately show ?thesis by blast
qed

subsection \<open>Instances\<close>

definition age_schema :: obj where
  "age_schema = [(''type'', JStr ''integer''), (''minimum'', JNum 0), (''maximum'', JNum 130)]"

definition person_schema :: obj where
  "person_schema = [(''type'', JStr ''object''), (''properties'', JObj [(''age'', JObj age_schema)]),
     (''required'', JArr [JStr ''age'']), (''additionalProperties'', JBool False)]"

lemma person_child: "child person_schema u \<longleftrightarrow> u = age_schema"
  by (auto simp: child_def person_schema_def schema_type_def props_of_def split: if_splits)

lemma age_child: "\<not> child age_schema u"
  by (simp add: child_def age_schema_def schema_type_def)

lemma person_descendants: "child\<^sup>*\<^sup>* person_schema t \<Longrightarrow> t = person_schema \<or> t = age_schema"
  by (induction rule: rtranclp_induct) (auto simp: person_child age_child)

lemma person_typed: "child\<^sup>*\<^sup>* person_schema t \<Longrightarrow> keywords_typed t"
proof -
  have "\<exists>xs. [JStr ''age''] = map JStr xs" by (rule exI [of _ "[''age'']"]) simp
  then have "keywords_typed person_schema"
    unfolding keywords_typed_def keyword_typed_def person_schema_def by simp blast
  moreover have "keywords_typed age_schema"
    by (simp add: keywords_typed_def keyword_typed_def age_schema_def)
  ultimately have "keywords_typed person_schema" "keywords_typed age_schema" by simp_all
  then show "child\<^sup>*\<^sup>* person_schema t \<Longrightarrow> keywords_typed t" using person_descendants by blast
qed

lemma person_accepted: "Check person_schema = Inr ()"
  by code_simp

theorem check_exact_witness: "local_ok age_schema \<and> property_count person_schema \<le> 512"
proof -
  have "(child ^^ 1) person_schema age_schema" by (simp add: person_child OO_def)
  then show ?thesis
    using check_exact [of person_schema] person_accepted unfolding maxSchemaProperties_def by blast
qed

theorem validate_exact_witness:
  "Validate person_schema (JObj [(''age'', JNum 40)]) = Inr () \<and>
   conforms person_schema (JObj [(''age'', JNum 40)]) \<and> \<not> conforms person_schema (JObj [(''age'', JNum 140)])"
proof -
  have wf: "json_wf (JObj person_schema)" by code_simp
  have "Validate person_schema (JObj [(''age'', JNum 40)]) = Inr ()" by code_simp
  moreover have "Validate person_schema (JObj [(''age'', JNum 140)]) \<noteq> Inr ()" by code_simp
  ultimately show ?thesis using validate_exact [OF person_accepted wf person_typed] by blast
qed

theorem parse_well_typed_witness:
  "\<exists>c. Parse [(''format'', JStr ''json_schema''), (''schema'', JObj person_schema)] = Inr c \<and> Demanded c \<and>
     Check (oc_Schema c) = Inr () \<and> length (oc_Name c) \<le> 64"
proof -
  have p: "Parse [(''format'', JStr ''json_schema''), (''schema'', JObj person_schema)] =
      Inr \<lparr>oc_Format = FormatJSONSchema, oc_Name = ''output'', oc_Schema = person_schema, oc_Strict = True\<rparr>"
    by code_simp
  show ?thesis using parse_well_typed [OF p] p by simp
qed

end
