(* ===== verification/Tool_Broker.thy ===== *)
theory Tool_Broker
  imports State_Machines Output_Contract
begin

text \<open>
  The in-process tool broker, \<^verbatim>\<open>src/packages/tool-broker\<close> and \<^verbatim>\<open>src/packages/toolset\<close>: answers to the model
  as errors (\<^verbatim>\<open>answer.go\<close>), the strict schema check of arguments and results
  (\<^verbatim>\<open>conformance_math.go\<close>), the tool set, the fenced rows and \<open>Execute\<close> (\<^verbatim>\<open>broker.go\<close>), and the canonical
  lists of tool names (\<^verbatim>\<open>toolset.go\<close>).

  \<open>Execute\<close> holds the broker's lock twice and runs the tool in between without it, so it is the
  composition of three definitions: \<open>admit\<close> (up to the row's state \<^verbatim>\<open>executing\<close>), \<open>invoke\<close> and \<open>settle\<close>.
  The relation \<open>broker_step\<close> interleaves the locked sections of any number of concurrent calls.  A tool's
  \<^verbatim>\<open>Exec\<close> and the registry lookup act on a world \<open>'w\<close> of their own and see the attempt's injected
  interfaces \<open>'x\<close>; both are data of the model, not code of it.  The \<^verbatim>\<open>string\<close> state of a row is an
  option: \<open>None\<close> is the empty string that \<^verbatim>\<open>statemachines.Apply\<close> returns with an error.

  Arguments and results are decoded JSON values, whose numbers are \<^verbatim>\<open>float64\<close>.  What the language leaves
  to the platform (a \<^verbatim>\<open>float64\<close> beyond the range of \<^verbatim>\<open>int64\<close>) and what the standard library computes
  (\<^verbatim>\<open>json.Marshal\<close>, \<^verbatim>\<open>sha256.Sum256\<close>) is the record \<open>platform\<close>.  A comparison of two objects or two arrays
  with \<^verbatim>\<open>==\<close> panics; \<open>Panics\<close> is that outcome.
\<close>

record platform =
  Marshal :: "json \<Rightarrow> string"
  Sum256 :: "string \<Rightarrow> string"
  wide_int :: "rat \<Rightarrow> int"
  wide_reads_back :: "rat \<Rightarrow> bool"

section \<open>Answers\<close>

definition ErrToolAnswer :: error where
  "ErrToolAnswer = Sentinel ''toolbroker'' ''tool_answer''"

definition ErrUnknownTool :: error where
  "ErrUnknownTool = Sentinel ''toolbroker'' ''unknown_tool''"

definition ErrInvalidArguments :: error where
  "ErrInvalidArguments = Sentinel ''toolbroker'' ''invalid_arguments''"

definition AnswerInvalidArguments :: string where
  "AnswerInvalidArguments = ''invalid_arguments''"

definition AnswerUnknownTool :: string where
  "AnswerUnknownTool = ''unknown_tool''"

definition AnswerFailed :: string where
  "AnswerFailed = ''failed''"

text \<open>An \<^verbatim>\<open>AnswerError\<close> wraps its cause and is the sentinel besides; its text keeps the code.\<close>

definition AnswerError :: "string \<Rightarrow> error \<Rightarrow> error" where
  "AnswerError code err = Errorf [ErrToolAnswer, err] code"

definition Answer :: "string \<Rightarrow> error option \<Rightarrow> error option" where
  "Answer code err = map_option (AnswerError (if code = [] then AnswerFailed else code)) err"

fun AsAnswer :: "error \<Rightarrow> (string \<times> error) option" where
  "AsAnswer (Sentinel p t) = None"
| "AsAnswer (Errorf ws code) =
     (case ws of
        [w, err] \<Rightarrow> if w = ErrToolAnswer then Some (code, err)
                    else (case AsAnswer w of Some a \<Rightarrow> Some a | None \<Rightarrow> AsAnswer err)
      | _ \<Rightarrow> (case filter (\<lambda>a. a \<noteq> None) (map AsAnswer ws) of [] \<Rightarrow> None | a # _ \<Rightarrow> a))"

section \<open>Schemas\<close>

datatype verdict = Valid | Refused string | Panics

text \<open>\<^verbatim>\<open>x == y\<close> on two interface values: \<open>None\<close> is the panic on uncomparable values of one type.\<close>

definition go_eq :: "json \<Rightarrow> json \<Rightarrow> bool option" where
  "go_eq x y = (case (x, y) of
     (JArr _, JArr _) \<Rightarrow> None
   | (JObj _, JObj _) \<Rightarrow> None
   | _ \<Rightarrow> Some (x = y))"

fun Contains :: "json list \<Rightarrow> json \<Rightarrow> bool option" where
  "Contains [] v = Some False"
| "Contains (x # xs) v = (case go_eq x v of
     None \<Rightarrow> None
   | Some True \<Rightarrow> Some True
   | Some False \<Rightarrow> Contains xs v)"

definition toStrings :: "json option \<Rightarrow> string list" where
  "toStrings v = (case v of
     Some (JArr xs) \<Rightarrow> concat (map (\<lambda>x. case x of JStr s \<Rightarrow> [s] | _ \<Rightarrow> []) xs)
   | _ \<Rightarrow> [])"

definition isNumber :: "json \<Rightarrow> bool" where
  "isNumber v = (case v of JNum _ \<Rightarrow> True | _ \<Rightarrow> False)"

definition in_int64 :: "rat \<Rightarrow> bool" where
  "in_int64 q \<longleftrightarrow> - (2 ^ 63) \<le> q \<and> q < 2 ^ 63"

definition isInteger :: "platform \<Rightarrow> json \<Rightarrow> bool" where
  "isInteger pf v = (case v of
     JNum q \<Rightarrow> if in_int64 q then is_integer q else wide_reads_back pf q
   | _ \<Rightarrow> False)"

definition toInt :: "platform \<Rightarrow> json option \<Rightarrow> int result" where
  "toInt pf v = (case v of
     Some (JNum q) \<Rightarrow>
       Inr (if in_int64 q then (if 0 \<le> q then \<lfloor>q\<rfloor> else \<lceil>q\<rceil>) else wide_int pf q)
   | _ \<Rightarrow> Inl (Errorf [] ''not an integer''))"

definition enum_verdict :: "obj \<Rightarrow> json \<Rightarrow> verdict" where
  "enum_verdict schema v = (case map_of schema ''enum'' of
     Some (JArr allowed) \<Rightarrow> (case Contains allowed v of
        None \<Rightarrow> Panics
      | Some True \<Rightarrow> Valid
      | Some False \<Rightarrow> Refused ''value is not one of the allowed'')
   | _ \<Rightarrow> Valid)"

definition type_name :: "obj \<Rightarrow> string" where
  "type_name schema = (case map_of schema ''type'' of Some (JStr t) \<Rightarrow> t | _ \<Rightarrow> [])"

definition props :: "obj \<Rightarrow> obj" where
  "props schema = (case map_of schema ''properties'' of Some (JObj ps) \<Rightarrow> ps | _ \<Rightarrow> [])"

definition object_verdict :: "obj \<Rightarrow> obj \<Rightarrow> verdict" where
  "object_verdict schema obj =
     (if list_ex (\<lambda>name. map_of obj name = None) (toStrings (map_of schema ''required''))
      then Refused ''missing required property''
      else if map_of schema ''additionalProperties'' = Some (JBool False)
              \<and> list_ex (\<lambda>kv. map_of (props schema) (fst kv) = None) obj
      then Refused ''unexpected property'' else Valid)"

definition scalar_verdict :: "platform \<Rightarrow> string \<Rightarrow> json \<Rightarrow> verdict" where
  "scalar_verdict pf typ v =
     (if typ = ''integer'' then (if isInteger pf v then Valid else Refused ''expected integer'')
      else if typ = ''number'' then (if isNumber v then Valid else Refused ''expected number'')
      else if typ = ''string'' then (case v of JStr _ \<Rightarrow> Valid | _ \<Rightarrow> Refused ''expected string'')
      else if typ = ''boolean'' then (case v of JBool _ \<Rightarrow> Valid | _ \<Rightarrow> Refused ''expected boolean'')
      else if typ = [] then Valid
      else Refused ''unsupported schema type'')"

definition and_then :: "verdict \<Rightarrow> verdict \<Rightarrow> verdict" where
  "and_then d e = (case d of Valid \<Rightarrow> e | _ \<Rightarrow> d)"

lemma and_then_cong [fundef_cong]: "d = d' \<Longrightarrow> (d' = Valid \<Longrightarrow> e = e') \<Longrightarrow> and_then d e = and_then d' e'"
  by (cases d) (auto simp: and_then_def)

text \<open>
  \<open>validate_props\<close> is the loop over the declared properties in the iteration order of the map,
  \<open>validate_items\<close> the loop over an array.
\<close>

function (sequential) validate :: "platform \<Rightarrow> obj \<Rightarrow> json \<Rightarrow> verdict"
  and validate_props :: "platform \<Rightarrow> obj \<Rightarrow> obj \<Rightarrow> verdict"
  and validate_items :: "platform \<Rightarrow> obj \<Rightarrow> json list \<Rightarrow> verdict"
where
  "validate pf schema v = and_then (enum_verdict schema v)
     (if type_name schema = ''object'' then
        (case v of
           JObj obj \<Rightarrow> and_then (object_verdict schema obj) (validate_props pf (props schema) obj)
         | _ \<Rightarrow> Refused ''expected object'')
      else if type_name schema = ''array'' then
        (case v of
           JArr items \<Rightarrow> (case map_of schema ''items'' of
              Some (JObj item) \<Rightarrow> validate_items pf item items
            | _ \<Rightarrow> Valid)
         | _ \<Rightarrow> Refused ''expected array'')
      else scalar_verdict pf (type_name schema) v)"
| "validate_props pf [] obj = Valid"
| "validate_props pf ((key, sub) # ps) obj =
     (case (map_of obj key, sub) of
        (Some raw, JObj subSchema) \<Rightarrow> and_then (validate pf subSchema raw) (validate_props pf ps obj)
      | _ \<Rightarrow> validate_props pf ps obj)"
| "validate_items pf item [] = Valid"
| "validate_items pf item (x # xs) = and_then (validate pf item x) (validate_items pf item xs)"
  by pat_completeness auto

lemma props_props_of: "props schema = props_of schema"
  by (simp add: props_def props_of_def)

lemma type_name_schema_type: "type_name schema = schema_type schema"
  by (simp add: type_name_def schema_type_def)

termination validate
proof (relation "measures [\<lambda>x. case x of Inl (_, s, _) \<Rightarrow> size (JObj s) | Inr (Inl (_, ps, _)) \<Rightarrow> size (JObj ps)
      | Inr (Inr (_, s, _)) \<Rightarrow> size (JObj s),
    \<lambda>x. case x of Inl _ \<Rightarrow> 0 | Inr (Inl (_, ps, _)) \<Rightarrow> length ps | Inr (Inr (_, _, xs)) \<Rightarrow> Suc (length xs)]",
  goal_cases)
qed (auto dest!: member_smaller dest: props_of_smaller [simplified]
  simp: props_props_of type_name_schema_type)

declare validate.simps [simp del]

section \<open>Tools and rows\<close>

datatype ReplayClass = ClassPure | ClassIdempotent | ClassReversible | ClassIrreversible | ClassInteractive

record TaskScope =
  Project :: string
  SessionID :: string
  RunID :: string
  ResponseID :: string

record 'x ExecEnv =
  WorkspaceRoot :: string
  ReadOnly :: bool
  RunAs :: "(int \<times> int) option"
  RunAsUnresolved :: bool
  CallID :: string
  Fence :: uint64
  Scope :: TaskScope
  EnvValues :: "(string \<times> string) list"
  Seams :: 'x

text \<open>
  An undeclared class is the empty string, \<open>None\<close>.  \<^verbatim>\<open>Exec\<close> reads and changes the world; \<^verbatim>\<open>Invoke\<close> is a
  function of the arguments.
\<close>

record ('w, 'x) Tool =
  Name :: string
  Description :: string
  Type :: string
  InputSchema :: obj
  OutputSchema :: obj
  Tool_ReplayClass :: "ReplayClass option"
  ParallelSafe :: bool
  Invoke :: "(obj \<Rightarrow> obj result) option"
  Exec :: "('w \<Rightarrow> 'x ExecEnv \<Rightarrow> obj \<Rightarrow> obj result \<times> 'w) option"
  ExternalKeyed :: bool
  Unretained :: bool
  RequiresApproval :: bool
  ApprovalLabel :: string

definition replayClass :: "('w, 'x) Tool \<Rightarrow> ReplayClass" where
  "replayClass t = (case Tool_ReplayClass t of None \<Rightarrow> ClassPure | Some c \<Rightarrow> c)"

definition NeedsPreWrite :: "ReplayClass \<Rightarrow> bool" where
  "NeedsPreWrite c = (case c of
     ClassIrreversible \<Rightarrow> True | ClassReversible \<Rightarrow> True | ClassInteractive \<Rightarrow> True | _ \<Rightarrow> False)"

definition BlocksReplayAfterKill :: "ReplayClass \<Rightarrow> bool" where
  "BlocksReplayAfterKill c = NeedsPreWrite c"

record Outcome =
  Out_Result :: "obj option"
  Out_State :: "ToolCallState option"
  Out_ToolCalls :: int
  Out_Hash :: string
  Out_ReplayClass :: "ReplayClass option"
  Out_Cached :: bool
  Out_Unretained :: bool

definition no_outcome :: Outcome where
  "no_outcome = \<lparr>Out_Result = None, Out_State = None, Out_ToolCalls = 0, Out_Hash = [],
     Out_ReplayClass = None, Out_Cached = False, Out_Unretained = False\<rparr>"

record row =
  row_state :: "ToolCallState option"
  row_fence :: uint64
  row_hash :: string
  row_result :: "obj option"

type_synonym ('w, 'x) LookupFunc = "'w \<Rightarrow> 'x ExecEnv \<Rightarrow> string \<Rightarrow> ('w, 'x) Tool option result"

record ('w, 'x) Broker =
  tools :: "string \<rightharpoonup> ('w, 'x) Tool"
  rows :: "string \<rightharpoonup> row"
  lookup :: "('w, 'x) LookupFunc option"

definition New :: "('w, 'x) Tool list \<Rightarrow> ('w, 'x) Broker" where
  "New ts = \<lparr>tools = foldl (\<lambda>m t. m(Name t \<mapsto> t)) Map.empty ts, rows = Map.empty, lookup = None\<rparr>"

definition SetLookup :: "('w, 'x) LookupFunc option \<Rightarrow> ('w, 'x) Broker \<Rightarrow> ('w, 'x) Broker" where
  "SetLookup fn b = b\<lparr>lookup := fn\<rparr>"

definition Names :: "('w, 'x) Broker \<Rightarrow> string list" where
  "Names b = sorted_list_of_set (dom (tools b))"

definition Discoverable :: "('w, 'x) Broker \<Rightarrow> string \<Rightarrow> bool" where
  "Discoverable b name \<longleftrightarrow> tools b name \<noteq> None"

definition Schema :: "('w, 'x) Broker \<Rightarrow> string \<Rightarrow> ('w, 'x) Tool option" where
  "Schema b name = tools b name"

definition ReplayClassOf :: "('w, 'x) Broker \<Rightarrow> string \<Rightarrow> ReplayClass" where
  "ReplayClassOf b name = (case tools b name of None \<Rightarrow> ClassPure | Some t \<Rightarrow> replayClass t)"

definition SchemaResolved ::
  "('w, 'x) Broker \<Rightarrow> 'w \<Rightarrow> 'x ExecEnv \<Rightarrow> string \<Rightarrow> ('w, 'x) Tool option result" where
  "SchemaResolved b w env name = (case tools b name of
     Some t \<Rightarrow> Inr (Some t)
   | None \<Rightarrow> (case lookup b of None \<Rightarrow> Inr None | Some l \<Rightarrow> l w env name))"

text \<open>The shape that the three remaining resolving reads share: a static tool, else the registry's.\<close>

definition resolved_with ::
  "(('w, 'x) Tool \<Rightarrow> 'a) \<Rightarrow> 'a \<Rightarrow> ('w, 'x) Broker \<Rightarrow> 'w \<Rightarrow> 'x ExecEnv \<Rightarrow> string \<Rightarrow> 'a result" where
  "resolved_with f absent b w env name = (case tools b name of
     Some t \<Rightarrow> Inr (f t)
   | None \<Rightarrow> (case lookup b of
        None \<Rightarrow> Inr absent
      | Some l \<Rightarrow> (case l w env name of
           Inl e \<Rightarrow> Inl (Errorf [e] ''registry lookup'')
         | Inr None \<Rightarrow> Inr absent
         | Inr (Some t) \<Rightarrow> Inr (f t))))"

definition ReplayClassResolved :: "('w, 'x) Broker \<Rightarrow> 'w \<Rightarrow> 'x ExecEnv \<Rightarrow> string \<Rightarrow> ReplayClass result" where
  "ReplayClassResolved = resolved_with replayClass ClassPure"

definition ExternalKeyedResolved :: "('w, 'x) Broker \<Rightarrow> 'w \<Rightarrow> 'x ExecEnv \<Rightarrow> string \<Rightarrow> bool result" where
  "ExternalKeyedResolved = resolved_with ExternalKeyed False"

definition RequiresApprovalResolved ::
  "('w, 'x) Broker \<Rightarrow> 'w \<Rightarrow> 'x ExecEnv \<Rightarrow> string \<Rightarrow> (bool \<times> string) result" where
  "RequiresApprovalResolved = resolved_with (\<lambda>t. (RequiresApproval t, ApprovalLabel t)) (False, [])"

definition requestHash :: "platform \<Rightarrow> string \<Rightarrow> obj \<Rightarrow> string" where
  "requestHash pf name args =
     ''sha256:'' @ EncodeToString (Sum256 pf (Marshal pf (JArr [JStr name, JObj args])))"

section \<open>Execute\<close>

definition apply_row :: "ToolCallState option \<Rightarrow> ToolCallCommand \<Rightarrow> ToolCallState result" where
  "apply_row st cmd = (case st of
     None \<Rightarrow> Inl (Errorf [ErrInvalidState] ''no transition'')
   | Some s \<Rightarrow> bind_result (Apply s cmd ToolCallTable) (\<lambda>(s', e). Inr s'))"

definition resolve :: "('w, 'x) Broker \<Rightarrow> 'w \<Rightarrow> 'x ExecEnv \<Rightarrow> string \<Rightarrow> ('w, 'x) Tool result" where
  "resolve b w env name = (case tools b name of
     Some t \<Rightarrow> Inr t
   | None \<Rightarrow> (case lookup b of
        None \<Rightarrow> Inl (AnswerError AnswerUnknownTool (Errorf [ErrUnknownTool] []))
      | Some l \<Rightarrow> (case l w env name of
           Inl e \<Rightarrow> Inl (Errorf [e] ''registry lookup'')
         | Inr None \<Rightarrow> Inl (AnswerError AnswerUnknownTool (Errorf [ErrUnknownTool] []))
         | Inr (Some t) \<Rightarrow> Inr t)))"

definition cached :: "('w, 'x) Tool \<Rightarrow> row \<Rightarrow> Outcome" where
  "cached t r = \<lparr>Out_Result = row_result r, Out_State = row_state r, Out_ToolCalls = 0, Out_Hash = row_hash r,
     Out_ReplayClass = Some (replayClass t), Out_Cached = True, Out_Unretained = Unretained t\<rparr>"

definition failed :: "('w, 'x) Tool \<Rightarrow> row \<Rightarrow> Outcome" where
  "failed t r = \<lparr>Out_Result = None, Out_State = row_state r, Out_ToolCalls = 0, Out_Hash = row_hash r,
     Out_ReplayClass = Some (replayClass t), Out_Cached = False, Out_Unretained = Unretained t\<rparr>"

definition completed :: "('w, 'x) Tool \<Rightarrow> row \<Rightarrow> Outcome" where
  "completed t r = \<lparr>Out_Result = row_result r, Out_State = row_state r, Out_ToolCalls = 1, Out_Hash = row_hash r,
     Out_ReplayClass = Some (replayClass t), Out_Cached = False, Out_Unretained = Unretained t\<rparr>"

text \<open>How a locked section ends: the call returns, the tool is run next, or the process panics.\<close>

datatype ('w, 'x) section_end =
    Returns Outcome "error option"
  | Runs "('w, 'x) Tool"
  | Panicked

definition fresh_row :: row where
  "fresh_row = \<lparr>row_state = Some ToolCallReady, row_fence = 0, row_hash = [], row_result = None\<rparr>"

definition put_row :: "string \<Rightarrow> row \<Rightarrow> ('w, 'x) Broker \<Rightarrow> ('w, 'x) Broker" where
  "put_row callID r b = b\<lparr>rows := (rows b)(callID \<mapsto> r)\<rparr>"

definition lease_row :: "platform \<Rightarrow> ('w, 'x) Tool \<Rightarrow> string \<Rightarrow> string \<Rightarrow> obj \<Rightarrow> uint64 \<Rightarrow> ('w, 'x) Broker
    \<Rightarrow> ('w, 'x) section_end \<times> ('w, 'x) Broker" where
  "lease_row pf tool callID name args fence b =
     (let r = (case rows b callID of None \<Rightarrow> fresh_row | Some r \<Rightarrow> r)
      in case AcceptFence (row_fence r) fence of
           Inl e \<Rightarrow> (Returns no_outcome (Some e), put_row callID r b)
         | Inr _ \<Rightarrow>
             let r' = r\<lparr>row_fence := fence, row_hash := requestHash pf name args\<rparr>
             in case bind_result (apply_row (row_state r') ToolCallCmdLease)
                       (\<lambda>s. apply_row (Some s) ToolCallCmdExecute) of
                  Inl e \<Rightarrow> (Returns no_outcome (Some e), put_row callID r' b)
                | Inr s \<Rightarrow> (Runs tool, put_row callID (r'\<lparr>row_state := Some s\<rparr>) b))"

definition admit :: "platform \<Rightarrow> string \<Rightarrow> string \<Rightarrow> obj \<Rightarrow> uint64 \<Rightarrow> 'x ExecEnv \<Rightarrow> 'w \<Rightarrow> ('w, 'x) Broker
    \<Rightarrow> ('w, 'x) section_end \<times> ('w, 'x) Broker" where
  "admit pf callID name args fence env w b =
     (case resolve b w env name of
        Inl e \<Rightarrow> (Returns no_outcome (Some e), b)
      | Inr tool \<Rightarrow>
          if map_option row_state (rows b callID) = Some (Some ToolCallCompleted)
          then (Returns (cached tool (the (rows b callID))) None, b)
          else (case validate pf (InputSchema tool) (JObj args) of
             Panics \<Rightarrow> (Panicked, b)
           | Refused why \<Rightarrow>
               (Returns no_outcome (Some (AnswerError AnswerInvalidArguments (Errorf [ErrInvalidArguments] why))), b)
           | Valid \<Rightarrow> lease_row pf tool callID name args fence b))"

definition invoke :: "('w, 'x) Tool \<Rightarrow> 'w \<Rightarrow> 'x ExecEnv \<Rightarrow> obj \<Rightarrow> obj result \<times> 'w" where
  "invoke t w env args = (case Exec t of
     Some f \<Rightarrow> f w env args
   | None \<Rightarrow> (case Invoke t of
        Some f \<Rightarrow> (f args, w)
      | None \<Rightarrow> (Inl (Errorf [] ''tool has no invoke surface''), w)))"

definition fail_row :: "row \<Rightarrow> row" where
  "fail_row r = r\<lparr>row_state := (case apply_row (row_state r) ToolCallCmdFail of Inr s \<Rightarrow> Some s | Inl _ \<Rightarrow> None)\<rparr>"

definition settle :: "platform \<Rightarrow> ('w, 'x) Tool \<Rightarrow> string \<Rightarrow> obj result \<Rightarrow> ('w, 'x) Broker
    \<Rightarrow> ('w, 'x) section_end \<times> ('w, 'x) Broker" where
  "settle pf tool callID result b =
     (let r = the (rows b callID) in case result of
        Inl e \<Rightarrow> (Returns (failed tool (fail_row r)) (Some (Errorf [e] ''tool'')), put_row callID (fail_row r) b)
      | Inr res \<Rightarrow> (case validate pf (OutputSchema tool) (JObj res) of
           Panics \<Rightarrow> (Panicked, b)
         | Refused why \<Rightarrow> (Returns (failed tool (fail_row r)) (Some (Errorf [ErrInvalidArguments] why)),
             put_row callID (fail_row r) b)
         | Valid \<Rightarrow> (case apply_row (row_state r) ToolCallCmdComplete of
              Inl e \<Rightarrow> (Returns no_outcome (Some e), b)
            | Inr s \<Rightarrow> let r' = r\<lparr>row_state := Some s, row_result := Some res\<rparr>
                in (Returns (completed tool r') None, put_row callID r' b))))"

definition Execute :: "platform \<Rightarrow> string \<Rightarrow> string \<Rightarrow> obj \<Rightarrow> uint64 \<Rightarrow> 'x ExecEnv \<Rightarrow> 'w \<Rightarrow> ('w, 'x) Broker
    \<Rightarrow> ('w, 'x) section_end \<times> 'w \<times> ('w, 'x) Broker" where
  "Execute pf callID name args fence env w b =
     (case admit pf callID name args fence env w b of
        (Runs tool, b') \<Rightarrow>
          (let (result, w') = invoke tool w (env\<lparr>CallID := callID, Fence := fence\<rparr>) args;
               (out, b'') = settle pf tool callID result b'
           in (out, w', b''))
      | (out, b') \<Rightarrow> (out, w, b'))"

section \<open>The conformance tool and the canonical names\<close>

definition integer_schema :: "string list \<Rightarrow> obj" where
  "integer_schema names =
     [(''type'', JStr ''object''),
      (''properties'', JObj (map (\<lambda>n. (n, JObj [(''type'', JStr ''integer'')])) names)),
      (''required'', JArr (map JStr names)),
      (''additionalProperties'', JBool False)]"

definition math_add :: "platform \<Rightarrow> obj \<Rightarrow> obj result" where
  "math_add pf args =
     (case toInt pf (map_of args ''a'') of
        Inl e \<Rightarrow> Inl (Errorf [e] ''argument a'')
      | Inr a \<Rightarrow> (case toInt pf (map_of args ''b'') of
           Inl e \<Rightarrow> Inl (Errorf [e] ''argument b'')
         | Inr b \<Rightarrow> Inr [(''sum'', JNum (of_int (wrap64 (a + b))))]))"

definition ConformanceMathAdd :: "platform \<Rightarrow> ('w, 'x) Tool" where
  "ConformanceMathAdd pf = \<lparr>Name = ''palai.conformance.math.add'', Description = [], Type = [],
     InputSchema = integer_schema [''a'', ''b''], OutputSchema = integer_schema [''sum''],
     Tool_ReplayClass = None, ParallelSafe = False, Invoke = Some (math_add pf), Exec = None,
     ExternalKeyed = False, Unretained = False, RequiresApproval = False, ApprovalLabel = []\<rparr>"

definition defaultTools :: "string list" where
  "defaultTools = [''palai.workspace.file'', ''str_replace_based_edit_tool'', ''palai.workspace.glob'',
     ''palai.workspace.grep'', ''palai.workspace.shell'', ''palai.workspace.background_kill'',
     ''palai.workspace.show_media'', ''palai.research.fetch'', ''palai.knowledge.retrieve'']"

definition repositoryTools :: "string list" where
  "repositoryTools = [''palai.workspace.commit'']"

definition publishTools :: "string list" where
  "publishTools = [''palai.publish.push'', ''palai.publish.pull_request'', ''palai.publish.merge_pull_request'']"

definition All_tools :: "string list" where
  "All_tools = defaultTools @ repositoryTools @ publishTools"

section \<open>Concurrent calls\<close>

text \<open>
  The broker with the calls whose tool runs outside the lock, the identifiers of the calls whose tool
  was run, the latest first, and what \<open>Execute\<close> returned to whom.
\<close>

record ('w, 'x) brokerage =
  broker :: "('w, 'x) Broker"
  in_flight :: "(string \<times> ('w, 'x) Tool \<times> 'x ExecEnv \<times> obj) list"
  invoked :: "string list"
  returned :: "(string \<times> Outcome \<times> error option) list"

definition opened :: "('w, 'x) Tool list \<Rightarrow> ('w, 'x) brokerage" where
  "opened ts = \<lparr>broker = New ts, in_flight = [], invoked = [], returned = []\<rparr>"

inductive broker_step :: "platform \<Rightarrow> ('w, 'x) brokerage \<Rightarrow> ('w, 'x) brokerage \<Rightarrow> bool" for pf where
  admitted: "admit pf c name args fence env w (broker s) = (Runs t, b) \<Longrightarrow>
     broker_step pf s (s\<lparr>broker := b, invoked := c # invoked s,
       in_flight := (c, t, env\<lparr>CallID := c, Fence := fence\<rparr>, args) # in_flight s\<rparr>)"
| turned_away: "admit pf c name args fence env w (broker s) = (Returns out e, b) \<Longrightarrow>
     broker_step pf s (s\<lparr>broker := b, returned := (c, out, e) # returned s\<rparr>)"
| settled: "(c, t, env, args) \<in> set (in_flight s) \<Longrightarrow> fst (invoke t w env args) = result \<Longrightarrow>
     settle pf t c result (broker s) = (Returns out e, b) \<Longrightarrow>
     broker_step pf s (s\<lparr>broker := b, in_flight := remove1 (c, t, env, args) (in_flight s),
       returned := (c, out, e) # returned s\<rparr>)"
| registry: "broker_step pf s (s\<lparr>broker := SetLookup fn (broker s)\<rparr>)"

text \<open>State and result of a call's row; a call without a row is like one whose row was just made.\<close>

definition view :: "('w, 'x) Broker \<Rightarrow> string \<Rightarrow> ToolCallState option \<times> obj option" where
  "view b c = (case rows b c of None \<Rightarrow> (Some ToolCallReady, None) | Some r \<Rightarrow> (row_state r, row_result r))"

lemma view_put_row [simp]:
  "view (put_row c r b) = (view b)(c := (row_state r, row_result r))"
  by (auto simp: view_def put_row_def)

lemma view_put_same: "view b c = (row_state r, row_result r) \<Longrightarrow> view (put_row c r b) = view b"
  by (metis fun_upd_triv view_put_row)

lemma view_SetLookup [simp]: "view (SetLookup fn b) = view b"
  by (auto simp: view_def SetLookup_def)

lemma view_New [simp]: "view (New ts) c = (Some ToolCallReady, None)"
  by (simp add: view_def New_def)

lemma leased_and_executing:
  "bind_result (apply_row st ToolCallCmdLease) (\<lambda>s. apply_row (Some s) ToolCallCmdExecute) = Inr s \<longleftrightarrow>
     st = Some ToolCallReady \<and> s = ToolCallExecuting"
proof (cases st)
  case (Some x)
  then show ?thesis by (cases x) (auto simp: apply_row_def ToolCallTable_def)
qed (simp add: apply_row_def)

lemma executing_ends [simp]:
  "apply_row (Some ToolCallExecuting) ToolCallCmdComplete = Inr ToolCallCompleted"
  "apply_row (Some ToolCallExecuting) ToolCallCmdFail = Inr ToolCallFailed"
  by (simp_all add: apply_row_def ToolCallTable_def)

lemma view_of_row: "view b c = (let r = (case rows b c of None \<Rightarrow> fresh_row | Some r \<Rightarrow> r) in (row_state r, row_result r))"
  by (simp add: view_def fresh_row_def split: option.splits)

lemma lease_row_Runs:
  assumes "lease_row pf tool c name args fence b = (Runs t, b')"
  shows "t = tool \<and> fst (view b c) = Some ToolCallReady
    \<and> view b' = (view b)(c := (Some ToolCallExecuting, snd (view b c)))"
  using assms
  by (auto simp: lease_row_def Let_def view_of_row leased_and_executing split: sum.splits)

lemma lease_row_Returns:
  assumes "lease_row pf tool c name args fence b = (Returns out e, b')"
  shows "e \<noteq> None \<and> out = no_outcome \<and> view b' = view b"
proof -
  let ?r = "case rows b c of None \<Rightarrow> fresh_row | Some r \<Rightarrow> r"
  have "view b c = (row_state ?r, row_result ?r)" by (simp add: view_of_row Let_def)
  then show ?thesis using assms by (auto simp: lease_row_def Let_def view_put_same split: sum.splits)
qed

lemma lease_row_Panicked: "lease_row pf tool c name args fence b \<noteq> (Panicked, b')"
  by (auto simp: lease_row_def Let_def split: sum.splits)

lemma admit_Runs:
  assumes "admit pf c name args fence env w b = (Runs t, b')"
  shows "resolve b w env name = Inr t \<and> validate pf (InputSchema t) (JObj args) = Valid
    \<and> fst (view b c) = Some ToolCallReady \<and> view b' = (view b)(c := (Some ToolCallExecuting, snd (view b c)))"
  using assms lease_row_Runs
  by (fastforce simp: admit_def split: sum.splits if_splits verdict.splits)

lemma admit_Returns:
  assumes "admit pf c name args fence env w b = (Returns out e, b')"
  shows "view b' = view b \<and> Out_ToolCalls out = 0 \<and>
    (e = None \<longrightarrow> view b c = (Some ToolCallCompleted, Out_Result out) \<and> Out_Cached out)"
  using assms lease_row_Returns
  by (fastforce simp: admit_def cached_def view_def no_outcome_def
      split: sum.splits if_splits verdict.splits option.splits)

lemma settle_Returns:
  assumes "settle pf t c result b = (Returns out e, b')" and "fst (view b c) = Some ToolCallExecuting"
  shows "\<exists>st res. view b' = (view b)(c := (Some st, res)) \<and>
    (if e = None then st = ToolCallCompleted \<and> res = Out_Result out \<and> Out_ToolCalls out = 1
     else st = ToolCallFailed \<and> Out_ToolCalls out = 0)"
proof -
  from assms(2) obtain r where "rows b c = Some r" and "row_state r = Some ToolCallExecuting"
    by (auto simp: view_def split: option.splits)
  with assms(1) show ?thesis
    by (auto simp: settle_def Let_def fail_row_def failed_def completed_def split: sum.splits verdict.splits)
qed

definition metered :: "('w, 'x) brokerage \<Rightarrow> string \<Rightarrow> int" where
  "metered s c = (\<Sum>(c', out, e) \<leftarrow> returned s. if c' = c then Out_ToolCalls out else 0)"

definition brokerage_inv :: "('w, 'x) brokerage \<Rightarrow> bool" where
  "brokerage_inv s \<longleftrightarrow>
     distinct (invoked s) \<and> distinct (map fst (in_flight s))
     \<and> (\<forall>c. c \<in> set (invoked s) \<longleftrightarrow> fst (view (broker s) c) \<noteq> Some ToolCallReady)
     \<and> (\<forall>c. c \<in> fst ` set (in_flight s) \<longleftrightarrow> fst (view (broker s) c) = Some ToolCallExecuting)
     \<and> (\<forall>c out. (c, out, None) \<in> set (returned s) \<longrightarrow> view (broker s) c = (Some ToolCallCompleted, Out_Result out))
     \<and> (\<forall>c. metered s c = (if fst (view (broker s) c) = Some ToolCallCompleted then 1 else 0))"

lemma returned_completed:
  "brokerage_inv s \<Longrightarrow> (c, out, None) \<in> set (returned s) \<Longrightarrow> view (broker s) c = (Some ToolCallCompleted, Out_Result out)"
  unfolding brokerage_inv_def by blast

lemma metered_cons [simp]:
  "metered (s\<lparr>broker := b, returned := (c', out, e) # rs\<rparr>) c
     = (if c' = c then Out_ToolCalls out else 0) + metered (s\<lparr>returned := rs\<rparr>) c"
  "metered (s\<lparr>broker := b, in_flight := fl, returned := (c', out, e) # rs\<rparr>) c
     = (if c' = c then Out_ToolCalls out else 0) + metered (s\<lparr>returned := rs\<rparr>) c"
  by (simp_all add: metered_def)

lemma metered_frame [simp]:
  "metered (s\<lparr>broker := b\<rparr>) = metered s"
  "metered (s\<lparr>broker := b, invoked := cs, in_flight := fl\<rparr>) = metered s"
  "metered (s\<lparr>returned := returned s\<rparr>) = metered s"
  by (simp_all add: metered_def fun_eq_iff)

lemma settled_inv:
  assumes "brokerage_inv s" and "x \<in> set (in_flight s)" and "fst x = c"
    and "view b = (view (broker s))(c := (Some st, res))"
    and "if e = None then st = ToolCallCompleted \<and> res = Out_Result out \<and> Out_ToolCalls out = 1
         else st = ToolCallFailed \<and> Out_ToolCalls out = 0"
  shows "brokerage_inv (s\<lparr>broker := b, in_flight := remove1 x (in_flight s), returned := (c, out, e) # returned s\<rparr>)"
proof -
  have exec: "fst (view (broker s) c) = Some ToolCallExecuting" and d: "distinct (map fst (in_flight s))"
    using assms(1-3) by (auto simp: brokerage_inv_def)
  have "fst ` set (remove1 x (in_flight s)) = fst ` set (in_flight s) - {c}"
    using d assms(2,3) by (auto simp: distinct_map inj_on_def)
  moreover have "distinct (map fst (remove1 x (in_flight s)))"
    using d by (auto simp: distinct_map intro: inj_on_subset)
  ultimately show ?thesis
    using assms exec returned_completed [OF assms(1), of c] by (auto simp: brokerage_inv_def split: if_splits)
qed

lemma broker_step_inv: "broker_step pf s s' \<Longrightarrow> brokerage_inv s \<Longrightarrow> brokerage_inv s'"
proof (induction rule: broker_step.induct)
  case (admitted c name args fence env w s t b)
  from admit_Runs [OF this(1)] admitted(2) returned_completed [OF admitted(2), of c]
  show ?case by (auto simp: brokerage_inv_def)
next
  case (turned_away c name args fence env w s out e b)
  from admit_Returns [OF this(1)] turned_away(2) show ?case by (auto simp: brokerage_inv_def)
next
  case (settled c t env args s w result out e b)
  then have "fst (view (broker s) c) = Some ToolCallExecuting"
    by (auto simp: brokerage_inv_def image_iff Bex_def)
  from settle_Returns [OF settled(3) this] settled(1,4) show ?case by (auto intro: settled_inv)
next
  case (registry s fn)
  then show ?case by (simp add: brokerage_inv_def)
qed

interpretation brokerage: invariant_system "broker_step pf" brokerage_inv
  by unfold_locales (rule broker_step_inv)

lemma opened_inv: "brokerage_inv (opened ts)"
  by (simp add: brokerage_inv_def opened_def metered_def)

text \<open>C6.
  However the locked sections of concurrent calls interleave, and whatever tools the registry resolves
  in the meantime, the tool of a call is run at most once; every success that is returned for one call
  identifier carries the same result; and at most one tool call is metered for it.
\<close>

theorem tool_runs_once:
  assumes "(broker_step pf)\<^sup>*\<^sup>* (opened ts) s"
  shows "distinct (invoked s) \<and> metered s c \<le> 1
    \<and> ((c, out, None) \<in> set (returned s) \<and> (c, out', None) \<in> set (returned s)
       \<longrightarrow> Out_Result out = Out_Result out' \<and> c \<in> set (invoked s))"
proof -
  have inv: "brokerage_inv s" using brokerage.reach_inv [OF assms opened_inv] .
  then have "distinct (invoked s)" and "metered s c \<le> 1"
    and "c \<in> set (invoked s) \<longleftrightarrow> fst (view (broker s) c) \<noteq> Some ToolCallReady"
    by (simp_all add: brokerage_inv_def)
  moreover have "Out_Result out = Out_Result out' \<and> fst (view (broker s) c) = Some ToolCallCompleted"
    if "(c, out, None) \<in> set (returned s)" and "(c, out', None) \<in> set (returned s)"
    using that [THEN returned_completed [OF inv]] by simp
  ultimately show ?thesis by auto
qed

section \<open>What the schema check accepts\<close>

text \<open>
  The part of JSON Schema that the broker's check reads: no bounds, no \<^verbatim>\<open>null\<close> type, and only scalars in
  an \<^verbatim>\<open>enum\<close>.  The check of a run's output (\<open>Output_Contract\<close>) reads more; on this part the two agree.
\<close>

definition scalar :: "json \<Rightarrow> bool" where
  "scalar v = (case v of JArr _ \<Rightarrow> False | JObj _ \<Rightarrow> False | _ \<Rightarrow> True)"

definition tool_level :: "obj \<Rightarrow> bool" where
  "tool_level s \<longleftrightarrow> schema_type s \<in> {''object'', ''array'', ''integer'', ''number'', ''string'', ''boolean''}
     \<and> (\<forall>key \<in> {''minimum'', ''maximum'', ''minLength'', ''maxLength'', ''minItems'', ''maxItems''}. map_of s key = None)
     \<and> (\<forall>xs. map_of s ''enum'' = Some (JArr xs) \<longrightarrow> list_all scalar xs)"

text \<open>Numbers in the range of \<^verbatim>\<open>int64\<close>.\<close>

fun narrow :: "json \<Rightarrow> bool" where
  "narrow (JNum q) = in_int64 q"
| "narrow (JArr xs) = list_all narrow xs"
| "narrow (JObj kvs) = list_all (\<lambda>kv. narrow (snd kv)) kvs"
| "narrow _ = True"

lemma and_then_Valid [simp]: "and_then d e = Valid \<longleftrightarrow> d = Valid \<and> e = Valid"
  by (cases d) (simp_all add: and_then_def)

lemma canonical_scalar: "scalar x \<Longrightarrow> canonical x = canonical v \<longleftrightarrow> x = v"
  by (cases x; cases v) (simp_all add: scalar_def)

lemma go_eq_scalar: "scalar x \<Longrightarrow> go_eq x v = Some (x = v)"
  by (cases x) (simp_all add: go_eq_def scalar_def)

lemma Contains_scalars: "list_all scalar xs \<Longrightarrow> Contains xs v = Some (v \<in> set xs)"
  by (induction xs) (auto simp: go_eq_scalar split: bool.splits)

lemma enum_agree:
  assumes "tool_level s" shows "enum_verdict s v = Valid \<longleftrightarrow> validate_enum s v path = None"
proof -
  have "list_ex (\<lambda>x. canonical x = canonical v) xs \<longleftrightarrow> v \<in> set xs" if "list_all scalar xs" for xs
    using that canonical_scalar by (auto simp: list_ex_iff list_all_iff)
  with assms show ?thesis
    by (auto simp: enum_verdict_def validate_enum_def enumContains_def tool_level_def Contains_scalars
        split: option.splits json.splits bool.splits)
qed

lemma object_agree: "object_verdict s vs = Valid \<longleftrightarrow> validate_members s vs path = None"
proof -
  have strings: "toStrings v = Output_Contract.toStrings v" for v
    by (simp add: toStrings_def Output_Contract.toStrings_def)
  have chain: "(case x of None \<Rightarrow> y | Some n \<Rightarrow> Some (f n)) = None \<longleftrightarrow> x = None \<and> y = None"
    for x :: "string option" and y :: "violation option" and f
    by (cases x) simp_all
  show ?thesis
    by (auto simp: object_verdict_def validate_members_def chain strings props_props_of list_ex_iff find_None_iff)
qed

lemma scalar_agree:
  assumes "tool_level s" and "narrow v" and "schema_type s \<notin> {''object'', ''array''}"
  shows "scalar_verdict pf (schema_type s) v = Valid \<longleftrightarrow> validate_scalar s (schema_type s) v path = Inr ()"
  using assms
  by (cases v) (auto simp: tool_level_def scalar_verdict_def validate_scalar_def isInteger_def isNumber_def
      asNumber_def boundInt_def boundNumber_def bound_keys_def bound_of_def Let_def)

lemma validate_props_pairs:
  "validate_props pf ps vs = Valid \<longleftrightarrow>
     (\<forall>p \<in> set ps. case (map_of vs (fst p), snd p) of (Some x, JObj u) \<Rightarrow> validate pf u x = Valid | _ \<Rightarrow> True)"
  by (induction ps) (auto split: option.splits json.splits)

lemma validate_props_Valid:
  assumes "distinct (map fst ps)"
  shows "validate_props pf ps vs = Valid \<longleftrightarrow>
     (\<forall>key u x. map_of ps key = Some (JObj u) \<and> map_of vs key = Some x \<longrightarrow> validate pf u x = Valid)"
  unfolding validate_props_pairs map_of_eq_Some_iff [OF assms]
  by (force split: option.splits json.splits)

lemma validate_items_Valid: "validate_items pf item xs = Valid \<longleftrightarrow> (\<forall>x \<in> set xs. validate pf item x = Valid)"
  by (induction xs) auto

lemma validate_elems_agree:
  assumes "\<And>x path. x \<in> set xs \<Longrightarrow> validate pf u x = Valid \<longleftrightarrow> Output_Contract.validate u x path = Inr ()"
  shows "validate_items pf u xs = Valid \<longleftrightarrow> validate_elems u xs i path = Inr ()"
  using assms
proof (induction xs arbitrary: i)
  case (Cons x xs)
  have "validate pf u x = Valid \<longleftrightarrow> Output_Contract.validate u x (path @ ''['' @ FormatInt (int i) @ '']'') = Inr ()"
    by (rule Cons.prems) simp
  moreover have "validate_items pf u xs = Valid \<longleftrightarrow> validate_elems u xs (Suc i) path = Inr ()"
    by (rule Cons.IH) (simp add: Cons.prems)
  ultimately show ?case by (simp split: sum.splits)
qed simp

lemma narrow_member: "narrow (JObj kvs) \<Longrightarrow> map_of kvs k = Some x \<Longrightarrow> narrow x"
  by (auto simp: list_all_iff dest!: map_of_SomeD)

lemma level_props_distinct:
  assumes "level_ok s" shows "distinct (map fst (props_of s))"
proof (cases "map_of s ''properties''")
  case (Some a)
  with assms have "json_wf a" by (auto simp: level_ok_def list_all_iff dest!: map_of_SomeD)
  with Some show ?thesis by (cases a) (simp_all add: props_of_def)
qed (simp add: props_of_def)

lemma object_step:
  assumes ty: "schema_type s = ''object''" and tool: "tool_level s" and lev: "level_ok s" and v: "narrow v"
    and sub: "\<And>u x path. child s u \<Longrightarrow> narrow x \<Longrightarrow> validate pf u x = Valid \<longleftrightarrow> Output_Contract.validate u x path = Inr ()"
  shows "validate pf s v = Valid \<longleftrightarrow> Output_Contract.validate s v path = Inr ()"
proof (cases v)
  case (JObj vs)
  have member: "child s u \<and> name \<in> set (sortedKeys (props_of s))" if "map_of (props_of s) name = Some (JObj u)" for name u
    using that ty map_of_SomeD [OF that] by (force simp: child_def)
  have "validate_props pf (props_of s) vs = Valid \<longleftrightarrow>
      Output_Contract.validate_props (props_of s) (sortedKeys (props_of s)) vs path = Inr ()"
    unfolding validate_props_Valid [OF level_props_distinct [OF lev]] validate_props_Inr
    using member sub narrow_member [OF v [unfolded JObj]] by meson
  then show ?thesis
    unfolding JObj
    by (subst validate.simps, subst Output_Contract.validate.simps)
      (simp add: ty type_name_schema_type props_props_of enum_agree [OF tool, where path = path]
        object_agree [where path = path] split: option.splits)
qed (simp_all add: ty type_name_schema_type validate.simps [of pf s] Output_Contract.validate.simps [of s] split: option.splits)

lemma array_step:
  assumes ty: "schema_type s = ''array''" and tool: "tool_level s" and lev: "level_ok s" and v: "narrow v"
    and sub: "\<And>u x path. child s u \<Longrightarrow> narrow x \<Longrightarrow> validate pf u x = Valid \<longleftrightarrow> Output_Contract.validate u x path = Inr ()"
  shows "validate pf s v = Valid \<longleftrightarrow> Output_Contract.validate s v path = Inr ()"
proof (cases v)
  case (JArr xs)
  from lev ty obtain u where u: "map_of s ''items'' = Some (JObj u)" by (auto simp: level_ok_def local_ok_def)
  with ty have "child s u" by (simp add: child_def)
  then have "validate_items pf u xs = Valid \<longleftrightarrow> validate_elems u xs 0 path = Inr ()"
    using sub v JArr by (intro validate_elems_agree) (auto simp: list_all_iff)
  moreover have "boundInt s ''minItems'' ''maxItems'' n loc = Inr ()" for n loc
    using tool by (simp add: tool_level_def boundInt_def bound_keys_def bound_of_def)
  ultimately show ?thesis
    unfolding JArr
    by (subst validate.simps, subst Output_Contract.validate.simps)
      (simp add: ty u type_name_schema_type enum_agree [OF tool, where path = path] split: option.splits)
qed (simp_all add: ty type_name_schema_type validate.simps [of pf s] Output_Contract.validate.simps [of s] split: option.splits)

lemma scalar_step:
  assumes ty: "schema_type s \<notin> {''object'', ''array''}" and tool: "tool_level s" and v: "narrow v"
  shows "validate pf s v = Valid \<longleftrightarrow> Output_Contract.validate s v path = Inr ()"
  using ty
  by (subst validate.simps, subst Output_Contract.validate.simps)
    (simp add: type_name_schema_type scalar_agree [OF tool v ty] enum_agree [OF tool, where path = path] split: option.splits)

lemma validators_agree:
  assumes "\<And>t. child\<^sup>*\<^sup>* s t \<Longrightarrow> level_ok t \<and> tool_level t" and "narrow v"
  shows "validate pf s v = Valid \<longleftrightarrow> Output_Contract.validate s v path = Inr ()"
  using assms
proof (induction s arbitrary: v path rule: measure_induct_rule [of "\<lambda>s. size (JObj s)"])
  case (less s)
  have lev: "level_ok s" "tool_level s" using less.prems(1) [of s] by simp_all
  have smaller: "size (JObj u) < size (JObj s)" if "child s u" for u
    using that member_smaller props_member_smaller unfolding child_def by blast
  have sub: "validate pf u x = Valid \<longleftrightarrow> Output_Contract.validate u x path = Inr ()"
    if "child s u" "narrow x" for u x path
    using that less.prems(1) by (intro less.IH smaller) (auto intro: converse_rtranclp_into_rtranclp)
  consider "schema_type s = ''object''" | "schema_type s = ''array''" | "schema_type s \<notin> {''object'', ''array''}"
    by blast
  then show ?case
    using object_step array_step scalar_step lev less.prems(2) sub by cases blast+
qed


definition path_schema :: obj where
  "path_schema = [(''type'', JStr ''string''), (''enum'', JArr [JStr ''a.txt'', JStr ''b.txt''])]"

definition read_schema :: obj where
  "read_schema = [(''type'', JStr ''object''), (''properties'', JObj [(''path'', JObj path_schema)]),
     (''required'', JArr [JStr ''path'']), (''additionalProperties'', JBool False)]"

lemma read_schema_levels:
  assumes "child\<^sup>*\<^sup>* read_schema t" shows "level_ok t \<and> tool_level t"
proof -
  have "child read_schema u \<longleftrightarrow> u = path_schema" for u
    by (auto simp: child_def read_schema_def props_of_def schema_type_def)
  moreover have "\<not> child path_schema u" for u
    by (simp add: child_def path_schema_def schema_type_def)
  ultimately have "t = read_schema \<or> t = path_schema"
    using rtranclp_induct [OF assms, of "\<lambda>t. t = read_schema \<or> t = path_schema"] by blast
  moreover have "level_ok read_schema \<and> level_ok path_schema"
  proof -
    have "json_wf (JObj read_schema)" "json_wf (JObj path_schema)" by code_simp+
    moreover have "local_ok read_schema" "local_ok path_schema"
      by (simp_all add: local_ok_def object_ok_def properties_of_def read_schema_def path_schema_def
          supportedKeywords_def supportedTypes_def schema_type_def Output_Contract.toStrings_def)
    moreover have "keywords_typed read_schema" "keywords_typed path_schema"
      by (auto simp: keywords_typed_def keyword_typed_def read_schema_def path_schema_def intro: exI [of _ "[''path'']"])
    ultimately show ?thesis by (simp add: level_ok_def)
  qed
  moreover have "tool_level read_schema" "tool_level path_schema"
    by (simp_all add: tool_level_def read_schema_def path_schema_def schema_type_def scalar_def)
  ultimately show ?thesis by auto
qed

definition sample_platform :: platform where
  "sample_platform = \<lparr>Marshal = (\<lambda>v. case v of JArr [JStr n, JObj kvs] \<Rightarrow> n @ concat (map fst kvs) | _ \<Rightarrow> []),
     Sum256 = (\<lambda>s. s), wide_int = (\<lambda>_. - (2 ^ 63)), wide_reads_back = (\<lambda>_. False)\<rparr>"


section \<open>What an error leaves behind\<close>

lemma AsAnswer_AnswerError [simp]: "AsAnswer (AnswerError code err) = Some (code, err)"
  by (simp add: AnswerError_def)

lemma AsAnswer_wrapped [simp]: "AsAnswer (Errorf [e] t) = AsAnswer e"
  by (cases "AsAnswer e") simp_all

declare AsAnswer.simps(2) [simp del]

lemma AsAnswer_sentinels [simp]:
  "AsAnswer (Errorf [] t) = None"
  "AsAnswer ErrUnknownTool = None" "AsAnswer ErrInvalidArguments = None" "AsAnswer ErrStaleFence = None"
  "AsAnswer ErrInvalidState = None"
  by (simp_all add: ErrUnknownTool_def ErrInvalidArguments_def ErrStaleFence_def ErrInvalidState_def AsAnswer.simps)

lemma apply_row_error: "apply_row st cmd = Inl e \<Longrightarrow> AsAnswer e = None"
  by (auto simp: apply_row_def bind_result_eq_Inl dest!: Apply_error split: option.splits)

lemma AcceptFence_error: "AcceptFence f g = Inl e \<Longrightarrow> AsAnswer e = None"
  by (auto simp: AcceptFence_def split: if_splits)

lemma lease_row_error:
  "lease_row pf tool c name args fence b = (Returns out (Some e), b') \<Longrightarrow> AsAnswer e = None"
  by (auto simp: lease_row_def Let_def bind_result_eq_Inl dest: AcceptFence_error apply_row_error split: sum.splits)

text \<open>C21.
  An error that the model is told as an answer before the tool is run left the broker as it was: no row,
  no fence and no hash was written.  After the tool was run, an error is an answer only if the tool
  itself returned one; a result that fails its schema never is, and the call's row is then failed.
\<close>

theorem answers_without_effect:
  assumes "admit pf c name args fence env w b = (Returns out (Some e), b')"
    and "fst (view b2 d) = Some ToolCallExecuting"
    and "settle pf t d result b2 = (Returns out2 (Some e2), b2')"
  shows "(AsAnswer e \<noteq> None \<longrightarrow> b' = b \<and> out = no_outcome)
    \<and> AsAnswer e2 = (case result of Inl cause \<Rightarrow> AsAnswer cause | Inr res \<Rightarrow> None)
    \<and> fst (view b2' d) = Some ToolCallFailed \<and> Out_State out2 = Some ToolCallFailed"
proof -
  have "AsAnswer e \<noteq> None \<longrightarrow> b' = b \<and> out = no_outcome"
    using assms(1) lease_row_error
    by (fastforce simp: admit_def split: sum.splits if_splits verdict.splits)
  moreover from assms(2) obtain r where "rows b2 d = Some r" and "row_state r = Some ToolCallExecuting"
    by (auto simp: view_def split: option.splits)
  then have "AsAnswer e2 = (case result of Inl cause \<Rightarrow> AsAnswer cause | Inr res \<Rightarrow> None)
    \<and> fst (view b2' d) = Some ToolCallFailed \<and> Out_State out2 = Some ToolCallFailed"
    using assms(3) by (auto simp: settle_def Let_def fail_row_def failed_def split: sum.splits verdict.splits)
  ultimately show ?thesis by blast
qed

text \<open>C40.
  A second call under an identifier whose tool is still running is refused, but not before it has
  written its own fence and request hash into the row: the outcome of the first call, when its tool
  returns, carries the hash of the refused request.
\<close>

theorem refused_duplicate_rewrites_hash:
  assumes "rows b c = Some r" and "row_state r = Some ToolCallExecuting" and "row_fence r < fence"
    and "resolve b w env name = Inr tool" and "validate pf (InputSchema tool) (JObj args) = Valid"
    and "validate pf (OutputSchema t) (JObj res) = Valid"
  shows "\<exists>e b' out b''. admit pf c name args fence env w b = (Returns no_outcome (Some e), b')
    \<and> settle pf t c (Inr res) b' = (Returns out None, b'')
    \<and> Out_Result out = Some res \<and> Out_Hash out = requestHash pf name args"
proof -
  let ?r = "r\<lparr>row_fence := fence, row_hash := requestHash pf name args\<rparr>"
  obtain e where e: "apply_row (Some ToolCallExecuting) ToolCallCmdLease = Inl e"
    by (simp add: apply_row_def ToolCallTable_def)
  have "admit pf c name args fence env w b = (Returns no_outcome (Some e), put_row c ?r b)"
    using assms(1-5) e by (simp add: admit_def lease_row_def AcceptFence_def not_le [symmetric])
  moreover have "\<exists>b'' out. settle pf t c (Inr res) (put_row c ?r b) = (Returns out None, b'')
      \<and> Out_Result out = Some res \<and> Out_Hash out = requestHash pf name args"
    using assms(2,6) by (simp add: settle_def put_row_def Let_def completed_def)
  ultimately show ?thesis by blast
qed

section \<open>A run of the conformance tool\<close>

definition adder :: "(unit, unit) Tool" where
  "adder = ConformanceMathAdd sample_platform"

definition two_and_three :: obj where
  "two_and_three = [(''a'', JNum 2), (''b'', JNum 3)]"

definition nowhere :: "unit ExecEnv" where
  "nowhere = \<lparr>WorkspaceRoot = [], ReadOnly = True, RunAs = None, RunAsUnresolved = False, CallID = [], Fence = 0,
     Scope = \<lparr>Project = [], SessionID = [], RunID = [], ResponseID = []\<rparr>, EnvValues = [], Seams = ()\<rparr>"

definition running :: row where
  "running = fresh_row\<lparr>row_fence := 1, row_state := Some ToolCallExecuting,
     row_hash := requestHash sample_platform ''palai.conformance.math.add'' two_and_three\<rparr>"

lemma adder_valid [simp]:
  "validate sample_platform (InputSchema adder) (JObj two_and_three) = Valid"
  "validate sample_platform (OutputSchema adder) (JObj [(''sum'', JNum 5)]) = Valid"
  by code_simp+

lemma adder_found [simp]: "resolve (New [adder]) w env ''palai.conformance.math.add'' = Inr adder"
  by (simp add: resolve_def New_def adder_def ConformanceMathAdd_def)

lemma adder_adds: "invoke adder w env two_and_three = (Inr [(''sum'', JNum 5)], w)"
proof -
  have "math_add sample_platform two_and_three = Inr [(''sum'', JNum 5)]" by code_simp
  then show ?thesis by (simp add: invoke_def adder_def ConformanceMathAdd_def)
qed

lemma adder_admitted:
  "admit sample_platform ''call_1'' ''palai.conformance.math.add'' two_and_three 1 nowhere () (New [adder])
     = (Runs adder, put_row ''call_1'' running (New [adder]))"
proof -
  have none: "rows (New [adder]) = Map.empty" by (simp add: New_def)
  have "bind_result (apply_row (Some ToolCallReady) ToolCallCmdLease) (\<lambda>s. apply_row (Some s) ToolCallCmdExecute)
      = Inr ToolCallExecuting"
    by (simp add: leased_and_executing)
  then show ?thesis
    by (simp add: admit_def none lease_row_def Let_def AcceptFence_def fresh_row_def running_def)
qed

lemma running_row: "rows (put_row c r b) c = Some r"
  by (simp add: put_row_def)

lemma adder_settled:
  "settle sample_platform adder ''call_1'' (Inr [(''sum'', JNum 5)]) (put_row ''call_1'' running b)
     = (Returns (completed adder (running\<lparr>row_state := Some ToolCallCompleted, row_result := Some [(''sum'', JNum 5)]\<rparr>)) None,
        put_row ''call_1'' (running\<lparr>row_state := Some ToolCallCompleted, row_result := Some [(''sum'', JNum 5)]\<rparr>)
          (put_row ''call_1'' running b))"
proof -
  have "row_state running = Some ToolCallExecuting" by (simp add: running_def)
  then show ?thesis by (simp add: settle_def running_row Let_def)
qed

theorem tool_runs_once_witness:
  "\<exists>s. (broker_step sample_platform)\<^sup>*\<^sup>* (opened [adder]) s
     \<and> invoked s = [''call_1''] \<and> length (returned s) = 1 \<and> metered s ''call_1'' \<le> 1"
proof -
  let ?s1 = "opened [adder]\<lparr>broker := put_row ''call_1'' running (New [adder]), invoked := [''call_1''],
    in_flight := [(''call_1'', adder, nowhere\<lparr>CallID := ''call_1'', Fence := 1\<rparr>, two_and_three)]\<rparr>"
  have "broker_step sample_platform (opened [adder]) ?s1"
    using broker_step.admitted [of sample_platform "''call_1''" _ two_and_three 1 nowhere "()" "opened [adder]"] adder_admitted
    by (simp add: opened_def)
  moreover obtain s where "broker_step sample_platform ?s1 s" and "invoked s = [''call_1'']" and "length (returned s) = 1"
    using broker_step.settled [of "''call_1''" adder "nowhere\<lparr>CallID := ''call_1'', Fence := 1\<rparr>" two_and_three ?s1 "()"
      "Inr [(''sum'', JNum 5)]" sample_platform] adder_settled adder_adds by (simp add: opened_def)
  ultimately have "(broker_step sample_platform)\<^sup>*\<^sup>* (opened [adder]) s" by auto
  with tool_runs_once [OF this, of "''call_1''"] \<open>invoked s = _\<close> \<open>length (returned s) = 1\<close> show ?thesis by blast
qed

theorem answers_without_effect_witness:
  "AsAnswer (Errorf [Errorf [] ''disk full''] ''tool'') = None
   \<and> snd (admit sample_platform ''call_2'' ''no.such.tool'' [] 1 nowhere () (New [adder])) = New [adder]"
proof -
  let ?e = "AnswerError AnswerUnknownTool (Errorf [ErrUnknownTool] [])"
  let ?b = "put_row ''call_1'' running (New [adder])"
  have "admit sample_platform ''call_2'' ''no.such.tool'' [] 1 nowhere () (New [adder])
      = (Returns no_outcome (Some ?e), New [adder])"
    by (simp add: admit_def resolve_def New_def adder_def ConformanceMathAdd_def)
  moreover have "fst (view ?b ''call_1'') = Some ToolCallExecuting" by (simp add: running_def)
  moreover have "settle sample_platform adder ''call_1'' (Inl (Errorf [] ''disk full'')) ?b
      = (Returns (failed adder (fail_row running)) (Some (Errorf [Errorf [] ''disk full''] ''tool'')),
         put_row ''call_1'' (fail_row running) ?b)"
    by (simp add: settle_def running_row)
  ultimately show ?thesis using answers_without_effect by fastforce
qed

theorem refused_duplicate_rewrites_hash_witness:
  "\<exists>out b e b'. admit sample_platform ''call_1'' ''palai.conformance.math.add'' (rev two_and_three) 2 nowhere ()
        (put_row ''call_1'' running (New [adder])) = (Returns no_outcome (Some e), b')
    \<and> settle sample_platform adder ''call_1'' (Inr [(''sum'', JNum 5)]) b' = (Returns out None, b)
    \<and> Out_Hash out = requestHash sample_platform ''palai.conformance.math.add'' (rev two_and_three)
    \<and> Out_Hash out \<noteq> row_hash running"
proof -
  have valid: "validate sample_platform (InputSchema adder) (JObj (rev two_and_three)) = Valid" by code_simp
  have found: "resolve (put_row ''call_1'' running (New [adder])) () nowhere ''palai.conformance.math.add'' = Inr adder"
    by (simp add: resolve_def put_row_def New_def adder_def ConformanceMathAdd_def)
  have "row_state running = Some ToolCallExecuting" and "row_fence running < 2" by (simp_all add: running_def)
  moreover have "requestHash sample_platform ''palai.conformance.math.add'' (rev two_and_three) \<noteq> row_hash running"
    by code_simp
  ultimately show ?thesis
    using refused_duplicate_rewrites_hash [OF running_row _ _ found valid adder_valid(2)] by metis
qed

end
