(* ===== verification/Audit_Chain.thy ===== *)
theory Audit_Chain
  imports Palai_Base "HOL-Library.Char_ord" "HOL-Library.List_Lexorder" "HOL-Library.Product_Lexorder"
    "HOL-Library.Multiset"
begin

text \<open>
  The audit-integrity chain of \<^verbatim>\<open>src/packages/audit\<close>: the digest of a journal row and the rolling head
  (\<^verbatim>\<open>chain.go\<close>), the checkpoint (\<^verbatim>\<open>checkpoint.go\<close>) and its comparison with the journal (\<^verbatim>\<open>report.go\<close>).

  SHA-256 is the argument \<open>sha\<close> from byte strings to byte strings; the theorems assume that its values have 32 bytes and that
  it has no collision among the strings that the compared computations hash, never that it is injective.
  A time in a checkpoint is either a time or a text that does not parse.  Rows carry distinct pairs of session and sequence
  (a key of the table), so the order that \<^verbatim>\<open>sort.Slice\<close> gives equal keys does not matter.
  An alert keeps the fixed part of its detail; the fields of a report that the command fills in are left out.
\<close>

section \<open>Rows\<close>

record Row =
  row_ID :: string
  row_ProjectID :: string
  row_SessionID :: string
  row_ResponseID :: string
  row_HasResponseID :: bool
  row_Seq :: int
  row_JournalID :: int
  row_Type :: string
  row_Payload :: string
  row_CreatedAt :: string

definition field :: "string \<Rightarrow> string" where
  "field s = PutUint64 (length s) @ s"

definition presence :: "Row \<Rightarrow> string" where
  "presence r = (if row_HasResponseID r then char_of (1 :: nat) # field (row_ResponseID r) else [char_of (0 :: nat)])"

definition row_bytes :: "Row \<Rightarrow> string" where
  "row_bytes r = field (row_ID r) @ field (row_ProjectID r) @ field (row_SessionID r) @ presence r @
     field (FormatInt (row_Seq r)) @ field (FormatInt (row_JournalID r)) @ field (row_Type r) @
     field (row_Payload r) @ field (row_CreatedAt r)"

definition digest :: "(string \<Rightarrow> string) \<Rightarrow> Row \<Rightarrow> string" where
  "digest sha r = sha (row_bytes r)"

section \<open>The chain\<close>

definition chain_key :: "Row \<Rightarrow> string \<times> int" where
  "chain_key r = (row_SessionID r, row_Seq r)"

definition ordered :: "Row list \<Rightarrow> Row list" where
  "ordered rows = sort_key chain_key rows"

definition link :: "(string \<Rightarrow> string) \<Rightarrow> string \<Rightarrow> Row \<Rightarrow> string" where
  "link sha acc r = sha (acc @ digest sha r)"

definition chain_start :: string where
  "chain_start = replicate 32 (char_of (0 :: nat))"

definition Head :: "(string \<Rightarrow> string) \<Rightarrow> Row list \<Rightarrow> string" where
  "Head sha rows = ''sha256:'' @ EncodeToString (foldl (link sha) chain_start (ordered rows))"

record SessionAnchor =
  sa_SessionID :: string
  sa_Count :: int
  sa_MaxSeq :: int
  sa_Head :: string

definition session_rows :: "string \<Rightarrow> Row list \<Rightarrow> Row list" where
  "session_rows sid rows = filter (\<lambda>r. row_SessionID r = sid) rows"

definition max_seq :: "Row list \<Rightarrow> int" where
  "max_seq rows = foldl (\<lambda>m r. if row_Seq r > m then row_Seq r else m) 0 rows"

definition session_ids :: "Row list \<Rightarrow> string list" where
  "session_ids rows = sort (remdups (map row_SessionID rows))"

definition anchor_of :: "(string \<Rightarrow> string) \<Rightarrow> Row list \<Rightarrow> string \<Rightarrow> SessionAnchor" where
  "anchor_of sha rows sid = (let rs = session_rows sid rows
     in \<lparr>sa_SessionID = sid, sa_Count = int (length rs), sa_MaxSeq = max_seq rs, sa_Head = Head sha rs\<rparr>)"

definition Summarize :: "(string \<Rightarrow> string) \<Rightarrow> Row list \<Rightarrow> string \<times> SessionAnchor list \<times> int" where
  "Summarize sha rows = (Head sha rows, map (anchor_of sha rows) (session_ids rows), int (length rows))"

section \<open>Checkpoints\<close>

definition Algorithm :: string where
  "Algorithm = ''palai-audit-chain-sha256-v2''"

definition CheckpointVersion :: int where
  "CheckpointVersion = 1"

datatype timestamp = Time int | Unparsed string

record Checkpoint =
  cp_Version :: int
  cp_Algorithm :: string
  cp_GeneratedAt :: timestamp
  cp_Head :: string
  cp_Count :: int
  cp_Sessions :: "SessionAnchor list"

definition NewCheckpoint :: "(string \<Rightarrow> string) \<Rightarrow> Row list \<Rightarrow> int \<Rightarrow> Checkpoint" where
  "NewCheckpoint sha rows now = (case Summarize sha rows of (head, anchors, n) \<Rightarrow>
     \<lparr>cp_Version = CheckpointVersion, cp_Algorithm = Algorithm, cp_GeneratedAt = Time now,
      cp_Head = head, cp_Count = n, cp_Sessions = anchors\<rparr>)"

section \<open>Comparison\<close>

definition AlertGap :: string where "AlertGap = ''gap''"
definition AlertTamper :: string where "AlertTamper = ''tamper''"
definition AlertMalformed :: string where "AlertMalformed = ''malformed''"
definition AlertStale :: string where "AlertStale = ''stale''"

record Alert =
  al_Kind :: string
  al_SessionID :: string
  al_Detail :: string
  al_Want :: string
  al_Got :: string

record Report =
  rp_Algorithm :: string
  rp_CheckpointGeneratedAt :: timestamp
  rp_CheckpointHead :: string
  rp_RecomputedHead :: string
  rp_AnchoredRows :: int
  rp_UnanchoredRows :: int
  rp_Alerts :: "Alert list"
  rp_OK :: bool

definition Has :: "Report \<Rightarrow> string \<Rightarrow> bool" where
  "Has r k = list_ex (\<lambda>a. al_Kind a = k) (rp_Alerts r)"

definition anchored_prefix :: "SessionAnchor \<Rightarrow> Row list \<Rightarrow> Row list" where
  "anchored_prefix a rows = filter (\<lambda>r. row_Seq r \<le> sa_MaxSeq a) (session_rows (sa_SessionID a) rows)"

definition rows_upto :: "int \<Rightarrow> int \<Rightarrow> string" where
  "rows_upto n s = FormatInt n @ '' rows up to seq '' @ FormatInt s"

definition compare_anchor :: "(string \<Rightarrow> string) \<Rightarrow> Row list \<Rightarrow> SessionAnchor \<Rightarrow> Alert list" where
  "compare_anchor sha rows a = (let pre = anchored_prefix a rows; top = max_seq pre
     in if int (length pre) \<noteq> sa_Count a \<or> top \<noteq> sa_MaxSeq a
        then [\<lparr>al_Kind = AlertGap, al_SessionID = sa_SessionID a,
               al_Detail = ''anchored rows have been removed'',
               al_Want = rows_upto (sa_Count a) (sa_MaxSeq a), al_Got = rows_upto (int (length pre)) top\<rparr>]
        else if Head sha pre \<noteq> sa_Head a
        then [\<lparr>al_Kind = AlertTamper, al_SessionID = sa_SessionID a,
               al_Detail = ''every anchored row is present but their bytes no longer chain to the anchored head'',
               al_Want = sa_Head a, al_Got = Head sha pre\<rparr>]
        else [])"

definition version_text :: "int \<Rightarrow> string \<Rightarrow> string" where
  "version_text v a = FormatInt v @ ''/'' @ a"

definition malformed_alert :: "Checkpoint \<Rightarrow> Alert" where
  "malformed_alert cp = \<lparr>al_Kind = AlertMalformed, al_SessionID = [],
     al_Detail = ''checkpoint declares another version or algorithm'',
     al_Want = version_text CheckpointVersion Algorithm, al_Got = version_text (cp_Version cp) (cp_Algorithm cp)\<rparr>"

definition inconsistent_alert :: "Checkpoint \<Rightarrow> string \<Rightarrow> Alert" where
  "inconsistent_alert cp head = \<lparr>al_Kind = AlertTamper, al_SessionID = [],
     al_Detail = ''the checkpoint is internally inconsistent'', al_Want = cp_Head cp, al_Got = head\<rparr>"

definition Compare :: "(string \<Rightarrow> string) \<Rightarrow> Checkpoint \<Rightarrow> Row list \<Rightarrow> Report" where
  "Compare sha cp rows =
     (let rep = \<lparr>rp_Algorithm = cp_Algorithm cp, rp_CheckpointGeneratedAt = cp_GeneratedAt cp,
           rp_CheckpointHead = cp_Head cp, rp_RecomputedHead = [], rp_AnchoredRows = 0, rp_UnanchoredRows = 0,
           rp_Alerts = [], rp_OK = False\<rparr>
      in if cp_Version cp \<noteq> CheckpointVersion \<or> cp_Algorithm cp \<noteq> Algorithm
         then rep\<lparr>rp_Alerts := [malformed_alert cp]\<rparr>
         else let anchors = sort_key sa_SessionID (cp_Sessions cp);
                  anchored = concat (map (\<lambda>a. anchored_prefix a rows) anchors);
                  alerts = concat (map (compare_anchor sha rows) anchors);
                  head = Head sha anchored;
                  alerts' = (if head \<noteq> cp_Head cp \<and> alerts = [] then [inconsistent_alert cp head] else alerts)
              in rep\<lparr>rp_RecomputedHead := head, rp_AnchoredRows := int (length anchored),
                     rp_UnanchoredRows := int (length rows) - int (length anchored),
                     rp_Alerts := alerts', rp_OK := (alerts' = [])\<rparr>)"

text \<open>Durations and times are nanoseconds; the texts of an age are not rendered.\<close>

definition Freshness :: "Checkpoint \<Rightarrow> int \<Rightarrow> int \<Rightarrow> int \<Rightarrow> Alert list" where
  "Freshness cp maxAge minAnchored now =
     (if maxAge > 0 then
        (case cp_GeneratedAt cp of
           Unparsed t \<Rightarrow> [\<lparr>al_Kind = AlertStale, al_SessionID = [],
             al_Detail = ''its age cannot be established'', al_Want = [], al_Got = []\<rparr>]
         | Time generated \<Rightarrow>
             if now - generated > maxAge
             then [\<lparr>al_Kind = AlertStale, al_SessionID = [], al_Detail = ''outside the freshness window'',
                    al_Want = ''not older than'', al_Got = []\<rparr>]
             else [])
      else []) @
     (if minAnchored > 0 \<and> cp_Count cp < minAnchored
      then [\<lparr>al_Kind = AlertStale, al_SessionID = [],
             al_Detail = ''an anchor that covers almost nothing vouches for almost nothing'',
             al_Want = ''at least '' @ FormatInt minAnchored @ '' anchored rows'',
             al_Got = FormatInt (cp_Count cp)\<rparr>]
      else [])"

text \<open>The guards of \<^verbatim>\<open>WriteSigned\<close> before it touches a file: no key, and no rows unless allowed.\<close>

definition sign_refused :: "Checkpoint \<Rightarrow> string \<Rightarrow> bool \<Rightarrow> bool" where
  "sign_refused cp signingKey allowEmpty \<longleftrightarrow> signingKey = [] \<or> cp_Count cp = 0 \<and> \<not> allowEmpty"


section \<open>The row encoding\<close>

text \<open>A decoder of the encoding, each step of which hands back the bytes it did not read.\<close>

definition take_field :: "string \<Rightarrow> (string \<times> string) option" where
  "take_field bs = (let n = GetUint64 (take 8 bs); body = drop 8 bs
     in if length bs < 8 \<or> length body < n then None else Some (take n body, drop n body))"

definition ParseInt :: "string \<Rightarrow> int" where
  "ParseInt s = (case s of c # cs \<Rightarrow> if c = CHR ''-'' then - int (parse_nat cs) else int (parse_nat s) | [] \<Rightarrow> 0)"

fun take_fields :: "nat \<Rightarrow> string \<Rightarrow> (string list \<times> string) option" where
  "take_fields 0 bs = Some ([], bs)"
| "take_fields (Suc k) bs = (case take_field bs of None \<Rightarrow> None
     | Some (f, bs') \<Rightarrow> map_option (apfst (Cons f)) (take_fields k bs'))"

definition take_presence :: "string \<Rightarrow> ((bool \<times> string) \<times> string) option" where
  "take_presence bs = (case bs of [] \<Rightarrow> None
     | c # cs \<Rightarrow> if c = char_of (1 :: nat) then map_option (apfst (Pair True)) (take_field cs)
                else if c = char_of (0 :: nat) then Some ((False, []), cs) else None)"

definition decode_row :: "string \<Rightarrow> Row option" where
  "decode_row bs = (case take_fields 3 bs of
     Some ([i, p, s], bs1) \<Rightarrow>
       (case take_presence bs1 of None \<Rightarrow> None | Some ((has, rid), bs2) \<Rightarrow>
         (case take_fields 5 bs2 of
            Some ([sq, j, ty, pl, ca], []) \<Rightarrow> Some \<lparr>row_ID = i, row_ProjectID = p, row_SessionID = s,
              row_ResponseID = rid, row_HasResponseID = has, row_Seq = ParseInt sq, row_JournalID = ParseInt j,
              row_Type = ty, row_Payload = pl, row_CreatedAt = ca\<rparr>
          | _ \<Rightarrow> None))
   | _ \<Rightarrow> None)"

text \<open>A Go string is shorter than 2^63 bytes, a NULL response has the empty text, the two numbers have 64 bits.\<close>

definition row_ok :: "Row \<Rightarrow> bool" where
  "row_ok r \<longleftrightarrow> list_all (\<lambda>s. length s < 2 ^ 63) [row_ID r, row_ProjectID r, row_SessionID r, row_ResponseID r,
       row_Type r, row_Payload r, row_CreatedAt r] \<and> (row_HasResponseID r \<or> row_ResponseID r = []) \<and>
     list_all (\<lambda>i. - (2 ^ 63) \<le> i \<and> i < 2 ^ 63) [row_Seq r, row_JournalID r]"

lemma take_field_field [simp]:
  assumes "length s < 2 ^ 63" shows "take_field (field s @ bs) = Some (s, bs)"
proof -
  have "GetUint64 (be_bytes 8 (length s)) = length s"
    using assms by (simp add: get_be_bytes)
  then show ?thesis by (simp add: take_field_def field_def PutUint64_def Let_def)
qed

lemma length_dec_nat: "n < 10 ^ k \<Longrightarrow> 0 < k \<Longrightarrow> length (dec_nat n) \<le> k"
proof (induction k arbitrary: n)
  case (Suc k)
  show ?case
  proof (cases "n < 10")
    case True
    then show ?thesis by (subst dec_nat.simps) simp
  next
    case False
    moreover from this Suc.prems have "0 < k" by (cases k) auto
    moreover have "n div 10 < 10 ^ k" using Suc.prems by (simp add: less_mult_imp_div_less)
    ultimately show ?thesis using Suc.IH [of "n div 10"] by (subst dec_nat.simps) simp
  qed
qed simp

lemma length_FormatInt_20:
  assumes "- (2 ^ 63) \<le> i" and "i < 2 ^ 63" shows "length (FormatInt i) \<le> 20"
proof -
  have "nat (- i) < 10 ^ 19" "nat i < 10 ^ 19" using assms by simp_all
  then show ?thesis
    using length_dec_nat [of "nat (- i)" 19] length_dec_nat [of "nat i" 19] by (simp add: FormatInt_def)
qed

lemma length_FormatInt:
  assumes "- (2 ^ 63) \<le> i" and "i < 2 ^ 63" shows "length (FormatInt i) < 2 ^ 63"
  using length_FormatInt_20 [OF assms] by simp

lemma ParseInt_FormatInt [simp]: "ParseInt (FormatInt i) = i"
proof (cases "i < 0")
  case True
  then show ?thesis by (simp add: FormatInt_def ParseInt_def parse_dec_nat)
next
  case False
  obtain c cs where d: "dec_nat (nat i) = c # cs" using dec_nat_nonempty by (cases "dec_nat (nat i)") auto
  moreover have "is_digit c" using dec_nat_digits [of c "nat i"] d by simp
  then have "c \<noteq> CHR ''-''" by (auto simp: is_digit_def)
  ultimately show ?thesis
    using False parse_dec_nat [of "nat i"] by (simp add: FormatInt_def ParseInt_def)
qed

lemma take_presence_presence:
  "length (row_ResponseID r) < 2 ^ 63 \<Longrightarrow> row_HasResponseID r \<or> row_ResponseID r = [] \<Longrightarrow>
   take_presence (presence r @ bs) = Some ((row_HasResponseID r, row_ResponseID r), bs)"
  by (auto simp: take_presence_def presence_def)

lemma take_fields_fields:
  "\<forall>s \<in> set ss. length s < 2 ^ 63 \<Longrightarrow> k = length ss \<Longrightarrow>
   take_fields k (concat (map field ss) @ bs) = Some (ss, bs)"
  by (induction ss arbitrary: k) simp_all

lemma decode_row_bytes:
  assumes "row_ok r" shows "decode_row (row_bytes r) = Some r"
proof -
  let ?h = "[row_ID r, row_ProjectID r, row_SessionID r]"
  let ?t = "[FormatInt (row_Seq r), FormatInt (row_JournalID r), row_Type r, row_Payload r, row_CreatedAt r]"
  let ?tail = "concat (map field ?t) @ []"
  have b: "row_bytes r = concat (map field ?h) @ presence r @ ?tail" by (simp add: row_bytes_def)
  have "take_fields 3 (row_bytes r) = Some (?h, presence r @ ?tail)"
    unfolding b by (rule take_fields_fields) (use assms in \<open>simp_all add: row_ok_def\<close>)
  moreover have "take_presence (presence r @ ?tail) = Some ((row_HasResponseID r, row_ResponseID r), ?tail)"
    by (rule take_presence_presence) (use assms in \<open>simp_all add: row_ok_def\<close>)
  moreover have "take_fields 5 ?tail = Some (?t, [])"
    by (rule take_fields_fields) (use assms in \<open>simp_all add: row_ok_def length_FormatInt [simplified]\<close>)
  ultimately show ?thesis by (simp add: decode_row_def)
qed

lemma row_bytes_inject:
  assumes "row_ok r" "row_ok r'" "row_bytes r = row_bytes r'" shows "r = r'"
  using arg_cong [OF assms(3), of decode_row]
  unfolding decode_row_bytes [OF assms(1)] decode_row_bytes [OF assms(2)] by (rule option.inject [THEN iffD1])


text \<open>
  C35.  The bytes that a row is hashed over determine the row: decoding them returns the row, for every
  row the journal can hold.
\<close>

theorem row_encoding_roundtrip:
  assumes "row_ok r" shows "decode_row (row_bytes r) = Some r"
  using assms by (rule decode_row_bytes)

section \<open>The chain head\<close>

text \<open>The strings that folding \<open>rows\<close> from \<open>acc\<close> hashes.\<close>

fun chain_inputs :: "(string \<Rightarrow> string) \<Rightarrow> string \<Rightarrow> Row list \<Rightarrow> string set" where
  "chain_inputs sha acc [] = {}"
| "chain_inputs sha acc (r # rs) = {row_bytes r, acc @ digest sha r} \<union> chain_inputs sha (link sha acc r) rs"

definition hashed :: "(string \<Rightarrow> string) \<Rightarrow> Row list \<Rightarrow> string set" where
  "hashed sha rows = chain_inputs sha chain_start (ordered rows)"

lemma hex_digit_inject: "m < 16 \<Longrightarrow> n < 16 \<Longrightarrow> hex_digit m = hex_digit n \<longleftrightarrow> m = n"
  by (auto simp: hex_digit_def split: if_splits)

lemma EncodeToString_inject: "EncodeToString s = EncodeToString t \<longleftrightarrow> s = t"
proof
  show "EncodeToString s = EncodeToString t \<Longrightarrow> s = t"
  proof (induction s arbitrary: t)
    case Nil
    then show ?case by (cases t) (simp_all add: EncodeToString_def Let_def)
  next
    case (Cons c s)
    then obtain d u where t: "t = d # u" by (cases t) (simp_all add: EncodeToString_def Let_def)
    have "(of_char x :: nat) < 256" for x using of_char_mod_256 [of x] by (metis mod_less_divisor zero_less_numeral)
    then have b: "(of_char x :: nat) div 16 < 16" for x by (simp add: less_mult_imp_div_less)
    from Cons.prems t have "(of_char c :: nat) div 16 = of_char d div 16"
      "(of_char c :: nat) mod 16 = of_char d mod 16" "EncodeToString s = EncodeToString u"
      by (auto simp: EncodeToString_def Let_def hex_digit_inject b)
    then have "(of_char c :: nat) = of_char d" "s = u" using Cons.IH by (metis div_mult_mod_eq, blast)
    with t show ?case by simp
  qed
qed simp

lemma chain_inject:
  assumes "length xs = length ys" and "\<And>s. length (sha s) = 32"
    and "length acc = 32" "length acc' = 32"
    and "inj_on sha (chain_inputs sha acc xs \<union> chain_inputs sha acc' ys)"
    and "foldl (link sha) acc xs = foldl (link sha) acc' ys"
  shows "acc = acc' \<and> map row_bytes xs = map row_bytes ys"
  using assms
proof (induction xs ys arbitrary: acc acc' rule: list_induct2)
  case (Cons x xs y ys)
  have "inj_on sha (chain_inputs sha (link sha acc x) xs \<union> chain_inputs sha (link sha acc' y) ys)"
    using Cons.prems(4) by (rule inj_on_subset) auto
  moreover have "foldl (link sha) (link sha acc x) xs = foldl (link sha) (link sha acc' y) ys"
    using Cons.prems(5) by simp
  moreover have "length (link sha acc x) = 32" "length (link sha acc' y) = 32"
    using Cons.prems(1) by (simp_all add: link_def)
  ultimately have IH: "link sha acc x = link sha acc' y \<and> map row_bytes xs = map row_bytes ys"
    using Cons.IH [OF Cons.prems(1)] by blast
  have "acc @ digest sha x = acc' @ digest sha y"
    by (rule inj_onD [OF Cons.prems(4)]) (use IH in \<open>simp_all add: link_def\<close>)
  then have e: "acc = acc'" "digest sha x = digest sha y" using Cons.prems(2,3) by simp_all
  have "row_bytes x = row_bytes y"
    by (rule inj_onD [OF Cons.prems(4)]) (use e(2) in \<open>simp_all add: digest_def\<close>)
  with IH e show ?case by simp
qed simp

lemma map_row_bytes_inject:
  assumes "list_all row_ok xs" "list_all row_ok ys" "map row_bytes xs = map row_bytes ys" shows "xs = ys"
  using assms
proof (induction xs arbitrary: ys)
  case (Cons x xs)
  then obtain y zs where ys: "ys = y # zs" by (cases ys) auto
  have "x = y" by (rule row_bytes_inject) (use Cons.prems ys in simp_all)
  moreover have "xs = zs" by (rule Cons.IH) (use Cons.prems ys in simp_all)
  ultimately show ?case using ys by simp
qed simp

lemma mset_ordered [simp]: "mset (ordered rows) = mset rows"
  by (simp add: ordered_def)

lemma length_ordered [simp]: "length (ordered rows) = length rows"
  by (simp add: ordered_def)

lemma set_ordered [simp]: "set (ordered rows) = set rows"
  by (simp add: ordered_def)

text \<open>Equal heads over equally many rows mean the same rows, in the absence of a collision among the hashed strings.\<close>

lemma Head_inject:
  assumes "length rows = length rows'" and "\<And>s. length (sha s) = 32"
    and "inj_on sha (hashed sha rows \<union> hashed sha rows')"
    and "list_all row_ok rows" "list_all row_ok rows'" and "Head sha rows = Head sha rows'"
  shows "mset rows = mset rows'"
proof -
  have "foldl (link sha) chain_start (ordered rows) = foldl (link sha) chain_start (ordered rows')"
    using assms(6) by (simp add: Head_def EncodeToString_inject)
  then have "map row_bytes (ordered rows) = map row_bytes (ordered rows')"
    using chain_inject [of "ordered rows" "ordered rows'" sha chain_start chain_start] assms(1-3)
    by (simp add: hashed_def chain_start_def)
  then have "ordered rows = ordered rows'"
    using map_row_bytes_inject assms(4,5) by (simp add: list_all_iff)
  then show ?thesis by (metis mset_ordered)
qed

text \<open>The head depends on the rows and not on the order they are read in.\<close>

lemma ordered_perm:
  assumes "mset rows = mset rows'" and "inj_on chain_key (set rows)"
  shows "ordered rows = ordered rows'"
proof -
  have "set rows = set rows'" using assms(1) by (metis set_mset_mset)
  then show ?thesis
    unfolding ordered_def using assms sort_key_inj_key_eq [of rows "sort_key chain_key rows'" chain_key] by simp
qed

lemma Head_perm:
  "mset rows = mset rows' \<Longrightarrow> inj_on chain_key (set rows) \<Longrightarrow> Head sha rows = Head sha rows'"
  by (simp add: Head_def ordered_perm)


section \<open>What a clean comparison says\<close>

definition anchored_by :: "Row list \<Rightarrow> Row \<Rightarrow> bool" where
  "anchored_by rows r \<longleftrightarrow> row_SessionID r \<in> row_SessionID ` set rows \<and>
     row_Seq r \<le> max_seq (session_rows (row_SessionID r) rows)"

lemma set_session_ids [simp]: "set (session_ids rows) = row_SessionID ` set rows"
  by (simp add: session_ids_def)

lemma distinct_session_ids [simp]: "distinct (session_ids rows)"
  by (simp add: session_ids_def)

lemma anchor_of_simps [simp]:
  "sa_SessionID (anchor_of sha rows sid) = sid"
  "sa_Count (anchor_of sha rows sid) = int (length (session_rows sid rows))"
  "sa_MaxSeq (anchor_of sha rows sid) = max_seq (session_rows sid rows)"
  "sa_Head (anchor_of sha rows sid) = Head sha (session_rows sid rows)"
  by (simp_all add: anchor_of_def Let_def)

lemma sort_anchors:
  "sort_key sa_SessionID (map (anchor_of sha rows) (session_ids rows)) = map (anchor_of sha rows) (session_ids rows)"
  by (rule sort_key_id_if_sorted) (simp add: comp_def session_ids_def)

lemma NewCheckpoint_simps [simp]:
  "cp_Version (NewCheckpoint sha rows now) = CheckpointVersion"
  "cp_Algorithm (NewCheckpoint sha rows now) = Algorithm"
  "cp_Head (NewCheckpoint sha rows now) = Head sha rows"
  "cp_Count (NewCheckpoint sha rows now) = int (length rows)"
  "cp_Sessions (NewCheckpoint sha rows now) = map (anchor_of sha rows) (session_ids rows)"
  by (simp_all add: NewCheckpoint_def Summarize_def)

definition anchored_rows :: "(string \<Rightarrow> string) \<Rightarrow> Row list \<Rightarrow> Row list \<Rightarrow> Row list" where
  "anchored_rows sha rows journal =
     concat (map (\<lambda>sid. anchored_prefix (anchor_of sha rows sid) journal) (session_ids rows))"

lemma Compare_checkpoint:
  shows "rp_OK (Compare sha (NewCheckpoint sha rows now) journal) \<longleftrightarrow>
      (\<forall>sid \<in> row_SessionID ` set rows. compare_anchor sha journal (anchor_of sha rows sid) = []) \<and>
      Head sha (anchored_rows sha rows journal) = Head sha rows"
    and "rp_AnchoredRows (Compare sha (NewCheckpoint sha rows now) journal) = int (length (anchored_rows sha rows journal))"
    and "rp_UnanchoredRows (Compare sha (NewCheckpoint sha rows now) journal) =
      int (length journal) - int (length (anchored_rows sha rows journal))"
  by (auto simp: Compare_def Let_def sort_anchors anchored_rows_def comp_def)

lemma compare_anchor_clean:
  "compare_anchor sha journal (anchor_of sha rows sid) = [] \<longleftrightarrow>
     length (anchored_prefix (anchor_of sha rows sid) journal) = length (session_rows sid rows) \<and>
     max_seq (anchored_prefix (anchor_of sha rows sid) journal) = max_seq (session_rows sid rows) \<and>
     Head sha (anchored_prefix (anchor_of sha rows sid) journal) = Head sha (session_rows sid rows)"
  by (auto simp: compare_anchor_def Let_def)

lemma anchored_prefix_alt:
  "sid \<in> row_SessionID ` set rows \<Longrightarrow>
   anchored_prefix (anchor_of sha rows sid) journal = session_rows sid (filter (anchored_by rows) journal)"
  unfolding anchored_prefix_def session_rows_def anchored_by_def anchor_of_simps filter_filter
  by (rule filter_cong) (auto simp: session_rows_def)

lemma session_rows_none: "sid \<notin> row_SessionID ` set rows \<Longrightarrow> session_rows sid rows = []"
  by (auto simp: session_rows_def filter_empty_conv)

lemma mset_by_session:
  assumes "\<And>sid. mset (session_rows sid xs) = mset (session_rows sid ys)" shows "mset xs = mset ys"
proof (rule multiset_eqI)
  fix x show "count (mset xs) x = count (mset ys) x"
    using arg_cong [OF assms [of "row_SessionID x"], of "\<lambda>m. count m x"]
    by (simp add: session_rows_def)
qed

lemma mset_sessions:
  "distinct ids \<Longrightarrow> mset (concat (map (\<lambda>sid. session_rows sid rows) ids)) =
     filter_mset (\<lambda>r. row_SessionID r \<in> set ids) (mset rows)"
  by (induction ids) (auto simp: session_rows_def multiset_eq_iff)

lemma max_seq_Max: "max_seq rows = Max (insert 0 (row_Seq ` set rows))"
proof -
  have "foldl (\<lambda>m r. if row_Seq r > m then row_Seq r else m) m rows = Max (insert m (row_Seq ` set rows))" for m
  proof (induction rows arbitrary: m)
    case (Cons r rows)
    have "Max (insert m (insert (row_Seq r) (row_Seq ` set rows))) =
        Max (insert (max m (row_Seq r)) (row_Seq ` set rows))"
      by (cases "row_Seq ` set rows = {}") (simp_all add: max.assoc)
    then show ?case using Cons.IH by (auto simp: max_def)
  qed simp
  then show ?thesis by (simp add: max_seq_def)
qed

lemma max_seq_perm: "mset xs = mset ys \<Longrightarrow> max_seq xs = max_seq ys"
  unfolding max_seq_Max by (metis set_mset_mset)

text \<open>
  C16.  The chain detects every change to the anchored part of the journal: if comparing a journal with a
  checkpoint cut from \<open>rows\<close> raises no alert, then the rows of the journal at or below each anchored
  sequence are exactly \<open>rows\<close>; nothing was edited, removed or inserted there.  This assumes that SHA-256
  has no collision among the strings hashed for each session.
\<close>

theorem checkpoint_detects_change:
  assumes sha: "\<And>s. length (sha s) = 32"
    and free: "\<And>sid. inj_on sha (hashed sha (session_rows sid rows) \<union>
      hashed sha (anchored_prefix (anchor_of sha rows sid) journal))"
    and ok: "list_all row_ok rows" "list_all row_ok journal"
    and clean: "rp_OK (Compare sha (NewCheckpoint sha rows now) journal)"
  shows "mset (filter (anchored_by rows) journal) = mset rows"
proof (rule mset_by_session)
  fix sid
  show "mset (session_rows sid (filter (anchored_by rows) journal)) = mset (session_rows sid rows)"
  proof (cases "sid \<in> row_SessionID ` set rows")
    case True
    let ?pre = "anchored_prefix (anchor_of sha rows sid) journal"
    from True clean have "compare_anchor sha journal (anchor_of sha rows sid) = []"
      unfolding Compare_checkpoint by blast
    then have c: "length (session_rows sid rows) = length ?pre" "Head sha (session_rows sid rows) = Head sha ?pre"
      unfolding compare_anchor_clean by simp_all
    have "list_all row_ok (session_rows sid rows)" "list_all row_ok ?pre"
      using ok by (auto simp: list_all_iff session_rows_def anchored_prefix_def)
    then have "mset (session_rows sid rows) = mset ?pre"
      by (rule Head_inject [OF c(1) sha free _ _ c(2)])
    then show ?thesis unfolding anchored_prefix_alt [OF True] by simp
  next
    case False
    then have "session_rows sid (filter (anchored_by rows) journal) = []"
      by (auto simp: session_rows_def filter_empty_conv anchored_by_def)
    with False show ?thesis by (simp add: session_rows_none)
  qed
qed


lemma anchored_prefix_perm:
  assumes "mset journal = mset (rows @ later)" and "\<forall>r \<in> set later. \<not> anchored_by rows r"
    and "sid \<in> row_SessionID ` set rows"
  shows "mset (anchored_prefix (anchor_of sha rows sid) journal) = mset (session_rows sid rows)"
proof -
  have own: "anchored_by rows r" if "r \<in> set rows" for r
  proof -
    have "row_Seq r \<in> row_Seq ` set (session_rows (row_SessionID r) rows)" using that by (simp add: session_rows_def)
    then show ?thesis using that by (simp add: anchored_by_def max_seq_Max)
  qed
  have "mset (filter (anchored_by rows) journal) = mset rows"
    using assms(1,2) own by (simp add: mset_filter filter_mset_eq_conv) (metis filter_False filter_True mset.simps(1) mset_filter add.right_neutral)
  then show ?thesis
    unfolding anchored_prefix_alt [OF assms(3)] session_rows_def mset_filter [of "\<lambda>r. row_SessionID r = sid"]
    by (rule arg_cong)
qed

lemma session_concat: "mset (concat (map (\<lambda>sid. session_rows sid rows) (session_ids rows))) = mset rows"
  by (subst mset_sessions) (auto simp: filter_mset_eq_conv)

text \<open>
   Growth is not an alarm: a journal that holds the checkpointed rows and any later rows, above the
  anchored sequences or in new sessions, read in any order, compares clean; exactly the later rows are
  reported as unanchored.
\<close>

theorem checkpoint_accepts_growth:
  assumes perm: "mset journal = mset (rows @ later)" and keys: "distinct (map chain_key journal)"
    and later: "\<forall>r \<in> set later. \<not> anchored_by rows r"
  shows "rp_OK (Compare sha (NewCheckpoint sha rows now) journal) \<and>
    rp_AnchoredRows (Compare sha (NewCheckpoint sha rows now) journal) = int (length rows) \<and>
    rp_UnanchoredRows (Compare sha (NewCheckpoint sha rows now) journal) = int (length later)"
proof -
  have "set rows \<subseteq> set journal" using arg_cong [OF perm, of set_mset] by auto
  then have inj: "inj_on chain_key (set rows)" using keys by (auto simp: distinct_map intro: inj_on_subset)
  note pre = anchored_prefix_perm [OF perm later]
  have "compare_anchor sha journal (anchor_of sha rows sid) = []" if "sid \<in> row_SessionID ` set rows" for sid
  proof -
    have "set (session_rows sid rows) \<subseteq> set rows" by (auto simp: session_rows_def)
    then have "inj_on chain_key (set (anchored_prefix (anchor_of sha rows sid) journal))"
      using inj pre [OF that] by (metis inj_on_subset set_mset_mset)
    then show ?thesis unfolding compare_anchor_clean
      using pre [OF that] Head_perm max_seq_perm mset_eq_length by blast
  qed
  moreover have a: "mset (anchored_rows sha rows journal) = mset rows"
  proof -
    have "mset (anchored_rows sha rows journal) = mset (concat (map (\<lambda>sid. session_rows sid rows) (session_ids rows)))"
      unfolding anchored_rows_def mset_concat map_map comp_def
      by (rule arg_cong [of _ _ sum_list], rule map_cong) (simp_all add: pre)
    then show ?thesis by (simp only: session_concat)
  qed
  moreover have "Head sha (anchored_rows sha rows journal) = Head sha rows"
    using Head_perm [OF a [symmetric] inj] by simp
  moreover have "length (anchored_rows sha rows journal) = length rows" "length journal = length rows + length later"
    using mset_eq_length [OF a] mset_eq_length [OF perm] by simp_all
  ultimately show ?thesis by (simp add: Compare_checkpoint)
qed

text \<open>A row inserted below the anchored sequence is reported as a gap, as if anchored rows had been removed.\<close>

lemma insertion_reported_as_gap:
  assumes "a \<in> set (cp_Sessions cp)" and "cp_Version cp = CheckpointVersion" and "cp_Algorithm cp = Algorithm"
    and "sa_Count a < int (length (anchored_prefix a journal))"
  shows "Has (Compare sha cp journal) AlertGap"
proof -
  have "compare_anchor sha journal a = [\<lparr>al_Kind = AlertGap, al_SessionID = sa_SessionID a,
      al_Detail = ''anchored rows have been removed'', al_Want = rows_upto (sa_Count a) (sa_MaxSeq a),
      al_Got = rows_upto (int (length (anchored_prefix a journal))) (max_seq (anchored_prefix a journal))\<rparr>]"
    using assms(4) by (simp add: compare_anchor_def Let_def)
  then have g: "\<exists>x \<in> set (compare_anchor sha journal a). al_Kind x = AlertGap" by simp
  let ?alerts = "concat (map (compare_anchor sha journal) (sort_key sa_SessionID (cp_Sessions cp)))"
  have "\<exists>x \<in> set ?alerts. al_Kind x = AlertGap" using g assms(1) by auto
  moreover from this have "rp_Alerts (Compare sha cp journal) = ?alerts"
    using assms(2,3) by (auto simp: Compare_def Let_def)
  ultimately show ?thesis by (auto simp: Has_def list_ex_iff)
qed


section \<open>Instances\<close>

text \<open>A function of 32-byte values, injective on the strings that the sample journal hashes.\<close>

definition ends_hash :: "string \<Rightarrow> string" where
  "ends_hash s = take 16 (s @ replicate 16 (CHR ''#'')) @ take 16 (List.rev s @ replicate 16 (CHR ''#''))"

definition sample_row :: "string \<Rightarrow> int \<Rightarrow> string \<Rightarrow> Row" where
  "sample_row sid n ty = \<lparr>row_ID = ''e'' @ FormatInt n, row_ProjectID = ''p'', row_SessionID = sid, row_ResponseID = [],
     row_HasResponseID = False, row_Seq = n, row_JournalID = 7, row_Type = ty, row_Payload = ''{}'',
     row_CreatedAt = ''2026-01-01T00:00:00.00000'' @ FormatInt n @ ''Z''\<rparr>"

definition sample_rows :: "Row list" where
  "sample_rows = [sample_row ''s'' 1 ''run.queued.v1'', sample_row ''s'' 2 ''run.started.v1'']"

definition sample_later :: "Row list" where
  "sample_later = [sample_row ''s'' 3 ''run.completed.v1'', sample_row ''t'' 1 ''run.queued.v1'']"

lemma ends_hash_length: "length (ends_hash s) = 32"
  by (simp add: ends_hash_def)

lemma sample_row_ok:
  assumes "length sid < 100" "length ty < 100" "0 \<le> n" "n < 100" shows "row_ok (sample_row sid n ty)"
  using assms length_FormatInt_20 [of n] by (simp add: row_ok_def sample_row_def)

theorem row_encoding_roundtrip_witness:
  "decode_row (row_bytes (sample_row ''s'' 1 ''run.queued.v1'')) = Some (sample_row ''s'' 1 ''run.queued.v1'')"
  by (rule row_encoding_roundtrip, rule sample_row_ok) simp_all

theorem checkpoint_accepts_growth_witness:
  "rp_OK (Compare ends_hash (NewCheckpoint ends_hash sample_rows 0) (sample_later @ sample_rows)) \<and>
   rp_UnanchoredRows (Compare ends_hash (NewCheckpoint ends_hash sample_rows 0) (sample_later @ sample_rows)) = 2"
proof -
  have "mset (sample_later @ sample_rows) = mset (sample_rows @ sample_later)" by simp
  moreover have "distinct (map chain_key (sample_later @ sample_rows))" by code_simp
  moreover have "\<forall>r \<in> set sample_later. \<not> anchored_by sample_rows r" by code_simp
  ultimately show ?thesis
    using checkpoint_accepts_growth [of "sample_later @ sample_rows" sample_rows sample_later ends_hash 0]
    by (simp add: sample_later_def)
qed

definition sample_inputs :: "string list" where
  "sample_inputs = (let x = row_bytes (sample_row ''s'' 1 ''run.queued.v1''); y = row_bytes (sample_row ''s'' 2 ''run.started.v1'')
     in [x, chain_start @ ends_hash x, y, ends_hash (chain_start @ ends_hash x) @ ends_hash y])"

lemma sample_free: "inj_on ends_hash (set sample_inputs)"
proof -
  have "distinct (map ends_hash sample_inputs)" by code_simp
  then show ?thesis by (simp add: distinct_map)
qed

lemma sample_session:
  "session_rows sid sample_rows = (if sid = ''s'' then sample_rows else [])"
  "anchored_prefix (anchor_of ends_hash sample_rows sid) (sample_later @ sample_rows) = (if sid = ''s'' then sample_rows else [])"
proof -
  show s: "session_rows sid sample_rows = (if sid = ''s'' then sample_rows else [])"
    by (simp add: session_rows_def sample_rows_def sample_row_def)
  have "max_seq sample_rows = 2" by (simp add: max_seq_def sample_rows_def sample_row_def)
  then show "anchored_prefix (anchor_of ends_hash sample_rows sid) (sample_later @ sample_rows) =
      (if sid = ''s'' then sample_rows else [])"
    unfolding anchored_prefix_def anchor_of_simps s
    by (simp add: session_rows_def sample_rows_def sample_later_def sample_row_def max_seq_def)
qed

lemma sample_hashed: "hashed ends_hash sample_rows \<union> hashed ends_hash [] \<subseteq> set sample_inputs"
proof -
  have "ordered sample_rows = sample_rows"
    unfolding ordered_def by (rule sort_key_id_if_sorted) (simp add: sample_rows_def sample_row_def chain_key_def)
  then show ?thesis
    by (simp add: hashed_def sample_inputs_def Let_def sample_rows_def link_def digest_def ordered_def)
qed

theorem checkpoint_detects_change_witness:
  "mset (filter (anchored_by sample_rows) (sample_later @ sample_rows)) = mset sample_rows"
proof (rule checkpoint_detects_change [where sha = ends_hash and now = 0])
  show "inj_on ends_hash (hashed ends_hash (session_rows sid sample_rows) \<union>
      hashed ends_hash (anchored_prefix (anchor_of ends_hash sample_rows sid) (sample_later @ sample_rows)))" for sid
    unfolding sample_session by (rule inj_on_subset [OF sample_free]) (use sample_hashed in auto)
  show "list_all row_ok sample_rows" "list_all row_ok (sample_later @ sample_rows)"
    by (simp_all add: sample_rows_def sample_later_def sample_row_ok)
  show "rp_OK (Compare ends_hash (NewCheckpoint ends_hash sample_rows 0) (sample_later @ sample_rows))" by code_simp
qed (rule ends_hash_length)

end
