(* ===== verification/Cron.thy ===== *)
theory Cron
  imports Palai_Base
begin

unbundle bit_operations_syntax

text \<open>
  The five-field cron parser and its occurrence search,
  \<^verbatim>\<open>src/apps/control-plane/internal/automation/cron.go\<close>.

  The bitsets of a schedule are 64-bit words.  The loop of \<open>parseTerm\<close> runs on 64-bit integers that wrap,
  written out by \<open>wrap64\<close>; since it may in principle run for ever it is a partial function into \<open>option\<close>, and that it returns is
  proved.  Instants are whole seconds since the epoch (every candidate is whole, so comparing it with a time is comparing it with the time's second), a wall-clock time from the year to the minute is its
  number of minutes since the epoch, and a location is the function from an instant to its offset in
  seconds, the one that \<^verbatim>\<open>time.Location\<close> looks up.  \<open>civil\<close> is the Gregorian date of a day number.
\<close>

section \<open>Standard library\<close>

text \<open>\<^verbatim>\<open>strconv.Atoi\<close>: an optional sign, decimal digits, the range of \<^verbatim>\<open>int\<close>.\<close>

definition Atoi :: "string \<Rightarrow> int option" where
  "Atoi s = (let neg = prefix ''-'' s; ds = (if neg \<or> prefix ''+'' s then drop 1 s else s);
       v = (if neg then - int (parse_nat ds) else int (parse_nat ds))
     in if ds = [] \<or> \<not> list_all is_digit ds \<or> v < - (2 ^ 63) \<or> v \<ge> 2 ^ 63 then None else Some v)"

text \<open>\<^verbatim>\<open>strings.IndexByte\<close> as the parts around the first occurrence, and \<^verbatim>\<open>strings.Split\<close>.\<close>

fun cut_at :: "char \<Rightarrow> string \<Rightarrow> (string \<times> string) option" where
  "cut_at c [] = None"
| "cut_at c (x # xs) = (if x = c then Some ([], xs) else map_option (apfst (Cons x)) (cut_at c xs))"

lemma cut_at_shorter: "cut_at c s = Some (a, b) \<Longrightarrow> length b < length s"
  by (induction s arbitrary: a) (auto split: if_splits)

function Split :: "char \<Rightarrow> string \<Rightarrow> string list" where
  "Split c s = (case cut_at c s of None \<Rightarrow> [s] | Some (a, b) \<Rightarrow> a # Split c b)"
  by pat_completeness auto
termination by (relation "measure (\<lambda>(c, s). length s)") (auto dest: cut_at_shorter)

declare Split.simps [simp del]

text \<open>The Gregorian date of a day number (day 0 is 1970-01-01), in eras of 400 years from March.\<close>

definition civil :: "int \<Rightarrow> int \<times> int \<times> int" where
  "civil day = (let z = day + 719468; era = z div 146097; doe = z mod 146097;
       yoe = (doe - doe div 1460 + doe div 36524 - doe div 146096) div 365;
       doy = doe - (365 * yoe + yoe div 4 - yoe div 100);
       mp = (5 * doy + 2) div 153; d = doy - (153 * mp + 2) div 5 + 1;
       m = (if mp < 10 then mp + 3 else mp - 9)
     in (yoe + era * 400 + (if m \<le> 2 then 1 else 0), m, d))"

definition wall_minute :: "int \<Rightarrow> int" where "wall_minute w = w mod 60"
definition wall_hour :: "int \<Rightarrow> int" where "wall_hour w = w mod 1440 div 60"
definition wall_day :: "int \<Rightarrow> int" where "wall_day w = snd (snd (civil (w div 1440)))"
definition wall_month :: "int \<Rightarrow> int" where "wall_month w = fst (snd (civil (w div 1440)))"
definition wall_weekday :: "int \<Rightarrow> int" where "wall_weekday w = (w div 1440 + 4) mod 7"

section \<open>Parsing\<close>

definition ErrInvalidCron :: error where
  "ErrInvalidCron = Sentinel ''automation'' ''invalid cron expression''"

definition ErrNonexistentLocalTime :: error where
  "ErrNonexistentLocalTime = Sentinel ''automation'' ''nonexistent local time (DST gap)''"

definition ErrNoCronOccurrence :: error where
  "ErrNoCronOccurrence = Sentinel ''automation'' ''cron expression has no occurrence in the 5-year lookahead''"

definition cronScanLimit :: int where
  "cronScanLimit = 366 * 24 * 60 * 5"

record CronSchedule =
  cs_minute :: uint64
  cs_hour :: uint64
  cs_dom :: uint64
  cs_month :: uint64
  cs_dow :: uint64
  cs_domRestricted :: bool
  cs_dowRestricted :: bool

record cronField =
  cf_min :: int
  cf_max :: int

definition fieldMinute :: cronField where "fieldMinute = \<lparr>cf_min = 0, cf_max = 59\<rparr>"
definition fieldHour :: cronField where "fieldHour = \<lparr>cf_min = 0, cf_max = 23\<rparr>"
definition fieldDOM :: cronField where "fieldDOM = \<lparr>cf_min = 1, cf_max = 31\<rparr>"
definition fieldMonth :: cronField where "fieldMonth = \<lparr>cf_min = 1, cf_max = 12\<rparr>"
definition fieldDOW :: cronField where "fieldDOW = \<lparr>cf_min = 0, cf_max = 6\<rparr>"

definition invalid_cron :: "string \<Rightarrow> error" where
  "invalid_cron msg = Errorf [ErrInvalidCron] msg"

text \<open>A shift by \<^verbatim>\<open>uint(v)\<close> with \<open>v\<close> negative or above 63 gives zero.\<close>

definition shifted_bit :: "int \<Rightarrow> uint64" where
  "shifted_bit v = (if 0 \<le> v \<and> v < 64 then push_bit (nat v) 1 else 0)"

partial_function (option) term_loop :: "int \<Rightarrow> int \<Rightarrow> int \<Rightarrow> uint64 \<Rightarrow> uint64 option" where
  "term_loop v hi step acc =
     (if v \<le> hi then term_loop (wrap64 (v + step)) hi step (acc OR shifted_bit v) else Some acc)"

definition term_step :: "string \<Rightarrow> (string \<times> int \<times> bool) result" where
  "term_step t = (case cut_at (CHR ''/'') t of
     None \<Rightarrow> Inr (t, 1, False)
   | Some (base, rest) \<Rightarrow>
       (case Atoi rest of
          Some n \<Rightarrow> if n < 1 then Inl (invalid_cron ''bad step'') else Inr (base, n, True)
        | None \<Rightarrow> Inl (invalid_cron ''bad step'')))"

definition term_range :: "string \<Rightarrow> bool \<Rightarrow> cronField \<Rightarrow> (int \<times> int) result" where
  "term_range base hasStep b =
     (if base = ''*'' then Inr (cf_min b, cf_max b)
      else case cut_at (CHR ''-'') base of
        Some (l, r) \<Rightarrow>
          (case (Atoi l, Atoi r) of
             (Some lo, Some hi) \<Rightarrow> if lo > hi then Inl (invalid_cron ''inverted range'') else Inr (lo, hi)
           | _ \<Rightarrow> Inl (invalid_cron ''bad range''))
      | None \<Rightarrow>
          (case Atoi base of
             None \<Rightarrow> Inl (invalid_cron ''not a number'')
           | Some v \<Rightarrow> if hasStep then Inl (invalid_cron ''a step needs a * or a-b base'') else Inr (v, v)))"

definition parseTerm :: "string \<Rightarrow> cronField \<Rightarrow> uint64 result option" where
  "parseTerm t b = (case term_step t of Inl e \<Rightarrow> Some (Inl e) | Inr (base, step, hasStep) \<Rightarrow>
     (case term_range base hasStep b of Inl e \<Rightarrow> Some (Inl e) | Inr (lo, hi) \<Rightarrow>
        if lo < cf_min b \<or> hi > cf_max b then Some (Inl (invalid_cron ''out of range''))
        else map_option Inr (term_loop lo hi step 0)))"

fun parse_terms :: "string list \<Rightarrow> cronField \<Rightarrow> uint64 \<Rightarrow> uint64 result option" where
  "parse_terms [] b bits = Some (Inr bits)"
| "parse_terms (t # ts) b bits = (case parseTerm t b of None \<Rightarrow> None
     | Some (Inl e) \<Rightarrow> Some (Inl e)
     | Some (Inr ws) \<Rightarrow> parse_terms ts b (bits OR ws))"

definition parseField :: "string \<Rightarrow> cronField \<Rightarrow> (uint64 \<times> bool) result option" where
  "parseField f b =
     (if f = [] then Some (Inl (invalid_cron ''empty field''))
      else map_option (map_sum id (\<lambda>bits. (bits, f \<noteq> ''*''))) (parse_terms (Split (CHR '','') f) b 0))"

fun parse_fields :: "(string \<times> cronField) list \<Rightarrow> (uint64 \<times> bool) list result option" where
  "parse_fields [] = Some (Inr [])"
| "parse_fields ((f, b) # fs) = (case parseField f b of None \<Rightarrow> None
     | Some (Inl e) \<Rightarrow> Some (Inl e)
     | Some (Inr x) \<Rightarrow> map_option (map_sum id (Cons x)) (parse_fields fs))"

definition ParseCron :: "string \<Rightarrow> CronSchedule result option" where
  "ParseCron expr = (case Fields (TrimSpace expr) of
     [mi, h, d, mo, w] \<Rightarrow>
       map_option (map_sum id (\<lambda>xs. \<lparr>cs_minute = fst (xs ! 0), cs_hour = fst (xs ! 1), cs_dom = fst (xs ! 2),
           cs_month = fst (xs ! 3), cs_dow = fst (xs ! 4),
           cs_domRestricted = snd (xs ! 2), cs_dowRestricted = snd (xs ! 4)\<rparr>))
         (parse_fields [(mi, fieldMinute), (h, fieldHour), (d, fieldDOM), (mo, fieldMonth), (w, fieldDOW)])
   | _ \<Rightarrow> Some (Inl (invalid_cron ''want 5 fields'')))"

section \<open>Matching and the next occurrence\<close>

definition hit :: "uint64 \<Rightarrow> int \<Rightarrow> bool" where
  "hit bits v \<longleftrightarrow> bits AND shifted_bit v \<noteq> 0"

definition matchesDay :: "CronSchedule \<Rightarrow> int \<Rightarrow> bool" where
  "matchesDay s w = (let domHit = hit (cs_dom s) (wall_day w); dowHit = hit (cs_dow s) (wall_weekday w)
     in if cs_domRestricted s \<and> cs_dowRestricted s then domHit \<or> dowHit else domHit \<and> dowHit)"

definition matches :: "CronSchedule \<Rightarrow> int \<Rightarrow> bool" where
  "matches s w \<longleftrightarrow> hit (cs_minute s) (wall_minute w) \<and> hit (cs_hour s) (wall_hour w) \<and>
     hit (cs_month s) (wall_month w) \<and> matchesDay s w"

type_synonym location = "int \<Rightarrow> int"

definition local_minute :: "location \<Rightarrow> int \<Rightarrow> int" where
  "local_minute loc inst = (inst + loc inst) div 60"

text \<open>
  \<^verbatim>\<open>time.Date\<close> at the wall minute \<open>w\<close>: the offset at the wall seconds read as an instant is tried first;
  when it is not zero the offset at the instant it gives decides.
\<close>

definition Date :: "location \<Rightarrow> int \<Rightarrow> int" where
  "Date loc w = (let u = 60 * w in if loc u = 0 then u else u - loc (u - loc u))"

definition sameWall :: "location \<Rightarrow> int \<Rightarrow> int \<Rightarrow> bool" where
  "sameWall loc inst w \<longleftrightarrow> local_minute loc inst = w"

definition resolveInstant :: "location \<Rightarrow> int \<Rightarrow> int result" where
  "resolveInstant loc w =
     (let t = Date loc w
      in if local_minute loc t \<noteq> w then Inl ErrNonexistentLocalTime
         else let wallSecs = 60 * w; offBefore = loc (t - 3600); offAfter = loc (t + 3600);
                  candBefore = wallSecs - offBefore; candAfter = wallSecs - offAfter
              in if offBefore \<noteq> offAfter \<and> sameWall loc candBefore w \<and> sameWall loc candAfter w
                 then Inr (if candBefore < candAfter then candBefore else candAfter)
                 else Inr t)"

text \<open>The scan of \<open>Next\<close> at iteration \<open>i\<close>.\<close>

function scan :: "CronSchedule \<Rightarrow> location \<Rightarrow> int \<Rightarrow> int \<Rightarrow> int \<Rightarrow> int result" where
  "scan s loc after i cursor =
     (if i < cronScanLimit then
        (if matches s cursor then
           (case resolveInstant loc cursor of
              Inl e \<Rightarrow> if errors_Is e ErrNonexistentLocalTime then scan s loc after (i + 1) (cursor + 1) else Inl e
            | Inr inst \<Rightarrow> if inst > after then Inr inst else scan s loc after (i + 1) (cursor + 1))
         else scan s loc after (i + 1) (cursor + 1))
      else Inl ErrNoCronOccurrence)"
  by pat_completeness auto
termination by (relation "measure (\<lambda>(s, loc, after, i, cursor). nat (cronScanLimit - i))") auto

declare scan.simps [simp del]

definition Next_occurrence :: "CronSchedule \<Rightarrow> location \<Rightarrow> int \<Rightarrow> int result" where
  "Next_occurrence s loc after = scan s loc after 0 (local_minute loc after + 1)"


section \<open>The term loop\<close>

lemma term_loop_stop: "hi < v \<Longrightarrow> term_loop v hi step acc = Some acc"
  by (subst term_loop.simps) simp

lemma term_loop_step:
  "v \<le> hi \<Longrightarrow> term_loop v hi step acc = term_loop (wrap64 (v + step)) hi step (acc OR shifted_bit v)"
  by (subst term_loop.simps) simp

lemma bit_shifted: "k < 64 \<Longrightarrow> bit (shifted_bit v) k \<longleftrightarrow> v = int k"
proof -
  assume k: "k < 64"
  have b: "bit (push_bit n 1 :: uint64) k \<longleftrightarrow> n = k" for n
    unfolding bit_push_bit_iff bit_1_iff using k by auto
  show ?thesis
  proof (cases "0 \<le> v \<and> v < 64")
    case True
    then have "shifted_bit v = push_bit (nat v) 1" by (simp only: shifted_bit_def if_True simp_thms)
    moreover have "nat v = k \<longleftrightarrow> v = int k" using True by linarith
    ultimately show ?thesis by (simp only: b)
  next
    case False
    then have "shifted_bit v = 0" "v \<noteq> int k" using k by (auto simp: shifted_bit_def)
    then show ?thesis by simp
  qed
qed

text \<open>While no addition wraps, the loop sets exactly the steps of the range.\<close>

lemma term_loop_exact:
  assumes "0 \<le> v" "hi < 64" "1 \<le> step" "hi + step < 2 ^ 63"
  shows "\<exists>r. term_loop v hi step acc = Some r \<and>
    (\<forall>k < 64. bit r k \<longleftrightarrow> bit acc k \<or> (v \<le> int k \<and> int k \<le> hi \<and> step dvd int k - v))"
  using assms
proof (induction "nat (hi + 1 - v)" arbitrary: v acc rule: less_induct)
  case less
  show ?case
  proof (cases "v \<le> hi")
    case False
    then show ?thesis by (auto simp: term_loop_stop)
  next
    case True
    let ?acc = "acc OR shifted_bit v"
    have w: "wrap64 (v + step) = v + step" using less.prems True by (intro wrap64_small) linarith+
    have "nat (hi + 1 - (v + step)) < nat (hi + 1 - v)" using True less.prems by linarith
    from less.hyps [OF this, of ?acc] less.prems obtain r where r: "term_loop (v + step) hi step ?acc = Some r"
      "\<forall>k < 64. bit r k \<longleftrightarrow> bit ?acc k \<or> (v + step \<le> int k \<and> int k \<le> hi \<and> step dvd int k - (v + step))" by auto
    have "bit r k \<longleftrightarrow> bit acc k \<or> (v \<le> int k \<and> int k \<le> hi \<and> step dvd int k - v)" if k: "k < 64" for k
    proof -
      have "step dvd int k - (v + step) \<longleftrightarrow> step dvd int k - v"
        by (metis diff_diff_eq dvd_refl dvd_diff_left_iff)
      moreover have "v + step \<le> int k" if "v \<le> int k" "v \<noteq> int k" "step dvd int k - v"
        using that zdvd_imp_le [of step "int k - v"] by linarith
      ultimately show ?thesis
        using r(2) k True less.prems(3) bit_shifted [OF k, of v] by (auto simp: bit_or_iff)
    qed
    then show ?thesis using r(1) True w by (auto simp: term_loop_step)
  qed
qed

text \<open>When an addition wraps, two more bring the counter below where it was, so the loop ends as well.\<close>

lemma term_loop_wraps:
  assumes "0 \<le> v" "hi < 64" "2 ^ 63 \<le> hi + step" "step < 2 ^ 63"
  shows "\<exists>r. term_loop v hi step acc = Some r"
  using assms
proof (induction "nat v" arbitrary: v acc rule: less_induct)
  case less
  show ?case
  proof (cases "v \<le> hi \<and> 2 ^ 63 \<le> v + step")
    case False
    consider "hi < v" | "v \<le> hi" "wrap64 (v + step) = v + step" "hi < v + step"
    proof (cases "hi < v")
      case le: False
      then have "wrap64 (v + step) = v + step"
        using False less.prems by (intro wrap64_small) auto
      moreover have "hi < v + step" using less.prems by auto
      ultimately show ?thesis using that(2) le by simp
    qed (rule that(1))
    then show ?thesis by cases (auto simp: term_loop_stop term_loop_step)
  next
    case True
    let ?w = "v + step - 2 ^ 64" let ?u = "?w + step"
    have w: "wrap64 (v + step) = ?w" using True less.prems by (intro wrap64_over) auto
    have u: "wrap64 ?u = ?u" using True less.prems by (intro wrap64_small) auto
    let ?acc = "(acc OR shifted_bit v) OR shifted_bit ?w"
    have "?w \<le> hi" using True less.prems by auto
    from term_loop_step [OF this, of step "acc OR shifted_bit v"]
    have go: "term_loop v hi step acc = term_loop ?u hi step ?acc"
      using term_loop_step [of v hi step acc] True unfolding w u by simp
    show ?thesis
    proof (cases "0 \<le> ?u")
      case True
      moreover have "nat ?u < nat v" using True less.prems by auto
      ultimately show ?thesis using less.hyps [of ?u] less.prems unfolding go by blast
    next
      case False
      have "wrap64 (?u + step) = ?u + step" using False less.prems True by (intro wrap64_small) auto
      moreover have "hi < ?u + step" using less.prems True by auto
      moreover have "?u \<le> hi" using False True less.prems by auto
      ultimately show ?thesis
        unfolding go using term_loop_step [of ?u hi step ?acc] term_loop_stop [of hi "?u + step" step] by simp
    qed
  qed
qed

lemma term_step_positive: "term_step t = Inr (base, step, hasStep) \<Longrightarrow> 1 \<le> step \<and> step < 2 ^ 63"
  by (auto simp: term_step_def Atoi_def Let_def split: option.splits if_splits)

text \<open>
   The cron term parser returns on every term, and a term that it accepts sets exactly the numbers
  of its range, counted from the lower end in steps, whenever the upper end plus the step is a 64-bit
  integer.
\<close>

theorem parse_term_exact:
  assumes "0 \<le> cf_min b" and "cf_max b < 64"
  shows "\<exists>r. parseTerm t b = Some r \<and> (\<forall>bits. r = Inr bits \<longrightarrow>
    (\<exists>base step hasStep lo hi. term_step t = Inr (base, step, hasStep) \<and> term_range base hasStep b = Inr (lo, hi) \<and>
       cf_min b \<le> lo \<and> hi \<le> cf_max b \<and> (hi + step < 2 ^ 63 \<longrightarrow>
       (\<forall>k < 64. bit bits k \<longleftrightarrow> lo \<le> int k \<and> int k \<le> hi \<and> step dvd int k - lo))))"
proof (cases "\<exists>base step hasStep lo hi. term_step t = Inr (base, step, hasStep) \<and>
    term_range base hasStep b = Inr (lo, hi) \<and> cf_min b \<le> lo \<and> hi \<le> cf_max b")
  case False
  then have "\<exists>e. parseTerm t b = Some (Inl e)"
    by (auto simp: parseTerm_def not_le split: sum.splits if_splits)
  then show ?thesis by auto
next
  case True
  then obtain base step hasStep lo hi where p: "term_step t = Inr (base, step, hasStep)"
    "term_range base hasStep b = Inr (lo, hi)" "cf_min b \<le> lo" "hi \<le> cf_max b" by blast
  have s: "1 \<le> step" "step < 2 ^ 63" using term_step_positive [OF p(1)] by simp_all
  have l: "0 \<le> lo" "hi < 64" using assms p by linarith+
  have e: "parseTerm t b = map_option Inr (term_loop lo hi step 0)" using p by (simp add: parseTerm_def)
  show ?thesis
  proof (cases "hi + step < 2 ^ 63")
    case True
    with term_loop_exact [OF l s(1) True, of 0] p e show ?thesis by force
  next
    case False
    with term_loop_wraps [OF l _ s(2), of 0] p e show ?thesis by force
  qed
qed


text \<open>
   Two leaks of the grammar.  A step close to the largest integer wraps the loop counter, and the
  term \<^verbatim>\<open>5-59/9223372036854775807\<close> sets the minutes 1 and 3, below its range, besides 5.  A sign is
  accepted where the documented grammar has only digits: \<^verbatim>\<open>+5\<close>, \<^verbatim>\<open>*/+5\<close> and \<^verbatim>\<open>+1-+2\<close> are terms.
\<close>

theorem cron_grammar_leaks:
  "parseTerm ''5-59/9223372036854775807'' fieldMinute = Some (Inr (shifted_bit 5 OR shifted_bit 3 OR shifted_bit 1)) \<and>
   parseTerm ''+5'' fieldMinute = parseTerm ''5'' fieldMinute \<and>
   parseTerm ''*/+5'' fieldMinute = parseTerm ''*/5'' fieldMinute \<and>
   parseTerm ''+1-+2'' fieldMinute = parseTerm ''1-2'' fieldMinute \<and>
   (\<exists>bits. parseTerm ''5'' fieldMinute = Some (Inr bits))"
proof -
  have n: "parse_nat ''9223372036854775807'' = 9223372036854775807" "parse_nat ''59'' = 59" "parse_nat ''5'' = 5"
    "parse_nat ''1'' = 1" "parse_nat ''2'' = 2"
    by (simp_all add: parse_nat_def digit_value_def)
  have a: "Atoi ''9223372036854775807'' = Some 9223372036854775807" "Atoi ''59'' = Some 59" "Atoi ''5'' = Some 5"
    "Atoi ''+5'' = Some 5" "Atoi ''1'' = Some 1" "Atoi ''2'' = Some 2" "Atoi ''+1'' = Some 1" "Atoi ''+2'' = Some 2"
    by (simp_all add: Atoi_def n is_digit_def)
  have "term_loop 5 59 9223372036854775807 0 = Some (shifted_bit 5 OR shifted_bit 3 OR shifted_bit 1)"
    by (simp add: term_loop_step term_loop_stop wrap64_def shifted_bit_def)
  then have "parseTerm ''5-59/9223372036854775807'' fieldMinute = Some (Inr (shifted_bit 5 OR shifted_bit 3 OR shifted_bit 1))"
    by (simp add: parseTerm_def term_step_def term_range_def a fieldMinute_def)
  moreover have "parseTerm ''+5'' fieldMinute = parseTerm ''5'' fieldMinute"
    "parseTerm ''*/+5'' fieldMinute = parseTerm ''*/5'' fieldMinute"
    "parseTerm ''+1-+2'' fieldMinute = parseTerm ''1-2'' fieldMinute"
    by (simp_all add: parseTerm_def term_step_def term_range_def a)
  moreover have "parseTerm ''5'' fieldMinute = Some (Inr (shifted_bit 5))"
    by (simp add: parseTerm_def term_step_def term_range_def a fieldMinute_def term_loop_step term_loop_stop wrap64_def)
  ultimately show ?thesis by blast
qed

section \<open>The search\<close>

lemma resolveInstant_wall: "resolveInstant loc w = Inr inst \<Longrightarrow> local_minute loc inst = w"
  by (auto simp: resolveInstant_def sameWall_def Let_def split: if_splits)

lemma resolveInstant_error: "resolveInstant loc w = Inl e \<Longrightarrow> e = ErrNonexistentLocalTime"
  by (auto simp: resolveInstant_def Let_def split: if_splits)

definition skipped :: "location \<Rightarrow> int \<Rightarrow> int \<Rightarrow> bool" where
  "skipped loc after w \<longleftrightarrow> (case resolveInstant loc w of Inl _ \<Rightarrow> True | Inr inst \<Rightarrow> inst \<le> after)"

lemma scan_unfold:
  assumes "i < cronScanLimit"
  shows "scan s loc after i cursor =
    (if matches s cursor \<and> \<not> skipped loc after cursor then resolveInstant loc cursor
     else scan s loc after (i + 1) (cursor + 1))"
proof (cases "resolveInstant loc cursor")
  case (Inl e)
  then have "e = ErrNonexistentLocalTime" by (rule resolveInstant_error)
  then have "errors_Is e ErrNonexistentLocalTime" by (simp add: ErrNonexistentLocalTime_def)
  with Inl assms show ?thesis by (subst scan.simps) (simp add: skipped_def)
next
  case (Inr inst)
  with assms show ?thesis by (subst scan.simps) (auto simp: skipped_def)
qed

lemma scan_result:
  "case scan s loc after i cursor of
     Inl e \<Rightarrow> e = ErrNoCronOccurrence \<and>
       (\<forall>w. cursor \<le> w \<and> w < cursor + (cronScanLimit - i) \<and> matches s w \<longrightarrow> skipped loc after w)
   | Inr inst \<Rightarrow> \<exists>w. cursor \<le> w \<and> w < cursor + (cronScanLimit - i) \<and> matches s w \<and> \<not> skipped loc after w \<and>
       resolveInstant loc w = Inr inst \<and> (\<forall>v. cursor \<le> v \<and> v < w \<and> matches s v \<longrightarrow> skipped loc after v)"
proof (induction "nat (cronScanLimit - i)" arbitrary: i cursor rule: less_induct)
  case less
  show ?case
  proof (cases "i < cronScanLimit")
    case False
    then show ?thesis by (subst scan.simps) auto
  next
    case lim: True
    show ?thesis
    proof (cases "matches s cursor \<and> \<not> skipped loc after cursor")
      case True
      then obtain inst where "resolveInstant loc cursor = Inr inst"
        by (auto simp: skipped_def split: sum.splits)
      with True lim show ?thesis by (auto simp: scan_unfold [OF lim])
    next
      case False
      have "nat (cronScanLimit - (i + 1)) < nat (cronScanLimit - i)" using lim by linarith
      note IH = less.hyps [OF this, of "cursor + 1"]
      have split: "cursor \<le> w \<longleftrightarrow> w = cursor \<or> cursor + 1 \<le> w" for w by auto
      have range: "cursor + 1 + (cronScanLimit - (i + 1)) = cursor + (cronScanLimit - i)" by simp
      have step: "scan s loc after i cursor = scan s loc after (i + 1) (cursor + 1)"
        using False by (auto simp: scan_unfold [OF lim])
      show ?thesis
        using IH False unfolding step range by (cases "scan s loc after (i + 1) (cursor + 1)") (auto simp: split)
    qed
  qed
qed

text \<open>
  C27.  In every location, the search returns the first occurrence in wall-clock order: an instant
  strictly after the given one whose local minute matches the schedule and lies within the five-year
  window, every matching minute before it being a gap or an instant that is not later.  Its only error
  is that the window holds no such minute.
\<close>

theorem next_occurrence_first:
  "case Next_occurrence s loc after of
     Inr inst \<Rightarrow> after < inst \<and> matches s (local_minute loc inst) \<and>
       local_minute loc after < local_minute loc inst \<and>
       local_minute loc inst \<le> local_minute loc after + cronScanLimit \<and>
       (\<forall>w. local_minute loc after < w \<and> w < local_minute loc inst \<and> matches s w \<longrightarrow> skipped loc after w)
   | Inl e \<Rightarrow> e = ErrNoCronOccurrence \<and>
       (\<forall>w. local_minute loc after < w \<and> w \<le> local_minute loc after + cronScanLimit \<and> matches s w \<longrightarrow>
          skipped loc after w)"
proof -
  have r: "m + 1 \<le> w \<longleftrightarrow> m < w" "w < m + 1 + (cronScanLimit - 0) \<longleftrightarrow> w \<le> m + cronScanLimit" for m w :: int by auto
  note res = scan_result [where s = s and loc = loc and after = after and i = 0 and cursor = "local_minute loc after + 1",
      folded Next_occurrence_def, unfolded r]
  show ?thesis
  proof (cases "Next_occurrence s loc after")
    case (Inl e)
    with res show ?thesis by simp
  next
    case (Inr inst)
    with res obtain w where w: "local_minute loc after < w" "w \<le> local_minute loc after + cronScanLimit" "matches s w"
      "\<not> skipped loc after w" "resolveInstant loc w = Inr inst"
      "\<forall>v. local_minute loc after < v \<and> v < w \<and> matches s v \<longrightarrow> skipped loc after v" by auto
    from w(5) have "local_minute loc inst = w" by (rule resolveInstant_wall)
    moreover have "after < inst" using w(4,5) by (simp add: skipped_def)
    ultimately show ?thesis using Inr w by simp
  qed
qed

text \<open>In a location of constant offset no minute is skipped.\<close>

lemma resolve_fixed: "resolveInstant (\<lambda>_. c) w = Inr (60 * w - c)"
  by (simp add: resolveInstant_def Date_def local_minute_def Let_def)

lemma not_skipped_fixed: "local_minute (\<lambda>_. c) after < w \<Longrightarrow> \<not> skipped (\<lambda>_. c) after w"
proof -
  assume "local_minute (\<lambda>_. c) after < w"
  then have "(after + c) div 60 + 1 \<le> w" by (simp add: local_minute_def)
  moreover have "after + c < 60 * ((after + c) div 60 + 1)"
    by presburger
  ultimately have "after + c < 60 * w" by linarith
  then show ?thesis by (simp add: skipped_def resolve_fixed)
qed


lemma scan_fixed_Inr:
  "Next_occurrence s (\<lambda>_. c) after = Inr inst \<longleftrightarrow>
     (\<exists>w. inst = 60 * w - c \<and> (after + c) div 60 < w \<and> w \<le> (after + c) div 60 + cronScanLimit \<and> matches s w \<and>
        (\<forall>v. (after + c) div 60 < v \<and> v < w \<longrightarrow> \<not> matches s v))" (is "?l \<longleftrightarrow> (\<exists>w. ?P w)")
proof -
  let ?m = "(after + c) div 60"
  have r: "m + 1 \<le> w \<longleftrightarrow> m < w" "w < m + 1 + (cronScanLimit - 0) \<longleftrightarrow> w \<le> m + cronScanLimit" for m w :: int by auto
  note res = scan_result [where s = s and loc = "\<lambda>_. c" and after = after and i = 0
      and cursor = "local_minute (\<lambda>_. c) after + 1", folded Next_occurrence_def, unfolded r]
  have lm: "local_minute (\<lambda>_. c) after = ?m" by (simp add: local_minute_def)
  have sk: "\<not> skipped (\<lambda>_. c) after w" if "?m < w" for w using not_skipped_fixed that by (simp add: lm)
  show ?thesis
  proof (cases "Next_occurrence s (\<lambda>_. c) after")
    case (Inl e)
    with res sk show ?thesis unfolding lm by auto
  next
    case (Inr j)
    with res sk obtain w where w: "j = 60 * w - c" "?m < w" "w \<le> ?m + cronScanLimit" "matches s w"
      "\<forall>v. ?m < v \<and> v < w \<longrightarrow> \<not> matches s v" unfolding lm resolve_fixed by auto
    have u: "u = w" if "?P u" for u using that w by (metis linorder_neqE)
    have "(\<exists>u. ?P u) \<longleftrightarrow> inst = j"
    proof
      assume "\<exists>u. ?P u"
      with u w(1) show "inst = j" by blast
    qed (use w in blast)
    with Inr show ?thesis by auto
  qed
qed

text \<open>Whole local minutes are the instants \<open>60 * w - c\<close>.\<close>

lemma whole_minute: "(i + c) mod 60 = 0 \<Longrightarrow> 60 * ((i + c) div 60) = i + (c :: int)"
  by (metis add.right_neutral mult_div_mod_eq)

lemma whole_minute_after:
  fixes after c :: int
  assumes "(i + c) mod 60 = 0" shows "after < i \<longleftrightarrow> (after + c) div 60 < (i + c) div 60"
proof -
  have "after + c < 60 * q \<longleftrightarrow> (after + c) div 60 < q" for q :: int by linarith
  then show ?thesis using whole_minute [OF assms] by (metis add_less_cancel_right)
qed

lemma whole_minutes_between:
  assumes al: "(inst + c) mod 60 = (0 :: int)"
  shows "(\<forall>v. (after + c) div 60 < v \<and> v < (inst + c) div 60 \<longrightarrow> \<not> P v) \<longleftrightarrow>
    (\<forall>i. after < i \<and> i < inst \<and> (i + c) mod 60 = 0 \<longrightarrow> \<not> P ((i + c) div 60))" (is "?v \<longleftrightarrow> ?i")
proof
  assume a: ?v
  show ?i
  proof (intro allI impI)
    fix i assume i: "after < i \<and> i < inst \<and> (i + c) mod 60 = 0"
    then have "(i + c) div 60 < (inst + c) div 60" using whole_minute [OF al] whole_minute [of i c] by linarith
    then show "\<not> P ((i + c) div 60)" using a whole_minute_after [of i c after] i by simp
  qed
next
  assume a: ?i
  show ?v
  proof (intro allI impI)
    fix v assume v: "(after + c) div 60 < v \<and> v < (inst + c) div 60"
    then have "60 * v - c < inst" using whole_minute [OF al] by linarith
    moreover have "after < 60 * v - c" using v whole_minute_after [of "60 * v - c" c after] by simp
    ultimately show "\<not> P v" using a [rule_format, of "60 * v - c"] by simp
  qed
qed

text \<open>
   In a location without transitions the search finds exactly the first occurrence: \<open>inst\<close> is
  returned if and only if it is a whole local minute after \<open>after\<close>, within the five-year window, that
  matches the schedule, and no whole local minute in between matches.
\<close>

theorem next_fixed_zone:
  "Next_occurrence s (\<lambda>_. c) after = Inr inst \<longleftrightarrow>
     after < inst \<and> (inst + c) mod 60 = 0 \<and> matches s ((inst + c) div 60) \<and>
     (inst + c) div 60 \<le> (after + c) div 60 + cronScanLimit \<and>
     (\<forall>i. after < i \<and> i < inst \<and> (i + c) mod 60 = 0 \<longrightarrow> \<not> matches s ((i + c) div 60))"
proof -
  have eq: "(\<exists>w. inst = 60 * w - c \<and> Q w) \<longleftrightarrow> (inst + c) mod 60 = 0 \<and> Q ((inst + c) div 60)" for Q :: "int \<Rightarrow> bool"
    by (auto simp: algebra_simps)
  show ?thesis
  proof (cases "(inst + c) mod 60 = 0")
    case True
    show ?thesis
      unfolding scan_fixed_Inr eq whole_minutes_between [OF True, of after "matches s"]
        whole_minute_after [OF True, of after] by (simp only: conj_ac)
  qed (simp only: scan_fixed_Inr eq simp_thms)
qed

section \<open>Instances\<close>

theorem parse_term_exact_witness:
  "\<exists>bits. parseTerm ''*/15'' fieldMinute = Some (Inr bits) \<and> bit bits 45 \<and> \<not> bit bits 50"
proof -
  have n: "Atoi ''15'' = Some 15" by (simp add: Atoi_def parse_nat_def digit_value_def is_digit_def)
  have t: "term_step ''*/15'' = Inr (''*'', 15, True)" "term_range ''*'' h fieldMinute = Inr (0, 59)" for h
    by (simp_all add: term_step_def term_range_def n fieldMinute_def)
  have b: "0 \<le> cf_min fieldMinute" "cf_max fieldMinute < 64" by (simp_all add: fieldMinute_def)
  from parse_term_exact [OF b, of "''*/15''"] obtain r where r: "parseTerm ''*/15'' fieldMinute = Some r"
    "\<forall>bits. r = Inr bits \<longrightarrow> (\<forall>k < 64. bit bits k \<longleftrightarrow> (0 :: int) \<le> int k \<and> int k \<le> 59 \<and> 15 dvd int k - 0)"
    by (auto simp: t)
  moreover have "\<exists>bits. r = Inr bits"
    using r(1) t b by (cases r) (auto simp: parseTerm_def fieldMinute_def)
  ultimately show ?thesis by auto
qed

definition every_hour :: CronSchedule where
  "every_hour = \<lparr>cs_minute = 1, cs_hour = 16777215, cs_dom = 4294967294, cs_month = 8190, cs_dow = 127,
     cs_domRestricted = False, cs_dowRestricted = False\<rparr>"

lemma every_hour_next: "Next_occurrence every_hour (\<lambda>_. 3600) 1767225661 = Inr 1767229200"
  by code_simp

theorem next_occurrence_first_witness:
  "Next_occurrence every_hour (\<lambda>_. 3600) 1767225661 = Inr 1767229200 \<and>
   matches every_hour (local_minute (\<lambda>_. 3600) 1767229200)"
  using next_occurrence_first [where s = every_hour and loc = "\<lambda>_. 3600" and after = 1767225661] every_hour_next by simp

theorem next_fixed_zone_witness:
  "matches every_hour 29453880 \<and> \<not> matches every_hour 29453830"
proof -
  note r = next_fixed_zone [of every_hour 3600 1767225661 1767229200, THEN iffD1, OF every_hour_next]
  then have "\<not> matches every_hour ((1767226200 + 3600) div 60)" by (elim conjE allE [of _ 1767226200]) simp
  moreover have "matches every_hour 29453880" using r by simp
  ultimately show ?thesis by simp
qed

end
