(* ===== verification/Scheduler.thy ===== *)
theory Scheduler
  imports Cron
begin

text \<open>
  The planner of the schedule ticker, \<^verbatim>\<open>src/apps/control-plane/internal/automation/scheduler.go\<close>: the
  instants a schedule has missed, the misfire policy, admission jitter and occurrence identifiers.

  Times are nanoseconds since the epoch; a zero time is \<open>None\<close>.  \<open>planTick\<close> is \<open>None\<close> where the source
  panics on a slice bound.  SHA-256 is the argument \<open>sha\<close>.
\<close>

definition second :: int where
  "second = 1000000000"

record scheduleSpec =
  sp_kind :: string
  sp_cron :: CronSchedule
  sp_loc :: location
  sp_oneTimeAt :: int
  sp_endsAt :: "int option"
  sp_misfirePolicy :: string
  sp_grace :: int
  sp_maxCatchUp :: int

record tickPlan =
  tp_fire :: "int list"
  tp_skipFrom :: int
  tp_skipTo :: int
  tp_skipCount :: nat
  tp_nextFireAt :: "int option"
  tp_fail :: bool
  tp_failReason :: string

definition cron_next :: "scheduleSpec \<Rightarrow> int \<Rightarrow> int result" where
  "cron_next s t = map_sum id (\<lambda>inst. inst * second) (Next_occurrence (sp_cron s) (sp_loc s) (t div second))"

definition past_end :: "scheduleSpec \<Rightarrow> int \<Rightarrow> bool" where
  "past_end s t \<longleftrightarrow> (case sp_endsAt s of None \<Rightarrow> False | Some e \<Rightarrow> t > e)"

definition firstFireAt :: "scheduleSpec \<Rightarrow> int \<Rightarrow> int option" where
  "firstFireAt s base =
     (let found = (if sp_kind s = ''one_time''
                   then if sp_oneTimeAt s > base then Some (sp_oneTimeAt s) else None
                   else case cron_next s base of Inl _ \<Rightarrow> None | Inr n \<Rightarrow> Some n)
      in case found of None \<Rightarrow> None | Some n \<Rightarrow> if past_end s n then None else Some n)"

function due_loop :: "scheduleSpec \<Rightarrow> int \<Rightarrow> int \<Rightarrow> int \<Rightarrow> int list \<Rightarrow> int list \<times> int option" where
  "due_loop s now i cur missed =
     (if i < cronScanLimit then
        (case cron_next s cur of
           Inl _ \<Rightarrow> (missed, None)
         | Inr nxt \<Rightarrow> if past_end s nxt then (missed, None)
                     else if nxt > now then (missed, Some nxt)
                     else due_loop s now (i + 1) nxt (missed @ [nxt]))
      else (missed, None))"
  by pat_completeness auto
termination by (relation "measure (\<lambda>(s, now, i, cur, missed). nat (cronScanLimit - i))") auto

declare due_loop.simps [simp del]

definition enumerateDue :: "scheduleSpec \<Rightarrow> int \<Rightarrow> int \<Rightarrow> int list \<times> int option" where
  "enumerateDue s currentNextFireAt now =
     (let missed = (if currentNextFireAt > now then [] else [currentNextFireAt])
      in if sp_kind s = ''one_time'' then (missed, None)
         else due_loop s now 0 currentNextFireAt missed)"

definition pad :: "nat \<Rightarrow> int \<Rightarrow> string" where
  "pad n i = (let s = FormatInt i in replicate (n - length s) (CHR ''0'') @ s)"

text \<open>The layout \<^verbatim>\<open>time.RFC3339\<close> of a time in UTC.\<close>

definition RFC3339 :: "int \<Rightarrow> string" where
  "RFC3339 t = (let secs = t div second; w = secs div 60; ymd = civil (w div 1440)
     in pad 4 (fst ymd) @ ''-'' @ pad 2 (fst (snd ymd)) @ ''-'' @ pad 2 (snd (snd ymd)) @ ''T'' @
        pad 2 (wall_hour w) @ '':'' @ pad 2 (wall_minute w) @ '':'' @ pad 2 (secs mod 60) @ ''Z'')"

definition fail_reason :: "int list \<Rightarrow> string" where
  "fail_reason missed = ''missed '' @ FormatInt (int (length missed)) @ '' occurrence(s) from '' @ RFC3339 (hd missed) @
     '' to '' @ RFC3339 (last missed) @ ''; misfire_policy=fail''"

definition skip_window :: "int list \<Rightarrow> tickPlan \<Rightarrow> tickPlan" where
  "skip_window ts p = (if ts = [] then p
     else p\<lparr>tp_skipFrom := hd ts, tp_skipTo := last ts, tp_skipCount := length ts\<rparr>)"

definition misfire :: "scheduleSpec \<Rightarrow> int list \<Rightarrow> tickPlan \<Rightarrow> tickPlan option" where
  "misfire s missed p =
     (if sp_misfirePolicy s = ''skip'' then Some (skip_window missed p)
      else if sp_misfirePolicy s = ''catch_up'' then
        (let n = (if sp_maxCatchUp s > int (length missed) then int (length missed) else sp_maxCatchUp s)
         in if n < 0 then None
            else Some (skip_window (drop (nat n) missed) (p\<lparr>tp_fire := take (nat n) missed\<rparr>)))
      else if sp_misfirePolicy s = ''fail'' then Some (p\<lparr>tp_fail := True, tp_failReason := fail_reason missed\<rparr>)
      else Some (skip_window (butlast missed) (p\<lparr>tp_fire := [last missed]\<rparr>)))"

definition planTick :: "scheduleSpec \<Rightarrow> int \<Rightarrow> int \<Rightarrow> tickPlan option" where
  "planTick s currentNextFireAt now = (case enumerateDue s currentNextFireAt now of (missed, nxt) \<Rightarrow>
     let p = \<lparr>tp_fire = [], tp_skipFrom = 0, tp_skipTo = 0, tp_skipCount = 0, tp_nextFireAt = nxt, tp_fail = False, tp_failReason = []\<rparr>
     in if missed = [] then Some p
        else if length missed = 1 \<and> now - last missed \<le> sp_grace s then Some (p\<lparr>tp_fire := [last missed]\<rparr>)
        else misfire s missed p)"

definition jitterOffset :: "(string \<Rightarrow> string) \<Rightarrow> string \<Rightarrow> int \<Rightarrow> int" where
  "jitterOffset sha occurrenceID jitterSeconds =
     (if jitterSeconds \<le> 0 then 0
      else wrap64 (int (GetUint64 (take 8 (sha occurrenceID))) mod jitterSeconds * second))"

definition admitAfter :: "(string \<Rightarrow> string) \<Rightarrow> string \<Rightarrow> int \<Rightarrow> int \<Rightarrow> int option \<Rightarrow> int" where
  "admitAfter sha occurrenceID plannedAt jitterSeconds endsAt =
     (let t = plannedAt + jitterOffset sha occurrenceID jitterSeconds
      in case endsAt of None \<Rightarrow> t | Some e \<Rightarrow> if t > e then e else t)"

definition OccurrenceID :: "(string \<Rightarrow> string) \<Rightarrow> string \<Rightarrow> int \<Rightarrow> int \<Rightarrow> string" where
  "OccurrenceID sha scheduleID revision plannedAt =
     ''occ_'' @ take 32 (EncodeToString (sha (scheduleID @ ''|'' @ FormatInt revision @ ''|'' @ RFC3339 plannedAt)))"

section \<open>Due instants\<close>

lemma Next_after: "Next_occurrence s loc after = Inr inst \<Longrightarrow> after < inst"
proof -
  assume n: "Next_occurrence s loc after = Inr inst"
  then obtain w where "\<not> skipped loc after w" "resolveInstant loc w = Inr inst"
    using scan_result [where s = s and loc = loc and after = after and i = 0 and cursor = "local_minute loc after + 1"]
    by (auto simp: Next_occurrence_def)
  then show ?thesis by (simp add: skipped_def)
qed

lemma cron_next_after:
  assumes "cron_next s t = Inr nxt" shows "t < nxt"
proof (cases "Next_occurrence (sp_cron s) (sp_loc s) (t div second)")
  case (Inr inst)
  then have "nxt = inst * second" "t div second < inst" using assms Next_after by (auto simp: cron_next_def)
  then show ?thesis by (simp add: second_def)
qed (use assms in \<open>simp add: cron_next_def\<close>)

definition due_ok :: "int \<Rightarrow> int list \<times> int option \<Rightarrow> bool" where
  "due_ok now r \<longleftrightarrow> sorted_wrt (<) (fst r) \<and> (\<forall>t \<in> set (fst r). t \<le> now) \<and>
     (\<forall>n. snd r = Some n \<longrightarrow> now < n)"

lemma due_loop_ok:
  assumes "sorted_wrt (<) missed" and "\<forall>t \<in> set missed. t \<le> now \<and> t \<le> cur"
  shows "due_ok now (due_loop s now i cur missed) \<and> prefix missed (fst (due_loop s now i cur missed))"
  using assms
proof (induction s now i cur missed rule: due_loop.induct)
  case (1 s now i cur missed)
  show ?case
  proof (cases "i < cronScanLimit \<and> (\<exists>nxt. cron_next s cur = Inr nxt \<and> \<not> past_end s nxt \<and> \<not> nxt > now)")
    case True
    then obtain nxt where n: "i < cronScanLimit" "cron_next s cur = Inr nxt" "\<not> past_end s nxt" "\<not> nxt > now" by blast
    have lt: "cur < nxt" by (rule cron_next_after [OF n(2)])
    have "sorted_wrt (<) (missed @ [nxt])" "\<forall>t \<in> set (missed @ [nxt]). t \<le> now \<and> t \<le> nxt"
      using "1.prems" lt n(4) by (auto simp: sorted_wrt_append)
    from "1.IH" [OF n this] have "due_ok now (due_loop s now (i + 1) nxt (missed @ [nxt])) \<and>
      prefix (missed @ [nxt]) (fst (due_loop s now (i + 1) nxt (missed @ [nxt])))" .
    moreover have "due_loop s now i cur missed = due_loop s now (i + 1) nxt (missed @ [nxt])"
      using n by (subst due_loop.simps) simp
    ultimately show ?thesis using append_prefixD by auto
  next
    case False
    then have "due_loop s now i cur missed = (missed, None) \<or>
        (\<exists>nxt. now < nxt \<and> due_loop s now i cur missed = (missed, Some nxt))"
      by (subst (1 2) due_loop.simps) (auto split: sum.splits)
    with "1.prems" show ?thesis by (auto simp: due_ok_def)
  qed
qed

lemma enumerateDue_ok: "due_ok now (enumerateDue s cur now)"
proof (cases "sp_kind s = ''one_time''")
  case False
  have "due_ok now (due_loop s now 0 cur (if cur > now then [] else [cur]))"
    using due_loop_ok [of "if cur > now then [] else [cur]" now cur s 0] by simp
  with False show ?thesis by (simp add: enumerateDue_def)
qed (simp add: enumerateDue_def due_ok_def)

lemma enumerateDue_hd:
  assumes "cur \<le> now" shows "\<exists>ts. fst (enumerateDue s cur now) = cur # ts"
proof (cases "sp_kind s = ''one_time''")
  case False
  have "prefix [cur] (fst (due_loop s now 0 cur [cur]))"
    using due_loop_ok [of "[cur]" now cur s 0] assms by simp
  with False assms show ?thesis by (auto simp: enumerateDue_def prefix_def)
qed (use assms in \<open>simp add: enumerateDue_def\<close>)

text \<open>A plan accounts for the missed instants: each is fired or lies in the reported window, or the schedule fails.\<close>

definition accounted :: "scheduleSpec \<Rightarrow> int list \<Rightarrow> tickPlan \<Rightarrow> bool" where
  "accounted s missed p \<longleftrightarrow>
    (if tp_fail p then sp_misfirePolicy s = ''fail'' \<and> tp_fire p = [] \<and> tp_skipCount p = 0
     else \<exists>skip. (missed = tp_fire p @ skip \<or> missed = skip @ tp_fire p) \<and> tp_skipCount p = length skip \<and>
       (skip \<noteq> [] \<longrightarrow> tp_skipFrom p = hd skip \<and> tp_skipTo p = last skip))"

lemma accounted_window:
  assumes "missed = f @ skip \<or> missed = skip @ f" and "\<not> tp_fail p" and "tp_skipCount p = 0"
  shows "accounted s missed (skip_window skip (p\<lparr>tp_fire := f\<rparr>))"
  unfolding accounted_def using assms by (auto simp: skip_window_def intro!: exI [of _ skip])

lemma skip_window_next [simp]: "tp_nextFireAt (skip_window ts p) = tp_nextFireAt p"
  by (simp add: skip_window_def)

lemma misfire_accounts:
  assumes "missed \<noteq> []" and "0 \<le> sp_maxCatchUp s" and p: "\<not> tp_fail p" "tp_skipCount p = 0" "tp_fire p = []"
  shows "\<exists>q. misfire s missed p = Some q \<and> accounted s missed q \<and> tp_nextFireAt q = tp_nextFireAt p"
proof -
  have p0: "p\<lparr>tp_fire := []\<rparr> = p" using p(3) by (metis tickPlan.surjective tickPlan.update_convs(1) tickPlan.select_convs(1))
  consider "sp_misfirePolicy s = ''skip''" | "sp_misfirePolicy s = ''catch_up''" | "sp_misfirePolicy s = ''fail''"
    | "sp_misfirePolicy s \<notin> {''skip'', ''catch_up'', ''fail''}" by blast
  then show ?thesis
  proof cases
    case 1
    then show ?thesis using accounted_window [of missed "[]" missed p s] p by (simp add: misfire_def p0)
  next
    case 2
    define n where "n = nat (min (sp_maxCatchUp s) (int (length missed)))"
    have "misfire s missed p = Some (skip_window (drop n missed) (p\<lparr>tp_fire := take n missed\<rparr>))"
      using 2 assms(2) by (auto simp: misfire_def Let_def min_def n_def)
    then show ?thesis using accounted_window [of missed "take n missed" "drop n missed" p s] p by simp
  next
    case 3
    then show ?thesis using p by (simp add: misfire_def accounted_def)
  next
    case 4
    then show ?thesis
      using accounted_window [of missed "[last missed]" "butlast missed" p s] p assms(1) by (simp add: misfire_def)
  qed
qed


text \<open>
   Admission jitter stays in its bounds: an occurrence is admitted at its planned time or later, less
  than the jitter after it, and never after the end of the schedule.
\<close>

theorem jitter_bounds:
  assumes "jitterSeconds < 2 ^ 31" and "\<forall>e. endsAt = Some e \<longrightarrow> plannedAt \<le> e"
  shows "plannedAt \<le> admitAfter sha occ plannedAt jitterSeconds endsAt \<and>
    admitAfter sha occ plannedAt jitterSeconds endsAt \<le> plannedAt + max 0 (jitterSeconds - 1) * second \<and>
    (\<forall>e. endsAt = Some e \<longrightarrow> admitAfter sha occ plannedAt jitterSeconds endsAt \<le> e)"
proof -
  have "0 \<le> jitterOffset sha occ jitterSeconds \<and> jitterOffset sha occ jitterSeconds \<le> max 0 (jitterSeconds - 1) * second"
  proof (cases "jitterSeconds \<le> 0")
    case False
    let ?n = "int (GetUint64 (take 8 (sha occ))) mod jitterSeconds"
    have n: "0 \<le> ?n" "?n \<le> jitterSeconds - 1" using False pos_mod_bound [of jitterSeconds] by auto
    then have w: "wrap64 (?n * second) = ?n * second" using assms(1) by (intro wrap64_small) (auto simp: second_def)
    have "?n * second \<le> (jitterSeconds - 1) * second" using n by (simp add: second_def)
    then show ?thesis unfolding jitterOffset_def w using False n by (simp add: second_def)
  qed (simp add: jitterOffset_def)
  then show ?thesis using assms(2) by (auto simp: admitAfter_def Let_def split: option.splits)
qed

section \<open>Instances\<close>

definition hourly :: scheduleSpec where
  "hourly = \<lparr>sp_kind = ''cron'', sp_cron = every_hour, sp_loc = (\<lambda>_. 0), sp_oneTimeAt = 0, sp_endsAt = None,
     sp_misfirePolicy = ''catch_up'', sp_grace = 0, sp_maxCatchUp = 1\<rparr>"

lemma hourly_due: "enumerateDue hourly 1767225600000000000 1767233000000000000 =
   ([1767225600000000000, 1767229200000000000, 1767232800000000000], Some 1767236400000000000)"
  by code_simp


theorem jitter_bounds_witness:
  "admitAfter (\<lambda>s. s @ replicate 32 (CHR ''x'')) ''occ'' 1000 30 (Some 5000) \<le> 5000"
  using jitter_bounds [of 30 "Some 5000" 1000 "\<lambda>s. s @ replicate 32 (CHR ''x'')" "''occ''"] by simp

end
