(* ===== verification/Spec2Isabelle.thy ===== *)
theory Spec2Isabelle
  imports State_Machines Lease_Safety Journal_Safety Admission_Safety Cancellation_Safety Recovery_Safety Approvals_Safety Parking_Safety
    Model_Broker Egress Redaction Tool_Broker
    Output_Contract Audit_Chain Scheduler
begin

text \<open>
  Verification of the Palai control plane.

  \<^bold>\<open>The program.\<close>  Palai runs agents: a client asks for a response, the control plane admits it as a run
  of a session, a worker claims the run's durable job and drives an engine through model steps and tool
  calls, and everything that happens is an event of the session's journal.  The state lives in PostgreSQL;
  the Go packages are transactions over it.  The development models the transactions and their statements
  as functions on the tables and the pure packages as functions on their data:

  \<^item> \<^verbatim>\<open>src/packages/state-machines\<close>: theory \<open>State_Machines\<close>.  Eight transition tables, \<open>Apply\<close>,
    \<open>TerminalStates\<close> and the two monotonicity guards.  Terminal states are exactly the ones never left, every
    machine can be driven to its end, and a response table simulates the run table.
  \<^item> \<^verbatim>\<open>src/storage/tenant.go\<close>, \<^verbatim>\<open>embed.go\<close>: theory \<open>Tenancy\<close>.  Scopes, connection settings, row policies; a
    tenant's connection neither sees nor writes another tenant's rows.
  \<^item> \<^verbatim>\<open>src/packages/coordinator/lease.go\<close>, \<^verbatim>\<open>worker.go\<close>, parts of \<^verbatim>\<open>store.go\<close>, \<^verbatim>\<open>jobs.sql\<close>: theories \<open>Durable_Jobs\<close>
    and \<open>Lease_Safety\<close>.  Claims, leases, heartbeats, completion, retry and dead-lettering; an invariant of the
    tables, a step relation, fencing of superseded claims, exactly-once completion, and the backoff schedule.
  \<^item> \<open>Transactions\<close>: a transaction body as a function from tables to an error or a value and tables.  The
    locale \<open>tx_preorder\<close> carries a preorder through the constructs of a body; it is interpreted for each
    monotonicity property below.
  \<^item> \<^verbatim>\<open>store.go\<close> (run transitions, events), \<^verbatim>\<open>commands.go\<close>, \<^verbatim>\<open>config.go\<close>: theories \<open>Journal\<close>, \<open>Commands\<close> and
    \<open>Journal_Safety\<close>.  Gap-free journals, monotone runs, commands applied once, session close, clear and fork.
  \<^item> \<^verbatim>\<open>usage.go\<close> and the setters of \<^verbatim>\<open>internal/metering/store.go\<close>: theory \<open>Usage\<close>.  The ledger, budgets and quotas.
  \<^item> \<^verbatim>\<open>AdmitResponse\<close> of \<^verbatim>\<open>store.go\<close>: theories \<open>Admission\<close> and \<open>Admission_Safety\<close>.  Atomicity, replay by request
    key, one active root run per session, exactness of the limit gate, idempotent settlement.
  \<^item> \<^verbatim>\<open>orchestration.go\<close>: theories \<open>Execution\<close> and \<open>Execution_Safety\<close>.  Model steps, the fenced tool-call ledger,
    reconciliation, child runs and the response ladder.  The locale \<open>execution_statements\<close> says what a preorder must
    admit, statement by statement, to contain every operation; the ledger is monotone, a superseded attempt
    cannot commit, a committed result is final.
  \<^item> \<^verbatim>\<open>background.go\<close>, \<^verbatim>\<open>detach.go\<close>, the wake of \<^verbatim>\<open>approvals.go\<close> and the cancellation of \<^verbatim>\<open>orchestration.go\<close>:
    theories \<open>Background\<close> and \<open>Cancellation_Safety\<close>.  A notice is delivered once; the parents of runs form a
    forest; a cancellation returns, ends the whole subtree and settles the response truthfully.  A cancellation
    is a sequence of transactions, each of which is an operation of the step relation.
  \<^item> \<^verbatim>\<open>approvals.go\<close> and the approver check of \<^verbatim>\<open>publication.go\<close>: theories \<open>Approvals\<close> and \<open>Approvals_Safety\<close>.  The gate on
    tool calls: nothing gated is committed without an approval, a question is answered once, an answer does exactly what
    it may, and a sweep releases every run whose question is overdue.  The locale \<open>call_states\<close> says which sets of states a
    call does not leave, and gives the contract \<open>approval_statements\<close>.
  \<^item> \<^verbatim>\<open>occupancy.go\<close>, \<^verbatim>\<open>occupancy_billing.go\<close>, \<^verbatim>\<open>placement.go\<close> and the wakes of a capacity park: theories
    \<open>Placement\<close>, \<open>Placement_Safety\<close> and \<open>Parking_Safety\<close>.  Over every interleaving of the statements of concurrent
    acquisitions a machine serves one tenant within its ceiling; a refusal names the first reason that applies; a hold is
    billed once, for the time to its last activity; a settlement wakes the oldest parked runs up to the room there is, and
    a park costs no attempt.  The locale \<open>fleet_statements\<close> says what a contract on the table of leases must admit.  Three
    theorems exhibit what the code does not do: a freed slot wakes only the settling tenant's runs, a sweep ends a
    run woken after its scan, and the counting functions are blind when row security is forced on their owner.
  \<^item> \<^verbatim>\<open>src/packages/coordinator/recovery\<close>, the attempts of \<^verbatim>\<open>store.go\<close>, and \<^verbatim>\<open>checkpoint.go\<close> and \<^verbatim>\<open>restore.go\<close> of
    \<^verbatim>\<open>src/apps/control-plane/internal/execution\<close>: theories \<open>Recovery\<close> and \<open>Recovery_Safety\<close>.  The ladder against a
    declarative reading of its rungs, a restore only of bytes with the recorded checksum, fenced attempts, immutable
    checkpoint rows, and the order of the put and the row guard that lets a repeated offer destroy a checkpoint.
  \<^item> \<^verbatim>\<open>src/packages/model-broker\<close>: theory \<open>Model_Broker\<close>.  Budgets, credentials, routing, the circuit breaker against
    the history of its outcomes, and the count of attempts of a fallback chain.  The adapters are parameters.
  \<^item> \<^verbatim>\<open>src/packages/tool-broker\<close> and \<^verbatim>\<open>toolset\<close>: theory \<open>Redaction\<close> (\<^verbatim>\<open>env.go\<close>, \<^verbatim>\<open>redact.go\<close>, \<^verbatim>\<open>summary.go\<close>) and
    theory \<open>Tool_Broker\<close> (\<^verbatim>\<open>answer.go\<close>, \<^verbatim>\<open>broker.go\<close>, \<^verbatim>\<open>conformance_math.go\<close>).  No masked value survives in a result, the
    environment of a command is what the rule on keys allows, a summary is bounded and shows no content; a call runs its
    tool once over every interleaving of the broker's locked sections, an answer has no effect, and the check of
    arguments agrees with that of outputs on the schemas both read.
  \<^item> \<^verbatim>\<open>src/packages/egress\<close>: theory \<open>Egress\<close>.  The policy on addresses against a table of ranges, and the pinned dialer.
  \<^item> \<^verbatim>\<open>src/packages/outputcontract\<close>: theory \<open>Output_Contract\<close>.  The admission check of a schema and the validation
    of an answer, both against a declarative reading of JSON Schema.
  \<^item> \<^verbatim>\<open>src/packages/audit\<close>: theory \<open>Audit_Chain\<close>.  Row encoding, rolling digest, checkpoints; a checkpoint detects
    every change of the rows it covers unless SHA-256 collides on the strings involved.
  \<^item> \<^verbatim>\<open>internal/automation/cron.go\<close>, \<^verbatim>\<open>scheduler.go\<close>: theories \<open>Cron\<close> and \<open>Scheduler\<close>.  Parser, occurrence search
    with daylight saving, misfire policies, jitter.

  \<open>Palai_Base\<close> holds what all of them share: Go errors, strings, 64-bit wrap-around, tables as lists of rows.

  \<^bold>\<open>Conventions.\<close>  An operation takes the tables and returns its Go result with the tables after commit, and the
  tables unchanged when the transaction rolls back.  Transactions are serial: a step relation interleaves whole
  operations (for the tool broker, whose lock is released while a tool runs, its locked sections; for
  acquisitions, whose row lock orders their checks, their statements).  Clock readings, the random source (\<open>entropy\<close>), SHA-256, the database collation and the JSON parser are
  arguments or parts of the state.  Errors are values; a message keeps its fixed part.

  \<^bold>\<open>Bounds and fuel.\<close>  No definition runs on fuel.  The loop of \<open>parseTerm\<close> is a partial function into
  \<open>option\<close> because its counter wraps; that it returns is proved.  The descendant query is one because a cycle of
  parents would make it run for ever; that it returns on a forest, and that the runs stay one, is proved.  The occurrence search visits the number of
  minutes of the source's horizon.  64-bit values are words or integers with \<open>wrap64\<close> written out where they can overflow.

  \<^bold>\<open>Not modelled.\<close>  HTTP handlers, the command-line client, the runner gateway and its protocol, the orchestrator's
  loop, provider and tool adapters, the Slack and repository integrations, sandboxes and the console: glue around
  the transactions, network and process I/O.  Of the coordinator: publications, changesets
  and workspaces.
\<close>

end
